(* ===== verification/Prelude.thy ===== *)
theory Prelude
  imports Main
    "HOL-Library.AList"
    "HOL-Library.Char_ord"
    "HOL-Library.List_Lexorder"
    "HOL-Library.Product_Lexorder"
begin

text \<open>
  Shared vocabulary of the development. Python dictionaries are association lists that
  keep insertion order (\<open>dset\<close> replaces in place or appends, exactly as a Python
  dictionary does), instants and durations are whole microseconds, strings are lists of
  characters. The last part holds the two locales that every stateful component
  instantiates: a system with an inductive invariant, and a fenced resource.
\<close>

section \<open>Names for the types of the model\<close>

type_synonym py_str = string
type_synonym time = int
type_synonym duration = int
type_synonym ('k, 'v) dict = "('k \<times> 'v) list"

abbreviation (input) microsecond :: duration where "microsecond \<equiv> 1"
abbreviation (input) second :: duration where "second \<equiv> 1000000"
abbreviation (input) minute :: duration where "minute \<equiv> 60000000"
abbreviation (input) hour :: duration where "hour \<equiv> 3600000000"
abbreviation (input) day :: duration where "day \<equiv> 86400000000"

named_theorems dict_simps \<open>how lookups, sums and well-formedness react to a dictionary update\<close>

section \<open>Dictionaries\<close>

abbreviation dget :: "('k, 'v) dict \<Rightarrow> 'k \<Rightarrow> 'v option" where "dget \<equiv> map_of"
abbreviation dset :: "'k \<Rightarrow> 'v \<Rightarrow> ('k, 'v) dict \<Rightarrow> ('k, 'v) dict" where "dset \<equiv> AList.update"
abbreviation ddel :: "'k \<Rightarrow> ('k, 'v) dict \<Rightarrow> ('k, 'v) dict" where "ddel \<equiv> AList.delete"
abbreviation dkeys :: "('k, 'v) dict \<Rightarrow> 'k list" where "dkeys \<equiv> map fst"
abbreviation dvals :: "('k, 'v) dict \<Rightarrow> 'v list" where "dvals \<equiv> map snd"

definition wf_dict :: "('k, 'v) dict \<Rightarrow> bool" where
  "wf_dict d \<longleftrightarrow> distinct (dkeys d)"

definition dsum :: "('v \<Rightarrow> int) \<Rightarrow> ('k, 'v) dict \<Rightarrow> int" where
  "dsum f d = sum_list (map (\<lambda>p. f (snd p)) d)"

definition dcount :: "('v \<Rightarrow> bool) \<Rightarrow> ('k, 'v) dict \<Rightarrow> int" where
  "dcount P d = dsum (\<lambda>v. of_bool (P v)) d"

lemma wf_dict_Nil [simp]: "wf_dict []"
  by (simp add: wf_dict_def)

lemma wf_dict_dset [simp, intro]: "wf_dict d \<Longrightarrow> wf_dict (dset k v d)"
  by (simp add: wf_dict_def distinct_update)

lemma wf_dict_ddel [simp, intro]: "wf_dict d \<Longrightarrow> wf_dict (ddel k d)"
  by (simp add: wf_dict_def distinct_delete)

lemma dget_dset [simp, dict_simps]: "dget (dset k v d) k' = (if k' = k then Some v else dget d k')"
  by (simp add: update_conv')

lemma dget_ddel [simp, dict_simps]: "dget (ddel k d) k' = (if k' = k then None else dget d k')"
  by (simp add: delete_conv')

lemma dget_None_notin: "dget d k = None \<longleftrightarrow> k \<notin> set (dkeys d)"
  by (simp add: map_of_eq_None_iff)

lemma dget_in: "dget d k = Some v \<Longrightarrow> (k, v) \<in> set d"
  by (rule map_of_SomeD)

lemma dget_iff: "wf_dict d \<Longrightarrow> dget d k = Some v \<longleftrightarrow> (k, v) \<in> set d"
  by (simp add: wf_dict_def)

lemma in_dvals_iff: "wf_dict d \<Longrightarrow> v \<in> set (dvals d) \<longleftrightarrow> (\<exists>k. dget d k = Some v)"
  by (force simp: dget_iff image_iff)

lemma dkeys_dset: "dkeys (dset k v d) = (if k \<in> set (dkeys d) then dkeys d else dkeys d @ [k])"
  by (rule update_keys)

lemma length_dset:
  "length (dset k v d) = (if dget d k = None then Suc (length d) else length d)"
  using arg_cong [where f = length, OF dkeys_dset [of k v d]]
  by (auto simp: dget_None_notin)

lemma dset_fresh: "dget d k = None \<Longrightarrow> dset k v d = d @ [(k, v)]"
  by (induction d) (auto split: if_splits)

lemma dsum_Nil [simp]: "dsum f [] = 0"
  by (simp add: dsum_def)

lemma dsum_Cons [simp]: "dsum f (p # d) = f (snd p) + dsum f d"
  by (simp add: dsum_def)

lemma dsum_append [simp]: "dsum f (d @ e) = dsum f d + dsum f e"
  by (simp add: dsum_def)

lemma dsum_dset:
  "wf_dict d \<Longrightarrow> dsum f (dset k v d) = dsum f d + f v - (case dget d k of None \<Rightarrow> 0 | Some w \<Rightarrow> f w)"
  by (induction d) (auto simp: wf_dict_def split: option.splits)

lemma dsum_ddel:
  "wf_dict d \<Longrightarrow> dsum f (ddel k d) = dsum f d - (case dget d k of None \<Rightarrow> 0 | Some w \<Rightarrow> f w)"
proof (induction d)
  case (Cons p d)
  then show ?case
    by (cases p) (auto simp: wf_dict_def map_of_eq_None_iff[symmetric] split: option.splits)
qed simp

lemma dsum_nonneg: "(\<And>v. v \<in> set (dvals d) \<Longrightarrow> 0 \<le> f v) \<Longrightarrow> 0 \<le> dsum f d"
  unfolding dsum_def by (rule sum_list_nonneg) auto

lemma dsum_cong: "(\<And>v. v \<in> set (dvals d) \<Longrightarrow> f v = g v) \<Longrightarrow> dsum f d = dsum g d"
  by (induction d) auto

lemma dcount_Nil [simp]: "dcount P [] = 0"
  by (simp add: dcount_def)

lemma dcount_Cons [simp]: "dcount P (p # d) = of_bool (P (snd p)) + dcount P d"
  by (simp add: dcount_def)

lemma dcount_append [simp]: "dcount P (d @ e) = dcount P d + dcount P e"
  by (simp add: dcount_def)

lemma dcount_dset:
  "wf_dict d \<Longrightarrow> dcount P (dset k v d) =
     dcount P d + of_bool (P v) - (case dget d k of None \<Rightarrow> 0 | Some w \<Rightarrow> of_bool (P w))"
  by (simp add: dcount_def dsum_dset)

lemma dcount_nonneg [simp]: "0 \<le> dcount P d"
  unfolding dcount_def by (rule dsum_nonneg) simp

lemma dcount_filter: "dcount P d = int (length (filter P (dvals d)))"
  by (induction d) auto

text \<open>Removing an entry by value changes a count by the entry's own weight.\<close>

lemma dcount_dset_same:
  "wf_dict d \<Longrightarrow> dget d k = Some w \<Longrightarrow> P w = P v \<Longrightarrow> dcount P (dset k v d) = dcount P d"
  by (simp add: dcount_dset)

text \<open>
  In-place changes of the values of a dictionary: of one entry that is present, and of all.
\<close>

definition dadjust :: "'k \<Rightarrow> ('v \<Rightarrow> 'v) \<Rightarrow> ('k, 'v) dict \<Rightarrow> ('k, 'v) dict" where
  "dadjust k f d = (case dget d k of None \<Rightarrow> d | Some v \<Rightarrow> dset k (f v) d)"

definition dmapv :: "('v \<Rightarrow> 'v) \<Rightarrow> ('k, 'v) dict \<Rightarrow> ('k, 'v) dict" where
  "dmapv f d = map (\<lambda>p. (fst p, f (snd p))) d"

lemma dget_dadjust [simp, dict_simps]:
  "dget (dadjust k f d) k' = (if k' = k then map_option f (dget d k) else dget d k')"
  by (simp add: dadjust_def split: option.split)

lemma wf_dict_dadjust [simp, intro]: "wf_dict d \<Longrightarrow> wf_dict (dadjust k f d)"
  by (simp add: dadjust_def split: option.split)

lemma dget_dmapv [simp, dict_simps]: "dget (dmapv f d) k = map_option f (dget d k)"
  by (induction d) (auto simp: dmapv_def)

lemma wf_dict_dmapv [simp, intro]: "wf_dict (dmapv f d) = wf_dict d"
  by (simp add: wf_dict_def dmapv_def comp_def)

lemma dkeys_dmapv [simp]: "dkeys (dmapv f d) = dkeys d"
  by (simp add: dmapv_def comp_def)

lemma length_dmapv [simp]: "length (dmapv f d) = length d"
  by (simp add: dmapv_def)

lemma length_dadjust [simp]: "length (dadjust k f d) = length d"
  by (simp add: dadjust_def length_dset split: option.split)

lemma dset_dset: "dset k v (dset k w d) = dset k v d"
  by (induction d) auto

lemma dadjust_dadjust: "dadjust k g (dadjust k f d) = dadjust k (\<lambda>v. g (f v)) d"
  by (simp add: dadjust_def dset_dset split: option.split)

lemma dadjust_cong: "dget d k = Some v \<Longrightarrow> f v = g v \<Longrightarrow> dadjust k f d = dadjust k g d"
  by (simp add: dadjust_def)

section \<open>Strings\<close>

text \<open>
  The characters of the model are the code points 0 to 255. \<open>py_space\<close> is Python's
  \<open>str.isspace\<close> on them, so \<open>py_strip\<close> is \<open>str.strip()\<close>.
\<close>

definition py_space :: "char \<Rightarrow> bool" where
  "py_space c \<longleftrightarrow> of_char c \<in> {9, 10, 11, 12, 13, 28, 29, 30, 31, 32, 133, 160 :: nat}"

definition py_strip :: "py_str \<Rightarrow> py_str" where
  "py_strip s = rev (dropWhile py_space (rev (dropWhile py_space s)))"

text \<open>A chain of validations stops at the first one that raises.\<close>

fun first_error :: "'e option list \<Rightarrow> 'e option" where
  "first_error [] = None"
| "first_error (None # es) = first_error es"
| "first_error (Some e # es) = Some e"

lemma first_error_None [simp]: "first_error es = None \<longleftrightarrow> (\<forall>e \<in> set es. e = None)"
  by (induction es rule: first_error.induct) auto

section \<open>Optional values\<close>

definition truthy :: "'a option \<Rightarrow> bool" where
  "truthy x \<longleftrightarrow> x \<noteq> None"

lemma option_cases_Some: "(case x of None \<Rightarrow> P | Some y \<Rightarrow> Q y) \<longleftrightarrow> (x = None \<and> P) \<or> (\<exists>y. x = Some y \<and> Q y)"
  by (cases x) auto

lemma map_sum_id_Inr [simp]: "map_sum id f x = Inr y \<longleftrightarrow> (\<exists>z. x = Inr z \<and> y = f z)"
  by (cases x) auto

lemma map_sum_id_Inl [simp]: "map_sum id f x = Inl e \<longleftrightarrow> x = Inl e"
  by (cases x) auto

section \<open>Outcomes\<close>

text \<open>
  A pure function that may raise returns \<open>Inl\<close> the exception or \<open>Inr\<close> its result. A call of
  another such function goes on with its result; a check goes on when it passes.
\<close>

definition attempt :: "'e + 'a \<Rightarrow> ('a \<Rightarrow> 'e + 'b) \<Rightarrow> 'e + 'b" where
  "attempt r f = (case r of Inl e \<Rightarrow> Inl e | Inr a \<Rightarrow> f a)"

definition require :: "'e option \<Rightarrow> 'e + 'b \<Rightarrow> 'e + 'b" where
  "require c r = (case c of Some e \<Rightarrow> Inl e | None \<Rightarrow> r)"

lemma attempt_simps [simp]: "attempt (Inl e) f = Inl e" "attempt (Inr a) f = f a"
  by (simp_all add: attempt_def)

lemma require_simps [simp]: "require None r = r" "require (Some e) r = Inl e"
  by (simp_all add: require_def)

lemma attempt_Inr: "attempt r f = Inr b \<longleftrightarrow> (\<exists>a. r = Inr a \<and> f a = Inr b)"
  by (cases r) simp_all

lemma require_Inr: "require c r = Inr b \<longleftrightarrow> c = None \<and> r = Inr b"
  by (cases c) simp_all

section \<open>Systems with an invariant\<close>

text \<open>
  A component is a start condition and a step relation. What a component proves is that
  its invariant holds at the start and survives each step; what it gets is the invariant
  in every reachable state.
\<close>

locale invariant_system =
  fixes init :: "'s \<Rightarrow> bool"
    and step :: "'s \<Rightarrow> 's \<Rightarrow> bool"
    and inv :: "'s \<Rightarrow> bool"
  assumes inv_init: "init s \<Longrightarrow> inv s"
    and inv_step: "inv s \<Longrightarrow> step s s' \<Longrightarrow> inv s'"
begin

lemma inv_steps: "step\<^sup>*\<^sup>* s s' \<Longrightarrow> inv s \<Longrightarrow> inv s'"
  by (induction rule: rtranclp_induct) (auto intro: inv_step)

lemma inv_reachable: "init s \<Longrightarrow> step\<^sup>*\<^sup>* s s' \<Longrightarrow> inv s'"
  by (blast intro: inv_steps inv_init)

text \<open>A fact that each step from an invariant state preserves is preserved by whole runs.\<close>

lemma stable_steps:
  assumes "\<And>s s'. inv s \<Longrightarrow> step s s' \<Longrightarrow> P s \<Longrightarrow> P s'"
  shows "step\<^sup>*\<^sup>* s s' \<Longrightarrow> inv s \<Longrightarrow> P s \<Longrightarrow> P s'"
  by (induction rule: rtranclp_induct) (auto intro: assms inv_steps)

end

section \<open>Fenced resources\<close>

text \<open>
  A claim names a resource and the fence it was granted under. The provider promises
  that a claim is honoured only under the current fence and that fences never go down.
  The client learns that a superseded claim stays refused in every later state.
\<close>

locale fenced_resource = invariant_system init step inv
  for init :: "'s \<Rightarrow> bool" and step :: "'s \<Rightarrow> 's \<Rightarrow> bool" and inv :: "'s \<Rightarrow> bool" +
  fixes fence :: "'s \<Rightarrow> 'k \<Rightarrow> int"
    and honoured :: "'s \<Rightarrow> 'c \<Rightarrow> bool"
    and resource :: "'c \<Rightarrow> 'k"
    and granted :: "'c \<Rightarrow> int"
  assumes honoured_current: "honoured s c \<Longrightarrow> fence s (resource c) = granted c"
    and fence_step: "inv s \<Longrightarrow> step s s' \<Longrightarrow> fence s k \<le> fence s' k"
begin

lemma fence_steps: "step\<^sup>*\<^sup>* s s' \<Longrightarrow> inv s \<Longrightarrow> fence s k \<le> fence s' k"
proof (induction rule: rtranclp_induct)
  case (step t u)
  then have "fence t k \<le> fence u k"
    by (blast intro: fence_step inv_steps)
  with step show ?case by simp
qed simp

lemma superseded_refused:
  assumes "inv s" and "granted c < fence s (resource c)" and "step\<^sup>*\<^sup>* s s'"
  shows "\<not> honoured s' c"
proof
  assume "honoured s' c"
  then have "fence s' (resource c) = granted c" by (rule honoured_current)
  with fence_steps [OF assms(3,1)] assms(2) show False
    by (metis linorder_not_less)
qed

end

section \<open>Idempotent commands\<close>

text \<open>
  A command under a request key keeps a receipt. The provider promises that a command with a
  receipt answers from it and changes nothing, that a successful run leaves one, and that
  later states keep it. The client learns that repeating a successful command at any later
  time gives the same answer and has no further effect.
\<close>

locale idempotent_command =
  fixes run :: "'s \<Rightarrow> ('e + 'r) \<times> 's"
    and receipt :: "'s \<Rightarrow> 'q option"
    and reply :: "'q \<Rightarrow> 'e + 'r"
    and live :: "'s \<Rightarrow> bool"
    and same :: "'s \<Rightarrow> 's \<Rightarrow> bool"
    and later :: "'s \<Rightarrow> 's \<Rightarrow> bool"
  assumes replay: "live s \<Longrightarrow> receipt s = Some q \<Longrightarrow> \<exists>s'. run s = (reply q, s') \<and> same s s'"
    and records: "run s = (Inr r, s') \<Longrightarrow> \<exists>q. receipt s' = Some q \<and> reply q = Inr r"
    and keeps: "later s t \<Longrightarrow> receipt s = Some q \<Longrightarrow> receipt t = Some q"
begin

lemma repeat_answer:
  assumes "run s = (Inr r, s')" and "later s' t" and "live t"
  shows "\<exists>t'. run t = (Inr r, t') \<and> same t t'"
proof -
  obtain q where "receipt s' = Some q" "reply q = Inr r" using records [OF assms(1)] by blast
  then have "receipt t = Some q" using keeps assms(2) by blast
  from replay [OF assms(3) this] \<open>reply q = Inr r\<close> show ?thesis by auto
qed

end

end
