(* ===== verification/Py_Strings.thy ===== *)
theory Py_Strings
  imports Prelude
begin

text \<open>
  The string methods of Python that the modelled code calls, on the code points 0 to 255:
  \<open>lower\<close>, \<open>casefold\<close>, \<open>isdigit\<close>, \<open>split\<close>, \<open>partition\<close>, substring
  search and the constructor \<open>int(text)\<close> for base ten.
\<close>

definition code :: "char \<Rightarrow> nat" where
  "code c = of_char c"

definition py_lower_char :: "char \<Rightarrow> char" where
  "py_lower_char c =
     (if (65 \<le> code c \<and> code c \<le> 90) \<or> (192 \<le> code c \<and> code c \<le> 222 \<and> code c \<noteq> 215)
      then char_of (code c + 32) else c)"

definition py_lower :: "py_str \<Rightarrow> py_str" where
  "py_lower = map py_lower_char"

text \<open>
  \<open>casefold\<close> differs from \<open>lower\<close> on two code points below 256: the sharp s becomes two
  letters, and the micro sign becomes the Greek mu, which no other code point of the model
  maps to, so leaving it unchanged gives the same comparisons.
\<close>

definition py_casefold :: "py_str \<Rightarrow> py_str" where
  "py_casefold s = concat (map (\<lambda>c. if code c = 223 then ''ss'' else [py_lower_char c]) s)"

definition py_isdigit :: "char \<Rightarrow> bool" where
  "py_isdigit c \<longleftrightarrow> (48 \<le> code c \<and> code c \<le> 57) \<or> code c \<in> {178, 179, 185}"

text \<open>\<open>needle in text\<close>\<close>

fun py_prefix :: "py_str \<Rightarrow> py_str \<Rightarrow> bool" where
  "py_prefix [] t = True"
| "py_prefix (c # cs) [] = False"
| "py_prefix (c # cs) (d # ds) = (c = d \<and> py_prefix cs ds)"

fun py_in :: "py_str \<Rightarrow> py_str \<Rightarrow> bool" where
  "py_in needle [] = (needle = [])"
| "py_in needle (c # cs) = (py_prefix needle (c # cs) \<or> py_in needle cs)"

text \<open>\<open>text.split(sep)\<close> for a separator of one character\<close>

fun py_split_on :: "char \<Rightarrow> py_str \<Rightarrow> py_str list" where
  "py_split_on sep [] = [[]]"
| "py_split_on sep (c # cs) =
     (if c = sep then [] # py_split_on sep cs
      else (case py_split_on sep cs of [] \<Rightarrow> [[c]] | w # ws \<Rightarrow> (c # w) # ws))"

text \<open>\<open>text.split()\<close>: the maximal runs of characters that are not white space\<close>

definition py_split :: "py_str \<Rightarrow> py_str list" where
  "py_split s = filter (\<lambda>w. w \<noteq> [])
     (py_split_on (CHR '' '') (map (\<lambda>c. if py_space c then CHR '' '' else c) s))"

text \<open>\<open>text.partition(sep)\<close>: \<open>None\<close> for the rest means that the separator is absent\<close>

fun py_partition :: "char \<Rightarrow> py_str \<Rightarrow> py_str \<times> py_str option" where
  "py_partition sep [] = ([], None)"
| "py_partition sep (c # cs) =
     (if c = sep then ([], Some cs)
      else (let (a, b) = py_partition sep cs in (c # a, b)))"

text \<open>
  \<open>int(text)\<close>: surrounding white space, an optional sign, then decimal digits with single
  underscores between them. \<open>None\<close> is \<open>ValueError\<close>.
\<close>

definition digit_value :: "char \<Rightarrow> int option" where
  "digit_value c = (if 48 \<le> code c \<and> code c \<le> 57 then Some (int (code c) - 48) else None)"

fun py_digits :: "int \<Rightarrow> py_str \<Rightarrow> int option" where
  "py_digits acc [] = None"
| "py_digits acc [c] = map_option (\<lambda>d. 10 * acc + d) (digit_value c)"
| "py_digits acc (c # u # cs) =
     (case digit_value c of None \<Rightarrow> None
      | Some d \<Rightarrow>
          if u = CHR ''_'' then py_digits (10 * acc + d) cs
          else py_digits (10 * acc + d) (u # cs))"

definition py_int :: "py_str \<Rightarrow> int option" where
  "py_int s = (case py_strip s of [] \<Rightarrow> None
     | c # cs \<Rightarrow>
         if c = CHR ''-'' then map_option uminus (py_digits 0 cs)
         else if c = CHR ''+'' then py_digits 0 cs
         else py_digits 0 (c # cs))"

end
