(* ===== verification/Py_Time.thy ===== *)
theory Py_Time
  imports Prelude
begin

text \<open>
  The part of Python's \<open>datetime\<close> and \<open>zoneinfo\<close> that schedules use. An aware
  instant is its distance from 1970-01-01T00:00Z in microseconds; a naive local value is
  the same kind of number read on a wall clock; a date is its number of days from
  1970-01-01. Dates are proleptic Gregorian, computed as CPython computes them. The time
  zone database is data outside the program: a zone is a pair of conversion functions,
  and every theorem about a zone says what it needs of them.
\<close>

section \<open>The range of instants\<close>

text \<open>
  \<open>datetime.min\<close> and \<open>datetime.max\<close>, read as instants in UTC. A sum that leaves this range
  raises \<open>OverflowError\<close>.
\<close>

definition datetime_min :: time where
  "datetime_min = - 62135596800000000"

definition datetime_max :: time where
  "datetime_max = 253402300799999999"

definition in_datetime :: "time \<Rightarrow> bool" where
  "in_datetime t \<longleftrightarrow> datetime_min \<le> t \<and> t \<le> datetime_max"

section \<open>Calendar\<close>

type_synonym date = int

text \<open>\<open>datetime.date\<close> counts 0001-01-01 as day 1; 1970-01-01 is day 719163.\<close>

definition ordinal :: "date \<Rightarrow> int" where
  "ordinal d = d + 719163"

definition days_before_year :: "int \<Rightarrow> int" where
  "days_before_year y =
     (let p = y - 1 in p * 365 + p div 4 - p div 100 + p div 400)"

text \<open>
  The year, and the day inside it counted from 0, of an ordinal. The last day of a cycle
  of 400 years, and of a leap cycle of 4, would be counted as the first day of one year too
  many; CPython corrects it by hand, and so does this definition.
\<close>

definition year_and_day :: "int \<Rightarrow> int \<times> int" where
  "year_and_day n =
     (let m = n - 1;
          n400 = m div 146097; r = m mod 146097;
          n100 = r div 36524;  r = r mod 36524;
          n4 = r div 1461;     r = r mod 1461;
          n1 = r div 365;      r = r mod 365;
          y = n400 * 400 + 1 + n100 * 100 + n4 * 4 + n1
      in if n1 = 4 \<or> n100 = 4 then (y - 1, 365) else (y, r))"

definition is_leap :: "int \<Rightarrow> bool" where
  "is_leap y \<longleftrightarrow> y mod 4 = 0 \<and> (y mod 100 \<noteq> 0 \<or> y mod 400 = 0)"

definition month_lengths :: "int \<Rightarrow> int list" where
  "month_lengths y = [31, (if is_leap y then 29 else 28), 31, 30, 31, 30, 31, 31, 30, 31, 30, 31]"

fun month_and_day :: "int list \<Rightarrow> int \<Rightarrow> int \<Rightarrow> int \<times> int" where
  "month_and_day [] m r = (m, r + 1)"
| "month_and_day (l # ls) m r =
     (if r < l \<or> ls = [] then (m, r + 1) else month_and_day ls (m + 1) (r - l))"

definition year_of :: "date \<Rightarrow> int" where
  "year_of d = fst (year_and_day (ordinal d))"

definition month_day_of :: "date \<Rightarrow> int \<times> int" where
  "month_day_of d =
     (let (y, r) = year_and_day (ordinal d) in month_and_day (month_lengths y) 1 r)"

definition month_of :: "date \<Rightarrow> int" where
  "month_of d = fst (month_day_of d)"

definition dom_of :: "date \<Rightarrow> int" where
  "dom_of d = snd (month_day_of d)"

text \<open>\<open>date.weekday()\<close>: Monday is 0\<close>

definition weekday :: "date \<Rightarrow> int" where
  "weekday d = (ordinal d + 6) mod 7"

text \<open>A search that walks forward day by day leaves any given year.\<close>

lemma days_before_year_mono: "y \<le> z \<Longrightarrow> days_before_year y \<le> days_before_year z"
proof -
  assume "y \<le> z"
  then have "(y - 1) div 4 \<le> (z - 1) div 4" and "(y - 1) div 400 \<le> (z - 1) div 400"
    and "(z - 1) div 100 - (y - 1) div 100 \<le> z - y"
    by (auto intro: zdiv_mono1)
  moreover have "(y - 1) * 365 + (z - y) \<le> (z - 1) * 365"
    using \<open>y \<le> z\<close> by simp
  ultimately show ?thesis
    unfolding days_before_year_def Let_def by linarith
qed

lemma ordinal_le_next_year: "ordinal d \<le> days_before_year (year_of d + 1)"
proof -
  define n where "n = ordinal d"
  define m where "m = n - 1"
  define a where "a = m div 146097"
  define r1 where "r1 = m mod 146097"
  define b where "b = r1 div 36524"
  define r2 where "r2 = r1 mod 36524"
  define c where "c = r2 div 1461"
  define r3 where "r3 = r2 mod 1461"
  define e where "e = r3 div 365"
  define r4 where "r4 = r3 mod 365"
  define y where "y = a * 400 + 1 + b * 100 + c * 4 + e"
  have m: "m = 146097 * a + 36524 * b + 1461 * c + 365 * e + r4"
    unfolding a_def b_def c_def e_def r4_def r3_def r2_def r1_def by simp
  have bounds: "0 \<le> r1" "r1 < 146097" "0 \<le> r2" "r2 < 36524" "0 \<le> r3" "r3 < 1461" "0 \<le> r4" "r4 < 365"
    unfolding r1_def r2_def r3_def r4_def by auto
  then have b: "0 \<le> b" "b \<le> 4" and c: "0 \<le> c" "c \<le> 24" and e: "0 \<le> e" "e \<le> 4"
    unfolding b_def c_def e_def by auto
  have yd: "year_of d = (if e = 4 \<or> b = 4 then y - 1 else y)"
    unfolding year_of_def year_and_day_def Let_def y_def a_def b_def c_def e_def r3_def r2_def r1_def
      m_def n_def by simp
  have r: "r1 = 36524 * b + r2" "r2 = 1461 * c + r3" "r3 = 365 * e + r4"
    unfolding b_def c_def e_def r4_def r3_def r2_def by simp_all
  have goal: "m + 1 \<le> days_before_year (year_of d + 1)"
  proof (cases "e = 4 \<or> b = 4")
    case True
    then have "b = 4 \<and> c = 0 \<and> e = 0 \<and> r4 = 0 \<or> b \<le> 3 \<and> e = 4 \<and> c \<le> 23 \<and> r4 = 0"
      using bounds r b c e by linarith
    then show ?thesis
      using True b c unfolding yd days_before_year_def Let_def y_def m by auto
  next
    case False
    then have lt: "b \<le> 3" "e \<le> 3" using b e by auto
    have "y div 4 = (e + 1 + (100 * a + 25 * b + c) * 4) div 4"
      and "y div 100 = (4 * c + e + 1 + (4 * a + b) * 100) div 100"
      and "y div 400 = (100 * b + 4 * c + e + 1 + a * 400) div 400"
      unfolding y_def by (simp_all add: algebra_simps)
    then have dv: "y div 4 = 100 * a + 25 * b + c + (e + 1) div 4"
      "y div 100 = 4 * a + b + (4 * c + e + 1) div 100"
      "y div 400 = a + (100 * b + 4 * c + e + 1) div 400"
      by (simp_all only: div_mult_self3 div_mult_self1)
    have "(4 * c + e + 1) div 100 \<le> (e + 1) div 4"
      using c e lt by (cases "e = 3") auto
    moreover have "0 \<le> (100 * b + 4 * c + e + 1) div 400"
      using b c e by simp
    moreover have "days_before_year (year_of d + 1) = y * 365 + y div 4 - y div 100 + y div 400"
      using False by (simp add: yd days_before_year_def)
    ultimately show ?thesis
      using bounds(8) m y_def unfolding dv by linarith
  qed
  then show ?thesis by (simp add: m_def n_def)
qed


corollary day_le_year_end: "year_of d \<le> y \<Longrightarrow> d \<le> days_before_year (y + 1) - 719163"
  using ordinal_le_next_year [of d] days_before_year_mono [of "year_of d + 1" "y + 1"]
  by (simp add: ordinal_def)

section \<open>Zones\<close>

text \<open>
  \<open>to_local\<close> is \<open>utc.astimezone(zone).replace(tzinfo=None)\<close>; \<open>from_local fold\<close> is
  \<open>local.replace(tzinfo=zone, fold=fold).astimezone(UTC)\<close>.
\<close>

record zone =
  to_local :: "time \<Rightarrow> time"
  from_local :: "nat \<Rightarrow> time \<Rightarrow> time"

definition utc_zone :: zone where
  "utc_zone = \<lparr>to_local = (\<lambda>t. t), from_local = (\<lambda>fold t. t)\<rparr>"

text \<open>The date of a naive local value.\<close>

definition date_of :: "time \<Rightarrow> date" where
  "date_of l = l div day"

lemma date_of_combine [simp]: "0 \<le> r \<Longrightarrow> r < day \<Longrightarrow> date_of (d * day + r) = d"
  by (simp add: date_of_def)

end
