(* ===== verification/Aut_Policies.thy ===== *)
theory Aut_Policies
  imports Prelude
begin

text \<open>
  Failures and validated policies of the automation package
  (\<open>tinkerfin_automation/errors.py\<close> and \<open>policies.py\<close>). An exception is a value of
  \<open>aut_error\<close>: one constructor per class the modelled code raises, carrying the
  identifier that the source puts into the error context or, for built-in classes and
  store failures, the text of the message. A check that either passes or raises returns
  \<open>aut_error option\<close>.
\<close>

datatype aut_error =
    ValueError py_str
  | TypeError py_str
  | KeyError py_str
  | AssertionError
  | OverflowError py_str
  | InvalidScheduleError py_str
  | TaskNotFoundError py_str
  | ExecutionNotFoundError py_str
  | TaskConflictError py_str
  | RequestConflictError py_str
  | QueueFullError py_str
  | StartAlreadyAuthorizedError py_str
  | ClaimLostError py_str
  | ResolutionNotAllowedError py_str
  | AutomationStoreError py_str
  | AutomationLifecycleError py_str

datatype misfire_mode = SKIP | LATEST | CATCH_UP

record misfire_policy =
  mf_mode :: misfire_mode
  mf_grace :: duration
  mf_catch_up_window :: duration
  mf_max_catch_up :: int

definition default_misfire_policy :: misfire_policy where
  "default_misfire_policy =
     \<lparr>mf_mode = LATEST, mf_grace = minute, mf_catch_up_window = 24 * hour, mf_max_catch_up = 100\<rparr>"

definition misfire_post_init :: "misfire_policy \<Rightarrow> aut_error option" where
  "misfire_post_init p =
     (if mf_grace p < 0 then Some (ValueError ''grace must not be negative'')
      else if mf_catch_up_window p \<le> 0 then Some (ValueError ''catch_up_window must be positive'')
      else if mf_max_catch_up p < 1 then Some (ValueError ''max_catch_up must be at least 1'')
      else None)"

record execution_limits =
  max_concurrent_runs :: int
  max_queued_runs :: int
  execution_timeout :: duration
  queue_timeout :: duration

definition default_execution_limits :: execution_limits where
  "default_execution_limits =
     \<lparr>max_concurrent_runs = 1, max_queued_runs = 10,
      execution_timeout = 30 * minute, queue_timeout = 24 * hour\<rparr>"

definition limits_post_init :: "execution_limits \<Rightarrow> aut_error option" where
  "limits_post_init l =
     (if max_concurrent_runs l < 1 then Some (ValueError ''max_concurrent_runs must be at least 1'')
      else if max_queued_runs l < 0 then Some (ValueError ''max_queued_runs must not be negative'')
      else if execution_timeout l \<le> 0 then Some (ValueError ''execution_timeout must be positive'')
      else if queue_timeout l \<le> 0 then Some (ValueError ''queue_timeout must be positive'')
      else None)"

end
