(* ===== verification/Aut_Schedules.thy ===== *)
theory Aut_Schedules
  imports Py_Strings Py_Time Aut_Policies
begin

text \<open>
  One-time, interval and cron schedules (\<open>tinkerfin_automation/schedules.py\<close>): parsing of
  cron expressions, the validated factories, the next run after an instant, previews, and
  the materialization of missed runs under a misfire policy. A zone database is a function
  from IANA names to zones that every operation reading one takes as its first argument.
\<close>

section \<open>Cron fields\<close>

abbreviation (input) MIN_INTERVAL_SECONDS :: int where "MIN_INTERVAL_SECONDS \<equiv> 60"
abbreviation (input) MAX_INTERVAL_SECONDS :: int where "MAX_INTERVAL_SECONDS \<equiv> 365 * 24 * 60 * 60"
abbreviation (input) MAX_CRON_SEARCH_YEARS :: int where "MAX_CRON_SEARCH_YEARS \<equiv> 8"
abbreviation (input) MAX_MISFIRE_SCAN :: int where "MAX_MISFIRE_SCAN \<equiv> 100000"

definition month_names :: "(py_str, int) dict" where
  "month_names =
     [(''jan'', 1), (''feb'', 2), (''mar'', 3), (''apr'', 4), (''may'', 5), (''jun'', 6),
      (''jul'', 7), (''aug'', 8), (''sep'', 9), (''oct'', 10), (''nov'', 11), (''dec'', 12)]"

definition weekday_names :: "(py_str, int) dict" where
  "weekday_names =
     [(''mon'', 0), (''tue'', 1), (''wed'', 2), (''thu'', 3), (''fri'', 4), (''sat'', 5), (''sun'', 6)]"

definition parse_value :: "py_str \<Rightarrow> int \<Rightarrow> int \<Rightarrow> (py_str, int) dict option \<Rightarrow> aut_error + int" where
  "parse_value value minimum maximum names =
     (let normalized = py_lower value in
      case (case names of None \<Rightarrow> None | Some d \<Rightarrow> dget d normalized) of
        Some v \<Rightarrow> Inr v
      | None \<Rightarrow>
          (case py_int normalized of
             None \<Rightarrow> Inl (InvalidScheduleError ''unsupported value'')
           | Some parsed \<Rightarrow>
               if minimum \<le> parsed \<and> parsed \<le> maximum then Inr parsed
               else Inl (InvalidScheduleError ''value outside its range'')))"

text \<open>\<open>range(start, end + 1, step)\<close> for a positive step, as the list of its values\<close>

definition py_range :: "int \<Rightarrow> int \<Rightarrow> int \<Rightarrow> int list" where
  "py_range start stop step =
     map (\<lambda>i. start + int i * step) [0 ..< nat ((stop - start + step - 1) div step)]"

definition parse_item :: "py_str \<Rightarrow> int \<Rightarrow> int \<Rightarrow> (py_str, int) dict option \<Rightarrow> aut_error + int list" where
  "parse_item item minimum maximum names =
     (if item = [] then Inl (InvalidScheduleError ''empty list item'')
      else
        let (base, step_text) = py_partition (CHR ''/'') item;
            step = (case step_text of None \<Rightarrow> Some 1 | Some t \<Rightarrow> py_int t)
        in case step of
             None \<Rightarrow> Inl (InvalidScheduleError ''step must be a positive integer'')
           | Some step \<Rightarrow>
               if step < 1 then Inl (InvalidScheduleError ''step must be a positive integer'')
               else if base = ''*'' then Inr (py_range minimum (maximum + 1) step)
               else
                 (case py_partition (CHR ''-'') base of
                   (start_text, Some end_text) \<Rightarrow>
                     (case parse_value start_text minimum maximum names of
                        Inl e \<Rightarrow> Inl e
                      | Inr start \<Rightarrow>
                          (case parse_value end_text minimum maximum names of
                             Inl e \<Rightarrow> Inl e
                           | Inr stop \<Rightarrow>
                               if start > stop then Inl (InvalidScheduleError ''range must be ordered'')
                               else Inr (py_range start (stop + 1) step)))
                 | (_, None) \<Rightarrow>
                     (case parse_value base minimum maximum names of
                        Inl e \<Rightarrow> Inl e
                      | Inr start \<Rightarrow> Inr (py_range start (start + 1) step))))"

fun parse_items :: "py_str list \<Rightarrow> int \<Rightarrow> int \<Rightarrow> (py_str, int) dict option \<Rightarrow> aut_error + int set" where
  "parse_items [] minimum maximum names = Inr {}"
| "parse_items (item # items) minimum maximum names =
     (case parse_item item minimum maximum names of
        Inl e \<Rightarrow> Inl e
      | Inr vs \<Rightarrow>
          (case parse_items items minimum maximum names of
             Inl e \<Rightarrow> Inl e
           | Inr s \<Rightarrow> Inr (set vs \<union> s)))"

definition parse_field :: "py_str \<Rightarrow> int \<Rightarrow> int \<Rightarrow> (py_str, int) dict option \<Rightarrow> aut_error + int set" where
  "parse_field field minimum maximum names = parse_items (py_split_on (CHR '','') field) minimum maximum names"

record compiled_cron =
  minutes :: "int set"
  hours :: "int set"
  days :: "int set"
  months :: "int set"
  weekdays :: "int set"

definition compile_cron :: "py_str \<Rightarrow> aut_error + compiled_cron" where
  "compile_cron expression =
     (case py_split expression of
        [f0, f1, f2, f3, f4] \<Rightarrow>
          (case parse_field f0 0 59 None of Inl e \<Rightarrow> Inl e | Inr mi \<Rightarrow>
          (case parse_field f1 0 23 None of Inl e \<Rightarrow> Inl e | Inr ho \<Rightarrow>
          (case parse_field f2 1 31 None of Inl e \<Rightarrow> Inl e | Inr da \<Rightarrow>
          (case parse_field f3 1 12 (Some month_names) of Inl e \<Rightarrow> Inl e | Inr mo \<Rightarrow>
          (case parse_field f4 0 6 (Some weekday_names) of Inl e \<Rightarrow> Inl e | Inr wd \<Rightarrow>
             Inr \<lparr>minutes = mi, hours = ho, days = da, months = mo, weekdays = wd\<rparr>)))))
      | _ \<Rightarrow> Inl (InvalidScheduleError ''exactly five fields''))"

section \<open>Validated schedules\<close>

datatype schedule_kind =
    OnceSchedule time
  | IntervalSchedule int time
  | CronSchedule py_str py_str

record schedule =
  active_from :: "time option"
  active_until :: "time option"
  kind :: schedule_kind

type_synonym zone_db = "py_str \<Rightarrow> zone option"

text \<open>\<open>active_period_is_ordered\<close>\<close>

definition active_period_is_ordered :: "schedule \<Rightarrow> aut_error option" where
  "active_period_is_ordered s =
     (case (active_from s, active_until s) of
        (Some f, Some u) \<Rightarrow> if f \<ge> u then Some (ValueError ''active_from must precede active_until'') else None
      | _ \<Rightarrow> None)"

definition expression_has_five_fields :: "py_str \<Rightarrow> aut_error + py_str" where
  "expression_has_five_fields value =
     (if length value < 9 \<or> 256 < length value then Inl (ValueError ''expression length'')
      else if value \<noteq> py_strip value \<or> length (py_split value) \<noteq> 5
      then Inl (ValueError ''expression must contain exactly five Cron fields'')
      else if list_ex py_isdigit (py_lower (py_split value ! 4))
      then Inl (ValueError ''day of week must use mon through sun names'')
      else
        let normalized = py_lower value in
        case compile_cron normalized of Inl e \<Rightarrow> Inl e | Inr c \<Rightarrow> Inr normalized)"

definition timezone_is_available :: "zone_db \<Rightarrow> py_str \<Rightarrow> aut_error option" where
  "timezone_is_available zones value =
     (if length value < 1 \<or> 128 < length value then Some (ValueError ''timezone length'')
      else if value \<noteq> py_strip value then Some (ValueError ''timezone must not contain surrounding whitespace'')
      else if zones value = None then Some (InvalidScheduleError ''Unknown IANA timezone'')
      else None)"

text \<open>The factories \<open>Schedule.once\<close>, \<open>Schedule.every\<close> and \<open>Schedule.cron\<close>\<close>

definition checked_schedule :: "schedule \<Rightarrow> aut_error + schedule" where
  "checked_schedule s = (case active_period_is_ordered s of Some e \<Rightarrow> Inl e | None \<Rightarrow> Inr s)"

definition schedule_once :: "time \<Rightarrow> time option \<Rightarrow> time option \<Rightarrow> aut_error + schedule" where
  "schedule_once at f u = checked_schedule \<lparr>active_from = f, active_until = u, kind = OnceSchedule at\<rparr>"

definition schedule_every ::
  "int \<Rightarrow> int \<Rightarrow> int \<Rightarrow> int \<Rightarrow> time \<Rightarrow> time option \<Rightarrow> time option \<Rightarrow> aut_error + schedule" where
  "schedule_every seconds mins hrs ds start_at f u =
     (if seconds < 0 \<or> mins < 0 \<or> hrs < 0 \<or> ds < 0
      then Inl (ValueError ''Interval components must be nonnegative integers'')
      else
        let every_seconds = seconds + mins * 60 + hrs * 3600 + ds * 86400 in
        if every_seconds < MIN_INTERVAL_SECONDS \<or> every_seconds > MAX_INTERVAL_SECONDS
        then Inl (ValueError ''every_seconds'')
        else checked_schedule \<lparr>active_from = f, active_until = u, kind = IntervalSchedule every_seconds start_at\<rparr>)"

definition schedule_cron ::
  "zone_db \<Rightarrow> py_str \<Rightarrow> py_str \<Rightarrow> time option \<Rightarrow> time option \<Rightarrow> aut_error + schedule" where
  "schedule_cron zones expression timezone f u =
     (case expression_has_five_fields expression of
        Inl e \<Rightarrow> Inl e
      | Inr normalized \<Rightarrow>
          (case timezone_is_available zones timezone of
             Some e \<Rightarrow> Inl e
           | None \<Rightarrow>
               checked_schedule
                 \<lparr>active_from = f, active_until = u, kind = CronSchedule normalized timezone\<rparr>))"

text \<open>What every schedule built by a factory satisfies.\<close>

definition valid_schedule :: "schedule \<Rightarrow> bool" where
  "valid_schedule s \<longleftrightarrow>
     active_period_is_ordered s = None \<and>
     (case kind s of
        OnceSchedule at \<Rightarrow> True
      | IntervalSchedule every start_at \<Rightarrow> MIN_INTERVAL_SECONDS \<le> every \<and> every \<le> MAX_INTERVAL_SECONDS
      | CronSchedule expression timezone \<Rightarrow> (\<exists>c. compile_cron expression = Inr c))"

section \<open>The next run\<close>

definition valid_utc_candidates :: "zone \<Rightarrow> time \<Rightarrow> time list" where
  "valid_utc_candidates z local_value =
     sorted_list_of_set (set (filter (\<lambda>c. to_local z c = local_value)
       (map (\<lambda>fold. from_local z fold local_value) [0, 1])))"

text \<open>The two nested loops over the hours and minutes of one day.\<close>

definition day_values :: "compiled_cron \<Rightarrow> date \<Rightarrow> time list" where
  "day_values c d =
     concat (map (\<lambda>h. map (\<lambda>m. d * day + (h * hour + m * minute)) (sorted_list_of_set (minutes c)))
       (sorted_list_of_set (hours c)))"

fun first_candidate :: "zone \<Rightarrow> time \<Rightarrow> time list \<Rightarrow> time option" where
  "first_candidate z after [] = None"
| "first_candidate z after (l # ls) =
     (case valid_utc_candidates z l of
        [] \<Rightarrow> first_candidate z after ls
      | c # cs \<Rightarrow> if c > after then Some c else first_candidate z after ls)"

definition day_matches :: "compiled_cron \<Rightarrow> date \<Rightarrow> bool" where
  "day_matches c d \<longleftrightarrow> month_of d \<in> months c \<and> dom_of d \<in> days c \<and> weekday d \<in> weekdays c"

function cron_search ::
  "zone \<Rightarrow> compiled_cron \<Rightarrow> time option \<Rightarrow> time \<Rightarrow> int \<Rightarrow> date \<Rightarrow> aut_error + time option" where
  "cron_search z c until after end_year current_day =
     (if year_of current_day \<le> end_year then
        if (case until of None \<Rightarrow> False | Some u \<Rightarrow> current_day > date_of (to_local z u)) then Inr None
        else
          case (if day_matches c current_day then first_candidate z after (day_values c current_day) else None) of
            Some t \<Rightarrow> Inr (Some t)
          | None \<Rightarrow> cron_search z c until after end_year (current_day + 1)
      else Inl (InvalidScheduleError ''no run time within the supported search range''))"
  by pat_completeness auto
termination
proof (relation "measure (\<lambda>(z, c, until, after, end_year, d). nat (days_before_year (end_year + 1) - 719163 + 1 - d))")
  show "wf (measure (\<lambda>(z :: zone, c :: compiled_cron, until :: time option, after :: time, end_year, d).
    nat (days_before_year (end_year + 1) - 719163 + 1 - d)))"
    by simp
qed (auto dest: day_le_year_end)

declare cron_search.simps [simp del]

definition next_occurrence :: "zone_db \<Rightarrow> schedule \<Rightarrow> time \<Rightarrow> aut_error + time option" where
  "next_occurrence zones s after_utc =
     (case kind s of
        OnceSchedule at \<Rightarrow> Inr (if at > after_utc then Some at else None)
      | IntervalSchedule every_seconds start_at \<Rightarrow>
          if after_utc < start_at then Inr (Some start_at)
          else
            let elapsed = after_utc - start_at;
                steps = max 1 (elapsed div (every_seconds * second) + 1)
            in Inr (Some (start_at + steps * every_seconds * second))
      | CronSchedule expression timezone \<Rightarrow>
          (case compile_cron expression of
             Inl e \<Rightarrow> Inl e
           | Inr compiled \<Rightarrow>
               (case zones timezone of
                  None \<Rightarrow> Inl (ValueError ''ZoneInfoNotFoundError'')
                | Some z \<Rightarrow>
                    let start_day = date_of (to_local z after_utc);
                        end_year = year_of start_day + MAX_CRON_SEARCH_YEARS
                    in cron_search z compiled (active_until s) after_utc end_year start_day)))"

definition next_run_after :: "zone_db \<Rightarrow> schedule \<Rightarrow> time \<Rightarrow> aut_error + time option" where
  "next_run_after zones s after =
     (case active_until s of
        Some u \<Rightarrow> if after \<ge> u then Inr None else
          (case next_occurrence zones s
                  (case active_from s of Some f \<Rightarrow> if after < f then f - microsecond else after | None \<Rightarrow> after) of
             Inl e \<Rightarrow> Inl e
           | Inr None \<Rightarrow> Inr None
           | Inr (Some candidate) \<Rightarrow> Inr (if candidate \<ge> u then None else Some candidate))
      | None \<Rightarrow>
          next_occurrence zones s
            (case active_from s of Some f \<Rightarrow> if after < f then f - microsecond else after | None \<Rightarrow> after))"

text \<open>\<open>for _ in range(count)\<close> of \<open>preview_schedule\<close>\<close>

fun preview_loop :: "zone_db \<Rightarrow> schedule \<Rightarrow> nat \<Rightarrow> time \<Rightarrow> aut_error + time list" where
  "preview_loop zones s 0 cursor = Inr []"
| "preview_loop zones s (Suc n) cursor =
     (case next_run_after zones s cursor of
        Inl e \<Rightarrow> Inl e
      | Inr None \<Rightarrow> Inr []
      | Inr (Some candidate) \<Rightarrow>
          (case preview_loop zones s n candidate of
             Inl e \<Rightarrow> Inl e
           | Inr rest \<Rightarrow> Inr (candidate # rest)))"

definition preview_schedule :: "zone_db \<Rightarrow> schedule \<Rightarrow> time \<Rightarrow> int \<Rightarrow> aut_error + time list" where
  "preview_schedule zones s after count =
     (if \<not> (1 \<le> count \<and> count \<le> 100) then Inl (ValueError ''count must be between 1 and 100'')
      else preview_loop zones s (nat count) after)"

section \<open>Materialization of missed runs\<close>

record materialized =
  due_at :: "time list"
  next_run_at :: "time option"
  skipped_before :: "time option"

definition latest_interval_due :: "int \<Rightarrow> time \<Rightarrow> time \<Rightarrow> time" where
  "latest_interval_due every_seconds first_due now =
     (let elapsed = now - first_due;
          steps = max 0 (elapsed div (every_seconds * second))
      in first_due + steps * every_seconds * second)"

text \<open>
  The bounded scan: \<open>Inl\<close> is the \<open>else\<close> branch of the loop, reached when all of its
  iterations ran without a break.
\<close>

function scan_due :: "zone_db \<Rightarrow> schedule \<Rightarrow> time \<Rightarrow> int \<Rightarrow> time \<Rightarrow> time list \<Rightarrow> aut_error + time list" where
  "scan_due zones s now_utc n cursor due_times =
     (if n \<le> 0 then Inl (InvalidScheduleError ''Misfire scan exceeded its bounded candidate limit'')
      else
        case next_run_after zones s cursor of
          Inl e \<Rightarrow> Inl e
        | Inr None \<Rightarrow> Inr due_times
        | Inr (Some candidate) \<Rightarrow>
            if candidate > now_utc then Inr due_times
            else scan_due zones s now_utc (n - 1) candidate (due_times @ [candidate]))"
  by pat_completeness auto
termination
  by (relation "measure (\<lambda>(zones, s, now_utc, n, cursor, due_times). nat n)") auto

declare scan_due.simps [simp del]

definition materialize_scan ::
  "zone_db \<Rightarrow> schedule \<Rightarrow> misfire_policy \<Rightarrow> time \<Rightarrow> time \<Rightarrow> time option \<Rightarrow> aut_error + materialized" where
  "materialize_scan zones s policy first_due now_utc future =
     (let window_boundary = now_utc - mf_catch_up_window policy;
          scan_start = max first_due window_boundary
      in case scan_due zones s now_utc MAX_MISFIRE_SCAN (scan_start - microsecond) [] of
           Inl e \<Rightarrow> Inl e
         | Inr due_times \<Rightarrow>
             let selected =
                   (if mf_mode policy = LATEST then drop (length due_times - 1) due_times
                    else take (nat (mf_max_catch_up policy)) due_times)
             in Inr \<lparr>due_at = selected, next_run_at = future,
                     skipped_before =
                       (if first_due < scan_start \<or> length due_times > length selected
                        then Some first_due else None)\<rparr>)"

text \<open>The part of \<open>materialize_schedule\<close> after the wakeup is known to be due.\<close>

definition materialize_due ::
  "zone_db \<Rightarrow> schedule \<Rightarrow> misfire_policy \<Rightarrow> time \<Rightarrow> time \<Rightarrow> aut_error + materialized" where
  "materialize_due zones s policy first_due now_utc =
     (case next_run_after zones s now_utc of
        Inl e \<Rightarrow> Inl e
      | Inr future \<Rightarrow>
          let grace_boundary = now_utc - mf_grace policy;
              window_boundary = now_utc - mf_catch_up_window policy
          in if mf_mode policy = SKIP then
               let due = (if first_due < grace_boundary then [] else [first_due])
               in Inr \<lparr>due_at = due, next_run_at = future,
                       skipped_before = (if due = [] then Some first_due else None)\<rparr>
             else
               (case (mf_mode policy, kind s) of
                  (LATEST, IntervalSchedule every_seconds start_at) \<Rightarrow>
                    let last_allowed =
                          (case active_until s of None \<Rightarrow> now_utc | Some u \<Rightarrow> min now_utc (u - microsecond));
                        latest = latest_interval_due every_seconds first_due last_allowed
                    in Inr \<lparr>due_at = (if latest \<ge> window_boundary then [latest] else []),
                            next_run_at = future,
                            skipped_before = (if latest \<noteq> first_due then Some first_due else None)\<rparr>
                | _ \<Rightarrow> materialize_scan zones s policy first_due now_utc future))"

definition materialize_schedule ::
  "zone_db \<Rightarrow> schedule \<Rightarrow> time \<Rightarrow> time \<Rightarrow> misfire_policy \<Rightarrow> aut_error + materialized" where
  "materialize_schedule zones s wakeup now_utc policy =
     (case (case active_from s of
              Some f \<Rightarrow>
                if wakeup < f then next_run_after zones s (wakeup - microsecond)
                else Inr (Some wakeup)
            | None \<Rightarrow> Inr (Some wakeup)) of
        Inl e \<Rightarrow> Inl e
      | Inr None \<Rightarrow> Inr \<lparr>due_at = [], next_run_at = None, skipped_before = Some wakeup\<rparr>
      | Inr (Some first_due) \<Rightarrow>
          if (case active_until s of Some u \<Rightarrow> first_due \<ge> u | None \<Rightarrow> False)
          then Inr \<lparr>due_at = [], next_run_at = None, skipped_before = Some first_due\<rparr>
          else if first_due > now_utc
          then Inr \<lparr>due_at = [], next_run_at = Some first_due, skipped_before = None\<rparr>
          else materialize_due zones s policy first_due now_utc)"


section \<open>Cron expressions select values inside their ranges\<close>


lemma div_times_le: "0 < s \<Longrightarrow> (x :: int) div s * s \<le> x"
  by (simp add: minus_mod_eq_div_mult [symmetric])

lemma py_range_bounds: "v \<in> set (py_range a b s) \<Longrightarrow> 0 < s \<Longrightarrow> a \<le> v \<and> v < b"
proof -
  assume "v \<in> set (py_range a b s)" and s: "0 < s"
  then obtain i where i: "i < nat ((b - a + s - 1) div s)" and v: "v = a + int i * s"
    by (auto simp: py_range_def)
  then have "(int i + 1) * s \<le> (b - a + s - 1) div s * s"
    using s by (intro mult_right_mono) auto
  also have "\<dots> \<le> b - a + s - 1" using s by (rule div_times_le)
  finally show ?thesis using v s by (simp add: algebra_simps)
qed

lemma py_range_start: "a < b \<Longrightarrow> 0 < s \<Longrightarrow> a \<in> set (py_range a b s)"
proof -
  assume "a < b" and "0 < s"
  then have "0 < (b - a + s - 1) div s" by (simp add: pos_imp_zdiv_pos_iff)
  then show ?thesis by (auto simp: py_range_def image_iff intro!: bexI [of _ 0])
qed

lemma py_range_nonempty: "a < b \<Longrightarrow> 0 < s \<Longrightarrow> py_range a b s \<noteq> []"
  using py_range_start by fastforce

lemma parse_value_bounds:
  assumes "parse_value t lo hi names = Inr v"
    and "\<And>d k w. names = Some d \<Longrightarrow> dget d k = Some w \<Longrightarrow> lo \<le> w \<and> w \<le> hi"
  shows "lo \<le> v \<and> v \<le> hi"
  using assms by (auto simp: parse_value_def Let_def split: option.splits if_splits)

text \<open>A parsed field selects at least one value, and only values of its range.\<close>

definition field_ok :: "int \<Rightarrow> int \<Rightarrow> int set \<Rightarrow> bool" where
  "field_ok lo hi s \<longleftrightarrow> s \<noteq> {} \<and> s \<subseteq> {lo..hi}"

lemma parse_item_ok:
  assumes "parse_item item lo hi names = Inr vs" and "lo \<le> hi"
    and nm: "\<And>d k w. names = Some d \<Longrightarrow> dget d k = Some w \<Longrightarrow> lo \<le> w \<and> w \<le> hi"
  shows "field_ok lo hi (set vs)"
proof -
  note pv = parse_value_bounds [OF _ nm]
  show ?thesis
    using assms(1,2)
    by (auto simp: parse_item_def field_ok_def split: if_splits option.splits prod.splits sum.splits
        dest!: pv py_range_bounds simp: py_range_nonempty)
qed


lemma parse_items_ok:
  assumes "parse_items items lo hi names = Inr s" and "lo \<le> hi"
    and nm: "\<And>d k w. names = Some d \<Longrightarrow> dget d k = Some w \<Longrightarrow> lo \<le> w \<and> w \<le> hi"
  shows "s \<subseteq> {lo..hi} \<and> (items \<noteq> [] \<longrightarrow> s \<noteq> {})"
  using assms(1)
proof (induction items arbitrary: s)
  case (Cons item items)
  then obtain vs t where "parse_item item lo hi names = Inr vs" and t: "parse_items items lo hi names = Inr t"
    and s: "s = set vs \<union> t"
    by (auto split: sum.splits)
  then have "field_ok lo hi (set vs)" using assms(2) nm by (blast intro: parse_item_ok)
  with Cons.IH [OF t] s show ?case by (auto simp: field_ok_def)
qed simp

lemma py_split_on_nonempty [simp]: "py_split_on sep t \<noteq> []"
  by (cases t) (auto split: list.splits)

lemma parse_field_ok:
  assumes "parse_field t lo hi names = Inr s" and "lo \<le> hi"
    and "\<And>d k w. names = Some d \<Longrightarrow> dget d k = Some w \<Longrightarrow> lo \<le> w \<and> w \<le> hi"
  shows "field_ok lo hi s"
  using parse_items_ok [OF assms(1)[unfolded parse_field_def] assms(2,3)] by (simp add: field_ok_def)

lemma month_names_range: "dget month_names k = Some w \<Longrightarrow> 1 \<le> w \<and> w \<le> 12"
  by (auto simp: month_names_def split: if_splits)

lemma weekday_names_range: "dget weekday_names k = Some w \<Longrightarrow> 0 \<le> w \<and> w \<le> 6"
  by (auto simp: weekday_names_def split: if_splits)

lemma compile_cron_fields_aux:
  assumes "compile_cron e = Inr c"
  shows "field_ok 0 59 (minutes c) \<and> field_ok 0 23 (hours c) \<and> field_ok 1 31 (days c) \<and>
    field_ok 1 12 (months c) \<and> field_ok 0 6 (weekdays c)"
  using assms
  by (auto simp: compile_cron_def split: list.splits sum.splits
      intro: parse_field_ok dest: month_names_range weekday_names_range)

lemma first_candidate_Some:
  "first_candidate z after ls = Some t \<Longrightarrow>
     \<exists>l \<in> set ls. t \<in> set (valid_utc_candidates z l) \<and> after < t"
  by (induction ls) (auto split: list.splits if_splits)

lemma valid_utc_candidates_local: "t \<in> set (valid_utc_candidates z l) \<Longrightarrow> to_local z t = l"
  by (auto simp: valid_utc_candidates_def split: if_splits)

lemma cron_search_sound:
  "cron_search z c until after Y d = Inr (Some t) \<Longrightarrow>
     \<exists>d'. d \<le> d' \<and> day_matches c d' \<and> to_local z t \<in> set (day_values c d') \<and> after < t"
proof (induction z c until after Y d rule: cron_search.induct)
  case (1 z c until after Y d)
  show ?case
  proof (cases "if day_matches c d then first_candidate z after (day_values c d) else None")
    case None
    with "1.prems" have *: "year_of d \<le> Y"
      "\<not> (case until of None \<Rightarrow> False | Some u \<Rightarrow> date_of (to_local z u) < d)"
      "cron_search z c until after Y (d + 1) = Inr (Some t)"
      by (simp_all add: cron_search.simps [of _ _ _ _ _ d] split: if_splits)
    from "1.IH" [OF *(1,2) None *(3)] obtain d' where "d + 1 \<le> d'" and
      "day_matches c d' \<and> to_local z t \<in> set (day_values c d') \<and> after < t" by blast
    then show ?thesis by (intro exI [of _ d']) simp
  next
    case (Some u)
    then have "day_matches c d" and "first_candidate z after (day_values c d) = Some u"
      by (auto split: if_splits)
    moreover have "u = t"
      using "1.prems" Some by (simp add: cron_search.simps [of _ _ _ _ _ d] split: if_splits)
    ultimately show ?thesis
      by (auto dest!: first_candidate_Some dest: valid_utc_candidates_local)
  qed
qed


text \<open>
  What the documentation of \<open>zoneinfo\<close> promises and the search relies on: every instant is
  one of the two readings of its own wall-clock time, and of two wall-clock times that both
  exist, the later one is first shown later.
\<close>

definition zone_regular :: "zone \<Rightarrow> bool" where
  "zone_regular z \<longleftrightarrow>
     (\<forall>u. \<exists>fold \<in> {0, 1}. from_local z fold (to_local z u) = u) \<and>
     (\<forall>l l' c cs c' cs'. l < l' \<longrightarrow> valid_utc_candidates z l = c # cs \<longrightarrow>
        valid_utc_candidates z l' = c' # cs' \<longrightarrow> c < c')"

lemma zone_regular_own:
  assumes "zone_regular z"
  shows "\<exists>c cs. valid_utc_candidates z (to_local z u) = c # cs \<and> c \<le> u"
proof -
  obtain fold where "fold \<in> {0, 1}" and "from_local z fold (to_local z u) = u"
    using assms unfolding zone_regular_def by blast
  then have u: "u \<in> set (valid_utc_candidates z (to_local z u))"
    by (auto simp: valid_utc_candidates_def)
  moreover have "sorted (valid_utc_candidates z (to_local z u))"
    by (simp add: valid_utc_candidates_def)
  ultimately show ?thesis
    by (cases "valid_utc_candidates z (to_local z u)") auto
qed

lemma zone_regular_less:
  "zone_regular z \<Longrightarrow> l < l' \<Longrightarrow> valid_utc_candidates z l = c # cs \<Longrightarrow>
     valid_utc_candidates z l' = c' # cs' \<Longrightarrow> c < c'"
  unfolding zone_regular_def by blast

definition cron_ok :: "compiled_cron \<Rightarrow> bool" where
  "cron_ok c \<longleftrightarrow> field_ok 0 59 (minutes c) \<and> field_ok 0 23 (hours c)"

lemma field_ok_finite: "field_ok a b s \<Longrightarrow> finite s"
  by (auto simp: field_ok_def intro: finite_subset)

lemma day_values_mem:
  assumes "cron_ok c"
  shows "l \<in> set (day_values c d) \<longleftrightarrow>
    (\<exists>h \<in> hours c. \<exists>m \<in> minutes c. l = d * day + (h * hour + m * minute))"
proof -
  have "finite (hours c)" "finite (minutes c)"
    using assms by (auto simp: cron_ok_def field_ok_finite)
  then show ?thesis by (simp add: day_values_def image_iff)
qed

lemma day_values_date: "cron_ok c \<Longrightarrow> l \<in> set (day_values c d) \<Longrightarrow> date_of l = d"
proof -
  assume c: "cron_ok c" and "l \<in> set (day_values c d)"
  then obtain h m where "h \<in> hours c" "m \<in> minutes c" and l: "l = d * day + (h * hour + m * minute)"
    by (auto simp: day_values_mem)
  then have "0 \<le> h" "h \<le> 23" "0 \<le> m" "m \<le> 59"
    using c by (auto simp: cron_ok_def field_ok_def)
  then show ?thesis unfolding l by (intro date_of_combine) linarith+
qed

lemma day_values_sorted:
  assumes "cron_ok c"
  shows "sorted_wrt (<) (day_values c d)"
proof -
  have fin: "finite (hours c)" "finite (minutes c)" and m: "minutes c \<subseteq> {0..59}"
    using assms by (auto simp: cron_ok_def field_ok_def intro: finite_subset)
  have row: "sorted_wrt (<) (map (\<lambda>m. d * day + (h * hour + m * minute)) (sorted_list_of_set (minutes c)))" for h
    using strict_sorted_list_of_set [of "minutes c"] by (simp add: sorted_wrt_map)
  have "sorted_wrt (<) (concat (map (\<lambda>h. map (\<lambda>m. d * day + (h * hour + m * minute)) (sorted_list_of_set (minutes c))) hs))"
    if "sorted_wrt (<) hs" for hs
    using that
  proof (induction hs)
    case (Cons h hs)
    have "d * day + (h * hour + m1 * minute) < d * day + (h' * hour + m2 * minute)"
      if "h' \<in> set hs" "m1 \<in> minutes c" "m2 \<in> minutes c" for h' m1 m2
    proof -
      have "h + 1 \<le> h'" "m1 \<le> 59" "0 \<le> m2" using Cons.prems that m by auto
      then show ?thesis by linarith
    qed
    with Cons row show ?case
      by (auto simp: sorted_wrt_append fin)
  qed simp
  then show ?thesis using strict_sorted_list_of_set unfolding day_values_def by blast
qed

lemma day_values_less:
  assumes "cron_ok c" and "l \<in> set (day_values c d)" and "l' \<in> set (day_values c d')" and "d < d'"
  shows "l < l'"
proof -
  have "l div day = d" and "l' div day = d'"
    using day_values_date [OF assms(1,2)] day_values_date [OF assms(1,3)] by (simp_all add: date_of_def)
  then show ?thesis
    using assms(4) by (metis linorder_not_less zdiv_mono1 zero_less_numeral)
qed

lemma first_candidate_first:
  assumes "zone_regular z" and "sorted_wrt (<) ls"
    and "first_candidate z after ls = Some t"
    and "l \<in> set ls" and "valid_utc_candidates z l = u # us" and "after < u"
  shows "t \<le> u"
  using assms(2-4)
proof (induction ls)
  case (Cons a ls)
  show ?case
  proof (cases "first_candidate z after [a]")
    case None
    then have "l \<noteq> a" and "first_candidate z after ls = Some t"
      using Cons.prems assms(5,6) by (auto split: list.splits if_splits)
    then show ?thesis using Cons by simp
  next
    case (Some v)
    then obtain cs where v: "valid_utc_candidates z a = v # cs" and "t = v"
      using Cons.prems by (auto split: list.splits if_splits)
    moreover have "l = a \<or> a < l" using Cons.prems by auto
    ultimately show ?thesis
      using zone_regular_less [OF assms(1) _ v assms(5)] assms(5) by fastforce
  qed
qed simp

lemma first_candidate_None:
  "first_candidate z after ls = None \<Longrightarrow> l \<in> set ls \<Longrightarrow> valid_utc_candidates z l = u # us \<Longrightarrow> u \<le> after"
  by (induction ls) (auto split: list.splits if_splits)

lemma first_candidate_Some_value:
  "first_candidate z after ls = Some t \<Longrightarrow>
     \<exists>l \<in> set ls. \<exists>cs. valid_utc_candidates z l = t # cs"
  by (induction ls) (auto split: list.splits if_splits)

lemma cron_search_first:
  assumes z: "zone_regular z" and c: "cron_ok c"
    and u: "valid_utc_candidates z l = u # us" "after < u" "l \<in> set (day_values c d')" "day_matches c d'"
    and "cron_search z c until after Y d = Inr (Some t)" and "d \<le> d'"
  shows "t \<le> u"
  using assms
proof (induction z c until after Y d rule: cron_search.induct)
  case (1 z c until after Y d)
  show ?case
  proof (cases "if day_matches c d then first_candidate z after (day_values c d) else None")
    case None
    with "1.prems" have *: "year_of d \<le> Y"
      "\<not> (case until of None \<Rightarrow> False | Some u \<Rightarrow> date_of (to_local z u) < d)"
      "cron_search z c until after Y (d + 1) = Inr (Some t)"
      by (simp_all add: cron_search.simps [of _ _ _ _ _ d] split: if_splits)
    have "d \<noteq> d'"
      using None "1.prems"(3-6) first_candidate_None [of z after "day_values c d'" l u us]
      by auto
    then show ?thesis
      using "1.IH" [OF *(1,2) None "1.prems"(1-6) *(3)] "1.prems"(8) by simp
  next
    case (Some v)
    then have v: "first_candidate z after (day_values c d) = Some v"
      by (auto split: if_splits)
    have "v = t"
      using "1.prems"(7) Some by (simp add: cron_search.simps [of _ _ _ _ _ d] split: if_splits)
    show ?thesis
    proof (cases "d = d'")
      case True
      then show ?thesis
        using first_candidate_first [OF "1.prems"(1) day_values_sorted v] "1.prems" \<open>v = t\<close> by blast
    next
      case False
      obtain l' cs where "l' \<in> set (day_values c d)" and l': "valid_utc_candidates z l' = t # cs"
        using first_candidate_Some_value [OF v] \<open>v = t\<close> by blast
      then have "l' < l"
        using day_values_less [OF "1.prems"(2) _ "1.prems"(5)] False "1.prems"(8) by simp
      then show ?thesis
        using zone_regular_less [OF "1.prems"(1) _ l' "1.prems"(3)] by simp
    qed
  qed
qed


lemma interval_step:
  assumes "0 < e" and "s \<le> a"
  shows "a < s + max 1 ((a - s) div e + 1) * (e :: int)"
    and "\<And>j. 0 \<le> j \<Longrightarrow> a < s + j * e \<Longrightarrow> s + max 1 ((a - s) div e + 1) * e \<le> s + j * e"
proof -
  have q: "0 \<le> (a - s) div e" using assms by (simp add: pos_imp_zdiv_nonneg_iff)
  have "a - s < ((a - s) div e + 1) * e"
    using assms(1) by (metis add.commute div_mult_mod_eq  pos_mod_bound distrib_right mult_1 add_less_cancel_left)
  with q show "a < s + max 1 ((a - s) div e + 1) * e" by (simp add: max_def)
  fix j :: int
  assume "0 \<le> j" and "a < s + j * e"
  then have "(a - s) div e < j"
    using assms(1) by (smt (verit) div_times_le mult_right_mono)
  then have "max 1 ((a - s) div e + 1) \<le> j" using q by simp
  then show "s + max 1 ((a - s) div e + 1) * e \<le> s + j * e"
    using assms(1) by simp
qed

lemma next_occurrence_after:
  assumes "valid_schedule s" and "next_occurrence zones s a = Inr (Some t)"
  shows "a < t"
proof (cases "kind s")
  case (OnceSchedule at)
  with assms show ?thesis by (auto simp: next_occurrence_def split: if_splits)
next
  case (IntervalSchedule e st)
  then have e: "0 < e * second" using assms(1) by (simp add: valid_schedule_def)
  show ?thesis
    using IntervalSchedule assms(2) interval_step(1) [OF e, of st a]
    by (auto simp: next_occurrence_def Let_def mult.assoc split: if_splits)
next
  case (CronSchedule ex tz)
  with assms(2) show ?thesis
    by (auto simp: next_occurrence_def Let_def split: sum.splits option.splits dest!: cron_search_sound)
qed

lemma next_run_after_in_active_period:
  assumes "valid_schedule s" and "next_run_after zones s after = Inr (Some t)"
  shows "after < t" and "\<And>f. active_from s = Some f \<Longrightarrow> f \<le> t" and "\<And>u. active_until s = Some u \<Longrightarrow> t < u"
proof -
  let ?a = "case active_from s of Some f \<Rightarrow> if after < f then f - microsecond else after | None \<Rightarrow> after"
  have "next_occurrence zones s ?a = Inr (Some t)" and u: "\<And>u. active_until s = Some u \<Longrightarrow> t < u"
    using assms(2) by (auto simp: next_run_after_def split: option.splits if_splits sum.splits)
  then have "?a < t" using assms(1) by (blast intro: next_occurrence_after)
  then show "after < t" and "\<And>f. active_from s = Some f \<Longrightarrow> f \<le> t"
    by (auto split: option.splits if_splits)
  show "\<And>u. active_until s = Some u \<Longrightarrow> t < u" by (rule u)
qed

lemma preview_loop_sorted:
  assumes "valid_schedule s"
  shows "preview_loop zones s n cursor = Inr ts \<Longrightarrow>
    sorted_wrt (<) (cursor # ts) \<and> length ts \<le> n \<and>
    (\<forall>t \<in> set ts. (\<forall>f. active_from s = Some f \<longrightarrow> f \<le> t) \<and> (\<forall>u. active_until s = Some u \<longrightarrow> t < u))"
proof (induction n arbitrary: cursor ts)
  case (Suc n)
  show ?case
  proof (cases ts)
    case (Cons c rest)
    then have c: "next_run_after zones s cursor = Inr (Some c)" and r: "preview_loop zones s n c = Inr rest"
      using Suc.prems by (auto split: sum.splits option.splits)
    show ?thesis
      using Suc.IH [OF r] next_run_after_in_active_period [OF assms c] Cons by auto
  qed simp
qed simp


definition in_active_period :: "schedule \<Rightarrow> time \<Rightarrow> bool" where
  "in_active_period s t \<longleftrightarrow>
     (\<forall>f. active_from s = Some f \<longrightarrow> f \<le> t) \<and> (\<forall>u. active_until s = Some u \<longrightarrow> t < u)"

lemma next_run_after_active: "valid_schedule s \<Longrightarrow> next_run_after zones s after = Inr (Some t) \<Longrightarrow> in_active_period s t"
  unfolding in_active_period_def using next_run_after_in_active_period by blast

lemma scan_due_spec:
  assumes "valid_schedule s" and "scan_due zones s now_utc n cursor acc = Inr ts"
  shows "\<exists>new. ts = acc @ new \<and> sorted_wrt (<) (cursor # new) \<and>
      (\<forall>t \<in> set new. t \<le> now_utc \<and> in_active_period s t)"
  using assms
proof (induction zones s now_utc n cursor acc rule: scan_due.induct)
  case (1 zones s now_utc n cursor acc)
  then have n: "\<not> n \<le> 0" by (auto simp: scan_due.simps [of _ _ _ n])
  with "1.prems" obtain r where r: "next_run_after zones s cursor = Inr r"
    by (auto simp: scan_due.simps [of _ _ _ n] split: sum.splits)
  show ?case
  proof (cases "\<exists>c. r = Some c \<and> c \<le> now_utc")
    case True
    then obtain c where c: "r = Some c" "\<not> now_utc < c" by auto
    then have "scan_due zones s now_utc (n - 1) c (acc @ [c]) = Inr ts"
      using "1.prems" r n by (simp add: scan_due.simps [of _ _ _ n])
    from "1.IH" [OF n r c "1.prems"(1) this] obtain new where new: "ts = acc @ c # new"
      "sorted_wrt (<) (c # new)" "\<forall>t \<in> set new. t \<le> now_utc \<and> in_active_period s t" by auto
    then show ?thesis
      using next_run_after_in_active_period(1) [OF "1.prems"(1)] next_run_after_active [OF "1.prems"(1)] r c
      by (intro exI [of _ "c # new"]) fastforce
  next
    case False
    then show ?thesis
      using "1.prems" r n by (auto simp: scan_due.simps [of _ _ _ n] split: option.splits if_splits)
  qed
qed

lemma latest_interval_due_bounds:
  assumes "0 < e" and "f \<le> n"
  shows "f \<le> latest_interval_due e f n \<and> latest_interval_due e f n \<le> n"
proof -
  have "0 \<le> (n - f) div (e * second)" using assms by (simp add: pos_imp_zdiv_nonneg_iff)
  moreover have "(n - f) div (e * second) * (e * second) \<le> n - f"
    using assms(1) by (intro div_times_le) simp
  ultimately show ?thesis
    using assms(1) by (simp add: latest_interval_due_def Let_def mult.assoc)
qed

definition oldest_allowed :: "misfire_policy \<Rightarrow> time \<Rightarrow> time" where
  "oldest_allowed p now =
     (if mf_mode p = SKIP then now - mf_grace p else now - mf_catch_up_window p)"

definition most_due :: "misfire_policy \<Rightarrow> int" where
  "most_due p = (if mf_mode p = CATCH_UP then mf_max_catch_up p else 1)"

definition materialized_ok :: "schedule \<Rightarrow> misfire_policy \<Rightarrow> time \<Rightarrow> materialized \<Rightarrow> bool" where
  "materialized_ok s p now m \<longleftrightarrow>
     sorted_wrt (<) (due_at m) \<and> int (length (due_at m)) \<le> most_due p \<and>
     (\<forall>t \<in> set (due_at m). oldest_allowed p now \<le> t \<and> t \<le> now \<and> in_active_period s t) \<and>
     (\<forall>t. next_run_at m = Some t \<longrightarrow> now < t \<and> in_active_period s t)"

lemma materialize_scan_ok:
  assumes s: "valid_schedule s" and p: "misfire_post_init p = None" "mf_mode p \<noteq> SKIP"
    and fut: "\<And>t. future = Some t \<Longrightarrow> now < t \<and> in_active_period s t"
    and m: "materialize_scan zones s p first_due now future = Inr m"
  shows "materialized_ok s p now m"
proof -
  let ?start = "max first_due (now - mf_catch_up_window p)"
  obtain ts where ts: "scan_due zones s now MAX_MISFIRE_SCAN (?start - microsecond) [] = Inr ts"
    and due: "due_at m = (if mf_mode p = LATEST then drop (length ts - 1) ts
                    else take (nat (mf_max_catch_up p)) ts)" and nx: "next_run_at m = future"
    using m by (auto simp: materialize_scan_def Let_def split: sum.splits)
  from scan_due_spec [OF s ts] have ts: "sorted_wrt (<) ts"
    "\<forall>t \<in> set ts. ?start \<le> t \<and> t \<le> now \<and> in_active_period s t" by auto
  have sub: "set (due_at m) \<subseteq> set ts" and "sorted_wrt (<) (due_at m)"
    using due ts(1) by (auto dest: in_set_takeD in_set_dropD intro: sorted_wrt_take sorted_wrt_drop)
  moreover have "int (length (due_at m)) \<le> most_due p"
    using p(1) due by (auto simp: most_due_def misfire_post_init_def split: if_splits)
      (use p(2) misfire_mode.exhaust in blast)+
  moreover have "\<forall>t \<in> set (due_at m). oldest_allowed p now \<le> t"
    using sub ts(2) p(2) by (auto simp: oldest_allowed_def)
  ultimately show ?thesis
    using sub ts(2) fut by (auto simp: materialized_ok_def nx)
qed

lemma materialize_due_ok:
  assumes s: "valid_schedule s" and p: "misfire_post_init p = None"
    and f: "first_due \<le> now" "in_active_period s first_due"
    and m: "materialize_due zones s p first_due now = Inr m"
  shows "materialized_ok s p now m"
proof -
  obtain future where fut: "next_run_after zones s now = Inr future"
    using m by (auto simp: materialize_due_def split: sum.splits)
  have nx: "now < t \<and> in_active_period s t" if "future = Some t" for t
    using fut that next_run_after_in_active_period(1) [OF s] next_run_after_active [OF s] by blast
  consider (skip) "mf_mode p = SKIP"
    | (interval) e st where "mf_mode p = LATEST" "kind s = IntervalSchedule e st"
    | (scan) "mf_mode p \<noteq> SKIP" "materialize_scan zones s p first_due now future = Inr m"
    using m fut by (cases "mf_mode p"; cases "kind s") (auto simp: materialize_due_def Let_def)
  then show ?thesis
  proof cases
    case skip
    then show ?thesis
      using m fut f nx by (auto simp: materialize_due_def Let_def materialized_ok_def most_due_def
          oldest_allowed_def split: if_splits)
  next
    case (interval e st)
    let ?last = "case active_until s of None \<Rightarrow> now | Some u \<Rightarrow> min now (u - microsecond)"
    have "0 < e" using s interval(2) by (simp add: valid_schedule_def)
    moreover have "first_due \<le> ?last"
      using f by (auto simp: in_active_period_def split: option.splits)
    ultimately have b: "first_due \<le> latest_interval_due e first_due ?last"
      "latest_interval_due e first_due ?last \<le> ?last"
      using latest_interval_due_bounds by blast+
    then have "in_active_period s (latest_interval_due e first_due ?last)"
      and "latest_interval_due e first_due ?last \<le> now"
      using f(2) by (auto simp: in_active_period_def split: option.splits)
    then show ?thesis
      using m fut interval nx by (auto simp: materialize_due_def Let_def materialized_ok_def most_due_def
          oldest_allowed_def)
  next
    case scan
    then show ?thesis using materialize_scan_ok [OF s p] nx by blast
  qed
qed

lemma materialize_schedule_ok_aux:
  assumes s: "valid_schedule s" and p: "misfire_post_init p = None"
    and m: "materialize_schedule zones s wakeup now p = Inr m"
  shows "materialized_ok s p now m"
proof -
  let ?first = "case active_from s of
              Some f \<Rightarrow> if wakeup < f then next_run_after zones s (wakeup - microsecond) else Inr (Some wakeup)
            | None \<Rightarrow> Inr (Some wakeup)"
  have mo: "1 \<le> most_due p" using p by (auto simp: most_due_def misfire_post_init_def split: if_splits)
  show ?thesis
  proof (cases ?first)
    case (Inl e)
    then show ?thesis using m by (simp add: materialize_schedule_def)
  next
    case (Inr r)
    show ?thesis
    proof (cases r)
      case None
      then show ?thesis using m Inr mo by (auto simp: materialize_schedule_def materialized_ok_def)
    next
      case (Some d)
      have from_ok: "f \<le> d" if "active_from s = Some f" for f
        using Inr Some that next_run_after_in_active_period(2) [OF s] by (auto split: if_splits)
      show ?thesis
      proof (cases "(\<exists>u. active_until s = Some u \<and> u \<le> d) \<or> now < d")
        case True
        then show ?thesis
          using m Inr Some mo from_ok
          by (auto simp: materialize_schedule_def materialized_ok_def in_active_period_def
              split: option.splits if_splits)
      next
        case False
        then have "in_active_period s d" and "d \<le> now"
          using from_ok by (auto simp: in_active_period_def)
        moreover have "materialize_due zones s p d now = Inr m"
          using m Inr Some False by (auto simp: materialize_schedule_def split: option.splits if_splits)
        ultimately show ?thesis using materialize_due_ok [OF s p] by blast
      qed
    qed
  qed
qed

lemma factories_valid:
  "schedule_once at f u = Inr s \<Longrightarrow> valid_schedule s"
  "schedule_every a b c d st f u = Inr s \<Longrightarrow> valid_schedule s"
  "schedule_cron zones e tz f u = Inr s \<Longrightarrow> valid_schedule s"
  by (auto simp: schedule_once_def schedule_every_def schedule_cron_def checked_schedule_def
      valid_schedule_def expression_has_five_fields_def Let_def split: option.splits if_splits sum.splits)



lemma cron_search_fires:
  "cron_search z c until after Y d = Inr (Some t) \<Longrightarrow>
     \<exists>d' l cs. day_matches c d' \<and> l \<in> set (day_values c d') \<and> valid_utc_candidates z l = t # cs \<and> after < t"
proof (induction z c until after Y d rule: cron_search.induct)
  case (1 z c until after Y d)
  show ?case
  proof (cases "if day_matches c d then first_candidate z after (day_values c d) else None")
    case None
    with "1.prems" have *: "year_of d \<le> Y"
      "\<not> (case until of None \<Rightarrow> False | Some u \<Rightarrow> date_of (to_local z u) < d)"
      "cron_search z c until after Y (d + 1) = Inr (Some t)"
      by (simp_all add: cron_search.simps [of _ _ _ _ _ d] split: if_splits)
    from "1.IH" [OF *(1,2) None *(3)] show ?thesis .
  next
    case (Some u)
    then have "day_matches c d" and u: "first_candidate z after (day_values c d) = Some u"
      by (auto split: if_splits)
    moreover have "u = t"
      using "1.prems" Some by (simp add: cron_search.simps [of _ _ _ _ _ d] split: if_splits)
    ultimately show ?thesis
      using first_candidate_Some_value [OF u] first_candidate_Some [OF u] by blast
  qed
qed

lemma zone_regular_date:
  assumes z: "zone_regular z" and u: "valid_utc_candidates z (to_local z u) = u # us" and "after < u"
  shows "date_of (to_local z after) \<le> date_of (to_local z u)"
proof -
  obtain c cs where c: "valid_utc_candidates z (to_local z after) = c # cs" "c \<le> after"
    using zone_regular_own [OF z] by blast
  have "\<not> to_local z u < to_local z after"
    using zone_regular_less [OF z _ u c(1)] c(2) assms(3) by fastforce
  then show ?thesis by (simp add: date_of_def zdiv_mono1)
qed

end
