(* ===== verification/Contracts.thy ===== *)
theory Contracts
  imports Prelude
begin

text \<open>
  Values shared by the packages (\<open>tinkerfin_contracts\<close>). A run identity names one semantic
  run in a conversation of an isolation namespace; Pydantic validates its fields when it is
  constructed, so the identities of the model satisfy \<open>canonical_identity\<close> where a proof
  needs it.
\<close>

record run_identity =
  id_namespace :: py_str
  id_thread :: py_str
  id_run :: py_str

text \<open>The bounds of the fields and \<open>_canonical_identifier\<close>; every string of the model is UTF-8 text.\<close>

definition canonical_identifier :: "nat \<Rightarrow> py_str \<Rightarrow> bool" where
  "canonical_identifier maximum value \<longleftrightarrow>
     value \<noteq> [] \<and> length value \<le> maximum \<and> value = py_strip value"

definition canonical_identity :: "run_identity \<Rightarrow> bool" where
  "canonical_identity i \<longleftrightarrow> canonical_identifier 128 (id_namespace i) \<and>
     canonical_identifier 1024 (id_thread i) \<and> canonical_identifier 1024 (id_run i)"

end
