(* ===== verification/Aut_Models.thy ===== *)
theory Aut_Models
  imports Aut_Schedules Contracts
begin

text \<open>
  The value objects of the automation package: validated text, JSON snapshots, tasks and
  executions (\<open>tinkerfin_automation/models.py\<close>, \<open>_json.py\<close>), query filters
  (\<open>queries.py\<close>) and the data that passes between a store and its workers (\<open>store.py\<close>).
  A dataclass is a record and its \<open>__post_init__\<close> a check that returns the exception it
  raises. The \<open>isinstance\<close> tests of the source hold by typing, strings of the model are
  always valid UTF-8 text, and JSON values are finite trees, so those branches cannot be
  taken here. Copying a JSON container is the identity on values.
\<close>

section \<open>Persisted text and JSON\<close>

definition validate_persisted_text :: "py_str \<Rightarrow> py_str \<Rightarrow> nat option \<Rightarrow> aut_error option" where
  "validate_persisted_text value name maximum =
     (if value = [] \<or> value \<noteq> py_strip value then
        Some (ValueError (name @ '' must be a non-empty canonical value''))
      else if CHR 0x00 \<in> set value then
        Some (ValueError (name @ '' must not contain NUL bytes''))
      else case maximum of
          None \<Rightarrow> None
        | Some n \<Rightarrow>
            if n < length value then Some (ValueError (name @ '' has too many characters''))
            else None)"

text \<open>A double is a finite dyadic number \<open>m * 2 ^ e\<close>, an infinity or NaN.\<close>

datatype py_float = Finite int int | Infinite bool | NaN

fun isfinite :: "py_float \<Rightarrow> bool" where
  "isfinite (Finite m e) = True"
| "isfinite (Infinite neg) = False"
| "isfinite NaN = False"

datatype json =
    JNull
  | JBool bool
  | JInt int
  | JFloat py_float
  | JStr py_str
  | JList "json list"
  | JObject "(py_str \<times> json) list"

type_synonym json_object = "(py_str, json) dict"

fun require_finite_json :: "json \<Rightarrow> aut_error option" where
  "require_finite_json (JFloat x) =
     (if isfinite x then None else Some (ValueError ''Automation JSON numbers must be finite''))"
| "require_finite_json (JObject m) = first_error (map (\<lambda>p. require_finite_json (snd p)) m)"
| "require_finite_json (JList xs) = first_error (map require_finite_json xs)"
| "require_finite_json v = None"

fun finite_json :: "json \<Rightarrow> bool" where
  "finite_json (JFloat x) = isfinite x"
| "finite_json (JObject m) = (\<forall>p \<in> set m. finite_json (snd p))"
| "finite_json (JList xs) = (\<forall>x \<in> set xs. finite_json x)"
| "finite_json v = True"

lemma require_finite_json_None: "require_finite_json v = None \<longleftrightarrow> finite_json v"
  by (induction v rule: finite_json.induct) auto

section \<open>Statuses\<close>

datatype task_status = ENABLED | PAUSED

datatype execution_status =
    QUEUED | RUNNING | INTERRUPTED | CANCEL_REQUESTED
  | SUCCEEDED | FAILED | TIMED_OUT | CANCELLED | NEEDS_ATTENTION

definition is_terminal :: "execution_status \<Rightarrow> bool" where
  "is_terminal status = (status \<in> {SUCCEEDED, FAILED, TIMED_OUT, CANCELLED})"

lemma is_terminal_simps [simp]:
  "is_terminal SUCCEEDED" "is_terminal FAILED" "is_terminal TIMED_OUT" "is_terminal CANCELLED"
  "\<not> is_terminal QUEUED" "\<not> is_terminal RUNNING" "\<not> is_terminal INTERRUPTED"
  "\<not> is_terminal CANCEL_REQUESTED" "\<not> is_terminal NEEDS_ATTENTION"
  by (simp_all add: is_terminal_def)

datatype execution_origin = ORIGIN_SCHEDULED | ORIGIN_MANUAL | ORIGIN_ONE_TIME | ORIGIN_RETRY

datatype attention_resolution = RESOLVED_SUCCEEDED | RESOLVED_FAILED | RESOLVED_CANCELLED

section \<open>Tasks and executions\<close>

record automation_task =
  tk_id :: py_str
  tk_namespace :: py_str
  tk_owner :: py_str
  tk_execution_namespace :: py_str
  tk_name :: py_str
  tk_target :: py_str
  tk_input :: json_object
  tk_schedule :: schedule
  tk_status :: task_status
  tk_revision :: int
  tk_next_run_at :: "time option"
  tk_misfire_policy :: misfire_policy
  tk_limits :: execution_limits
  tk_created_at :: time
  tk_updated_at :: time

definition task_post_init :: "automation_task \<Rightarrow> aut_error option" where
  "task_post_init t = first_error
     [validate_persisted_text (tk_id t) ''task_id'' (Some 36),
      validate_persisted_text (tk_namespace t) ''namespace'' (Some 128),
      validate_persisted_text (tk_owner t) ''owner_id'' (Some 191),
      validate_persisted_text (tk_execution_namespace t) ''execution_namespace'' (Some 128),
      validate_persisted_text (tk_name t) ''name'' (Some 255),
      validate_persisted_text (tk_target t) ''target'' (Some 191),
      require_finite_json (JObject (tk_input t))]"

record automation_execution =
  ex_id :: py_str
  ex_task_id :: "py_str option"
  ex_namespace :: py_str
  ex_owner :: py_str
  ex_identity :: run_identity
  ex_target :: py_str
  ex_input :: json_object
  ex_limits :: execution_limits
  ex_origin :: execution_origin
  ex_status :: execution_status
  ex_attempt :: int
  ex_retry_of :: "py_str option"
  ex_scheduled_for :: "time option"
  ex_queued_at :: time
  ex_queue_deadline :: time
  ex_started_at :: "time option"
  ex_deadline :: "time option"
  ex_finished_at :: "time option"
  ex_failure_code :: "py_str option"
  ex_failure_message :: "py_str option"
  ex_result :: json
  ex_interrupt_ids :: "py_str list"
  ex_start_authorized_at :: "time option"
  ex_start_token :: "py_str option"
  ex_created_at :: time
  ex_updated_at :: time
  ex_task_name :: "py_str option"

text \<open>Validation of an optional text, \<open>None\<close> where the source skips it.\<close>

definition validate_optional_text :: "py_str option \<Rightarrow> py_str \<Rightarrow> nat option \<Rightarrow> aut_error option" where
  "validate_optional_text value name maximum =
     (case value of None \<Rightarrow> None | Some v \<Rightarrow> validate_persisted_text v name maximum)"

definition interrupt_ids_error :: "py_str list \<Rightarrow> aut_error option" where
  "interrupt_ids_error ids =
     first_error (map (\<lambda>i. validate_persisted_text i ''interrupt_ids'' None) ids)"

definition execution_post_init :: "automation_execution \<Rightarrow> aut_error option" where
  "execution_post_init e = first_error
     [validate_optional_text (ex_task_name e) ''task_name'' (Some 255),
      validate_persisted_text (ex_id e) ''execution_id'' (Some 36),
      validate_optional_text (ex_task_id e) ''task_id'' (Some 36),
      validate_persisted_text (ex_namespace e) ''namespace'' (Some 128),
      validate_persisted_text (ex_owner e) ''owner_id'' (Some 191),
      validate_persisted_text (ex_target e) ''target'' (Some 191),
      validate_persisted_text (id_namespace (ex_identity e)) ''identity.namespace'' (Some 128),
      validate_persisted_text (id_thread (ex_identity e)) ''identity.thread_id'' None,
      validate_persisted_text (id_run (ex_identity e)) ''identity.run_id'' None,
      validate_optional_text (ex_retry_of e) ''retry_of'' (Some 36),
      validate_optional_text (ex_failure_code e) ''failure_code'' None,
      validate_optional_text (ex_failure_message e) ''failure_message'' None,
      interrupt_ids_error (ex_interrupt_ids e),
      require_finite_json (JObject (ex_input e)),
      require_finite_json (ex_result e)]"

text \<open>
  \<open>dataclasses.replace\<close> on an execution constructs a new one, so it validates it again.
\<close>

definition replace_execution ::
    "(automation_execution \<Rightarrow> automation_execution) \<Rightarrow> automation_execution \<Rightarrow>
       aut_error + automation_execution" where
  "replace_execution f e =
     (case execution_post_init (f e) of Some err \<Rightarrow> Inl err | None \<Rightarrow> Inr (f e))"

record execution_failure =
  fl_code :: py_str
  fl_message :: py_str

definition failure_post_init :: "execution_failure \<Rightarrow> aut_error option" where
  "failure_post_init f = first_error
     [validate_persisted_text (fl_code f) ''code'' None,
      validate_persisted_text (fl_message f) ''message'' None]"

record task_page =
  tp_items :: "automation_task list"
  tp_next_cursor :: "py_str option"

record execution_page =
  ep_items :: "automation_execution list"
  ep_next_cursor :: "py_str option"

section \<open>Query filters\<close>

definition validate_name :: "py_str option \<Rightarrow> aut_error option" where
  "validate_name value =
     (case value of None \<Rightarrow> None
      | Some v \<Rightarrow>
          if 255 < length v \<or> CHR 0x00 \<in> set v then
            Some (ValueError ''name_contains must be at most 255 characters without NUL'')
          else None)"

record task_filter =
  tf_name_contains :: "py_str option"
  tf_statuses :: "task_status list"

definition task_filter_post_init :: "task_filter \<Rightarrow> aut_error option" where
  "task_filter_post_init f = validate_name (tf_name_contains f)"

record execution_filter =
  ef_name_contains :: "py_str option"
  ef_statuses :: "execution_status list"
  ef_queued_from :: "time option"
  ef_queued_until :: "time option"

definition execution_filter_post_init :: "execution_filter \<Rightarrow> aut_error option" where
  "execution_filter_post_init f = first_error
     [validate_name (ef_name_contains f),
      (case (ef_queued_from f, ef_queued_until f) of
         (Some a, Some b) \<Rightarrow>
           if b \<le> a then Some (ValueError ''queued_from must precede queued_until'') else None
       | _ \<Rightarrow> None)]"

section \<open>Data shared by stores and workers\<close>

datatype work_kind = EXECUTE | EXPIRE_INTERRUPT

text \<open>What a committed command returned: a task, an execution or a deleted identifier.\<close>

datatype command_result =
    TaskResult automation_task
  | ExecutionResult automation_execution
  | TextResult py_str

record command_receipt =
  rc_input_digest :: py_str
  rc_result :: command_result

record work_item_claim =
  cl_work_item_id :: py_str
  cl_namespace :: py_str
  cl_execution_id :: py_str
  cl_kind :: work_kind
  cl_claim_token :: py_str
  cl_fence :: int
  cl_lease_until :: time

text \<open>The next check delay is a duration; the source divides it into seconds.\<close>

record work_claim_batch =
  wb_claims :: "work_item_claim list"
  wb_next_check_after :: "duration option"

record claim_renewal =
  cr_claim :: work_item_claim
  cr_cancellation_requested :: bool

record start_authorization =
  sa_execution :: automation_execution
  sa_start_token :: py_str

record scheduled_execution =
  sx_execution :: automation_execution
  sx_occurrence_key :: py_str

record materialization_result =
  mr_task :: automation_task
  mr_executions :: "automation_execution list"

section \<open>Facts about construction\<close>

lemma validate_persisted_text_None:
  "validate_persisted_text v name m = None \<longleftrightarrow>
     v \<noteq> [] \<and> v = py_strip v \<and> CHR 0x00 \<notin> set v \<and> (case m of None \<Rightarrow> True | Some n \<Rightarrow> length v \<le> n)"
  by (auto simp: validate_persisted_text_def split: option.split)

lemma replace_execution_Inr [simp]:
  "replace_execution f e = Inr e' \<longleftrightarrow> execution_post_init (f e) = None \<and> e' = f e"
  by (auto simp: replace_execution_def split: option.split)

lemma replace_execution_same:
  "execution_post_init e = None \<Longrightarrow> execution_post_init (f e) = execution_post_init e \<Longrightarrow>
     replace_execution f e = Inr (f e)"
  by simp

end
