(* ===== verification/Aut_Rules.thy ===== *)
theory Aut_Rules
  imports Aut_Models
begin

text \<open>
  The state changes every automation store applies (\<open>tinkerfin_automation/_rules.py\<close>),
  one definition per rule in the order of the file. A rule computes from the facts and the
  time the store read; it returns the transition to commit or the exception it raises. The
  second half proves what each rule does to an execution: which statuses it leaves and
  enters, when it releases capacity, and that an execution stays a valid value.
\<close>

datatype complete_work = NO_WORK | CURRENT_WORK | ALL_WORK

record execution_transition =
  tr_execution :: automation_execution
  tr_complete_work :: complete_work
  tr_release_capacity :: bool
  tr_deadline_work_at :: "time option"

text \<open>The sum of an instant and a duration, which raises when it leaves the range of \<open>datetime\<close>.\<close>

definition plus_time :: "time \<Rightarrow> duration \<Rightarrow> aut_error + time" where
  "plus_time t d =
     (if in_datetime (t + d) then Inr (t + d) else Inl (OverflowError ''date value out of range''))"

definition require_task_revision :: "automation_task \<Rightarrow> int option \<Rightarrow> aut_error option" where
  "require_task_revision task expected_revision =
     (case expected_revision of
        None \<Rightarrow> None
      | Some r \<Rightarrow>
          if r < 1 then Some (ValueError ''expected_revision must be positive'')
          else if tk_revision task \<noteq> r then Some (TaskConflictError (tk_id task))
          else None)"

definition execution_scope :: "automation_execution \<Rightarrow> py_str \<times> py_str" where
  "execution_scope execution =
     (case ex_task_id execution of
        None \<Rightarrow> (''owner'', ex_owner execution)
      | Some task_id \<Rightarrow> (''task'', task_id))"

definition same_execution_scope :: "automation_execution \<Rightarrow> automation_execution \<Rightarrow> bool" where
  "same_execution_scope candidate execution \<longleftrightarrow>
     ex_namespace candidate = ex_namespace execution \<and>
     execution_scope candidate = execution_scope execution"

definition materialization_is_current :: "automation_task \<Rightarrow> automation_task \<Rightarrow> time \<Rightarrow> bool" where
  "materialization_is_current current proposed expected_next_run_at \<longleftrightarrow>
     tk_next_run_at current = Some expected_next_run_at \<and>
     tk_revision current = tk_revision proposed \<and>
     tk_status current = ENABLED"

text \<open>The loop carries the set of keys seen so far.\<close>

fun pending_occurrences :: "scheduled_execution list \<Rightarrow> py_str set \<Rightarrow> scheduled_execution list" where
  "pending_occurrences [] seen = []"
| "pending_occurrences (item # items) seen =
     (if sx_occurrence_key item \<notin> seen
      then item # pending_occurrences items (insert (sx_occurrence_key item) seen)
      else pending_occurrences items seen)"

definition require_queue_capacity :: "int \<Rightarrow> int \<Rightarrow> int \<Rightarrow> py_str \<Rightarrow> aut_error option" where
  "require_queue_capacity queued additional maximum scope_id =
     (if maximum < queued + additional then Some (QueueFullError scope_id) else None)"

definition expire_queued :: "automation_execution \<Rightarrow> time \<Rightarrow> aut_error + execution_transition" where
  "expire_queued execution now =
     map_sum id (\<lambda>e. \<lparr>tr_execution = e, tr_complete_work = CURRENT_WORK,
         tr_release_capacity = True, tr_deadline_work_at = None\<rparr>)
       (replace_execution (\<lambda>e. e\<lparr>ex_status := TIMED_OUT, ex_finished_at := Some now,
          ex_failure_code := Some ''automation.queue_timeout'',
          ex_failure_message := Some ''Execution exceeded its queue deadline'',
          ex_updated_at := now\<rparr>) execution)"

definition unchanged :: "automation_execution \<Rightarrow> complete_work \<Rightarrow> execution_transition" where
  "unchanged execution complete =
     \<lparr>tr_execution = execution, tr_complete_work = complete,
      tr_release_capacity = False, tr_deadline_work_at = None\<rparr>"

definition claim_candidate ::
    "automation_execution \<Rightarrow> work_kind \<Rightarrow> time \<Rightarrow> aut_error + execution_transition option" where
  "claim_candidate execution wkind now =
     (if wkind = EXECUTE then
        if ex_status execution \<noteq> QUEUED then Inr (Some (unchanged execution CURRENT_WORK))
        else if ex_queue_deadline execution \<le> now then map_sum id Some (expire_queued execution now)
        else Inr None
      else if ex_status execution \<noteq> INTERRUPTED then Inr (Some (unchanged execution CURRENT_WORK))
      else Inr None)"

definition authorize_start_rule ::
    "automation_execution \<Rightarrow> work_kind \<Rightarrow> bool \<Rightarrow> time \<Rightarrow> duration \<Rightarrow> py_str \<Rightarrow>
       aut_error + start_authorization" where
  "authorize_start_rule execution wkind admitted now timeout start_token =
     (if wkind \<noteq> EXECUTE then Inl (ClaimLostError ''Only executable work can authorize a target'')
      else if ex_start_authorized_at execution \<noteq> None then
        Inl (StartAlreadyAuthorizedError (ex_id execution))
      else if ex_status execution \<noteq> QUEUED \<or> \<not> admitted then
        Inl (ClaimLostError ''Execution is no longer eligible to start'')
      else case plus_time now timeout of
          Inl e \<Rightarrow> Inl e
        | Inr deadline \<Rightarrow>
            map_sum id (\<lambda>started. \<lparr>sa_execution = started, sa_start_token = start_token\<rparr>)
              (replace_execution (\<lambda>e. e\<lparr>ex_status := RUNNING, ex_started_at := Some now,
                 ex_deadline := Some deadline, ex_start_authorized_at := Some now,
                 ex_start_token := Some start_token, ex_updated_at := now\<rparr>) execution))"

text \<open>\<open>tuple(dict.fromkeys(ids))\<close> keeps the first occurrence of each identifier, in order.\<close>

fun from_keys :: "'a list \<Rightarrow> 'a list" where
  "from_keys [] = []"
| "from_keys (x # xs) = x # filter (\<lambda>y. y \<noteq> x) (from_keys xs)"

definition interrupt_execution ::
    "automation_execution \<Rightarrow> py_str list \<Rightarrow> time \<Rightarrow> aut_error + execution_transition" where
  "interrupt_execution execution interrupt_ids now =
     (if interrupt_ids = [] then Inl (ValueError ''interrupt_ids must not be empty'')
      else case ex_deadline execution of
          None \<Rightarrow> Inl (ClaimLostError ''Execution has no active deadline'')
        | Some deadline \<Rightarrow>
            map_sum id (\<lambda>e. \<lparr>tr_execution = e, tr_complete_work = CURRENT_WORK,
                tr_release_capacity = False, tr_deadline_work_at = Some deadline\<rparr>)
              (replace_execution (\<lambda>e. e\<lparr>ex_status := INTERRUPTED,
                 ex_interrupt_ids := from_keys interrupt_ids, ex_updated_at := now\<rparr>) execution))"

definition finish_execution_rule ::
    "automation_execution \<Rightarrow> execution_status \<Rightarrow> time \<Rightarrow> json \<Rightarrow> py_str option \<Rightarrow> py_str option \<Rightarrow>
       aut_error + execution_transition" where
  "finish_execution_rule execution status now result failure_code failure_message =
     (if \<not> is_terminal status \<and> status \<noteq> NEEDS_ATTENTION then
        Inl (ValueError ''finish status must be terminal or needs_attention'')
      else map_sum id (\<lambda>e. \<lparr>tr_execution = e, tr_complete_work = ALL_WORK,
             tr_release_capacity = is_terminal status, tr_deadline_work_at = None\<rparr>)
        (replace_execution (\<lambda>e. e\<lparr>ex_status := status, ex_result := result,
           ex_failure_code := failure_code, ex_failure_message := failure_message,
           ex_finished_at := (if is_terminal status then Some now else None),
           ex_updated_at := now\<rparr>) execution))"

definition cancel_execution_rule ::
    "automation_execution \<Rightarrow> time \<Rightarrow> aut_error + execution_transition" where
  "cancel_execution_rule execution now =
     (if ex_status execution = NEEDS_ATTENTION then
        Inl (ResolutionNotAllowedError (ex_id execution))
      else if ex_status execution \<in> {QUEUED, INTERRUPTED} then
        map_sum id (\<lambda>e. \<lparr>tr_execution = e, tr_complete_work = ALL_WORK,
            tr_release_capacity = True, tr_deadline_work_at = None\<rparr>)
          (replace_execution (\<lambda>e. e\<lparr>ex_status := CANCELLED, ex_finished_at := Some now,
             ex_updated_at := now\<rparr>) execution)
      else if ex_status execution = RUNNING then
        map_sum id (\<lambda>e. unchanged e NO_WORK)
          (replace_execution (\<lambda>e. e\<lparr>ex_status := CANCEL_REQUESTED, ex_updated_at := now\<rparr>) execution)
      else Inr (unchanged execution NO_WORK))"

definition expire_interrupted ::
    "automation_execution \<Rightarrow> time \<Rightarrow> aut_error + execution_transition" where
  "expire_interrupted execution now =
     (if ex_status execution \<noteq> INTERRUPTED \<or>
         (case ex_deadline execution of None \<Rightarrow> True | Some deadline \<Rightarrow> now < deadline)
      then Inl (ClaimLostError ''Interrupted execution is not due for expiry'')
      else finish_execution_rule execution TIMED_OUT now JNull
        (Some ''automation.execution_timeout'')
        (Some ''Interrupted execution exceeded its deadline''))"

definition resolution_status :: "attention_resolution \<Rightarrow> execution_status" where
  "resolution_status resolution =
     (case resolution of RESOLVED_SUCCEEDED \<Rightarrow> SUCCEEDED | RESOLVED_FAILED \<Rightarrow> FAILED
        | RESOLVED_CANCELLED \<Rightarrow> CANCELLED)"

definition resolve_execution_rule ::
    "automation_execution \<Rightarrow> attention_resolution \<Rightarrow> py_str \<Rightarrow> time \<Rightarrow> aut_error + execution_transition" where
  "resolve_execution_rule execution resolution reason now =
     (if reason = [] \<or> reason \<noteq> py_strip reason then
        Inl (ValueError ''reason must be a non-empty canonical value'')
      else if ex_status execution \<noteq> NEEDS_ATTENTION then
        Inl (ResolutionNotAllowedError (ex_id execution))
      else let status = resolution_status resolution in
        map_sum id (\<lambda>e. \<lparr>tr_execution = e, tr_complete_work = NO_WORK,
            tr_release_capacity = True, tr_deadline_work_at = None\<rparr>)
          (replace_execution (\<lambda>e. e\<lparr>ex_status := status,
             ex_failure_code := (if status = FAILED then Some ''automation.explicit_resolution''
                                 else ex_failure_code e),
             ex_failure_message := (if status = FAILED then Some reason else None),
             ex_finished_at := Some now, ex_updated_at := now\<rparr>) execution))"

definition recover_expired_claim ::
    "automation_execution \<Rightarrow> work_kind \<Rightarrow> time \<Rightarrow> aut_error + execution_transition" where
  "recover_expired_claim execution wkind now =
     (if wkind = EXECUTE \<and> ex_start_authorized_at execution \<noteq> None then
        map_sum id (\<lambda>e. unchanged e CURRENT_WORK)
          (replace_execution (\<lambda>e. e\<lparr>ex_status := NEEDS_ATTENTION,
             ex_failure_code := Some ''automation.claim_lost_after_start'',
             ex_failure_message := Some ''Execution ownership expired after start'',
             ex_updated_at := now\<rparr>) execution)
      else Inr (unchanged execution NO_WORK))"

section \<open>What the rules do to an execution\<close>

text \<open>The identity, scope and input of an execution never change after it was enqueued.\<close>

definition same_identity :: "automation_execution \<Rightarrow> automation_execution \<Rightarrow> bool" where
  "same_identity e e' \<longleftrightarrow>
     ex_id e' = ex_id e \<and> ex_task_id e' = ex_task_id e \<and> ex_namespace e' = ex_namespace e \<and>
     ex_owner e' = ex_owner e \<and> ex_identity e' = ex_identity e \<and> ex_input e' = ex_input e \<and>
     ex_limits e' = ex_limits e \<and> ex_queued_at e' = ex_queued_at e \<and>
     ex_queue_deadline e' = ex_queue_deadline e \<and> ex_created_at e' = ex_created_at e"

lemma same_identity_refl [simp]: "same_identity e e"
  by (simp add: same_identity_def)

lemma same_identity_scope: "same_identity e e' \<Longrightarrow> execution_scope e' = execution_scope e"
  by (simp add: same_identity_def execution_scope_def split: option.split)

text \<open>Updates of the fields that are not validated keep an execution valid.\<close>

lemma valid_replacements:
  assumes "execution_post_init e = None"
  shows "execution_post_init (e\<lparr>ex_status := CANCELLED, ex_finished_at := f, ex_updated_at := now\<rparr>) = None"
    and "execution_post_init (e\<lparr>ex_status := CANCEL_REQUESTED, ex_updated_at := now\<rparr>) = None"
    and "execution_post_init (e\<lparr>ex_status := RUNNING, ex_started_at := a, ex_deadline := d,
      ex_start_authorized_at := b, ex_start_token := t, ex_updated_at := now\<rparr>) = None"
  using assms by (simp_all add: execution_post_init_def)

lemma constant_texts:
  "validate_persisted_text ''automation.queue_timeout'' n None = None"
  "validate_persisted_text ''Execution exceeded its queue deadline'' n None = None"
  "validate_persisted_text ''automation.claim_lost_after_start'' n None = None"
  "validate_persisted_text ''Execution ownership expired after start'' n None = None"
  "validate_persisted_text ''automation.execution_timeout'' n None = None"
  "validate_persisted_text ''Interrupted execution exceeded its deadline'' n None = None"
  "validate_persisted_text ''automation.explicit_resolution'' n None = None"
  by (simp_all add: validate_persisted_text_def py_strip_def py_space_def of_char_def)

text \<open>The failures that the rules record themselves are valid texts.\<close>

lemma valid_constant_failures:
  assumes "execution_post_init e = None"
  shows "execution_post_init (e\<lparr>ex_status := s, ex_finished_at := f,
      ex_failure_code := Some ''automation.queue_timeout'',
      ex_failure_message := Some ''Execution exceeded its queue deadline'', ex_updated_at := now\<rparr>) = None"
    and "execution_post_init (e\<lparr>ex_status := s,
      ex_failure_code := Some ''automation.claim_lost_after_start'',
      ex_failure_message := Some ''Execution ownership expired after start'', ex_updated_at := now\<rparr>) = None"
    and "execution_post_init (e\<lparr>ex_status := s, ex_result := JNull,
      ex_failure_code := Some ''automation.execution_timeout'',
      ex_failure_message := Some ''Interrupted execution exceeded its deadline'',
      ex_finished_at := f, ex_updated_at := now\<rparr>) = None"
  using assms by (simp_all add: execution_post_init_def validate_optional_text_def constant_texts)

lemma expire_queued_ok:
  "execution_post_init e = None \<Longrightarrow> expire_queued e now =
     Inr \<lparr>tr_execution = e\<lparr>ex_status := TIMED_OUT, ex_finished_at := Some now,
        ex_failure_code := Some ''automation.queue_timeout'',
        ex_failure_message := Some ''Execution exceeded its queue deadline'', ex_updated_at := now\<rparr>,
      tr_complete_work = CURRENT_WORK, tr_release_capacity = True, tr_deadline_work_at = None\<rparr>"
  by (simp add: expire_queued_def replace_execution_def valid_constant_failures)

lemma recover_expired_claim_ok:
  "execution_post_init e = None \<Longrightarrow> wkind = EXECUTE \<Longrightarrow> ex_start_authorized_at e \<noteq> None \<Longrightarrow>
     recover_expired_claim e wkind now = Inr (unchanged
       (e\<lparr>ex_status := NEEDS_ATTENTION, ex_failure_code := Some ''automation.claim_lost_after_start'',
        ex_failure_message := Some ''Execution ownership expired after start'',
        ex_updated_at := now\<rparr>) CURRENT_WORK)"
  by (simp add: recover_expired_claim_def replace_execution_def valid_constant_failures)

lemma expire_interrupted_ok:
  "execution_post_init e = None \<Longrightarrow> ex_status e = INTERRUPTED \<Longrightarrow> ex_deadline e = Some d \<Longrightarrow> d \<le> now \<Longrightarrow>
     expire_interrupted e now =
       Inr \<lparr>tr_execution = e\<lparr>ex_status := TIMED_OUT, ex_result := JNull,
          ex_failure_code := Some ''automation.execution_timeout'',
          ex_failure_message := Some ''Interrupted execution exceeded its deadline'',
          ex_finished_at := Some now, ex_updated_at := now\<rparr>,
        tr_complete_work = ALL_WORK, tr_release_capacity = True, tr_deadline_work_at = None\<rparr>"
  using valid_constant_failures(3) [where e = e and s = TIMED_OUT and f = "Some now" and now = now]
  by (simp add: expire_interrupted_def finish_execution_rule_def replace_execution_def)

text \<open>
  The transitions of the rules: from where to where, with which work completed and whether
  capacity is released. \<open>rule_step\<close> collects what the store relies on.
\<close>

definition rule_step :: "automation_execution \<Rightarrow> execution_transition \<Rightarrow> bool" where
  "rule_step e tr \<longleftrightarrow>
     same_identity e (tr_execution tr) \<and>
     (execution_post_init e = None \<longrightarrow> execution_post_init (tr_execution tr) = None) \<and>
     ex_start_authorized_at (tr_execution tr) = ex_start_authorized_at e \<and>
     ex_start_token (tr_execution tr) = ex_start_token e \<and>
     (is_terminal (ex_status (tr_execution tr)) \<and> \<not> is_terminal (ex_status e) \<longrightarrow>
        tr_release_capacity tr) \<and>
     (tr_release_capacity tr \<longrightarrow> is_terminal (ex_status (tr_execution tr))) \<and>
     ex_deadline (tr_execution tr) = ex_deadline e"

lemmas rule_simps = rule_step_def same_identity_def unchanged_def
  replace_execution_def

lemma expire_queued_step: "expire_queued e now = Inr tr \<Longrightarrow> rule_step e tr"
  by (auto simp: expire_queued_def rule_simps split: option.splits)

lemma claim_candidate_step: "claim_candidate e wkind now = Inr (Some tr) \<Longrightarrow> rule_step e tr"
  by (auto simp: claim_candidate_def split: if_splits dest: expire_queued_step)
    (auto simp: rule_simps)

lemma interrupt_execution_step: "interrupt_execution e ids now = Inr tr \<Longrightarrow> rule_step e tr"
  by (auto simp: interrupt_execution_def rule_simps split: option.splits if_splits)

lemma finish_execution_step:
  "finish_execution_rule e status now result failure_code failure_message = Inr tr \<Longrightarrow> rule_step e tr"
  by (auto simp: finish_execution_rule_def rule_simps split: option.splits if_splits)

lemma cancel_execution_step: "cancel_execution_rule e now = Inr tr \<Longrightarrow> rule_step e tr"
  by (auto simp: cancel_execution_rule_def rule_simps split: option.splits if_splits)

lemma expire_interrupted_step: "expire_interrupted e now = Inr tr \<Longrightarrow> rule_step e tr"
  by (auto simp: expire_interrupted_def split: if_splits intro: finish_execution_step)

lemma resolve_execution_step: "resolve_execution_rule e r reason now = Inr tr \<Longrightarrow> rule_step e tr"
  by (auto simp: resolve_execution_rule_def resolution_status_def rule_simps Let_def
      split: option.splits if_splits attention_resolution.splits)

lemma recover_expired_claim_step: "recover_expired_claim e wkind now = Inr tr \<Longrightarrow> rule_step e tr"
  by (auto simp: recover_expired_claim_def rule_simps split: option.splits if_splits)

text \<open>From which status a rule leads to which, and what work it completes.\<close>

lemma expire_queued_cases:
  "expire_queued e now = Inr tr \<Longrightarrow> tr_deadline_work_at tr = None \<and> tr_complete_work tr = CURRENT_WORK \<and>
     ex_status (tr_execution tr) = TIMED_OUT"
  by (auto simp: expire_queued_def replace_execution_def split: option.splits)

lemma claim_candidate_cases:
  "claim_candidate e wkind now = Inr (Some tr) \<Longrightarrow>
     tr_deadline_work_at tr = None \<and> tr_complete_work tr = CURRENT_WORK \<and>
     (tr_execution tr = e \<or>
      wkind = EXECUTE \<and> ex_status e = QUEUED \<and> ex_status (tr_execution tr) = TIMED_OUT)"
  by (auto simp: claim_candidate_def unchanged_def split: if_splits dest: expire_queued_cases)

lemma claim_candidate_None:
  "claim_candidate e wkind now = Inr None \<Longrightarrow>
     (wkind = EXECUTE \<and> ex_status e = QUEUED \<and> now < ex_queue_deadline e) \<or>
     (wkind = EXPIRE_INTERRUPT \<and> ex_status e = INTERRUPTED)"
  by (cases wkind) (auto simp: claim_candidate_def split: if_splits)

lemma finish_execution_cases:
  "finish_execution_rule e status now result failure_code failure_message = Inr tr \<Longrightarrow>
     tr_deadline_work_at tr = None \<and> tr_complete_work tr = ALL_WORK \<and>
     ex_status (tr_execution tr) = status \<and> (is_terminal status \<or> status = NEEDS_ATTENTION)"
  by (auto simp: finish_execution_rule_def replace_execution_def split: if_splits option.splits)

lemma cancel_execution_cases:
  "cancel_execution_rule e now = Inr tr \<Longrightarrow>
     tr_deadline_work_at tr = None \<and> ex_status e \<noteq> NEEDS_ATTENTION \<and>
     (tr_complete_work tr = ALL_WORK \<and> ex_status e \<in> {QUEUED, INTERRUPTED} \<and>
        ex_status (tr_execution tr) = CANCELLED \<or>
      tr_complete_work tr = NO_WORK \<and> ex_status e = RUNNING \<and>
        ex_status (tr_execution tr) = CANCEL_REQUESTED \<or>
      tr_complete_work tr = NO_WORK \<and> tr_execution tr = e \<and> ex_status e \<notin> {QUEUED, INTERRUPTED, RUNNING})"
  by (auto simp: cancel_execution_rule_def replace_execution_def unchanged_def split: if_splits option.splits)

lemma expire_interrupted_cases:
  "expire_interrupted e now = Inr tr \<Longrightarrow> tr_deadline_work_at tr = None \<and>
     tr_complete_work tr = ALL_WORK \<and> ex_status e = INTERRUPTED \<and> ex_status (tr_execution tr) = TIMED_OUT"
  by (auto simp: expire_interrupted_def split: if_splits dest: finish_execution_cases)

lemma resolve_execution_cases:
  "resolve_execution_rule e r reason now = Inr tr \<Longrightarrow> tr_deadline_work_at tr = None \<and>
     tr_complete_work tr = NO_WORK \<and> ex_status e = NEEDS_ATTENTION \<and>
     ex_status (tr_execution tr) = resolution_status r \<and> is_terminal (resolution_status r)"
  by (auto simp: resolve_execution_rule_def replace_execution_def resolution_status_def Let_def
      split: if_splits option.splits attention_resolution.splits)

lemma recover_expired_claim_cases:
  "recover_expired_claim e wkind now = Inr tr \<Longrightarrow> tr_deadline_work_at tr = None \<and>
     \<not> tr_release_capacity tr \<and>
     (tr_complete_work tr = CURRENT_WORK \<and> wkind = EXECUTE \<and> ex_start_authorized_at e \<noteq> None \<and>
        ex_status (tr_execution tr) = NEEDS_ATTENTION \<or>
      tr_complete_work tr = NO_WORK \<and> tr_execution tr = e)"
  by (auto simp: recover_expired_claim_def replace_execution_def unchanged_def split: if_splits option.splits)

lemma interrupt_execution_cases:
  "interrupt_execution e ids now = Inr tr \<Longrightarrow>
     ids \<noteq> [] \<and> ex_deadline e \<noteq> None \<and> tr_deadline_work_at tr = ex_deadline e \<and>
     tr_complete_work tr = CURRENT_WORK \<and> \<not> tr_release_capacity tr \<and>
     ex_status (tr_execution tr) = INTERRUPTED"
  by (auto simp: interrupt_execution_def replace_execution_def split: if_splits option.splits)

end
