(* ===== verification/State_Error.thy ===== *)
theory State_Error
  imports Prelude
begin

text \<open>
  Operations that read and change a state and may raise. An operation maps a state to its
  outcome, \<open>Inl\<close> an exception or \<open>Inr\<close> a result, and the state it leaves behind; a state
  that was changed before an exception is the state left behind, as in Python. \<open>run_with\<close>
  is the weakest precondition of an operation: its equations, collected in \<open>wp\<close>, turn a
  statement about a whole handler into conditions on the state the handler starts from.
\<close>

type_synonym ('s, 'e, 'a) op = "'s \<Rightarrow> ('e + 'a) \<times> 's"

definition ret :: "'a \<Rightarrow> ('s, 'e, 'a) op" where
  "ret a = (\<lambda>s. (Inr a, s))"

definition fail :: "'e \<Rightarrow> ('s, 'e, 'a) op" where
  "fail e = (\<lambda>s. (Inl e, s))"

definition bind :: "('s, 'e, 'a) op \<Rightarrow> ('a \<Rightarrow> ('s, 'e, 'b) op) \<Rightarrow> ('s, 'e, 'b) op" where
  "bind m f = (\<lambda>s. case m s of (Inl e, s') \<Rightarrow> (Inl e, s') | (Inr a, s') \<Rightarrow> f a s')"

definition seq :: "('s, 'e, 'a) op \<Rightarrow> ('s, 'e, 'b) op \<Rightarrow> ('s, 'e, 'b) op" where
  "seq m n = bind m (\<lambda>_. n)"

definition gets :: "('s \<Rightarrow> 'a) \<Rightarrow> ('s, 'e, 'a) op" where
  "gets f = (\<lambda>s. (Inr (f s), s))"

definition modify :: "('s \<Rightarrow> 's) \<Rightarrow> ('s, 'e, unit) op" where
  "modify f = (\<lambda>s. (Inr (), f s))"

text \<open>A check that passes with \<open>None\<close>, and a pure computation that may raise.\<close>

definition check :: "'e option \<Rightarrow> ('s, 'e, unit) op" where
  "check c = (\<lambda>s. case c of None \<Rightarrow> (Inr (), s) | Some e \<Rightarrow> (Inl e, s))"

definition lift :: "'e + 'a \<Rightarrow> ('s, 'e, 'a) op" where
  "lift r = (\<lambda>s. (r, s))"

text \<open>The same two, computed from the current state.\<close>

definition check_state :: "('s \<Rightarrow> 'e option) \<Rightarrow> ('s, 'e, unit) op" where
  "check_state f = (\<lambda>s. check (f s) s)"

definition try_gets :: "('s \<Rightarrow> 'e + 'a) \<Rightarrow> ('s, 'e, 'a) op" where
  "try_gets f = (\<lambda>s. lift (f s) s)"

definition if_op :: "bool \<Rightarrow> ('s, 'e, unit) op \<Rightarrow> ('s, 'e, unit) op" where
  "if_op b m = (if b then m else ret ())"

primrec for_each :: "('a \<Rightarrow> ('s, 'e, unit) op) \<Rightarrow> 'a list \<Rightarrow> ('s, 'e, unit) op" where
  "for_each f [] = ret ()"
| "for_each f (x # xs) = seq (f x) (for_each f xs)"

section \<open>Weakest preconditions\<close>

named_theorems wp \<open>weakest preconditions of operations\<close>

definition run_with ::
    "('s, 'e, 'a) op \<Rightarrow> ('a \<Rightarrow> 's \<Rightarrow> bool) \<Rightarrow> ('e \<Rightarrow> 's \<Rightarrow> bool) \<Rightarrow> 's \<Rightarrow> bool" where
  "run_with m Q E s = (case m s of (Inl e, s') \<Rightarrow> E e s' | (Inr a, s') \<Rightarrow> Q a s')"

text \<open>The equations are between predicates on states, so they also rewrite under a binder.\<close>

lemma wp_ret [wp]: "run_with (ret a) Q E = Q a"
  by (rule ext) (simp add: run_with_def ret_def)

lemma wp_fail [wp]: "run_with (fail e) Q E = E e"
  by (rule ext) (simp add: run_with_def fail_def)

lemma wp_bind [wp]: "run_with (bind m f) Q E = run_with m (\<lambda>a. run_with (f a) Q E) E"
  by (rule ext) (auto simp: run_with_def bind_def split: prod.split sum.split)

lemma wp_seq [wp]: "run_with (seq m n) Q E = run_with m (\<lambda>_. run_with n Q E) E"
  by (simp add: seq_def wp_bind)

lemma wp_gets [wp]: "run_with (gets f) Q E = (\<lambda>s. Q (f s) s)"
  by (rule ext) (simp add: run_with_def gets_def)

lemma wp_modify [wp]: "run_with (modify f) Q E = (\<lambda>s. Q () (f s))"
  by (rule ext) (simp add: run_with_def modify_def)

lemma wp_check [wp]: "run_with (check c) Q E = (case c of None \<Rightarrow> Q () | Some e \<Rightarrow> E e)"
  by (rule ext) (simp add: run_with_def check_def split: option.split)

lemma wp_lift [wp]: "run_with (lift r) Q E = (case r of Inl e \<Rightarrow> E e | Inr a \<Rightarrow> Q a)"
  by (rule ext) (simp add: run_with_def lift_def split: sum.split)

lemma wp_check_state [wp]:
  "run_with (check_state f) Q E = (\<lambda>s. case f s of None \<Rightarrow> Q () s | Some e \<Rightarrow> E e s)"
  by (rule ext) (simp add: run_with_def check_state_def check_def split: option.split)

lemma wp_try_gets [wp]:
  "run_with (try_gets f) Q E = (\<lambda>s. case f s of Inl e \<Rightarrow> E e s | Inr a \<Rightarrow> Q a s)"
  by (rule ext) (simp add: run_with_def try_gets_def lift_def)

lemma wp_if_op [wp]: "run_with (if_op b m) Q E = (if b then run_with m Q E else Q ())"
  by (simp add: if_op_def wp_ret)

lemma wp_if [wp]: "run_with (if b then m else n) Q E = (if b then run_with m Q E else run_with n Q E)"
  by simp

lemma wp_option [wp]:
  "run_with (case x of None \<Rightarrow> m | Some a \<Rightarrow> n a) Q E =
     (case x of None \<Rightarrow> run_with m Q E | Some a \<Rightarrow> run_with (n a) Q E)"
  by (simp split: option.split)

lemma wp_for_each_Nil [wp]: "run_with (for_each f []) Q E = Q ()"
  by (simp add: wp)

text \<open>
  The same as introduction rules, for handlers that begin with many guards: each guard leaves
  one obligation for the exception and hands what it established to the rest.
\<close>

named_theorems guards \<open>introduction rules for handlers that start with guards\<close>

lemma guard_check_state [guards]:
  "(\<And>e. f s = Some e \<Longrightarrow> E e s) \<Longrightarrow> (f s = None \<Longrightarrow> run_with m Q E s) \<Longrightarrow>
     run_with (seq (check_state f) m) Q E s"
  by (cases "f s") (simp_all add: wp)

lemma guard_check [guards]:
  "(\<And>e. c = Some e \<Longrightarrow> E e s) \<Longrightarrow> (c = None \<Longrightarrow> run_with m Q E s) \<Longrightarrow> run_with (seq (check c) m) Q E s"
  by (cases c) (simp_all add: wp)

lemma guard_try_gets [guards]:
  "(\<And>e. f s = Inl e \<Longrightarrow> E e s) \<Longrightarrow> (\<And>a. f s = Inr a \<Longrightarrow> run_with (g a) Q E s) \<Longrightarrow>
     run_with (bind (try_gets f) g) Q E s"
  by (cases "f s") (simp_all add: wp)

lemma guard_lift [guards]:
  "(\<And>e. r = Inl e \<Longrightarrow> E e s) \<Longrightarrow> (\<And>a. r = Inr a \<Longrightarrow> run_with (g a) Q E s) \<Longrightarrow>
     run_with (bind (lift r) g) Q E s"
  by (cases r) (simp_all add: wp)

lemma guard_gets [guards]: "run_with (g (f s)) Q E s \<Longrightarrow> run_with (bind (gets f) g) Q E s"
  by (simp add: wp)

lemma guard_option [guards]:
  "(x = None \<Longrightarrow> run_with m Q E s) \<Longrightarrow> (\<And>a. x = Some a \<Longrightarrow> run_with (n a) Q E s) \<Longrightarrow>
     run_with (case x of None \<Rightarrow> m | Some a \<Rightarrow> n a) Q E s"
  by (cases x) simp_all

lemma guard_if [guards]:
  "(b \<Longrightarrow> run_with m Q E s) \<Longrightarrow> (\<not> b \<Longrightarrow> run_with n Q E s) \<Longrightarrow> run_with (if b then m else n) Q E s"
  by simp

lemma guard_ret [guards]: "Q a s \<Longrightarrow> run_with (ret a) Q E s"
  by (simp add: wp)

lemma guard_last_lift [guards]:
  "(\<And>e. r = Inl e \<Longrightarrow> E e s) \<Longrightarrow> (\<And>a. r = Inr a \<Longrightarrow> Q a s) \<Longrightarrow> run_with (lift r) Q E s"
  by (cases r) (simp_all add: wp)

lemma guard_last_try_gets [guards]:
  "(\<And>e. f s = Inl e \<Longrightarrow> E e s) \<Longrightarrow> (\<And>a. f s = Inr a \<Longrightarrow> Q a s) \<Longrightarrow> run_with (try_gets f) Q E s"
  by (cases "f s") (simp_all add: wp)

lemma wp_mono:
  assumes "run_with m Q E s" and "\<And>a s'. Q a s' \<Longrightarrow> Q' a s'" and "\<And>e s'. E e s' \<Longrightarrow> E' e s'"
  shows "run_with m Q' E' s"
  using assms by (auto simp: run_with_def split: prod.splits sum.splits)

text \<open>A loop keeps what each of its iterations keeps.\<close>

lemma wp_for_each:
  assumes "\<And>x s. x \<in> set xs \<Longrightarrow> I s \<Longrightarrow> run_with (f x) (\<lambda>_. I) E s" and "I s"
  shows "run_with (for_each f xs) (\<lambda>_. I) E s"
  using assms(2,1)
proof (induction xs arbitrary: s)
  case (Cons x xs)
  have "run_with (f x) (\<lambda>_. I) E s" using Cons.prems by simp
  then have "run_with (f x) (\<lambda>_. run_with (for_each f xs) (\<lambda>_. I) E) E s"
    by (rule wp_mono) (use Cons in auto)
  then show ?case by (simp add: wp)
qed (simp add: wp)

lemma run_with_result:
  "m s = (Inr a, s') \<Longrightarrow> run_with m Q E s \<Longrightarrow> Q a s'"
  "m s = (Inl e, s') \<Longrightarrow> run_with m Q E s \<Longrightarrow> E e s'"
  by (simp_all add: run_with_def)

lemma run_with_conj:
  "run_with m Q E s \<Longrightarrow> run_with m Q' E' s \<Longrightarrow>
     run_with m (\<lambda>a s'. Q a s' \<and> Q' a s') (\<lambda>e s'. E e s' \<and> E' e s') s"
  by (auto simp: run_with_def split: prod.splits sum.splits)

end
