(* ===== verification/Aut_Memory.thy ===== *)
theory Aut_Memory
  imports Aut_Rules State_Error Py_Strings
begin

text \<open>
  The single-process automation store (\<open>tinkerfin_automation/memory.py\<close>). \<open>mem_store\<close> is
  the object's state; each public method is an operation that runs under the store's lock,
  so it is one atomic step. Clock readings, \<open>secrets.token_hex\<close> and \<open>uuid4\<close> come from
  a \<open>host\<close>: the n-th call returns the n-th value, and the store counts its calls. Work
  items are mutable objects that the source aliases; here they live in \<open>st_work\<close> and are
  named by their identifier. Snapshots copy JSON containers, which is the identity on
  values, but they construct the dataclass again and so validate it again.
\<close>

section \<open>State\<close>

record memory_store_limits =
  max_tasks :: int
  max_executions :: int
  max_work_items :: int
  max_operations :: int

definition memory_limits_post_init :: "memory_store_limits \<Rightarrow> aut_error option" where
  "memory_limits_post_init l = first_error
     [if max_tasks l < 1 then Some (ValueError ''max_tasks must be at least 1'') else None,
      if max_executions l < 1 then Some (ValueError ''max_executions must be at least 1'') else None,
      if max_work_items l < 1 then Some (ValueError ''max_work_items must be at least 1'') else None,
      if max_operations l < 1 then Some (ValueError ''max_operations must be at least 1'') else None]"

datatype work_status = PENDING | CLAIMED | COMPLETED

record work_item =
  wi_id :: py_str
  wi_namespace :: py_str
  wi_execution_id :: py_str
  wi_kind :: work_kind
  wi_available_at :: time
  wi_created_at :: time
  wi_status :: work_status
  wi_worker_id :: "py_str option"
  wi_claim_token :: "py_str option"
  wi_fence :: int
  wi_lease_until :: "time option"

text \<open>A routing fact about a changed resource, keyed by scope, topic and resource.\<close>

record notification =
  nt_scope :: "py_str \<times> py_str"
  nt_topic :: py_str
  nt_key :: py_str
  nt_details :: json_object

type_synonym changes = "((py_str \<times> py_str) \<times> py_str \<times> py_str, notification) dict"

record host =
  hs_now :: "nat \<Rightarrow> time"
  hs_token :: "nat \<Rightarrow> py_str"
  hs_uuid :: "nat \<Rightarrow> py_str"

text \<open>
  \<open>st_changes\<close> is the collector of the mutation that holds the lock and is empty between
  operations; \<open>st_published\<close> lists what was handed to the notification service.
\<close>

record mem_store =
  st_limits :: memory_store_limits
  st_notifies :: bool
  st_tasks :: "(py_str, automation_task) dict"
  st_executions :: "(py_str, automation_execution) dict"
  st_occurrences :: "(py_str \<times> py_str, py_str) dict"
  st_work :: "(py_str, work_item) dict"
  st_work_keys :: "(py_str \<times> py_str \<times> work_kind, py_str) dict"
  st_operations :: "(py_str \<times> py_str \<times> py_str, command_receipt) dict"
  st_scope_allocations :: "(py_str \<times> py_str \<times> py_str, int) dict"
  st_admitted :: "py_str set"
  st_closed :: bool
  st_changes :: changes
  st_published :: "notification list"
  st_clock_reads :: nat
  st_tokens :: nat
  st_uuids :: nat

type_synonym 'a store_op = "(mem_store, aut_error, 'a) op"

definition new_store :: "memory_store_limits \<Rightarrow> bool \<Rightarrow> mem_store" where
  "new_store limits notifies =
     \<lparr>st_limits = limits, st_notifies = notifies, st_tasks = [], st_executions = [],
      st_occurrences = [], st_work = [], st_work_keys = [], st_operations = [],
      st_scope_allocations = [], st_admitted = {}, st_closed = False, st_changes = [],
      st_published = [], st_clock_reads = 0, st_tokens = 0, st_uuids = 0\<rparr>"

definition read_clock :: "host \<Rightarrow> time store_op" where
  "read_clock h = (\<lambda>s. (Inr (hs_now h (st_clock_reads s)), s\<lparr>st_clock_reads := Suc (st_clock_reads s)\<rparr>))"

definition draw_token :: "host \<Rightarrow> py_str store_op" where
  "draw_token h = (\<lambda>s. (Inr (hs_token h (st_tokens s)), s\<lparr>st_tokens := Suc (st_tokens s)\<rparr>))"

definition draw_uuid :: "host \<Rightarrow> py_str store_op" where
  "draw_uuid h = (\<lambda>s. (Inr (hs_uuid h (st_uuids s)), s\<lparr>st_uuids := Suc (st_uuids s)\<rparr>))"

section \<open>Changed resources\<close>

text \<open>
  \<open>_ChangedResources\<close> of \<open>_notifications.py\<close>. The identifiers of validated tasks and
  executions satisfy the stricter bounds of \<open>Notification\<close>, so constructing one does not
  raise.
\<close>

definition add_change :: "notification \<Rightarrow> changes \<Rightarrow> changes" where
  "add_change change = dset (nt_scope change, nt_topic change, nt_key change) change"

definition task_change :: "automation_task \<Rightarrow> notification" where
  "task_change task =
     \<lparr>nt_scope = (tk_namespace task, tk_owner task), nt_topic = ''automation.task.changed'',
      nt_key = tk_id task, nt_details = []\<rparr>"

definition execution_change :: "automation_execution \<Rightarrow> notification" where
  "execution_change execution =
     \<lparr>nt_scope = (ex_namespace execution, ex_owner execution),
      nt_topic = ''automation.execution.changed'', nt_key = ex_id execution,
      nt_details =
        [(''task_id'', case ex_task_id execution of None \<Rightarrow> JNull | Some t \<Rightarrow> JStr t),
         (''runtime_namespace'', JStr (id_namespace (ex_identity execution))),
         (''thread_id'', JStr (id_thread (ex_identity execution))),
         (''run_id'', JStr (id_run (ex_identity execution)))]\<rparr>"

definition record_change :: "notification \<Rightarrow> unit store_op" where
  "record_change change = modify (\<lambda>s. s\<lparr>st_changes := add_change change (st_changes s)\<rparr>)"

text \<open>
  \<open>_mutation\<close>: the collected changes are published only when the body returns. A failed
  delivery is logged and ignored, so it does not show in the store.
\<close>

definition publish :: "mem_store \<Rightarrow> mem_store" where
  "publish s = s\<lparr>st_changes := [],
     st_published := st_published s @ (if st_notifies s then dvals (st_changes s) else [])\<rparr>"

definition mutation :: "'a store_op \<Rightarrow> 'a store_op" where
  "mutation body = (\<lambda>s.
     case body (s\<lparr>st_changes := []\<rparr>) of
       (Inl e, s') \<Rightarrow> (Inl e, s'\<lparr>st_changes := []\<rparr>)
     | (Inr a, s') \<Rightarrow> (Inr a, publish s'))"

section \<open>Guards and lookups\<close>

definition validate_scope :: "py_str \<Rightarrow> py_str \<Rightarrow> aut_error option" where
  "validate_scope namespace owner_id = first_error
     [validate_persisted_text namespace ''namespace'' (Some 128),
      validate_persisted_text owner_id ''owner_id'' (Some 191)]"

definition snapshot_task :: "automation_task \<Rightarrow> aut_error + automation_task" where
  "snapshot_task task = (case task_post_init task of Some e \<Rightarrow> Inl e | None \<Rightarrow> Inr task)"

definition snapshot_execution :: "automation_execution \<Rightarrow> aut_error + automation_execution" where
  "snapshot_execution = replace_execution id"

definition ensure_open :: "unit store_op" where
  "ensure_open = check_state (\<lambda>s.
     if st_closed s then Some (AutomationStoreError ''Memory Automation Store is closed'') else None)"

definition ensure_capacity :: "nat \<Rightarrow> int \<Rightarrow> aut_error option" where
  "ensure_capacity current maximum =
     (if maximum \<le> int current
      then Some (AutomationStoreError ''Memory Automation Store capacity is exhausted'') else None)"

definition find_task :: "py_str \<Rightarrow> py_str \<Rightarrow> py_str \<Rightarrow> mem_store \<Rightarrow> aut_error + automation_task" where
  "find_task namespace owner_id task_id s =
     (case dget (st_tasks s) task_id of
       None \<Rightarrow> Inl (TaskNotFoundError task_id)
     | Some task \<Rightarrow>
         if tk_namespace task \<noteq> namespace \<or> tk_owner task \<noteq> owner_id
         then Inl (TaskNotFoundError task_id) else Inr task)"

definition owned_task :: "py_str \<Rightarrow> py_str \<Rightarrow> py_str \<Rightarrow> automation_task store_op" where
  "owned_task namespace owner_id task_id = try_gets (find_task namespace owner_id task_id)"

definition owned_execution :: "py_str \<Rightarrow> py_str \<Rightarrow> py_str \<Rightarrow> automation_execution store_op" where
  "owned_execution namespace owner_id execution_id = try_gets (\<lambda>s.
     case dget (st_executions s) execution_id of
       None \<Rightarrow> Inl (ExecutionNotFoundError execution_id)
     | Some execution \<Rightarrow>
         if ex_namespace execution \<noteq> namespace \<or> ex_owner execution \<noteq> owner_id
         then Inl (ExecutionNotFoundError execution_id) else Inr execution)"

text \<open>\<open>self._executions[k]\<close>, which raises when the key is missing.\<close>

definition execution_at :: "py_str \<Rightarrow> automation_execution store_op" where
  "execution_at execution_id = try_gets (\<lambda>s.
     case dget (st_executions s) execution_id of
       None \<Rightarrow> Inl (KeyError execution_id) | Some execution \<Rightarrow> Inr execution)"

definition work_at :: "py_str \<Rightarrow> work_item store_op" where
  "work_at work_item_id = try_gets (\<lambda>s.
     case dget (st_work s) work_item_id of
       None \<Rightarrow> Inl (KeyError work_item_id) | Some item \<Rightarrow> Inr item)"

section \<open>Command receipts\<close>

definition operation_result ::
    "py_str \<Rightarrow> py_str \<Rightarrow> py_str option \<Rightarrow> py_str \<Rightarrow> command_result option store_op" where
  "operation_result namespace owner_id request_id input_digest = try_gets (\<lambda>s.
     case request_id of
       None \<Rightarrow> Inr None
     | Some r \<Rightarrow>
         (case dget (st_operations s) (namespace, owner_id, r) of
            None \<Rightarrow> Inr None
          | Some operation \<Rightarrow>
              if rc_input_digest operation \<noteq> input_digest then Inl (RequestConflictError r)
              else Inr (Some (rc_result operation))))"

definition require_operation_capacity :: "py_str option \<Rightarrow> unit store_op" where
  "require_operation_capacity request_id = check_state (\<lambda>s.
     if request_id = None then None
     else ensure_capacity (length (st_operations s)) (max_operations (st_limits s)))"

definition save_operation ::
    "py_str \<Rightarrow> py_str \<Rightarrow> py_str option \<Rightarrow> py_str \<Rightarrow> command_result \<Rightarrow> unit store_op" where
  "save_operation namespace owner_id request_id input_digest result =
     (case request_id of
        None \<Rightarrow> ret ()
      | Some r \<Rightarrow>
          seq (check_state (\<lambda>s. ensure_capacity (length (st_operations s)) (max_operations (st_limits s))))
            (modify (\<lambda>s. s\<lparr>st_operations := dset (namespace, owner_id, r)
               \<lparr>rc_input_digest = input_digest, rc_result = result\<rparr> (st_operations s)\<rparr>)))"

definition expect_task :: "command_result \<Rightarrow> aut_error + automation_task" where
  "expect_task result = (case result of TaskResult task \<Rightarrow> Inr task
     | _ \<Rightarrow> Inl (AutomationStoreError ''Stored operation result has an invalid type''))"

definition expect_execution :: "command_result \<Rightarrow> aut_error + automation_execution" where
  "expect_execution result = (case result of ExecutionResult execution \<Rightarrow> Inr execution
     | _ \<Rightarrow> Inl (AutomationStoreError ''Stored operation result has an invalid type''))"

definition expect_text :: "command_result \<Rightarrow> aut_error + py_str" where
  "expect_text result = (case result of TextResult t \<Rightarrow> Inr t
     | _ \<Rightarrow> Inl (AutomationStoreError ''Stored operation result has an invalid type''))"

section \<open>Work items\<close>

definition reset_claim :: "work_status \<Rightarrow> work_item \<Rightarrow> work_item" where
  "reset_claim status item = item\<lparr>wi_status := status, wi_worker_id := None,
     wi_claim_token := None, wi_lease_until := None\<rparr>"

definition update_item :: "py_str \<Rightarrow> (work_item \<Rightarrow> work_item) \<Rightarrow> unit store_op" where
  "update_item work_item_id f = modify (\<lambda>s. s\<lparr>st_work := dadjust work_item_id f (st_work s)\<rparr>)"

definition work_key :: "automation_execution \<Rightarrow> work_kind \<Rightarrow> py_str \<times> py_str \<times> work_kind" where
  "work_key execution wkind = (ex_namespace execution, ex_id execution, wkind)"

definition work_capacity :: "mem_store \<Rightarrow> aut_error option" where
  "work_capacity s = ensure_capacity (length (st_work s)) (max_work_items (st_limits s))"

definition create_work :: "host \<Rightarrow> automation_execution \<Rightarrow> work_kind \<Rightarrow> time \<Rightarrow> unit store_op" where
  "create_work h execution wkind available_at =
     bind (gets (\<lambda>s. dget (st_work_keys s) (work_key execution wkind))) (\<lambda>existing_id.
       case existing_id of
         Some work_item_id \<Rightarrow>
           bind (work_at work_item_id) (\<lambda>_.
             update_item work_item_id (\<lambda>i. reset_claim PENDING (i\<lparr>wi_available_at := available_at\<rparr>)))
       | None \<Rightarrow>
           seq (check_state work_capacity)
             (bind (draw_uuid h) (\<lambda>work_item_id.
               bind (read_clock h) (\<lambda>created_at.
                 modify (\<lambda>s. s\<lparr>
                   st_work := dset work_item_id
                     \<lparr>wi_id = work_item_id, wi_namespace = ex_namespace execution,
                      wi_execution_id = ex_id execution, wi_kind = wkind,
                      wi_available_at = available_at, wi_created_at = created_at,
                      wi_status = PENDING, wi_worker_id = None, wi_claim_token = None,
                      wi_fence = 0, wi_lease_until = None\<rparr> (st_work s),
                   st_work_keys := dset (work_key execution wkind) work_item_id (st_work_keys s)\<rparr>)))))"

definition complete_execution_work :: "py_str \<Rightarrow> unit store_op" where
  "complete_execution_work execution_id = modify (\<lambda>s. s\<lparr>st_work :=
     dmapv (\<lambda>i. if wi_execution_id i = execution_id then reset_claim COMPLETED i else i) (st_work s)\<rparr>)"

section \<open>Capacity scopes\<close>

definition global_key :: "py_str \<Rightarrow> py_str \<times> py_str \<times> py_str" where
  "global_key namespace = (namespace, ''global'', ''global'')"

definition scope_key :: "automation_execution \<Rightarrow> py_str \<times> py_str \<times> py_str" where
  "scope_key execution = (ex_namespace execution, execution_scope execution)"

definition allocated :: "mem_store \<Rightarrow> py_str \<times> py_str \<times> py_str \<Rightarrow> int" where
  "allocated s k = (case dget (st_scope_allocations s) k of None \<Rightarrow> 0 | Some n \<Rightarrow> n)"

definition allocate :: "py_str \<times> py_str \<times> py_str \<Rightarrow> mem_store \<Rightarrow> mem_store" where
  "allocate k s = s\<lparr>st_scope_allocations := dset k (allocated s k + 1) (st_scope_allocations s)\<rparr>"

definition deallocate :: "py_str \<times> py_str \<times> py_str \<Rightarrow> mem_store \<Rightarrow> mem_store" where
  "deallocate k s = s\<lparr>st_scope_allocations :=
     (if allocated s k \<le> 1 then ddel k (st_scope_allocations s)
      else dset k (allocated s k - 1) (st_scope_allocations s))\<rparr>"

definition reserve_scopes :: "automation_execution \<Rightarrow> int \<Rightarrow> bool store_op" where
  "reserve_scopes execution global_concurrency = (\<lambda>s.
     if ex_id execution \<in> st_admitted s then (Inr True, s)
     else if global_concurrency \<le> allocated s (global_key (ex_namespace execution)) then (Inr False, s)
     else if max_concurrent_runs (ex_limits execution) \<le> allocated s (scope_key execution)
       then (Inr False, s)
     else (Inr True,
       (allocate (scope_key execution) (allocate (global_key (ex_namespace execution)) s))
         \<lparr>st_admitted := insert (ex_id execution) (st_admitted s)\<rparr>))"

definition released :: "automation_execution \<Rightarrow> mem_store \<Rightarrow> mem_store" where
  "released execution s =
     (if ex_id execution \<notin> st_admitted s then s
      else (deallocate (scope_key execution) (deallocate (global_key (ex_namespace execution)) s))
        \<lparr>st_admitted := st_admitted s - {ex_id execution}\<rparr>)"

definition release_scopes :: "automation_execution \<Rightarrow> unit store_op" where
  "release_scopes execution = modify (released execution)"

section \<open>Applying a transition\<close>

definition save_execution :: "automation_execution \<Rightarrow> unit store_op" where
  "save_execution execution =
     seq (modify (\<lambda>s. s\<lparr>st_executions := dset (ex_id execution) execution (st_executions s)\<rparr>))
       (record_change (execution_change execution))"

definition deadline_capacity :: "execution_transition \<Rightarrow> mem_store \<Rightarrow> aut_error option" where
  "deadline_capacity tr s =
     (if tr_deadline_work_at tr \<noteq> None \<and>
         dget (st_work_keys s) (work_key (tr_execution tr) EXPIRE_INTERRUPT) = None
      then work_capacity s else None)"

definition complete_transition_work :: "execution_transition \<Rightarrow> py_str option \<Rightarrow> unit store_op" where
  "complete_transition_work tr item =
     (case tr_complete_work tr of
        ALL_WORK \<Rightarrow> complete_execution_work (ex_id (tr_execution tr))
      | CURRENT_WORK \<Rightarrow>
          (case item of None \<Rightarrow> fail AssertionError
           | Some work_item_id \<Rightarrow> update_item work_item_id (reset_claim COMPLETED))
      | NO_WORK \<Rightarrow> ret ())"

definition apply_transition ::
    "host \<Rightarrow> execution_transition \<Rightarrow> py_str option \<Rightarrow> automation_execution store_op" where
  "apply_transition h tr item =
     seq (check_state (deadline_capacity tr))
       (seq (save_execution (tr_execution tr))
         (seq (complete_transition_work tr item)
           (seq (if_op (tr_release_capacity tr) (release_scopes (tr_execution tr)))
             (seq (case tr_deadline_work_at tr of None \<Rightarrow> ret ()
                   | Some at \<Rightarrow> create_work h (tr_execution tr) EXPIRE_INTERRUPT at)
               (ret (tr_execution tr))))))"

section \<open>Tasks\<close>

definition save_task :: "automation_task \<Rightarrow> unit store_op" where
  "save_task task =
     seq (modify (\<lambda>s. s\<lparr>st_tasks := dset (tk_id task) task (st_tasks s)\<rparr>))
       (record_change (task_change task))"

definition create_task ::
    "automation_task \<Rightarrow> py_str option \<Rightarrow> py_str \<Rightarrow> automation_task store_op" where
  "create_task new_task request_id input_digest =
     bind (lift (snapshot_task new_task)) (\<lambda>task. mutation
       (seq ensure_open
         (bind (operation_result (tk_namespace task) (tk_owner task) request_id input_digest) (\<lambda>previous.
           case previous of
             Some result \<Rightarrow> lift (expect_task result)
           | None \<Rightarrow>
               seq (check_state (\<lambda>s. if dget (st_tasks s) (tk_id task) \<noteq> None
                      then Some (TaskConflictError (tk_id task)) else None))
               (seq (check_state (\<lambda>s. ensure_capacity (length (st_tasks s)) (max_tasks (st_limits s))))
               (seq (require_operation_capacity request_id)
               (seq (save_task task)
               (seq (save_operation (tk_namespace task) (tk_owner task) request_id input_digest
                      (TaskResult task))
                 (ret task)))))))))"

definition update_task ::
    "automation_task \<Rightarrow> int \<Rightarrow> py_str option \<Rightarrow> py_str \<Rightarrow> automation_task store_op" where
  "update_task new_task expected_revision request_id input_digest =
     bind (lift (snapshot_task new_task)) (\<lambda>task. mutation
       (seq ensure_open
         (bind (operation_result (tk_namespace task) (tk_owner task) request_id input_digest) (\<lambda>previous.
           case previous of
             Some result \<Rightarrow> lift (expect_task result)
           | None \<Rightarrow>
               bind (owned_task (tk_namespace task) (tk_owner task) (tk_id task)) (\<lambda>current.
               seq (check (if tk_revision current \<noteq> expected_revision
                      then Some (TaskConflictError (tk_id task)) else None))
               (seq (check (if tk_revision task \<noteq> expected_revision + 1
                      then Some (TaskConflictError (tk_id task)) else None))
               (seq (require_operation_capacity request_id)
               (seq (save_task task)
               (seq (save_operation (tk_namespace task) (tk_owner task) request_id input_digest
                      (TaskResult task))
                 (ret task))))))))))"

text \<open>The loop of \<open>delete_task\<close> over a snapshot of the executions.\<close>

definition cancel_if_queued ::
    "host \<Rightarrow> py_str \<Rightarrow> time \<Rightarrow> automation_execution \<Rightarrow> unit store_op" where
  "cancel_if_queued h task_id now execution =
     (if ex_task_id execution \<noteq> Some task_id \<or> ex_status execution \<noteq> QUEUED then ret ()
      else bind (lift (cancel_execution_rule execution now)) (\<lambda>tr.
        seq (apply_transition h tr None) (ret ())))"

definition delete_task ::
    "host \<Rightarrow> py_str \<Rightarrow> py_str \<Rightarrow> py_str \<Rightarrow> int \<Rightarrow> py_str option \<Rightarrow> py_str \<Rightarrow> unit store_op" where
  "delete_task h namespace owner_id task_id expected_revision request_id input_digest =
     seq (check (validate_scope namespace owner_id)) (mutation
       (seq ensure_open
         (bind (operation_result namespace owner_id request_id input_digest) (\<lambda>previous.
           case previous of
             Some result \<Rightarrow> bind (lift (expect_text result)) (\<lambda>_. ret ())
           | None \<Rightarrow>
               bind (owned_task namespace owner_id task_id) (\<lambda>task.
               seq (check (if tk_revision task \<noteq> expected_revision
                      then Some (TaskConflictError task_id) else None))
               (seq (require_operation_capacity request_id)
               (seq (modify (\<lambda>s. s\<lparr>st_tasks := ddel task_id (st_tasks s)\<rparr>))
               (seq (record_change (task_change task))
               (bind (read_clock h) (\<lambda>now.
               bind (gets (\<lambda>s. dvals (st_executions s))) (\<lambda>executions.
               seq (for_each (cancel_if_queued h task_id now) executions)
                 (save_operation namespace owner_id request_id input_digest
                    (TextResult task_id)))))))))))))"

definition get_task :: "py_str \<Rightarrow> py_str \<Rightarrow> py_str \<Rightarrow> automation_task store_op" where
  "get_task namespace owner_id task_id =
     seq (check (validate_scope namespace owner_id))
       (seq ensure_open (owned_task namespace owner_id task_id))"

definition get_scheduled_task :: "py_str \<Rightarrow> py_str \<Rightarrow> automation_task store_op" where
  "get_scheduled_task namespace task_id =
     seq (check (validate_persisted_text namespace ''namespace'' (Some 128)))
       (seq ensure_open (try_gets (\<lambda>s.
          case dget (st_tasks s) task_id of
            None \<Rightarrow> Inl (TaskNotFoundError task_id)
          | Some task \<Rightarrow>
              if tk_namespace task \<noteq> namespace then Inl (TaskNotFoundError task_id) else Inr task)))"

definition get_command_receipt ::
    "py_str \<Rightarrow> py_str \<Rightarrow> py_str \<Rightarrow> command_receipt option store_op" where
  "get_command_receipt namespace owner_id request_id =
     seq (check (validate_scope namespace owner_id))
       (seq (check (validate_persisted_text request_id ''request_id'' (Some 128)))
         (seq ensure_open (gets (\<lambda>s. dget (st_operations s) (namespace, owner_id, request_id)))))"

section \<open>New executions\<close>

definition occurrence_keys :: "py_str \<Rightarrow> mem_store \<Rightarrow> py_str set" where
  "occurrence_keys namespace s =
     set (map snd (filter (\<lambda>k. fst k = namespace) (dkeys (st_occurrences s))))"

definition queued_for_task :: "py_str \<Rightarrow> mem_store \<Rightarrow> int" where
  "queued_for_task task_id s =
     dcount (\<lambda>e. ex_task_id e = Some task_id \<and> ex_status e = QUEUED) (st_executions s)"

definition queued_in_scope :: "automation_execution \<Rightarrow> mem_store \<Rightarrow> int" where
  "queued_in_scope execution s =
     dcount (\<lambda>e. same_execution_scope e execution \<and> ex_status e = QUEUED) (st_executions s)"

text \<open>Saving one new execution: the fact, its occurrence and its executable work.\<close>

definition admit_execution :: "host \<Rightarrow> py_str \<Rightarrow> py_str \<Rightarrow> automation_execution \<Rightarrow> unit store_op" where
  "admit_execution h namespace occurrence_key execution =
     seq (save_execution execution)
       (seq (modify (\<lambda>s. s\<lparr>st_occurrences :=
              dset (namespace, occurrence_key) (ex_id execution) (st_occurrences s)\<rparr>))
         (create_work h execution EXECUTE (ex_queued_at execution)))"

definition total_capacity :: "nat \<Rightarrow> nat \<Rightarrow> int \<Rightarrow> aut_error option" where
  "total_capacity current additional maximum =
     (if maximum < int current + int additional then ensure_capacity (nat maximum) maximum else None)"

fun snapshot_all :: "scheduled_execution list \<Rightarrow> aut_error + scheduled_execution list" where
  "snapshot_all [] = Inr []"
| "snapshot_all (item # items) =
     (case snapshot_execution (sx_execution item) of
        Inl e \<Rightarrow> Inl e
      | Inr execution \<Rightarrow> map_sum id (\<lambda>rest. item\<lparr>sx_execution := execution\<rparr> # rest) (snapshot_all items))"

definition materialize_task ::
    "host \<Rightarrow> automation_task \<Rightarrow> time \<Rightarrow> scheduled_execution list \<Rightarrow> materialization_result store_op" where
  "materialize_task h new_task expected_next_run_at items =
     bind (lift (snapshot_task new_task)) (\<lambda>task.
     bind (lift (snapshot_all items)) (\<lambda>executions. mutation
       (seq ensure_open
       (bind (owned_task (tk_namespace task) (tk_owner task) (tk_id task)) (\<lambda>current.
         if \<not> materialization_is_current current task expected_next_run_at
         then ret \<lparr>mr_task = current, mr_executions = []\<rparr>
         else
           bind (gets (\<lambda>s. pending_occurrences executions (occurrence_keys (tk_namespace task) s))) (\<lambda>pending.
           seq (check_state (\<lambda>s. require_queue_capacity (queued_for_task (tk_id task) s)
                  (int (length pending)) (max_queued_runs (tk_limits task)) (tk_id task)))
           (seq (check_state (\<lambda>s. total_capacity (length (st_executions s)) (length pending)
                  (max_executions (st_limits s))))
           (seq (check_state (\<lambda>s. total_capacity (length (st_work s)) (length pending)
                  (max_work_items (st_limits s))))
           (seq (save_task task)
           (seq (for_each (\<lambda>item. admit_execution h (tk_namespace task) (sx_occurrence_key item)
                   (sx_execution item)) pending)
             (ret \<lparr>mr_task = task, mr_executions = map sx_execution pending\<rparr>)))))))))))"

text \<open>The task and revision conditions of \<open>enqueue_execution\<close>, which only task-backed work has.\<close>

definition new_work_error :: "automation_execution \<Rightarrow> int option \<Rightarrow> mem_store \<Rightarrow> aut_error option" where
  "new_work_error execution expected_task_revision s =
     (if ex_retry_of execution = None \<and> ex_task_id execution \<noteq> None then
        (case find_task (ex_namespace execution) (ex_owner execution) (the (ex_task_id execution)) s of
           Inl e \<Rightarrow> Some e
         | Inr task \<Rightarrow> require_task_revision task expected_task_revision)
      else if expected_task_revision \<noteq> None then
        Some (ValueError ''expected_task_revision requires new task-backed work'')
      else None)"

definition enqueue_execution ::
    "host \<Rightarrow> automation_execution \<Rightarrow> py_str \<Rightarrow> py_str option \<Rightarrow> py_str \<Rightarrow> int option \<Rightarrow>
       automation_execution store_op" where
  "enqueue_execution h new_execution occurrence_key request_id input_digest expected_task_revision =
     bind (lift (snapshot_execution new_execution)) (\<lambda>execution. mutation
       (seq ensure_open
       (bind (operation_result (ex_namespace execution) (ex_owner execution) request_id input_digest) (\<lambda>previous.
       case previous of Some result \<Rightarrow> lift (expect_execution result) | None \<Rightarrow>
       bind (gets (\<lambda>s. dget (st_occurrences s) (ex_namespace execution, occurrence_key))) (\<lambda>existing_id.
       case existing_id of Some execution_id \<Rightarrow> execution_at execution_id | None \<Rightarrow>
       seq (check (if ex_status execution \<noteq> QUEUED
              then Some (ValueError ''new execution status must be queued'') else None))
       (seq (check_state (\<lambda>s. if dget (st_executions s) (ex_id execution) \<noteq> None
              then Some (RequestConflictError (ex_id execution)) else None))
       (seq (check_state (new_work_error execution expected_task_revision))
       (seq (check_state (\<lambda>s. require_queue_capacity (queued_in_scope execution s) 1
              (max_queued_runs (ex_limits execution))
              (case ex_task_id execution of Some t \<Rightarrow> t | None \<Rightarrow> ex_owner execution)))
       (seq (check_state (\<lambda>s. ensure_capacity (length (st_executions s)) (max_executions (st_limits s))))
       (seq (require_operation_capacity request_id)
       (seq (check_state work_capacity)
       (seq (admit_execution h (ex_namespace execution) occurrence_key execution)
       (seq (save_operation (ex_namespace execution) (ex_owner execution) request_id input_digest
              (ExecutionResult execution))
         (ret execution))))))))))))))"

definition get_execution :: "py_str \<Rightarrow> py_str \<Rightarrow> py_str \<Rightarrow> automation_execution store_op" where
  "get_execution namespace owner_id execution_id =
     seq (check (validate_scope namespace owner_id))
       (seq ensure_open (owned_execution namespace owner_id execution_id))"

definition get_scheduled_execution :: "py_str \<Rightarrow> py_str \<Rightarrow> automation_execution store_op" where
  "get_scheduled_execution namespace execution_id =
     seq (check (validate_persisted_text namespace ''namespace'' (Some 128)))
       (seq ensure_open (try_gets (\<lambda>s.
          case dget (st_executions s) execution_id of
            None \<Rightarrow> Inl (ExecutionNotFoundError execution_id)
          | Some execution \<Rightarrow>
              if ex_namespace execution \<noteq> namespace then Inl (ExecutionNotFoundError execution_id)
              else Inr execution)))"

section \<open>Claims\<close>

definition claim_from :: "work_item \<Rightarrow> aut_error + work_item_claim" where
  "claim_from item =
     (case (wi_claim_token item, wi_lease_until item) of
        (Some token, Some lease) \<Rightarrow> Inr
          \<lparr>cl_work_item_id = wi_id item, cl_namespace = wi_namespace item,
           cl_execution_id = wi_execution_id item, cl_kind = wi_kind item,
           cl_claim_token = token, cl_fence = wi_fence item, cl_lease_until = lease\<rparr>
      | _ \<Rightarrow> Inl AssertionError)"

definition claim_matches :: "work_item_claim \<Rightarrow> time \<Rightarrow> work_item \<Rightarrow> bool" where
  "claim_matches claim now item \<longleftrightarrow>
     wi_namespace item = cl_namespace claim \<and> wi_execution_id item = cl_execution_id claim \<and>
     wi_status item = CLAIMED \<and> wi_claim_token item = Some (cl_claim_token claim) \<and>
     wi_fence item = cl_fence claim \<and>
     (case wi_lease_until item of None \<Rightarrow> False | Some lease \<Rightarrow> now < lease)"

definition valid_claim :: "host \<Rightarrow> work_item_claim \<Rightarrow> work_item store_op" where
  "valid_claim h claim =
     seq ensure_open
       (bind (gets (\<lambda>s. dget (st_work s) (cl_work_item_id claim))) (\<lambda>found.
         bind (read_clock h) (\<lambda>now.
           case found of
             None \<Rightarrow> fail (ClaimLostError (cl_work_item_id claim))
           | Some item \<Rightarrow>
               if claim_matches claim now item then ret item
               else fail (ClaimLostError (cl_work_item_id claim)))))"

text \<open>One item of \<open>_recover_expired_claims\<close>; the loop runs over the values of \<open>_work\<close>.\<close>

definition lease_expired :: "py_str \<Rightarrow> time \<Rightarrow> work_item \<Rightarrow> bool" where
  "lease_expired namespace now item \<longleftrightarrow>
     wi_namespace item = namespace \<and> wi_status item = CLAIMED \<and>
     (case wi_lease_until item of None \<Rightarrow> False | Some lease \<Rightarrow> lease \<le> now)"

definition clear_claim :: "work_item \<Rightarrow> work_item" where
  "clear_claim item = item\<lparr>wi_worker_id := None, wi_claim_token := None, wi_lease_until := None\<rparr>"

definition recover_item :: "host \<Rightarrow> py_str \<Rightarrow> time \<Rightarrow> py_str \<Rightarrow> unit store_op" where
  "recover_item h namespace now work_item_id =
     bind (work_at work_item_id) (\<lambda>item.
       if lease_expired namespace now item then
         bind (execution_at (wi_execution_id item)) (\<lambda>execution.
         bind (lift (recover_expired_claim execution (wi_kind item) now)) (\<lambda>tr.
         seq (apply_transition h tr (Some work_item_id))
         (seq (if_op (tr_complete_work tr = NO_WORK)
                 (update_item work_item_id (\<lambda>i. i\<lparr>wi_status := PENDING\<rparr>)))
           (update_item work_item_id clear_claim))))
       else ret ())"

definition recover_expired_claims :: "host \<Rightarrow> py_str \<Rightarrow> time \<Rightarrow> unit store_op" where
  "recover_expired_claims h namespace now =
     bind (gets (\<lambda>s. dkeys (st_work s))) (for_each (recover_item h namespace now))"

definition claim_candidates :: "py_str \<Rightarrow> time \<Rightarrow> mem_store \<Rightarrow> py_str list" where
  "claim_candidates namespace now s =
     map fst (sort_key (\<lambda>p. (wi_available_at (snd p), wi_created_at (snd p), wi_id (snd p)))
       (filter (\<lambda>p. wi_namespace (snd p) = namespace \<and> wi_status (snd p) = PENDING \<and>
          wi_available_at (snd p) \<le> now) (st_work s)))"

definition claim_item :: "py_str \<Rightarrow> py_str \<Rightarrow> work_item \<Rightarrow> work_item" where
  "claim_item worker_id claim_token item =
     item\<lparr>wi_status := CLAIMED, wi_worker_id := Some worker_id, wi_claim_token := Some claim_token,
       wi_fence := wi_fence item + 1\<rparr>"

text \<open>
  The lease is computed last: when the sum overflows, the exception leaves an item that is
  claimed under a new token and fence and has no lease.
\<close>

definition grant_claim :: "host \<Rightarrow> py_str \<Rightarrow> time \<Rightarrow> duration \<Rightarrow> py_str \<Rightarrow> work_item_claim store_op" where
  "grant_claim h worker_id now lease_duration work_item_id =
     bind (draw_token h) (\<lambda>claim_token.
     seq (update_item work_item_id (claim_item worker_id claim_token))
     (bind (lift (plus_time now lease_duration)) (\<lambda>lease_until.
     seq (update_item work_item_id (\<lambda>i. i\<lparr>wi_lease_until := Some lease_until\<rparr>))
     (bind (work_at work_item_id) (\<lambda>claimed. lift (claim_from claimed))))))"

text \<open>
  One iteration of the loop of \<open>claim_work\<close> that was not stopped by the limit: the claim
  it adds, if it adds one.
\<close>

definition claim_step ::
    "host \<Rightarrow> py_str \<Rightarrow> int \<Rightarrow> duration \<Rightarrow> int \<Rightarrow> time \<Rightarrow> py_str \<Rightarrow> work_item_claim option store_op" where
  "claim_step h worker_id limit lease_duration global_concurrency now work_item_id =
     bind (work_at work_item_id) (\<lambda>item.
     bind (execution_at (wi_execution_id item)) (\<lambda>execution.
     bind (lift (claim_candidate execution (wi_kind item) now)) (\<lambda>transition.
     case transition of
       Some tr \<Rightarrow> seq (apply_transition h tr (Some work_item_id)) (ret None)
     | None \<Rightarrow>
         if limit = 0 then
           if wi_kind item = EXPIRE_INTERRUPT then
             bind (lift (expire_interrupted execution now)) (\<lambda>tr.
               seq (apply_transition h tr (Some work_item_id)) (ret None))
           else ret None
         else
           bind (if wi_kind item = EXECUTE then reserve_scopes execution global_concurrency
                 else ret True) (\<lambda>reserved.
           if \<not> reserved then ret None
           else bind (grant_claim h worker_id now lease_duration work_item_id)
             (\<lambda>claim. ret (Some claim))))))"

primrec claim_loop ::
    "host \<Rightarrow> py_str \<Rightarrow> int \<Rightarrow> duration \<Rightarrow> int \<Rightarrow> time \<Rightarrow> py_str list \<Rightarrow> work_item_claim list \<Rightarrow>
       work_item_claim list store_op" where
  "claim_loop h worker_id limit lease_duration global_concurrency now [] claims = ret claims"
| "claim_loop h worker_id limit lease_duration global_concurrency now (item # items) claims =
     (if 0 < limit \<and> limit \<le> int (length claims) then ret claims
      else bind (claim_step h worker_id limit lease_duration global_concurrency now item) (\<lambda>claim.
        claim_loop h worker_id limit lease_duration global_concurrency now items
          (case claim of None \<Rightarrow> claims | Some c \<Rightarrow> claims @ [c])))"

text \<open>The deadlines one work item adds in \<open>_next_check_delay\<close>.\<close>

definition item_deadlines ::
    "mem_store \<Rightarrow> py_str \<Rightarrow> time \<Rightarrow> bool \<Rightarrow> work_item \<Rightarrow> aut_error + time list" where
  "item_deadlines s namespace now admit item =
     (if wi_namespace item \<noteq> namespace \<or> wi_status item = COMPLETED then Inr []
      else case dget (st_executions s) (wi_execution_id item) of
          None \<Rightarrow> Inl (KeyError (wi_execution_id item))
        | Some execution \<Rightarrow> Inr
            ((if wi_status item = CLAIMED \<and> wi_lease_until item \<noteq> None
              then [the (wi_lease_until item)]
              else if now < wi_available_at item \<and> (admit \<or> wi_kind item = EXPIRE_INTERRUPT)
              then [wi_available_at item] else []) @
             (if wi_status item = PENDING \<and> ex_status execution = QUEUED
              then [ex_queue_deadline execution] else [])))"

fun deadlines_of ::
    "mem_store \<Rightarrow> py_str \<Rightarrow> time \<Rightarrow> bool \<Rightarrow> work_item list \<Rightarrow> aut_error + time list" where
  "deadlines_of s namespace now admit [] = Inr []"
| "deadlines_of s namespace now admit (item # items) =
     (case item_deadlines s namespace now admit item of
        Inl e \<Rightarrow> Inl e
      | Inr ds \<Rightarrow> map_sum id (\<lambda>rest. ds @ rest) (deadlines_of s namespace now admit items))"

definition next_check_delay :: "py_str \<Rightarrow> time \<Rightarrow> bool \<Rightarrow> mem_store \<Rightarrow> aut_error + duration option" where
  "next_check_delay namespace now admit s =
     map_sum id (\<lambda>deadlines. if deadlines = [] then None else Some (max 0 (Min (set deadlines) - now)))
       (deadlines_of s namespace now admit (dvals (st_work s)))"

definition claim_arguments :: "py_str \<Rightarrow> py_str \<Rightarrow> int \<Rightarrow> duration \<Rightarrow> int \<Rightarrow> aut_error option" where
  "claim_arguments namespace worker_id limit lease_duration global_concurrency = first_error
       [validate_persisted_text namespace ''namespace'' (Some 128),
        validate_persisted_text worker_id ''worker_id'' (Some 191),
        if limit < 0 then Some (ValueError ''limit must be non-negative'') else None,
        if lease_duration \<le> 0 then Some (ValueError ''lease_duration must be positive'') else None,
        if global_concurrency < 1 then Some (ValueError ''global_concurrency must be at least 1'') else None]"

definition claim_work ::
    "host \<Rightarrow> py_str \<Rightarrow> py_str \<Rightarrow> int \<Rightarrow> duration \<Rightarrow> int \<Rightarrow> work_claim_batch store_op" where
  "claim_work h namespace worker_id limit lease_duration global_concurrency =
     seq (check (claim_arguments namespace worker_id limit lease_duration global_concurrency))
     (mutation
       (seq ensure_open
       (bind (read_clock h) (\<lambda>now.
       seq (recover_expired_claims h namespace now)
       (bind (gets (claim_candidates namespace now)) (\<lambda>candidates.
       bind (claim_loop h worker_id limit lease_duration global_concurrency now candidates []) (\<lambda>claims.
       bind (if 0 < limit \<and> int (length claims) = limit \<and> length claims < length candidates
             then ret (Some 0)
             else try_gets (next_check_delay namespace now (0 < limit))) (\<lambda>delay.
       ret \<lparr>wb_claims = claims, wb_next_check_after = delay\<rparr>))))))))"

definition renew_claim :: "host \<Rightarrow> work_item_claim \<Rightarrow> duration \<Rightarrow> claim_renewal store_op" where
  "renew_claim h claim lease_duration =
     seq (check (if lease_duration \<le> 0 then Some (ValueError ''lease_duration must be positive'') else None))
     (bind (valid_claim h claim) (\<lambda>item.
      bind (read_clock h) (\<lambda>now.
      bind (lift (plus_time now lease_duration)) (\<lambda>lease_until.
      seq (update_item (cl_work_item_id claim) (\<lambda>i. i\<lparr>wi_lease_until := Some lease_until\<rparr>))
      (bind (work_at (cl_work_item_id claim)) (\<lambda>renewed.
      bind (lift (claim_from renewed)) (\<lambda>new_claim.
      bind (execution_at (wi_execution_id item)) (\<lambda>execution.
      ret \<lparr>cr_claim = new_claim,
           cr_cancellation_requested = (ex_status execution = CANCEL_REQUESTED)\<rparr>))))))))"

definition authorize_start :: "host \<Rightarrow> work_item_claim \<Rightarrow> duration \<Rightarrow> start_authorization store_op" where
  "authorize_start h claim timeout =
     seq (check (if timeout \<le> 0 then Some (ValueError ''execution_timeout must be positive'') else None))
     (mutation
       (bind (valid_claim h claim) (\<lambda>item.
        bind (execution_at (wi_execution_id item)) (\<lambda>execution.
        bind (gets (\<lambda>s. ex_id execution \<in> st_admitted s)) (\<lambda>admitted.
        bind (read_clock h) (\<lambda>now.
        bind (draw_token h) (\<lambda>start_token.
        bind (lift (authorize_start_rule execution (wi_kind item) admitted now timeout start_token)) (\<lambda>authorization.
        seq (save_execution (sa_execution authorization))
          (ret authorization)))))))))"

definition mark_interrupted :: "host \<Rightarrow> work_item_claim \<Rightarrow> py_str list \<Rightarrow> automation_execution store_op" where
  "mark_interrupted h claim interrupt_ids =
     seq (check (if interrupt_ids = [] then Some (ValueError ''interrupt_ids must not be empty'') else None))
     (mutation
       (bind (valid_claim h claim) (\<lambda>item.
        bind (execution_at (wi_execution_id item)) (\<lambda>execution.
        bind (read_clock h) (\<lambda>now.
        bind (lift (interrupt_execution execution interrupt_ids now)) (\<lambda>tr.
        apply_transition h tr (Some (cl_work_item_id claim))))))))"

definition finish_execution ::
    "host \<Rightarrow> work_item_claim \<Rightarrow> execution_status \<Rightarrow> json \<Rightarrow> py_str option \<Rightarrow> py_str option \<Rightarrow>
       automation_execution store_op" where
  "finish_execution h claim status result failure_code failure_message =
     seq (check (if \<not> is_terminal status \<and> status \<noteq> NEEDS_ATTENTION
            then Some (ValueError ''finish status must be terminal or needs_attention'') else None))
     (mutation
       (bind (valid_claim h claim) (\<lambda>item.
        bind (execution_at (wi_execution_id item)) (\<lambda>execution.
        bind (read_clock h) (\<lambda>now.
        bind (lift (finish_execution_rule execution status now result failure_code failure_message)) (\<lambda>tr.
        apply_transition h tr (Some (cl_work_item_id claim))))))))"

section \<open>Commands on an execution\<close>

definition cancel_execution ::
    "host \<Rightarrow> py_str \<Rightarrow> py_str \<Rightarrow> py_str \<Rightarrow> py_str option \<Rightarrow> py_str \<Rightarrow> automation_execution store_op" where
  "cancel_execution h namespace owner_id execution_id request_id input_digest =
     seq (check (validate_scope namespace owner_id)) (mutation
       (seq ensure_open
       (bind (operation_result namespace owner_id request_id input_digest) (\<lambda>previous.
       case previous of Some result \<Rightarrow> lift (expect_execution result) | None \<Rightarrow>
       bind (owned_execution namespace owner_id execution_id) (\<lambda>execution.
       bind (read_clock h) (\<lambda>now.
       bind (lift (cancel_execution_rule execution now)) (\<lambda>tr.
       seq (require_operation_capacity request_id)
       (bind (apply_transition h tr None) (\<lambda>updated.
       seq (save_operation namespace owner_id request_id input_digest (ExecutionResult updated))
         (ret updated))))))))))"

definition resolve_execution ::
    "host \<Rightarrow> py_str \<Rightarrow> py_str \<Rightarrow> py_str \<Rightarrow> attention_resolution \<Rightarrow> py_str \<Rightarrow> py_str \<Rightarrow> py_str \<Rightarrow>
       automation_execution store_op" where
  "resolve_execution h namespace owner_id execution_id resolution request_id input_digest reason =
     seq (check (first_error [validate_scope namespace owner_id,
            validate_persisted_text reason ''reason'' None])) (mutation
       (seq ensure_open
       (bind (operation_result namespace owner_id (Some request_id) input_digest) (\<lambda>previous.
       case previous of Some result \<Rightarrow> lift (expect_execution result) | None \<Rightarrow>
       bind (owned_execution namespace owner_id execution_id) (\<lambda>execution.
       bind (read_clock h) (\<lambda>now.
       bind (lift (resolve_execution_rule execution resolution reason now)) (\<lambda>tr.
       seq (require_operation_capacity (Some request_id))
       (bind (apply_transition h tr None) (\<lambda>updated.
       seq (save_operation namespace owner_id (Some request_id) input_digest (ExecutionResult updated))
         (ret updated))))))))))"

section \<open>Lifecycle\<close>

definition setup_store :: "unit store_op" where
  "setup_store = ensure_open"

definition current_time :: "host \<Rightarrow> time store_op" where
  "current_time h = seq ensure_open (read_clock h)"

definition close_store :: "unit store_op" where
  "close_store = modify (\<lambda>s. s\<lparr>st_closed := True\<rparr>)"

section \<open>Listing\<close>

definition matches_tasks :: "automation_task \<Rightarrow> task_filter \<Rightarrow> bool" where
  "matches_tasks task filters \<longleftrightarrow>
     (case tf_name_contains filters of None \<Rightarrow> True | Some n \<Rightarrow>
        n = [] \<or> py_in (py_casefold n) (py_casefold (tk_name task))) \<and>
     (tf_statuses filters = [] \<or> tk_status task \<in> set (tf_statuses filters))"

definition matches_executions :: "automation_execution \<Rightarrow> execution_filter \<Rightarrow> bool" where
  "matches_executions execution filters \<longleftrightarrow>
     (case ef_name_contains filters of None \<Rightarrow> True | Some n \<Rightarrow>
        n = [] \<or> py_in (py_casefold n)
          (py_casefold (case ex_task_name execution of None \<Rightarrow> [] | Some t \<Rightarrow> t))) \<and>
     (ef_statuses filters = [] \<or> ex_status execution \<in> set (ef_statuses filters)) \<and>
     (case ef_queued_from filters of None \<Rightarrow> True | Some t \<Rightarrow> t \<le> ex_queued_at execution) \<and>
     (case ef_queued_until filters of None \<Rightarrow> True | Some t \<Rightarrow> ex_queued_at execution < t)"

text \<open>
  Cursors (\<open>_query_cursor.py\<close>). The digest of a query and the Pydantic model with its
  Base64 text are parameters: \<open>qc_parse\<close> gives the scope, time and identity of a text, or
  \<open>None\<close> where validation fails.
\<close>

record cursor_codec =
  qc_task_scope :: "py_str \<Rightarrow> py_str \<Rightarrow> task_filter \<Rightarrow> py_str"
  qc_execution_scope :: "py_str \<Rightarrow> py_str \<Rightarrow> execution_filter \<Rightarrow> py_str option \<Rightarrow> py_str"
  qc_encode :: "py_str \<Rightarrow> time \<Rightarrow> py_str \<Rightarrow> py_str"
  qc_parse :: "py_str \<Rightarrow> (py_str \<times> time \<times> py_str) option"

definition decode_cursor ::
    "cursor_codec \<Rightarrow> py_str option \<Rightarrow> py_str \<Rightarrow> aut_error + (time \<times> py_str) option" where
  "decode_cursor codec cursor scope =
     (case cursor of
        None \<Rightarrow> Inr None
      | Some text \<Rightarrow>
          if 2048 < length text then Inl (ValueError ''Invalid pagination cursor'')
          else (case qc_parse codec text of
              None \<Rightarrow> Inl (ValueError ''Invalid pagination cursor'')
            | Some (position_scope, moment, identity) \<Rightarrow>
                if position_scope \<noteq> scope
                then Inl (ValueError ''Pagination cursor belongs to another query'')
                else Inr (Some (moment, identity))))"

definition validate_page_limit :: "int \<Rightarrow> aut_error option" where
  "validate_page_limit limit =
     (if 1 \<le> limit \<and> limit \<le> 100 then None
      else Some (ValueError ''limit must be between 1 and 100''))"

definition task_position :: "automation_task \<Rightarrow> time \<times> py_str" where
  "task_position task = (tk_created_at task, tk_id task)"

definition execution_position :: "automation_execution \<Rightarrow> time \<times> py_str" where
  "execution_position execution = (ex_queued_at execution, ex_id execution)"

text \<open>The cursor of the last item of a full page that has a successor.\<close>

definition page_cursor ::
    "cursor_codec \<Rightarrow> py_str \<Rightarrow> ('a \<Rightarrow> time \<times> py_str) \<Rightarrow> nat \<Rightarrow> 'a list \<Rightarrow> py_str option" where
  "page_cursor codec scope position limit items =
     (if limit < length items then
        let p = position (items ! (limit - 1)) in Some (qc_encode codec scope (fst p) (snd p))
      else None)"

definition list_tasks ::
    "cursor_codec \<Rightarrow> py_str \<Rightarrow> py_str \<Rightarrow> int \<Rightarrow> py_str option \<Rightarrow> task_filter \<Rightarrow> task_page store_op" where
  "list_tasks codec namespace owner_id limit cursor filters =
     seq (check (validate_scope namespace owner_id))
     (seq (check (validate_page_limit limit))
     (bind (lift (decode_cursor codec cursor (qc_task_scope codec namespace owner_id filters))) (\<lambda>position.
     seq ensure_open
     (bind (gets (\<lambda>s. sort_key task_position
        (filter (\<lambda>t. tk_namespace t = namespace \<and> tk_owner t = owner_id \<and> matches_tasks t filters \<and>
           (case position of None \<Rightarrow> True | Some p \<Rightarrow> p < task_position t)) (dvals (st_tasks s))))) (\<lambda>items.
     ret \<lparr>tp_items = take (nat limit) items,
          tp_next_cursor = page_cursor codec (qc_task_scope codec namespace owner_id filters)
            task_position (nat limit) items\<rparr>)))))"

text \<open>\<open>sorted\<close> with \<open>reverse=True\<close> keeps equal keys in their order; positions are distinct.\<close>

definition list_executions ::
    "cursor_codec \<Rightarrow> py_str \<Rightarrow> py_str \<Rightarrow> py_str option \<Rightarrow> int \<Rightarrow> py_str option \<Rightarrow> execution_filter \<Rightarrow>
       execution_page store_op" where
  "list_executions codec namespace owner_id task_id limit cursor filters =
     seq (check (validate_scope namespace owner_id))
     (seq (check (validate_page_limit limit))
     (bind (lift (decode_cursor codec cursor
        (qc_execution_scope codec namespace owner_id filters task_id))) (\<lambda>position.
     seq ensure_open
     (bind (gets (\<lambda>s. rev (sort_key execution_position (rev
        (filter (\<lambda>e. ex_namespace e = namespace \<and> ex_owner e = owner_id \<and> matches_executions e filters \<and>
           (case task_id of None \<Rightarrow> True | Some t \<Rightarrow> ex_task_id e = Some t) \<and>
           (case position of None \<Rightarrow> True | Some p \<Rightarrow> execution_position e < p))
         (dvals (st_executions s))))))) (\<lambda>items.
     ret \<lparr>ep_items = take (nat limit) items,
          ep_next_cursor = page_cursor codec (qc_execution_scope codec namespace owner_id filters task_id)
            execution_position (nat limit) items\<rparr>)))))"

fun page_after :: "automation_task list \<Rightarrow> py_str option \<Rightarrow> nat \<Rightarrow> automation_task list" where
  "page_after items None limit = take (limit + 1) items"
| "page_after [] (Some cursor) limit = []"
| "page_after (item # items) (Some cursor) limit =
     (if tk_id item = cursor then take (limit + 1) items else page_after items (Some cursor) limit)"

definition list_scheduled_tasks :: "py_str \<Rightarrow> int \<Rightarrow> py_str option \<Rightarrow> task_page store_op" where
  "list_scheduled_tasks namespace limit cursor =
     seq (check (validate_persisted_text namespace ''namespace'' (Some 128)))
     (seq (check (validate_page_limit limit))
     (seq ensure_open
     (bind (gets (\<lambda>s. page_after (sort_key task_position
        (filter (\<lambda>t. tk_namespace t = namespace \<and> tk_status t = ENABLED) (dvals (st_tasks s))))
        cursor (nat limit))) (\<lambda>page.
     ret \<lparr>tp_items = take (nat limit) page,
          tp_next_cursor = (if nat limit < length page
            then Some (tk_id (page ! (nat limit - 1))) else None)\<rparr>))))"

fun count_statuses :: "('s, int) dict \<Rightarrow> 's list \<Rightarrow> ('s, int) dict" where
  "count_statuses counts [] = counts"
| "count_statuses counts (status # statuses) =
     count_statuses (dadjust status (\<lambda>n. n + 1) counts) statuses"

definition summarize_tasks ::
    "py_str \<Rightarrow> py_str \<Rightarrow> task_filter \<Rightarrow> (task_status, int) dict store_op" where
  "summarize_tasks namespace owner_id filters =
     seq (check (validate_scope namespace owner_id))
     (seq ensure_open
     (gets (\<lambda>s. count_statuses (map (\<lambda>status. (status, 0)) [ENABLED, PAUSED])
        (map tk_status (filter (\<lambda>t. tk_namespace t = namespace \<and> tk_owner t = owner_id \<and>
           matches_tasks t filters) (dvals (st_tasks s)))))))"

definition summarize_executions ::
    "py_str \<Rightarrow> py_str \<Rightarrow> execution_filter \<Rightarrow> (execution_status, int) dict store_op" where
  "summarize_executions namespace owner_id filters =
     seq (check (validate_scope namespace owner_id))
     (seq ensure_open
     (gets (\<lambda>s. count_statuses
        (map (\<lambda>status. (status, 0)) [QUEUED, RUNNING, INTERRUPTED, CANCEL_REQUESTED, SUCCEEDED,
           FAILED, TIMED_OUT, CANCELLED, NEEDS_ATTENTION])
        (map ex_status (filter (\<lambda>e. ex_namespace e = namespace \<and> ex_owner e = owner_id \<and>
           matches_executions e filters) (dvals (st_executions s)))))))"

end
