(* ===== verification/Aut_Memory_Inv.thy ===== *)
theory Aut_Memory_Inv
  imports Aut_Memory
begin

text \<open>
  The invariant of the single-process store and the relation between an earlier and a later
  state. \<open>mem_inv\<close> ties the dictionaries together: work items to executions and keys,
  statuses to the kinds of work that may still run, allocations to the admitted executions.
  \<open>evolves\<close> states what no operation takes back: executions keep their identity and their
  start authorization, a terminal execution never changes, fences never go down, and
  occurrences and receipts stay. Every operation is shown to keep both, and a failing
  operation to leave all facts as they were.
\<close>

declare split_paired_All [simp del] split_paired_Ex [simp del]

section \<open>The invariant\<close>

text \<open>Which work may still be pending or claimed in which status.\<close>

definition live_work :: "work_kind \<Rightarrow> execution_status \<Rightarrow> bool" where
  "live_work wkind status =
     (case wkind of EXECUTE \<Rightarrow> status \<in> {QUEUED, RUNNING, CANCEL_REQUESTED}
        | EXPIRE_INTERRUPT \<Rightarrow> status = INTERRUPTED)"

definition execution_ok :: "py_str \<Rightarrow> automation_execution \<Rightarrow> bool" where
  "execution_ok execution_id e \<longleftrightarrow>
     ex_id e = execution_id \<and> execution_post_init e = None \<and>
     (ex_status e = QUEUED \<longrightarrow> ex_start_authorized_at e = None \<and> ex_deadline e = None) \<and>
     (ex_status e \<in> {RUNNING, INTERRUPTED, CANCEL_REQUESTED} \<longrightarrow> ex_start_authorized_at e \<noteq> None)"

definition task_ok :: "py_str \<Rightarrow> automation_task \<Rightarrow> bool" where
  "task_ok task_id t \<longleftrightarrow> tk_id t = task_id \<and> task_post_init t = None"

definition item_key :: "work_item \<Rightarrow> py_str \<times> py_str \<times> work_kind" where
  "item_key i = (wi_namespace i, wi_execution_id i, wi_kind i)"

definition item_ok :: "host \<Rightarrow> mem_store \<Rightarrow> py_str \<Rightarrow> work_item \<Rightarrow> bool" where
  "item_ok h s work_item_id i \<longleftrightarrow>
     wi_id i = work_item_id \<and> 0 \<le> wi_fence i \<and>
     work_item_id \<in> hs_uuid h ` {..<st_uuids s} \<and>
     dget (st_work_keys s) (item_key i) = Some work_item_id \<and>
     (wi_status i = CLAIMED \<longrightarrow> wi_claim_token i \<noteq> None) \<and>
     (\<exists>e. dget (st_executions s) (wi_execution_id i) = Some e \<and> ex_namespace e = wi_namespace i \<and>
        (wi_status i \<noteq> COMPLETED \<longrightarrow> live_work (wi_kind i) (ex_status e)) \<and>
        (wi_kind i = EXPIRE_INTERRUPT \<longrightarrow> ex_deadline e = Some (wi_available_at i)))"

definition work_inv :: "host \<Rightarrow> mem_store \<Rightarrow> bool" where
  "work_inv h s \<longleftrightarrow>
     wf_dict (st_work s) \<and> wf_dict (st_work_keys s) \<and>
     (\<forall>w i. dget (st_work s) w = Some i \<longrightarrow> item_ok h s w i) \<and>
     (\<forall>k w. dget (st_work_keys s) k = Some w \<longrightarrow> (\<exists>i. dget (st_work s) w = Some i \<and> item_key i = k))"

definition facts_inv :: "mem_store \<Rightarrow> bool" where
  "facts_inv s \<longleftrightarrow>
     wf_dict (st_tasks s) \<and> wf_dict (st_executions s) \<and> wf_dict (st_occurrences s) \<and>
     wf_dict (st_operations s) \<and>
     (\<forall>k t. dget (st_tasks s) k = Some t \<longrightarrow> task_ok k t) \<and>
     (\<forall>k e. dget (st_executions s) k = Some e \<longrightarrow> execution_ok k e) \<and>
     (\<forall>n k x. dget (st_occurrences s) (n, k) = Some x \<longrightarrow>
        (\<exists>e. dget (st_executions s) x = Some e \<and> ex_namespace e = n))"

definition in_scope :: "mem_store \<Rightarrow> py_str \<times> py_str \<times> py_str \<Rightarrow> py_str \<Rightarrow> bool" where
  "in_scope s k execution_id =
     (case dget (st_executions s) execution_id of
        None \<Rightarrow> False
      | Some e \<Rightarrow> k = global_key (ex_namespace e) \<or> k = scope_key e)"

definition admitted_in :: "mem_store \<Rightarrow> py_str \<times> py_str \<times> py_str \<Rightarrow> py_str set" where
  "admitted_in s k = {x \<in> st_admitted s. in_scope s k x}"

text \<open>Allocation counters equal the admitted executions of their scope, and none is zero.\<close>

definition counts_inv :: "mem_store \<Rightarrow> bool" where
  "counts_inv s \<longleftrightarrow>
     finite (st_admitted s) \<and> wf_dict (st_scope_allocations s) \<and>
     (\<forall>k n. dget (st_scope_allocations s) k = Some n \<longrightarrow> 1 \<le> n) \<and>
     (\<forall>k. allocated s k = int (card (admitted_in s k)))"

definition admitted_inv :: "mem_store \<Rightarrow> bool" where
  "admitted_inv s \<longleftrightarrow>
     (\<forall>x \<in> st_admitted s. \<exists>e. dget (st_executions s) x = Some e \<and> \<not> is_terminal (ex_status e))"

text \<open>The invariant inside a mutation, and between operations.\<close>

definition body_inv :: "host \<Rightarrow> mem_store \<Rightarrow> bool" where
  "body_inv h s \<longleftrightarrow> facts_inv s \<and> work_inv h s \<and> counts_inv s \<and> admitted_inv s"

definition mem_inv :: "host \<Rightarrow> mem_store \<Rightarrow> bool" where
  "mem_inv h s \<longleftrightarrow> body_inv h s \<and> st_changes s = []"

section \<open>What later states keep\<close>

definition keeps_execution :: "automation_execution \<Rightarrow> automation_execution \<Rightarrow> bool" where
  "keeps_execution e e' \<longleftrightarrow>
     same_identity e e' \<and>
     (ex_start_authorized_at e \<noteq> None \<longrightarrow>
        ex_start_authorized_at e' = ex_start_authorized_at e \<and> ex_start_token e' = ex_start_token e) \<and>
     (is_terminal (ex_status e) \<longrightarrow> e' = e)"

definition evolves :: "mem_store \<Rightarrow> mem_store \<Rightarrow> bool" where
  "evolves s s' \<longleftrightarrow>
     (\<forall>k e. dget (st_executions s) k = Some e \<longrightarrow>
        (\<exists>e'. dget (st_executions s') k = Some e' \<and> keeps_execution e e')) \<and>
     (\<forall>w i. dget (st_work s) w = Some i \<longrightarrow>
        (\<exists>i'. dget (st_work s') w = Some i' \<and> item_key i' = item_key i \<and> wi_fence i \<le> wi_fence i')) \<and>
     (\<forall>k r. dget (st_operations s) k = Some r \<longrightarrow> dget (st_operations s') k = Some r) \<and>
     (\<forall>k x. dget (st_occurrences s) k = Some x \<longrightarrow> dget (st_occurrences s') k = Some x) \<and>
     (st_closed s \<longrightarrow> st_closed s') \<and> st_limits s' = st_limits s \<and> st_notifies s' = st_notifies s"

lemma keeps_execution_refl [simp]: "keeps_execution e e"
  by (simp add: keeps_execution_def)

lemma same_identity_trans: "same_identity a b \<Longrightarrow> same_identity b c \<Longrightarrow> same_identity a c"
  by (simp add: same_identity_def)

lemma keeps_execution_trans: "keeps_execution a b \<Longrightarrow> keeps_execution b c \<Longrightarrow> keeps_execution a c"
  unfolding keeps_execution_def using same_identity_trans [of a b c] by metis

lemma evolves_refl [simp, intro]: "evolves s s"
  by (simp add: evolves_def)

lemma evolves_trans [trans]: "evolves s t \<Longrightarrow> evolves t u \<Longrightarrow> evolves s u"
  unfolding evolves_def
  by (elim conjE, intro conjI) (meson keeps_execution_trans, metis order_trans, auto)

lemma evolves_execution:
  "evolves s t \<Longrightarrow> dget (st_executions s) k = Some e \<Longrightarrow>
     \<exists>e'. dget (st_executions t) k = Some e' \<and> keeps_execution e e'"
  unfolding evolves_def by blast

lemma evolves_work:
  "evolves s t \<Longrightarrow> dget (st_work s) w = Some i \<Longrightarrow>
     \<exists>i'. dget (st_work t) w = Some i' \<and> item_key i' = item_key i \<and> wi_fence i \<le> wi_fence i'"
  unfolding evolves_def by blast

lemma evolves_receipt:
  "evolves s t \<Longrightarrow> dget (st_operations s) k = Some r \<Longrightarrow> dget (st_operations t) k = Some r"
  unfolding evolves_def by blast

text \<open>
  Everything of a state but how often the host was asked: what an operation that fails must
  leave alone. The collector of changes is empty between operations.
\<close>

definition facts :: "mem_store \<Rightarrow> mem_store" where
  "facts s = s\<lparr>st_changes := [], st_clock_reads := 0, st_tokens := 0, st_uuids := 0\<rparr>"

section \<open>Capacity accounting\<close>

lemma global_key_not_scope [simp]: "global_key n \<noteq> scope_key e" "scope_key e \<noteq> global_key n"
  by (auto simp: global_key_def scope_key_def execution_scope_def split: option.splits)

lemma allocate_simps [simp]:
  "st_limits (allocate k s) = st_limits s" "st_notifies (allocate k s) = st_notifies s"
  "st_tasks (allocate k s) = st_tasks s" "st_executions (allocate k s) = st_executions s"
  "st_occurrences (allocate k s) = st_occurrences s" "st_work (allocate k s) = st_work s"
  "st_work_keys (allocate k s) = st_work_keys s" "st_operations (allocate k s) = st_operations s"
  "st_admitted (allocate k s) = st_admitted s" "st_closed (allocate k s) = st_closed s"
  "st_changes (allocate k s) = st_changes s" "st_uuids (allocate k s) = st_uuids s"
  by (simp_all add: allocate_def)

lemma deallocate_simps [simp]:
  "st_limits (deallocate k s) = st_limits s" "st_notifies (deallocate k s) = st_notifies s"
  "st_tasks (deallocate k s) = st_tasks s" "st_executions (deallocate k s) = st_executions s"
  "st_occurrences (deallocate k s) = st_occurrences s" "st_work (deallocate k s) = st_work s"
  "st_work_keys (deallocate k s) = st_work_keys s" "st_operations (deallocate k s) = st_operations s"
  "st_admitted (deallocate k s) = st_admitted s" "st_closed (deallocate k s) = st_closed s"
  "st_changes (deallocate k s) = st_changes s" "st_uuids (deallocate k s) = st_uuids s"
  by (simp_all add: deallocate_def)

lemma released_simps [simp]:
  "st_limits (released e s) = st_limits s" "st_notifies (released e s) = st_notifies s"
  "st_tasks (released e s) = st_tasks s" "st_executions (released e s) = st_executions s"
  "st_occurrences (released e s) = st_occurrences s" "st_work (released e s) = st_work s"
  "st_work_keys (released e s) = st_work_keys s" "st_operations (released e s) = st_operations s"
  "st_closed (released e s) = st_closed s" "st_changes (released e s) = st_changes s"
  "st_uuids (released e s) = st_uuids s"
  "st_admitted (released e s) = st_admitted s - {ex_id e}"
  by (simp_all add: released_def)

lemma allocated_allocate [simp]:
  "allocated (allocate k s) k' = (if k' = k then allocated s k + 1 else allocated s k')"
  by (simp add: allocated_def allocate_def)

lemma allocated_deallocate:
  "1 \<le> allocated s k \<Longrightarrow>
     allocated (deallocate k s) k' = (if k' = k then allocated s k - 1 else allocated s k')"
  by (simp add: allocated_def deallocate_def split: option.splits)

definition positive_allocations :: "mem_store \<Rightarrow> bool" where
  "positive_allocations s \<longleftrightarrow> wf_dict (st_scope_allocations s) \<and>
     (\<forall>k n. dget (st_scope_allocations s) k = Some n \<longrightarrow> 1 \<le> n)"

lemma positive_deallocate: "positive_allocations s \<Longrightarrow> positive_allocations (deallocate k s)"
  by (auto simp: positive_allocations_def deallocate_def allocated_def split: if_splits option.splits)

lemma positive_allocate: "positive_allocations s \<Longrightarrow> positive_allocations (allocate k s)"
  by (fastforce simp: positive_allocations_def allocate_def allocated_def split: if_splits option.splits)

lemma counts_inv_alt:
  "counts_inv s \<longleftrightarrow> finite (st_admitted s) \<and> positive_allocations s \<and>
     (\<forall>k. allocated s k = int (card (admitted_in s k)))"
  by (auto simp: counts_inv_def positive_allocations_def)

lemma counts_released:
  assumes inv: "counts_inv s" and e: "dget (st_executions s) (ex_id e) = Some e0"
    and same: "ex_namespace e0 = ex_namespace e" "execution_scope e0 = execution_scope e"
  shows "counts_inv (released e s)"
proof (cases "ex_id e \<in> st_admitted s")
  case True
  let ?g = "global_key (ex_namespace e)" and ?t = "scope_key e"
  have fin: "finite (admitted_in s k)" for k
    using inv by (simp add: counts_inv_def admitted_in_def)
  have "scope_key e0 = ?t" using same by (simp add: scope_key_def)
  with True e same have mem: "ex_id e \<in> admitted_in s k \<longleftrightarrow> k = ?g \<or> k = ?t" for k
    by (simp add: admitted_in_def in_scope_def)
  have count: "allocated s k = int (card (admitted_in s k))" for k
    using inv by (simp add: counts_inv_def)
  have pos: "1 \<le> allocated s k" if "k = ?g \<or> k = ?t" for k
    using that mem [of k] fin [of k] by (simp add: count Suc_le_eq card_gt_0_iff) blast
  have rest: "admitted_in (released e s) k = admitted_in s k - {ex_id e}" for k
    by (auto simp: admitted_in_def in_scope_def)
  have alloc: "allocated (released e s) k = allocated s k - of_bool (k = ?g \<or> k = ?t)" for k
  proof -
    have "allocated (released e s) k = allocated (deallocate ?t (deallocate ?g s)) k"
      using True by (simp add: released_def allocated_def)
    also have "\<dots> = allocated s k - of_bool (k = ?g \<or> k = ?t)"
      using pos [of ?g] pos [of ?t] by (simp add: allocated_deallocate)
    finally show ?thesis .
  qed
  have "positive_allocations (released e s)"
    using positive_deallocate [OF positive_deallocate [of s ?g], of ?t] inv True
    by (simp add: counts_inv_alt released_def positive_allocations_def)
  moreover have "allocated (released e s) k = int (card (admitted_in (released e s) k))" for k
    using mem [of k] fin [of k] count [of k] pos [of k]
    by (auto simp: alloc rest card_Diff_singleton_if)
  ultimately show ?thesis using inv by (simp add: counts_inv_alt)
qed (use inv in \<open>simp add: released_def\<close>)

text \<open>A reservation adds exactly one to both scopes and stays within both limits.\<close>

lemma counts_reserved:
  assumes inv: "counts_inv s" and e: "dget (st_executions s) (ex_id e) = Some e"
    and new: "ex_id e \<notin> st_admitted s"
  shows "counts_inv ((allocate (scope_key e) (allocate (global_key (ex_namespace e)) s))
           \<lparr>st_admitted := insert (ex_id e) (st_admitted s)\<rparr>)" (is "counts_inv ?s'")
proof -
  let ?g = "global_key (ex_namespace e)" and ?t = "scope_key e"
  have fin: "finite (admitted_in s k)" for k
    using inv by (simp add: counts_inv_def admitted_in_def)
  have rest: "admitted_in ?s' k =
      (if k = ?g \<or> k = ?t then insert (ex_id e) (admitted_in s k) else admitted_in s k)" for k
    using e by (auto simp: admitted_in_def in_scope_def split: option.splits)
  have out: "ex_id e \<notin> admitted_in s k" for k
    using new by (simp add: admitted_in_def)
  have "positive_allocations ?s'"
    using positive_allocate [OF positive_allocate [of s ?g], of ?t] inv
    by (simp add: counts_inv_alt positive_allocations_def)
  moreover have "allocated ?s' k = allocated (allocate ?t (allocate ?g s)) k" for k
    by (simp add: allocated_def)
  ultimately show ?thesis
    using inv out fin by (simp add: counts_inv_alt rest)
qed

lemma counts_cong:
  "counts_inv s \<Longrightarrow> st_admitted s' = st_admitted s \<Longrightarrow>
     st_scope_allocations s' = st_scope_allocations s \<Longrightarrow>
     (\<And>k x. x \<in> st_admitted s \<Longrightarrow> in_scope s' k x = in_scope s k x) \<Longrightarrow> counts_inv s'"
  by (simp add: counts_inv_def allocated_def admitted_in_def cong: conj_cong)

section \<open>Transitions\<close>

definition transition_work ::
    "execution_transition \<Rightarrow> py_str option \<Rightarrow> (py_str, work_item) dict \<Rightarrow> (py_str, work_item) dict" where
  "transition_work tr item d =
     (case tr_complete_work tr of
        ALL_WORK \<Rightarrow> dmapv (\<lambda>i. if wi_execution_id i = ex_id (tr_execution tr)
          then reset_claim COMPLETED i else i) d
      | CURRENT_WORK \<Rightarrow> (case item of None \<Rightarrow> d | Some w \<Rightarrow> dadjust w (reset_claim COMPLETED) d)
      | NO_WORK \<Rightarrow> d)"

definition after_transition :: "execution_transition \<Rightarrow> py_str option \<Rightarrow> mem_store \<Rightarrow> mem_store" where
  "after_transition tr item s =
     (if tr_release_capacity tr then released (tr_execution tr) else id)
       (s\<lparr>st_executions := dset (ex_id (tr_execution tr)) (tr_execution tr) (st_executions s),
          st_changes := add_change (execution_change (tr_execution tr)) (st_changes s),
          st_work := transition_work tr item (st_work s)\<rparr>)"

lemma wp_apply_transition:
  assumes "tr_deadline_work_at tr = None" and "tr_complete_work tr = CURRENT_WORK \<longrightarrow> item \<noteq> None"
  shows "run_with (apply_transition h tr item) Q E s \<longleftrightarrow>
    Q (tr_execution tr) (after_transition tr item s)"
  using assms
  by (cases "tr_complete_work tr"; cases item)
    (auto simp: apply_transition_def wp deadline_capacity_def save_execution_def record_change_def
      complete_transition_work_def complete_execution_work_def update_item_def release_scopes_def
      after_transition_def transition_work_def id_def)

text \<open>What a transition must satisfy for the store to stay consistent when it is applied.\<close>

definition compatible_work :: "mem_store \<Rightarrow> execution_transition \<Rightarrow> py_str option \<Rightarrow>
    automation_execution \<Rightarrow> bool" where
  "compatible_work s tr item e =
     (case tr_complete_work tr of
        ALL_WORK \<Rightarrow> True
      | CURRENT_WORK \<Rightarrow> (\<exists>w i. item = Some w \<and> dget (st_work s) w = Some i \<and>
          wi_execution_id i = ex_id e \<and>
          (\<forall>k. k \<noteq> wi_kind i \<longrightarrow> live_work k (ex_status e) \<longrightarrow> live_work k (ex_status (tr_execution tr))))
      | NO_WORK \<Rightarrow> (\<forall>k. live_work k (ex_status e) \<longrightarrow> live_work k (ex_status (tr_execution tr))))"

definition sound_transition ::
    "mem_store \<Rightarrow> execution_transition \<Rightarrow> py_str option \<Rightarrow> automation_execution \<Rightarrow> bool" where
  "sound_transition s tr item e \<longleftrightarrow>
     dget (st_executions s) (ex_id e) = Some e \<and> rule_step e tr \<and>
     (is_terminal (ex_status e) \<longrightarrow> tr_execution tr = e) \<and>
     execution_ok (ex_id e) (tr_execution tr) \<and> compatible_work s tr item e"

lemma reset_claim_simps [simp]:
  "wi_id (reset_claim st i) = wi_id i" "wi_namespace (reset_claim st i) = wi_namespace i"
  "wi_execution_id (reset_claim st i) = wi_execution_id i" "wi_kind (reset_claim st i) = wi_kind i"
  "wi_available_at (reset_claim st i) = wi_available_at i" "wi_fence (reset_claim st i) = wi_fence i"
  "wi_status (reset_claim st i) = st" "item_key (reset_claim st i) = item_key i"
  by (simp_all add: reset_claim_def item_key_def)

lemma reset_claim_same: "reset_claim st i = i \<Longrightarrow> wi_status i = st"
  by (metis reset_claim_simps(7))

lemma item_unique:
  assumes "work_inv h s" and "dget (st_work s) w = Some i" and "dget (st_work s) w' = Some i'"
    and "wi_execution_id i = wi_execution_id i'" and "wi_kind i = wi_kind i'"
  shows "w = w'"
proof -
  have ok: "item_ok h s w i" "item_ok h s w' i'"
    using assms by (simp_all add: work_inv_def)
  then have "wi_namespace i = wi_namespace i'"
    using assms(4) by (auto simp: item_ok_def)
  then have "item_key i = item_key i'"
    using assms(4,5) by (simp add: item_key_def)
  with ok show ?thesis by (simp add: item_ok_def)
qed

lemma rule_step_identity:
  assumes "rule_step e tr"
  shows "ex_id (tr_execution tr) = ex_id e" "ex_namespace (tr_execution tr) = ex_namespace e"
    "ex_task_id (tr_execution tr) = ex_task_id e"
    "execution_scope (tr_execution tr) = execution_scope e"
    "scope_key (tr_execution tr) = scope_key e"
    "ex_deadline (tr_execution tr) = ex_deadline e"
    "ex_start_authorized_at (tr_execution tr) = ex_start_authorized_at e"
proof -
  have "same_identity e (tr_execution tr)" using assms by (simp add: rule_step_def)
  then have "execution_scope (tr_execution tr) = execution_scope e" by (rule same_identity_scope)
  then show "ex_id (tr_execution tr) = ex_id e" "ex_namespace (tr_execution tr) = ex_namespace e"
    "ex_task_id (tr_execution tr) = ex_task_id e"
    "execution_scope (tr_execution tr) = execution_scope e"
    "scope_key (tr_execution tr) = scope_key e"
    "ex_deadline (tr_execution tr) = ex_deadline e"
    "ex_start_authorized_at (tr_execution tr) = ex_start_authorized_at e"
    using assms by (simp_all add: rule_step_def same_identity_def scope_key_def)
qed

lemma work_after_transition:
  assumes inv: "work_inv h s" and tr: "sound_transition s tr item e"
  shows "work_inv h (after_transition tr item s)"
proof -
  let ?e = "tr_execution tr" and ?W = "transition_work tr item (st_work s)"
  have e: "dget (st_executions s) (ex_id e) = Some e" and step: "rule_step e tr"
    and compat: "compatible_work s tr item e"
    using tr by (auto simp: sound_transition_def)
  note id = rule_step_identity [OF step]
  have wf: "wf_dict ?W"
    using inv by (auto simp: work_inv_def transition_work_def
        split: complete_work.split option.split)
  have item: "\<exists>i. dget (st_work s) w = Some i \<and>
      (i' = i \<or> i' = reset_claim COMPLETED i) \<and>
      (wi_execution_id i = ex_id e \<longrightarrow> wi_status i' \<noteq> COMPLETED \<longrightarrow> live_work (wi_kind i) (ex_status e)
        \<longrightarrow> live_work (wi_kind i) (ex_status ?e))"
    if "dget ?W w = Some i'" for w i'
  proof (cases "tr_complete_work tr")
    case CURRENT_WORK
    then obtain w0 i0 where i0: "item = Some w0" "dget (st_work s) w0 = Some i0"
        "wi_execution_id i0 = ex_id e"
      and live: "\<And>k. k \<noteq> wi_kind i0 \<Longrightarrow> live_work k (ex_status e) \<Longrightarrow> live_work k (ex_status ?e)"
      using compat by (auto simp: compatible_work_def)
    show ?thesis
    proof (cases "w = w0")
      case True
      then show ?thesis
        using that CURRENT_WORK i0 by (auto simp: transition_work_def)
    next
      case False
      then have i': "dget (st_work s) w = Some i'"
        using that CURRENT_WORK i0 by (simp add: transition_work_def)
      then have "wi_kind i' \<noteq> wi_kind i0" if "wi_execution_id i' = ex_id e"
        using item_unique [OF inv i' i0(2)] False i0(3) that by auto
      then show ?thesis using i' live by auto
    qed
  qed (use that compat id in \<open>auto simp: transition_work_def compatible_work_def split: if_splits
      dest: reset_claim_same\<close>)
  have keep: "\<exists>i'. dget ?W w = Some i' \<and> item_key i' = item_key i" if "dget (st_work s) w = Some i" for w i
    using that by (auto simp: transition_work_def
        split: complete_work.split option.split)
  let ?s = "after_transition tr item s"
  have fields: "st_work ?s = ?W" "st_work_keys ?s = st_work_keys s" "st_uuids ?s = st_uuids s"
    "st_executions ?s = dset (ex_id e) ?e (st_executions s)"
    by (simp_all add: after_transition_def id)
  have "item_ok h ?s w i'" if i': "dget ?W w = Some i'" for w i'
  proof -
    obtain i where i: "dget (st_work s) w = Some i" "i' = i \<or> i' = reset_claim COMPLETED i"
      and live: "wi_execution_id i = ex_id e \<longrightarrow> wi_status i' \<noteq> COMPLETED \<longrightarrow>
        live_work (wi_kind i) (ex_status e) \<longrightarrow> live_work (wi_kind i) (ex_status ?e)"
      using item [OF i'] by blast
    have ok: "item_ok h s w i" using inv i(1) by (simp add: work_inv_def)
    then obtain e0 where e0: "dget (st_executions s) (wi_execution_id i) = Some e0"
        "ex_namespace e0 = wi_namespace i" "wi_status i \<noteq> COMPLETED \<longrightarrow> live_work (wi_kind i) (ex_status e0)"
        "wi_kind i = EXPIRE_INTERRUPT \<longrightarrow> ex_deadline e0 = Some (wi_available_at i)"
      unfolding item_ok_def by blast
    define e1 where "e1 = (if wi_execution_id i = ex_id e then ?e else e0)"
    have same: "wi_execution_id i' = wi_execution_id i" "wi_namespace i' = wi_namespace i"
      "wi_kind i' = wi_kind i" "wi_available_at i' = wi_available_at i" "wi_id i' = wi_id i"
      "wi_fence i' = wi_fence i" "item_key i' = item_key i" "wi_status i' = wi_status i \<or> wi_status i' = COMPLETED"
      using i(2) by auto
    have "dget (st_executions ?s) (wi_execution_id i') = Some e1 \<and> ex_namespace e1 = wi_namespace i' \<and>
        (wi_kind i' = EXPIRE_INTERRUPT \<longrightarrow> ex_deadline e1 = Some (wi_available_at i'))"
      using e0 e id by (auto simp: fields same e1_def)
    moreover have "wi_status i' \<noteq> COMPLETED \<longrightarrow> live_work (wi_kind i') (ex_status e1)"
      using e0 e live same by (auto simp: e1_def)
    moreover have "wi_status i' = CLAIMED \<longrightarrow> wi_claim_token i' \<noteq> None"
      using ok i(2) by (auto simp: item_ok_def)
    ultimately show ?thesis
      using ok unfolding item_ok_def fields same by blast
  qed
  moreover have "\<exists>i. dget ?W w = Some i \<and> item_key i = k" if "dget (st_work_keys s) k = Some w" for k w
    using that inv keep unfolding work_inv_def by metis
  ultimately show ?thesis
    using inv wf by (simp add: work_inv_def fields)
qed

lemma facts_after_transition:
  assumes inv: "facts_inv s" and tr: "sound_transition s tr item e"
  shows "facts_inv (after_transition tr item s)"
proof -
  have e: "dget (st_executions s) (ex_id e) = Some e" and step: "rule_step e tr"
    and ok: "execution_ok (ex_id e) (tr_execution tr)"
    using tr by (auto simp: sound_transition_def)
  note id = rule_step_identity [OF step]
  let ?s = "after_transition tr item s"
  have fields: "st_tasks ?s = st_tasks s" "st_occurrences ?s = st_occurrences s"
    "st_operations ?s = st_operations s"
    "st_executions ?s = dset (ex_id e) (tr_execution tr) (st_executions s)"
    by (simp_all add: after_transition_def id)
  have "\<exists>e'. dget (st_executions ?s) x = Some e' \<and> ex_namespace e' = n"
    if occ: "dget (st_occurrences s) (n, k) = Some x" for n k x
  proof -
    obtain e0 where "dget (st_executions s) x = Some e0" "ex_namespace e0 = n"
      using occ inv unfolding facts_inv_def by blast
    then show ?thesis using e id by (auto simp: fields)
  qed
  then show ?thesis
    using inv ok by (auto simp: facts_inv_def fields)
qed

lemma admission_after_transition:
  assumes counts: "counts_inv s" and live: "admitted_inv s" and tr: "sound_transition s tr item e"
  shows "counts_inv (after_transition tr item s) \<and> admitted_inv (after_transition tr item s)"
proof -
  have e: "dget (st_executions s) (ex_id e) = Some e" and step: "rule_step e tr"
    using tr by (auto simp: sound_transition_def)
  note id = rule_step_identity [OF step]
  let ?m = "s\<lparr>st_executions := dset (ex_id (tr_execution tr)) (tr_execution tr) (st_executions s),
          st_changes := add_change (execution_change (tr_execution tr)) (st_changes s),
          st_work := transition_work tr item (st_work s)\<rparr>"
  have "counts_inv ?m"
    by (rule counts_cong [OF counts]) (use e id in \<open>auto simp: in_scope_def split: option.splits\<close>)
  then have "counts_inv (released (tr_execution tr) ?m)"
    by (rule counts_released [where ?e0.0 = "tr_execution tr"]) simp_all
  with \<open>counts_inv ?m\<close> have "counts_inv (after_transition tr item s)"
    by (simp add: after_transition_def)
  moreover have "admitted_inv (after_transition tr item s)"
  proof -
    have "\<not> is_terminal (ex_status (tr_execution tr))"
      if "ex_id e \<in> st_admitted s" "\<not> tr_release_capacity tr"
    proof -
      have "\<not> is_terminal (ex_status e)" using live e that(1) by (auto simp: admitted_inv_def)
      then show ?thesis using step that(2) by (auto simp: rule_step_def)
    qed
    then show ?thesis
      using live id by (auto simp: admitted_inv_def after_transition_def)
  qed
  ultimately show ?thesis ..
qed

lemma evolves_after_transition:
  assumes tr: "sound_transition s tr item e"
  shows "evolves s (after_transition tr item s)"
proof -
  have e: "dget (st_executions s) (ex_id e) = Some e" and step: "rule_step e tr"
    and same: "is_terminal (ex_status e) \<longrightarrow> tr_execution tr = e"
    using tr by (auto simp: sound_transition_def)
  note id = rule_step_identity [OF step]
  have "keeps_execution e (tr_execution tr)"
    using step same by (simp add: keeps_execution_def rule_step_def)
  moreover have "\<exists>i'. dget (transition_work tr item (st_work s)) w = Some i' \<and>
      item_key i' = item_key i \<and> wi_fence i \<le> wi_fence i'" if "dget (st_work s) w = Some i" for w i
    using that by (auto simp: transition_work_def split: complete_work.split option.split)
  ultimately show ?thesis
    using e by (auto simp: evolves_def after_transition_def id)
qed

lemma sound_after_transition:
  assumes "body_inv h s" and "sound_transition s tr item e"
  shows "body_inv h (after_transition tr item s)" and "evolves s (after_transition tr item s)"
  using assms work_after_transition facts_after_transition admission_after_transition
    evolves_after_transition by (simp_all add: body_inv_def)

section \<open>Every rule gives a sound transition\<close>

lemma execution_known: "facts_inv s \<Longrightarrow> dget (st_executions s) x = Some e \<Longrightarrow> execution_ok x e"
  by (simp add: facts_inv_def)

lemma known_id: "facts_inv s \<Longrightarrow> dget (st_executions s) x = Some e \<Longrightarrow> ex_id e = x"
  using execution_known by (simp add: execution_ok_def)

lemma rule_step_valid:
  "rule_step e tr \<Longrightarrow> execution_ok (ex_id e) e \<Longrightarrow> execution_post_init (tr_execution tr) = None"
  by (simp add: rule_step_def execution_ok_def)

text \<open>Soundness from what the rule is known to do; the execution is a stored one.\<close>

lemma sound_transitionI:
  assumes "facts_inv s" and "dget (st_executions s) x = Some e" and "rule_step e tr"
    and "is_terminal (ex_status e) \<Longrightarrow> tr_execution tr = e"
    and "tr_execution tr = e \<or> ex_status (tr_execution tr) \<notin> {QUEUED, RUNNING, INTERRUPTED, CANCEL_REQUESTED} \<or>
      (ex_status e = RUNNING \<and> ex_status (tr_execution tr) \<in> {RUNNING, CANCEL_REQUESTED})"
    and "compatible_work s tr item e"
  shows "sound_transition s tr item e"
proof -
  have ok: "execution_ok (ex_id e) e" and e: "dget (st_executions s) (ex_id e) = Some e"
    using assms(1,2) known_id execution_known by fastforce+
  have "execution_post_init (tr_execution tr) = None"
    using assms(3) ok by (rule rule_step_valid)
  then have "execution_ok (ex_id e) (tr_execution tr)"
    using ok assms(5) rule_step_identity [OF assms(3)] by (auto simp: execution_ok_def)
  then show ?thesis
    using assms e by (simp add: sound_transition_def)
qed

lemma cancel_sound:
  assumes "facts_inv s" and "dget (st_executions s) x = Some e" and "cancel_execution_rule e now = Inr tr"
  shows "sound_transition s tr item e"
  using cancel_execution_cases [OF assms(3)]
  by (intro sound_transitionI [OF assms(1,2) cancel_execution_step [OF assms(3)]])
    (auto simp: compatible_work_def live_work_def split: work_kind.splits)

lemma resolve_sound:
  assumes "facts_inv s" and "dget (st_executions s) x = Some e"
    and "resolve_execution_rule e r reason now = Inr tr"
  shows "sound_transition s tr item e"
  using resolve_execution_cases [OF assms(3)]
  by (intro sound_transitionI [OF assms(1,2) resolve_execution_step [OF assms(3)]])
    (auto simp: compatible_work_def live_work_def split: work_kind.splits)

lemma finish_sound:
  assumes "facts_inv s" and "dget (st_executions s) x = Some e" and "\<not> is_terminal (ex_status e)"
    and "finish_execution_rule e status now result failure_code failure_message = Inr tr"
  shows "sound_transition s tr item e"
  using finish_execution_cases [OF assms(4)] assms(3)
  by (intro sound_transitionI [OF assms(1,2) finish_execution_step [OF assms(4)]])
    (auto simp: compatible_work_def)

lemma expire_interrupted_sound:
  assumes "facts_inv s" and "dget (st_executions s) x = Some e" and "expire_interrupted e now = Inr tr"
  shows "sound_transition s tr item e"
  using expire_interrupted_cases [OF assms(3)]
  by (intro sound_transitionI [OF assms(1,2) expire_interrupted_step [OF assms(3)]])
    (auto simp: compatible_work_def)

lemma claim_candidate_sound:
  assumes "facts_inv s" and "dget (st_executions s) x = Some e" and "dget (st_work s) w = Some i"
    and "wi_execution_id i = x" and "claim_candidate e (wi_kind i) now = Inr (Some tr)"
  shows "sound_transition s tr (Some w) e"
  using claim_candidate_cases [OF assms(5)] assms(3,4) known_id [OF assms(1,2)]
  by (intro sound_transitionI [OF assms(1,2) claim_candidate_step [OF assms(5)]])
    (auto simp: compatible_work_def live_work_def split: work_kind.splits)

lemma recover_sound:
  assumes "facts_inv s" and "dget (st_executions s) x = Some e" and "dget (st_work s) w = Some i"
    and "wi_execution_id i = x" and "live_work (wi_kind i) (ex_status e)"
    and "recover_expired_claim e (wi_kind i) now = Inr tr"
  shows "sound_transition s tr (Some w) e"
  using recover_expired_claim_cases [OF assms(6)] assms(3-5) known_id [OF assms(1,2)]
  by (intro sound_transitionI [OF assms(1,2) recover_expired_claim_step [OF assms(6)]])
    (auto simp: compatible_work_def live_work_def is_terminal_def split: work_kind.splits)

section \<open>Operations and mutations\<close>

lemma body_inv_counters [simp]:
  "body_inv h (s\<lparr>st_clock_reads := n\<rparr>) = body_inv h s"
  "body_inv h (s\<lparr>st_tokens := n\<rparr>) = body_inv h s"
  "body_inv h (s\<lparr>st_changes := c\<rparr>) = body_inv h s"
  "body_inv h (s\<lparr>st_published := p\<rparr>) = body_inv h s"
  "body_inv h (s\<lparr>st_closed := b\<rparr>) = body_inv h s"
  by (simp_all add: body_inv_def facts_inv_def work_inv_def item_ok_def counts_inv_def admitted_inv_def
      allocated_def admitted_in_def in_scope_def)

lemma body_inv_uuids [simp, intro]: "body_inv h s \<Longrightarrow> body_inv h (s\<lparr>st_uuids := Suc (st_uuids s)\<rparr>)"
  by (auto simp add: body_inv_def facts_inv_def work_inv_def item_ok_def counts_inv_def admitted_inv_def
      allocated_def admitted_in_def in_scope_def lessThan_Suc)

lemma body_inv_tasks:
  "body_inv h s \<Longrightarrow> wf_dict d \<Longrightarrow> (\<And>k t. dget d k = Some t \<Longrightarrow> task_ok k t) \<Longrightarrow> body_inv h (s\<lparr>st_tasks := d\<rparr>)"
  by (simp add: body_inv_def facts_inv_def work_inv_def item_ok_def counts_inv_def admitted_inv_def
      allocated_def admitted_in_def in_scope_def)

lemma body_inv_operations:
  "body_inv h s \<Longrightarrow> wf_dict d \<Longrightarrow> body_inv h (s\<lparr>st_operations := d\<rparr>)"
  by (simp add: body_inv_def facts_inv_def work_inv_def item_ok_def counts_inv_def admitted_inv_def
      allocated_def admitted_in_def in_scope_def)

lemma body_inv_wf:
  assumes "body_inv h s"
  shows "wf_dict (st_tasks s)" "wf_dict (st_operations s)" "wf_dict (st_executions s)"
    "wf_dict (st_occurrences s)" "wf_dict (st_work s)" "wf_dict (st_work_keys s)"
  using assms unfolding body_inv_def facts_inv_def work_inv_def by blast+

lemma body_inv_task: "body_inv h s \<Longrightarrow> dget (st_tasks s) k = Some t \<Longrightarrow> task_ok k t"
  by (simp add: body_inv_def facts_inv_def)

lemma evolves_updates [simp, intro]:
  "evolves s t \<Longrightarrow> evolves s (t\<lparr>st_clock_reads := n\<rparr>)"
  "evolves s t \<Longrightarrow> evolves s (t\<lparr>st_tokens := n\<rparr>)"
  "evolves s t \<Longrightarrow> evolves s (t\<lparr>st_uuids := n\<rparr>)"
  "evolves s t \<Longrightarrow> evolves s (t\<lparr>st_changes := c\<rparr>)"
  "evolves s t \<Longrightarrow> evolves s (t\<lparr>st_published := p\<rparr>)"
  "evolves s t \<Longrightarrow> evolves s (t\<lparr>st_tasks := d\<rparr>)"
  "evolves s t \<Longrightarrow> evolves s (t\<lparr>st_closed := True\<rparr>)"
  by (simp_all add: evolves_def)

lemma evolves_operations:
  "evolves s t \<Longrightarrow> (\<And>k r. dget (st_operations s) k = Some r \<Longrightarrow> dget d k = Some r) \<Longrightarrow>
     evolves s (t\<lparr>st_operations := d\<rparr>)"
  by (simp add: evolves_def)

lemma facts_counters [simp]:
  "facts (s\<lparr>st_clock_reads := n\<rparr>) = facts s" "facts (s\<lparr>st_tokens := n\<rparr>) = facts s"
  "facts (s\<lparr>st_uuids := n\<rparr>) = facts s" "facts (s\<lparr>st_changes := c\<rparr>) = facts s"
  by (simp_all add: facts_def)

text \<open>The two contracts every operation and every body of a mutation satisfies.\<close>

definition sound_op :: "host \<Rightarrow> 'a store_op \<Rightarrow> mem_store \<Rightarrow> bool" where
  "sound_op h m s = run_with m (\<lambda>_ t. mem_inv h t \<and> evolves s t)
     (\<lambda>_ t. mem_inv h t \<and> facts t = facts s) s"

definition sound_body :: "host \<Rightarrow> 'a store_op \<Rightarrow> mem_store \<Rightarrow> bool" where
  "sound_body h m s = run_with m (\<lambda>_ t. body_inv h t \<and> evolves s t)
     (\<lambda>_ t. body_inv h t \<and> facts t = facts s) s"

lemma wp_mutation [wp]:
  "run_with (mutation m) Q E s = run_with m (\<lambda>a t. Q a (publish t)) (\<lambda>e t. E e (t\<lparr>st_changes := []\<rparr>))
     (s\<lparr>st_changes := []\<rparr>)"
  by (auto simp: run_with_def mutation_def split: prod.split sum.split)

lemma mutation_sound:
  assumes "mem_inv h s" and "sound_body h m s"
  shows "sound_op h (mutation m) s"
proof -
  have "s\<lparr>st_changes := []\<rparr> = s" using assms(1) by (simp add: mem_inv_def)
  then show ?thesis
    using assms(2) unfolding sound_op_def sound_body_def wp_mutation
    by (auto elim!: wp_mono simp: mem_inv_def publish_def)
qed

lemma sound_op_lift:
  "sound_op h (bind (lift r) f) s \<longleftrightarrow> (case r of Inl e \<Rightarrow> mem_inv h s | Inr a \<Rightarrow> sound_op h (f a) s)"
  by (simp add: sound_op_def wp split: sum.split)

lemma sound_op_check:
  "sound_op h (seq (check c) m) s \<longleftrightarrow> (case c of Some e \<Rightarrow> mem_inv h s | None \<Rightarrow> sound_op h m s)"
  by (simp add: sound_op_def wp split: option.split)

lemma wp_clock [wp]: "run_with (read_clock h) Q E s =
    Q (hs_now h (st_clock_reads s)) (s\<lparr>st_clock_reads := Suc (st_clock_reads s)\<rparr>)"
  by (simp add: run_with_def read_clock_def)

lemma wp_token [wp]: "run_with (draw_token h) Q E s =
    Q (hs_token h (st_tokens s)) (s\<lparr>st_tokens := Suc (st_tokens s)\<rparr>)"
  by (simp add: run_with_def draw_token_def)

lemma wp_uuid [wp]: "run_with (draw_uuid h) Q E s =
    Q (hs_uuid h (st_uuids s)) (s\<lparr>st_uuids := Suc (st_uuids s)\<rparr>)"
  by (simp add: run_with_def draw_uuid_def)

lemmas body_simps = sound_body_def wp ensure_open_def operation_result_def owned_task_def find_task_def
  owned_execution_def execution_at_def work_at_def require_operation_capacity_def save_operation_def
  save_task_def record_change_def

end
