(* ===== verification/Aut_Memory_Sound.thy ===== *)
theory Aut_Memory_Sound
  imports Aut_Memory_Inv
begin

text \<open>
  Every operation of the single-process store keeps its invariant, only moves forward in the
  sense of \<open>evolves\<close>, and leaves all facts alone when it raises. What is assumed of the host
  is that \<open>uuid4\<close> never repeats a value.
\<close>

definition host_ok :: "host \<Rightarrow> bool" where
  "host_ok h \<longleftrightarrow> inj (hs_uuid h)"

section \<open>Work creation\<close>

lemma work_inv_item: "work_inv h s \<Longrightarrow> dget (st_work s) w = Some i \<Longrightarrow> item_ok h s w i"
  by (simp add: work_inv_def)

lemma work_inv_key:
  "work_inv h s \<Longrightarrow> dget (st_work_keys s) k = Some w \<Longrightarrow> \<exists>i. dget (st_work s) w = Some i \<and> item_key i = k"
  unfolding work_inv_def by blast

lemma body_inv_cong:
  "body_inv h s \<Longrightarrow> st_work s' = st_work s \<Longrightarrow> st_work_keys s' = st_work_keys s \<Longrightarrow> st_uuids s' = st_uuids s \<Longrightarrow>
     st_tasks s' = st_tasks s \<Longrightarrow> st_executions s' = st_executions s \<Longrightarrow>
     st_occurrences s' = st_occurrences s \<Longrightarrow> st_operations s' = st_operations s \<Longrightarrow>
     st_scope_allocations s' = st_scope_allocations s \<Longrightarrow> st_admitted s' = st_admitted s \<Longrightarrow> body_inv h s'"
  by (simp add: body_inv_def facts_inv_def counts_inv_def admitted_inv_def allocated_def
      admitted_in_def in_scope_def work_inv_def item_ok_def)

lemma fresh_uuid:
  assumes "host_ok h" and "work_inv h s"
  shows "dget (st_work s) (hs_uuid h (st_uuids s)) = None"
proof (rule ccontr)
  assume "dget (st_work s) (hs_uuid h (st_uuids s)) \<noteq> None"
  then have "hs_uuid h (st_uuids s) \<in> hs_uuid h ` {..<st_uuids s}"
    using assms(2) by (auto simp: work_inv_def item_ok_def)
  then show False using assms(1) by (auto simp: host_ok_def dest: injD)
qed

lemma work_inv_new_item:
  assumes h: "host_ok h" and inv: "work_inv h s" and e: "dget (st_executions s) (ex_id e) = Some e"
    and live: "live_work k (ex_status e)" "k = EXPIRE_INTERRUPT \<longrightarrow> ex_deadline e = Some d"
    and new: "dget (st_work_keys s) (work_key e k) = None"
    and i: "wi_id i = hs_uuid h (st_uuids s)" "item_key i = work_key e k" "wi_available_at i = d"
      "wi_status i = PENDING" "wi_fence i = 0"
  shows "work_inv h (s\<lparr>st_uuids := Suc (st_uuids s), st_clock_reads := c,
     st_work := dset (wi_id i) i (st_work s), st_work_keys := dset (work_key e k) (wi_id i) (st_work_keys s)\<rparr>)"
    (is "work_inv h ?s")
proof -
  let ?w = "wi_id i"
  have fresh: "dget (st_work s) ?w = None"
    using fresh_uuid [OF h inv] i by simp
  have fields: "wi_namespace i = ex_namespace e" "wi_execution_id i = ex_id e" "wi_kind i = k"
    using i(2) by (simp_all add: item_key_def work_key_def)
  have "item_ok h ?s ?w i"
    using i e live fields by (auto simp: item_ok_def)
  moreover have "item_ok h ?s w j" if j: "dget (st_work s) w = Some j" for w j
  proof -
    have ok: "item_ok h s w j" using inv j by (simp add: work_inv_def)
    then have "item_key j \<noteq> work_key e k" using new by (auto simp: item_ok_def)
    then show ?thesis using ok by (auto simp: item_ok_def)
  qed
  moreover have "w \<noteq> ?w" if "dget (st_work_keys s) k' = Some w" for k' w
    using work_inv_key [OF inv that] fresh by auto
  then have "\<exists>j. dget (st_work ?s) w = Some j \<and> item_key j = k'"
    if "dget (st_work_keys ?s) k' = Some w" for k' w
    using that work_inv_key [OF inv, of k' w] i(2) by (auto split: if_splits)
  ultimately show ?thesis
    using inv unfolding work_inv_def by (auto split: if_splits)
qed

lemma work_inv_reset:
  assumes inv: "work_inv h s" and e: "dget (st_executions s) (ex_id e) = Some e"
    and live: "live_work k (ex_status e)" "k = EXPIRE_INTERRUPT \<longrightarrow> ex_deadline e = Some d"
    and w: "dget (st_work_keys s) (work_key e k) = Some w"
  shows "work_inv h (s\<lparr>st_work := dadjust w (\<lambda>i. reset_claim PENDING (i\<lparr>wi_available_at := d\<rparr>)) (st_work s)\<rparr>)"
    (is "work_inv h ?s")
proof -
  obtain i where i: "dget (st_work s) w = Some i" "item_key i = work_key e k"
    using work_inv_key [OF inv w] by blast
  then have fields: "wi_namespace i = ex_namespace e" "wi_execution_id i = ex_id e" "wi_kind i = k"
    by (simp_all add: item_key_def work_key_def)
  let ?i = "reset_claim PENDING (i\<lparr>wi_available_at := d\<rparr>)"
  have "item_ok h s w i" using inv i by (simp add: work_inv_def)
  then have "item_ok h ?s w ?i"
    using i e live fields by (auto simp: item_ok_def item_key_def)
  moreover have "item_ok h ?s v j" if "item_ok h s v j" for v j
    using that by (simp add: item_ok_def)
  moreover have "item_key ?i = item_key i" by (simp add: item_key_def)
  then have "\<exists>j. dget (st_work ?s) v = Some j \<and> item_key j = k'"
    if "dget (st_work_keys s) k' = Some v" for k' v
    using work_inv_key [OF inv that] i(1) by (cases "v = w") auto
  ultimately show ?thesis
    using inv i unfolding work_inv_def by (auto split: if_splits)
qed

lemma body_inv_work:
  "body_inv h s \<Longrightarrow> work_inv h s' \<Longrightarrow> st_tasks s' = st_tasks s \<Longrightarrow> st_executions s' = st_executions s \<Longrightarrow>
     st_occurrences s' = st_occurrences s \<Longrightarrow> st_operations s' = st_operations s \<Longrightarrow>
     st_scope_allocations s' = st_scope_allocations s \<Longrightarrow> st_admitted s' = st_admitted s \<Longrightarrow> body_inv h s'"
  by (simp add: body_inv_def facts_inv_def counts_inv_def admitted_inv_def allocated_def
      admitted_in_def in_scope_def)

text \<open>Creating work for a stored execution never fails once capacity was checked.\<close>

lemma create_work_sound:
  assumes h: "host_ok h" and inv: "body_inv h s" and e: "dget (st_executions s) (ex_id e) = Some e"
    and live: "live_work k (ex_status e)" "k = EXPIRE_INTERRUPT \<longrightarrow> ex_deadline e = Some d"
    and room: "dget (st_work_keys s) (work_key e k) = None \<longrightarrow> int (length (st_work s)) < max_work_items (st_limits s)"
  shows "run_with (create_work h e k d)
     (\<lambda>_ t. body_inv h t \<and> evolves s t \<and> length (st_work t) \<le> Suc (length (st_work s)) \<and>
        st_executions t = st_executions s \<and> st_occurrences t = st_occurrences s \<and>
        st_operations t = st_operations s)
     (\<lambda>_ _. False) s"
proof (cases "dget (st_work_keys s) (work_key e k)")
  case None
  have work: "work_inv h s" using inv by (simp add: body_inv_def)
  let ?i = "\<lparr>wi_id = hs_uuid h (st_uuids s), wi_namespace = ex_namespace e, wi_execution_id = ex_id e,
    wi_kind = k, wi_available_at = d, wi_created_at = hs_now h (st_clock_reads s), wi_status = PENDING,
    wi_worker_id = None, wi_claim_token = None, wi_fence = 0, wi_lease_until = None\<rparr>"
  let ?s = "s\<lparr>st_uuids := Suc (st_uuids s), st_clock_reads := Suc (st_clock_reads s),
     st_work := dset (wi_id ?i) ?i (st_work s), st_work_keys := dset (work_key e k) (wi_id ?i) (st_work_keys s)\<rparr>"
  have "work_inv h ?s"
    by (rule work_inv_new_item [OF h work e live None]) (simp_all add: item_key_def work_key_def)
  then have "body_inv h ?s"
    by (rule body_inv_work [OF inv]) simp_all
  moreover have "evolves s ?s"
    using fresh_uuid [OF h work] by (auto simp: evolves_def)
  ultimately show ?thesis
    using None room by (simp add: create_work_def wp work_capacity_def ensure_capacity_def length_dset)
next
  case (Some w)
  have work: "work_inv h s" using inv by (simp add: body_inv_def)
  let ?f = "\<lambda>i. reset_claim PENDING (i\<lparr>wi_available_at := d\<rparr>)"
  let ?s = "s\<lparr>st_work := dadjust w ?f (st_work s)\<rparr>"
  have "body_inv h ?s"
    by (rule body_inv_work [OF inv work_inv_reset [OF work e live Some]]) simp_all
  moreover have "evolves s ?s"
    by (auto simp: evolves_def item_key_def)
  moreover obtain i where "dget (st_work s) w = Some i"
    using work_inv_key [OF work Some] by blast
  ultimately show ?thesis
    using Some by (simp add: create_work_def wp work_at_def update_item_def)
qed

section \<open>New executions\<close>

definition fresh_execution :: "automation_execution \<Rightarrow> bool" where
  "fresh_execution e \<longleftrightarrow> ex_status e = QUEUED \<and> ex_start_authorized_at e = None \<and> ex_deadline e = None"

lemma body_inv_new_execution:
  assumes inv: "body_inv h s" and e: "fresh_execution e" "execution_post_init e = None"
    and new: "dget (st_executions s) (ex_id e) = None"
  shows "body_inv h (s\<lparr>st_executions := dset (ex_id e) e (st_executions s),
     st_occurrences := dset (ex_namespace e, k) (ex_id e) (st_occurrences s)\<rparr>)" (is "body_inv h ?s")
proof -
  have "execution_ok (ex_id e) e" using e by (simp add: execution_ok_def fresh_execution_def)
  then have "facts_inv ?s"
    using inv new by (fastforce simp: body_inv_def facts_inv_def)
  moreover have "item_ok h ?s w i" if "item_ok h s w i" for w i
    using that new by (auto simp: item_ok_def)
  then have "work_inv h ?s" using inv by (auto simp: body_inv_def work_inv_def)
  moreover have "x \<noteq> ex_id e" if "x \<in> st_admitted s" for x
    using that inv new by (auto simp: body_inv_def admitted_inv_def)
  then have "counts_inv ?s \<and> admitted_inv ?s"
    using inv by (auto simp: body_inv_def admitted_inv_def intro!: counts_cong [of s] simp: in_scope_def)
  ultimately show ?thesis by (simp add: body_inv_def)
qed

lemma admit_execution_sound:
  assumes h: "host_ok h" and inv: "body_inv h s" and e: "fresh_execution e" "execution_post_init e = None"
    and new: "dget (st_executions s) (ex_id e) = None" "dget (st_occurrences s) (ex_namespace e, k) = None"
    and room: "int (length (st_work s)) < max_work_items (st_limits s)"
  shows "run_with (admit_execution h (ex_namespace e) k e)
     (\<lambda>_ t. body_inv h t \<and> evolves s t \<and> length (st_work t) \<le> Suc (length (st_work s)) \<and>
        st_executions t = dset (ex_id e) e (st_executions s) \<and>
        st_occurrences t = dset (ex_namespace e, k) (ex_id e) (st_occurrences s) \<and>
        st_operations t = st_operations s)
     (\<lambda>_ _. False) s"
proof -
  let ?m = "s\<lparr>st_executions := dset (ex_id e) e (st_executions s),
     st_changes := add_change (execution_change e) (st_changes s),
     st_occurrences := dset (ex_namespace e, k) (ex_id e) (st_occurrences s)\<rparr>"
  have inv': "body_inv h ?m"
    by (rule body_inv_cong [OF body_inv_new_execution [OF inv e new(1), of k]]) simp_all
  have "evolves s ?m" using new by (auto simp: evolves_def)
  have "run_with (create_work h e EXECUTE (ex_queued_at e))
     (\<lambda>_ t. body_inv h t \<and> evolves ?m t \<and> length (st_work t) \<le> Suc (length (st_work ?m)) \<and>
        st_executions t = st_executions ?m \<and> st_occurrences t = st_occurrences ?m \<and>
        st_operations t = st_operations ?m) (\<lambda>_ _. False) ?m"
    by (rule create_work_sound [OF h inv']) (use e room in \<open>simp_all add: live_work_def fresh_execution_def\<close>)
  then have "run_with (create_work h e EXECUTE (ex_queued_at e))
     (\<lambda>_ t. body_inv h t \<and> evolves s t \<and> length (st_work t) \<le> Suc (length (st_work s)) \<and>
        st_executions t = dset (ex_id e) e (st_executions s) \<and>
        st_occurrences t = dset (ex_namespace e, k) (ex_id e) (st_occurrences s) \<and>
        st_operations t = st_operations s) (\<lambda>_ _. False) ?m"
    by (rule wp_mono) (use evolves_trans [OF \<open>evolves s ?m\<close>] in auto)
  then show ?thesis
    by (simp add: admit_execution_def save_execution_def record_change_def wp)
qed

section \<open>Task commands\<close>

lemma after_transition_simps [simp]:
  "st_operations (after_transition tr item s) = st_operations s"
  "st_limits (after_transition tr item s) = st_limits s"
  "st_closed (after_transition tr item s) = st_closed s"
  "st_tasks (after_transition tr item s) = st_tasks s"
  "st_occurrences (after_transition tr item s) = st_occurrences s"
  "st_work_keys (after_transition tr item s) = st_work_keys s"
  "st_uuids (after_transition tr item s) = st_uuids s"
  "st_executions (after_transition tr item s) =
     dset (ex_id (tr_execution tr)) (tr_execution tr) (st_executions s)"
  "st_work (after_transition tr item s) = transition_work tr item (st_work s)"
  by (simp_all add: after_transition_def)

lemma snapshot_task_Inr [simp]: "snapshot_task t = Inr t' \<longleftrightarrow> t' = t \<and> task_post_init t = None"
  by (auto simp: snapshot_task_def split: option.split)

lemma snapshot_execution_Inr [simp]:
  "snapshot_execution e = Inr e' \<longleftrightarrow> e' = e \<and> execution_post_init e = None"
  by (auto simp: snapshot_execution_def)

lemma task_ok_own [simp]: "task_ok (tk_id t) t \<longleftrightarrow> task_post_init t = None"
  by (simp add: task_ok_def)

lemma create_task_sound:
  assumes inv: "mem_inv h s"
  shows "sound_op h (create_task t r d) s"
proof -
  have body: "body_inv h s" using inv by (simp add: mem_inv_def)
  show ?thesis
    unfolding create_task_def sound_op_lift
    using inv body body_inv_wf [OF body]
    by (auto split: sum.split option.split if_splits intro!: mutation_sound evolves_operations
          body_inv_tasks body_inv_operations
        simp: body_simps ensure_capacity_def body_inv_task [OF body])
qed

lemma update_task_sound:
  assumes inv: "mem_inv h s"
  shows "sound_op h (update_task t n r d) s"
proof -
  have body: "body_inv h s" using inv by (simp add: mem_inv_def)
  show ?thesis
    unfolding update_task_def sound_op_lift
    using inv body body_inv_wf [OF body]
    by (auto split: sum.split option.split if_splits intro!: mutation_sound evolves_operations
          body_inv_tasks body_inv_operations
        simp: body_simps ensure_capacity_def body_inv_task [OF body])
qed

text \<open>Cancelling a queued execution always succeeds.\<close>

lemma cancel_queued_rule:
  assumes "execution_post_init e = None" and "ex_status e = QUEUED"
  shows "\<exists>tr. cancel_execution_rule e now = Inr tr"
  using assms by (simp add: cancel_execution_rule_def replace_execution_def valid_replacements)

lemma cancel_loop:
  assumes "body_inv h s" and "distinct (map ex_id es)"
    and "\<And>e. e \<in> set es \<Longrightarrow> dget (st_executions s) (ex_id e) = Some e"
  shows "run_with (for_each (cancel_if_queued h task_id now) es)
     (\<lambda>_ t. body_inv h t \<and> evolves s t \<and> st_operations t = st_operations s \<and> st_limits t = st_limits s)
     (\<lambda>_ _. False) s"
  using assms
proof (induction es arbitrary: s)
  case (Cons e es)
  show ?case
  proof (cases "ex_task_id e \<noteq> Some task_id \<or> ex_status e \<noteq> QUEUED")
    case True
    then show ?thesis
      using Cons.IH [of s] Cons.prems by (simp add: cancel_if_queued_def wp)
  next
    case False
    have e: "dget (st_executions s) (ex_id e) = Some e" and facts: "facts_inv s"
      using Cons.prems by (auto simp: body_inv_def)
    then have "execution_post_init e = None"
      using execution_known by (fastforce simp: execution_ok_def)
    then obtain tr where tr: "cancel_execution_rule e now = Inr tr"
      using cancel_queued_rule False by blast
    then have sound: "sound_transition s tr None e"
      using cancel_sound [OF facts e] by blast
    have id: "ex_id (tr_execution tr) = ex_id e"
      using sound rule_step_identity by (auto simp: sound_transition_def)
    have others: "ex_id a \<noteq> ex_id e" if "a \<in> set es" for a
      using Cons.prems(2) that by (auto simp: image_iff)
    let ?t = "after_transition tr None s"
    note t = sound_after_transition [OF Cons.prems(1) sound]
    have "run_with (for_each (cancel_if_queued h task_id now) es)
       (\<lambda>_ t. body_inv h t \<and> evolves ?t t \<and> st_operations t = st_operations ?t \<and> st_limits t = st_limits ?t)
       (\<lambda>_ _. False) ?t"
      by (rule Cons.IH) (use t Cons.prems id others in auto)
    then have rest: "run_with (for_each (cancel_if_queued h task_id now) es)
       (\<lambda>_ t. body_inv h t \<and> evolves s t \<and> st_operations t = st_operations s \<and> st_limits t = st_limits s)
       (\<lambda>_ _. False) ?t"
      by (rule wp_mono) (use evolves_trans [OF t(2)] in auto)
    have "tr_deadline_work_at tr = None" "tr_complete_work tr = CURRENT_WORK \<longrightarrow> None \<noteq> None"
      using cancel_execution_cases [OF tr] by auto
    then have "run_with (cancel_if_queued h task_id now e) Q E s = Q () ?t" for Q E
      using False tr by (simp add: cancel_if_queued_def wp wp_apply_transition)
    with rest show ?thesis by (simp add: wp)
  qed
qed (simp add: wp)

lemma executions_current:
  assumes "facts_inv s"
  shows "distinct (map ex_id (dvals (st_executions s)))"
    and "\<And>e. e \<in> set (dvals (st_executions s)) \<Longrightarrow> dget (st_executions s) (ex_id e) = Some e"
proof -
  have wf: "wf_dict (st_executions s)" and ok: "\<And>x e. dget (st_executions s) x = Some e \<Longrightarrow> ex_id e = x"
    using assms known_id by (auto simp: facts_inv_def)
  have "ex_id (snd p) = fst p" if "p \<in> set (st_executions s)" for p
    using that ok wf dget_iff [OF wf, of "fst p" "snd p"] by simp
  then have "map ex_id (dvals (st_executions s)) = dkeys (st_executions s)" by simp
  then show "distinct (map ex_id (dvals (st_executions s)))" using wf by (simp only: wf_dict_def)
  show "dget (st_executions s) (ex_id e) = Some e" if "e \<in> set (dvals (st_executions s))" for e
    using that ok in_dvals_iff [OF wf] by auto
qed

lemma delete_task_sound:
  assumes inv: "mem_inv h s"
  shows "sound_op h (delete_task h n u task_id v r d) s"
proof -
  have body: "body_inv h s" using inv by (simp add: mem_inv_def)
  have loop: "run_with (for_each (cancel_if_queued h task_id now) (dvals (st_executions s)))
     (\<lambda>_ t. run_with (save_operation n u r d (TextResult task_id))
        (\<lambda>_ t. body_inv h t \<and> evolves s t) (\<lambda>_ t. body_inv h t \<and> facts t = facts s) t)
     (\<lambda>_ t. body_inv h t \<and> facts t = facts s)
     (s\<lparr>st_tasks := ddel task_id (st_tasks s), st_changes := c, st_clock_reads := k\<rparr>)"
    if new: "\<forall>q. r = Some q \<longrightarrow> dget (st_operations s) (n, u, q) = None"
      and room: "r \<noteq> None \<longrightarrow> int (length (st_operations s)) < max_operations (st_limits s)"
    for now c k
  proof -
    let ?s = "s\<lparr>st_tasks := ddel task_id (st_tasks s), st_changes := c, st_clock_reads := k\<rparr>"
    have "run_with (for_each (cancel_if_queued h task_id now) (dvals (st_executions s)))
       (\<lambda>_ t. body_inv h t \<and> evolves ?s t \<and> st_operations t = st_operations ?s \<and> st_limits t = st_limits ?s)
       (\<lambda>_ _. False) ?s"
    proof (rule cancel_loop)
      show "body_inv h ?s"
        by (rule body_inv_cong [OF body_inv_tasks [OF body, of "ddel task_id (st_tasks s)"]])
          (use body body_inv_wf [OF body] in \<open>auto simp: body_inv_task [OF body] split: if_splits\<close>)
      have facts: "facts_inv s" using body by (simp add: body_inv_def)
      show "distinct (map ex_id (dvals (st_executions s)))"
        using facts by (rule executions_current)
      show "dget (st_executions ?s) (ex_id e) = Some e" if "e \<in> set (dvals (st_executions s))" for e
        using executions_current(2) [OF facts that] by simp
    qed
    moreover have "evolves s t" if "evolves ?s t" for t
      by (rule evolves_trans [OF _ that]) simp
    ultimately show ?thesis
      using new room body_inv_wf(2) [OF body]
      by (elim wp_mono)
        (auto simp: save_operation_def wp ensure_capacity_def intro!: evolves_operations
          body_inv_operations split: option.split)
  qed
  show ?thesis
    unfolding delete_task_def sound_op_check
    using inv body body_inv_wf [OF body] loop
    by (auto split: sum.split option.split if_splits intro!: mutation_sound
          body_inv_tasks body_inv_operations simp: body_inv_task [OF body] sound_body_def wp ensure_open_def operation_result_def owned_task_def find_task_def
          require_operation_capacity_def record_change_def ensure_capacity_def)
qed

end
