(* ===== verification/Aut_Memory_Work.thy ===== *)
theory Aut_Memory_Work
  imports Aut_Memory_Sound
begin

text \<open>
  New executions, claims and their settlement: the operations that create and move work keep
  the invariant of the store. Claiming work fails on an open store with valid arguments only
  when the end of a lease lies beyond the range of \<open>datetime\<close>; then it leaves a claimed item
  without a lease behind.
\<close>

section \<open>New executions\<close>

lemma pending_occurrences_new:
  "x \<in> set (pending_occurrences xs seen) \<Longrightarrow> x \<in> set xs \<and> sx_occurrence_key x \<notin> seen"
  by (induction xs seen rule: pending_occurrences.induct) (simp, force split: if_splits)

lemma pending_occurrences_distinct: "distinct (map sx_occurrence_key (pending_occurrences xs seen))"
proof (induction xs seen rule: pending_occurrences.induct)
  case (2 item items seen)
  have "sx_occurrence_key item \<notin> sx_occurrence_key ` set (pending_occurrences items (insert (sx_occurrence_key item) seen))"
    using pending_occurrences_new [of _ items "insert (sx_occurrence_key item) seen"] by fastforce
  with 2 show ?case by simp
qed simp

lemma occurrence_fresh: "k \<notin> occurrence_keys n s \<Longrightarrow> dget (st_occurrences s) (n, k) = None"
  by (force simp: occurrence_keys_def dget_None_notin image_iff)

lemma snapshot_all_Inr: "snapshot_all xs = Inr ys \<longleftrightarrow>
    ys = xs \<and> (\<forall>x \<in> set xs. execution_post_init (sx_execution x) = None)"
proof (induction xs arbitrary: ys)
  case (Cons x xs)
  then show ?case
    by (cases "snapshot_execution (sx_execution x)") (auto simp: snapshot_execution_def replace_execution_def
        split: option.splits)
qed auto

text \<open>
  What the scheduler supplies: queued executions of the task's namespace that have not
  started, with identifiers of their own. The source derives identifiers from namespace,
  task, occurrence and attempt with a collision-resistant hash.
\<close>

definition fresh_batch :: "mem_store \<Rightarrow> py_str \<Rightarrow> scheduled_execution list \<Rightarrow> bool" where
  "fresh_batch s namespace xs \<longleftrightarrow>
     distinct (map (\<lambda>x. ex_id (sx_execution x)) xs) \<and>
     (\<forall>x \<in> set xs. fresh_execution (sx_execution x) \<and> ex_namespace (sx_execution x) = namespace \<and>
        dget (st_executions s) (ex_id (sx_execution x)) = None)"

lemma admit_loop:
  assumes h: "host_ok h" and "body_inv h s" and "fresh_batch s n xs"
    and "distinct (map sx_occurrence_key xs)"
    and "\<And>x. x \<in> set xs \<Longrightarrow> dget (st_occurrences s) (n, sx_occurrence_key x) = None \<and>
      execution_post_init (sx_execution x) = None"
    and "int (length (st_work s)) + int (length xs) \<le> max_work_items (st_limits s)"
  shows "run_with (for_each (\<lambda>x. admit_execution h n (sx_occurrence_key x) (sx_execution x)) xs)
     (\<lambda>_ t. body_inv h t \<and> evolves s t) (\<lambda>_ _. False) s"
  using assms(2-)
proof (induction xs arbitrary: s)
  case (Cons x xs)
  let ?e = "sx_execution x" and ?k = "sx_occurrence_key x"
  have n: "ex_namespace ?e = n" and "fresh_execution ?e" "dget (st_executions s) (ex_id ?e) = None"
    using Cons.prems by (auto simp: fresh_batch_def)
  then have first: "run_with (admit_execution h n ?k ?e)
     (\<lambda>_ t. body_inv h t \<and> evolves s t \<and> length (st_work t) \<le> Suc (length (st_work s)) \<and>
        st_executions t = dset (ex_id ?e) ?e (st_executions s) \<and>
        st_occurrences t = dset (n, ?k) (ex_id ?e) (st_occurrences s) \<and>
        st_operations t = st_operations s) (\<lambda>_ _. False) s"
    using admit_execution_sound [OF h Cons.prems(1), of ?e ?k] Cons.prems by simp
  have rest: "run_with (for_each (\<lambda>x. admit_execution h n (sx_occurrence_key x) (sx_execution x)) xs)
     (\<lambda>_ u. body_inv h u \<and> evolves s u) (\<lambda>_ _. False) t"
    if t: "body_inv h t" "evolves s t" "length (st_work t) \<le> Suc (length (st_work s))"
      "st_executions t = dset (ex_id ?e) ?e (st_executions s)"
      "st_occurrences t = dset (n, ?k) (ex_id ?e) (st_occurrences s)" for t
  proof -
    have "fresh_batch t n xs"
      using Cons.prems(2) t(4) unfolding fresh_batch_def by (metis (no_types, lifting) dget_dset
          distinct.simps(2) image_eqI list.map(2) list.set_intros(2) list.set_map)
    moreover have "dget (st_occurrences t) (n, sx_occurrence_key y) = None \<and>
        execution_post_init (sx_execution y) = None" if "y \<in> set xs" for y
      using Cons.prems(3) Cons.prems(4) [of y] t(5) that by (auto simp: image_iff)
    moreover have "st_limits t = st_limits s" using t(2) by (simp add: evolves_def)
    ultimately have "run_with (for_each (\<lambda>x. admit_execution h n (sx_occurrence_key x) (sx_execution x)) xs)
       (\<lambda>_ u. body_inv h u \<and> evolves t u) (\<lambda>_ _. False) t"
      using Cons.prems t by (intro Cons.IH) auto
    then show ?thesis
      by (rule wp_mono) (use evolves_trans [OF t(2)] in auto)
  qed
  show ?case
    unfolding for_each.simps wp_seq by (rule wp_mono [OF first]) (use rest in auto)
qed (simp add: wp)

definition batch_admissible :: "mem_store \<Rightarrow> automation_task \<Rightarrow> scheduled_execution list \<Rightarrow> bool" where
  "batch_admissible s task xs \<longleftrightarrow>
     fresh_batch s (tk_namespace task) (pending_occurrences xs (occurrence_keys (tk_namespace task) s))"

lemma materialize_task_sound:
  assumes h: "host_ok h" and inv: "mem_inv h s" and xs: "batch_admissible s task xs"
  shows "sound_op h (materialize_task h task next xs) s"
proof (cases "task_post_init task = None \<and> (\<forall>x \<in> set xs. execution_post_init (sx_execution x) = None)")
  case True
  have body: "body_inv h s" using inv by (simp add: mem_inv_def)
  let ?n = "tk_namespace task"
  let ?p = "pending_occurrences xs (occurrence_keys ?n s)"
  let ?s = "s\<lparr>st_tasks := dset (tk_id task) task (st_tasks s),
     st_changes := add_change (task_change task) (st_changes s)\<rparr>"
  have loop: "run_with (for_each (\<lambda>x. admit_execution h ?n (sx_occurrence_key x) (sx_execution x)) ?p)
     (\<lambda>_ t. body_inv h t \<and> evolves s t) (\<lambda>_ t. body_inv h t \<and> facts t = facts s) ?s"
    if room: "int (length (st_work s)) + int (length ?p) \<le> max_work_items (st_limits s)"
  proof -
    have "body_inv h ?s"
      using body body_inv_wf [OF body] True
      by (auto intro!: body_inv_tasks simp: body_inv_task [OF body] split: if_splits)
    moreover have "fresh_batch ?s ?n ?p"
      using xs by (simp add: batch_admissible_def fresh_batch_def)
    moreover have "dget (st_occurrences ?s) (?n, sx_occurrence_key x) = None \<and>
        execution_post_init (sx_execution x) = None" if "x \<in> set ?p" for x
      using occurrence_fresh pending_occurrences_new [OF that] True by auto
    ultimately have "run_with (for_each (\<lambda>x. admit_execution h ?n (sx_occurrence_key x) (sx_execution x)) ?p)
       (\<lambda>_ t. body_inv h t \<and> evolves ?s t) (\<lambda>_ _. False) ?s"
      using room pending_occurrences_distinct by (intro admit_loop [OF h]) auto
    moreover have "evolves s t" if "evolves ?s t" for t
      by (rule evolves_trans [OF _ that]) simp
    ultimately show ?thesis by (elim wp_mono) auto
  qed
  have "snapshot_all xs = Inr xs" using True by (simp add: snapshot_all_Inr)
  then show ?thesis
    unfolding materialize_task_def sound_op_lift
    using inv body loop True
    by (auto split: sum.split option.split if_splits intro!: mutation_sound
        simp: sound_body_def wp ensure_open_def owned_task_def find_task_def save_task_def record_change_def
          total_capacity_def ensure_capacity_def)
next
  case False
  then show ?thesis
    unfolding materialize_task_def sound_op_lift
    using inv by (auto split: sum.split simp: snapshot_all_Inr)
qed

lemma enqueue_execution_sound:
  assumes h: "host_ok h" and inv: "mem_inv h s"
    and fresh: "ex_start_authorized_at e = None" "ex_deadline e = None"
  shows "sound_op h (enqueue_execution h e k r d v) s"
proof -
  have body: "body_inv h s" using inv by (simp add: mem_inv_def)
  have admit: "run_with (admit_execution h (ex_namespace e) k e)
     (\<lambda>_ t. run_with (save_operation (ex_namespace e) (ex_owner e) r d (ExecutionResult e))
        (\<lambda>_ t. body_inv h t \<and> evolves s t) (\<lambda>_ t. body_inv h t \<and> facts t = facts s) t)
     (\<lambda>_ t. body_inv h t \<and> facts t = facts s) s"
    if "execution_post_init e = None" "ex_status e = QUEUED" "dget (st_executions s) (ex_id e) = None"
      "dget (st_occurrences s) (ex_namespace e, k) = None"
      "int (length (st_work s)) < max_work_items (st_limits s)"
      and new: "\<forall>q. r = Some q \<longrightarrow> dget (st_operations s) (ex_namespace e, ex_owner e, q) = None"
      and room: "r \<noteq> None \<longrightarrow> int (length (st_operations s)) < max_operations (st_limits s)" for r
  proof -
    have "run_with (admit_execution h (ex_namespace e) k e)
      (\<lambda>_ t. body_inv h t \<and> evolves s t \<and> length (st_work t) \<le> Suc (length (st_work s)) \<and>
        st_executions t = dset (ex_id e) e (st_executions s) \<and>
        st_occurrences t = dset (ex_namespace e, k) (ex_id e) (st_occurrences s) \<and>
        st_operations t = st_operations s) (\<lambda>_ _. False) s"
      using that fresh by (intro admit_execution_sound [OF h body]) (simp_all add: fresh_execution_def)
    then show ?thesis
    proof (rule wp_mono)
      fix t
      assume t: "body_inv h t \<and> evolves s t \<and> length (st_work t) \<le> Suc (length (st_work s)) \<and>
        st_executions t = dset (ex_id e) e (st_executions s) \<and>
        st_occurrences t = dset (ex_namespace e, k) (ex_id e) (st_occurrences s) \<and>
        st_operations t = st_operations s"
      then have "st_limits t = st_limits s" by (simp add: evolves_def)
      moreover have "wf_dict (st_operations t)" using t body_inv_wf(2) by blast
      ultimately have "st_limits t = st_limits s" "wf_dict (st_operations t)" .
      with t new room show "run_with (save_operation (ex_namespace e) (ex_owner e) r d (ExecutionResult e))
          (\<lambda>_ t. body_inv h t \<and> evolves s t) (\<lambda>_ t. body_inv h t \<and> facts t = facts s) t"
        by (cases r) (auto simp: save_operation_def wp ensure_capacity_def
            intro!: body_inv_operations evolves_operations)
    qed simp
  qed
  show ?thesis
  proof (cases "execution_post_init e")
    case None
    then have snap: "snapshot_execution e = Inr e" by simp
    show ?thesis
      unfolding enqueue_execution_def sound_op_lift snap sum.case
    proof (rule mutation_sound [OF inv], unfold sound_body_def ensure_open_def operation_result_def
        execution_at_def require_operation_capacity_def, intro guards)
    qed (use body None in \<open>auto intro!: admit simp: wp work_capacity_def ensure_capacity_def split: if_splits option.splits\<close>)
  next
    case (Some err)
    then have "snapshot_execution e = Inl err" by (simp add: snapshot_execution_def replace_execution_def)
    then show ?thesis unfolding enqueue_execution_def sound_op_lift using inv by simp
  qed
qed

section \<open>Reservations\<close>

lemma wp_reserve:
  "run_with (reserve_scopes e g) Q E = (\<lambda>s.
     if ex_id e \<in> st_admitted s then Q True s
     else if g \<le> allocated s (global_key (ex_namespace e)) \<or>
       max_concurrent_runs (ex_limits e) \<le> allocated s (scope_key e) then Q False s
     else Q True ((allocate (scope_key e) (allocate (global_key (ex_namespace e)) s))
       \<lparr>st_admitted := insert (ex_id e) (st_admitted s)\<rparr>))"
  by (rule ext) (simp add: run_with_def reserve_scopes_def)

lemma body_inv_reserved:
  assumes inv: "body_inv h s" and e: "dget (st_executions s) (ex_id e) = Some e"
    and live: "\<not> is_terminal (ex_status e)" and new: "ex_id e \<notin> st_admitted s"
  shows "body_inv h ((allocate (scope_key e) (allocate (global_key (ex_namespace e)) s))
       \<lparr>st_admitted := insert (ex_id e) (st_admitted s)\<rparr>)" (is "body_inv h ?s")
proof -
  have "counts_inv ?s"
    using inv e new by (intro counts_reserved) (auto simp: body_inv_def)
  moreover have "admitted_inv ?s"
    using inv e live by (auto simp: body_inv_def admitted_inv_def)
  moreover have "facts_inv ?s" "work_inv h ?s"
    using inv by (simp_all add: body_inv_def facts_inv_def work_inv_def item_ok_def)
  ultimately show ?thesis by (simp add: body_inv_def)
qed

section \<open>Recovery of expired claims\<close>

lemma allocated_released: "allocated (released e s) k \<le> max 0 (allocated s k)"
  by (auto simp: released_def deallocate_def allocated_def split: option.splits)

lemma allocated_nonneg: "body_inv h s \<Longrightarrow> 0 \<le> allocated s k"
  by (simp add: body_inv_def counts_inv_def)

lemma allocated_after_transition:
  assumes "body_inv h s"
  shows "allocated (after_transition tr item s) k \<le> allocated s k"
proof -
  let ?m = "s\<lparr>st_executions := dset (ex_id (tr_execution tr)) (tr_execution tr) (st_executions s),
          st_changes := add_change (execution_change (tr_execution tr)) (st_changes s),
          st_work := transition_work tr item (st_work s)\<rparr>"
  have "allocated ?m k = allocated s k" by (simp add: allocated_def)
  then show ?thesis
    using allocated_released [of "tr_execution tr" ?m k] allocated_nonneg [OF assms, of k]
    by (simp add: after_transition_def)
qed


lemma recover_total:
  assumes "execution_post_init e = None"
  shows "\<exists>tr. recover_expired_claim e k now = Inr tr"
  using recover_expired_claim_ok [OF assms]
  by (cases "k = EXECUTE \<and> ex_start_authorized_at e \<noteq> None") (auto simp: recover_expired_claim_def)

lemma body_inv_item:
  assumes inv: "body_inv h s" and i: "dget (st_work s) w = Some i"
    and f: "item_ok h s w (f i)" "item_key (f i) = item_key i"
  shows "body_inv h (s\<lparr>st_work := dadjust w f (st_work s)\<rparr>)" (is "body_inv h ?s")
proof (rule body_inv_work [OF inv])
  have work: "work_inv h s" using inv by (simp add: body_inv_def)
  have "item_ok h ?s v j" if "item_ok h s v j" for v j
    using that by (simp add: item_ok_def)
  moreover have "\<exists>j. dget (st_work ?s) v = Some j \<and> item_key j = k"
    if "dget (st_work_keys s) k = Some v" for k v
    using work_inv_key [OF work that] i f by (cases "v = w") auto
  ultimately show "work_inv h ?s"
    using work i f unfolding work_inv_def by (auto split: if_splits)
qed simp_all

lemma evolves_item:
  "dget (st_work s) w = Some i \<Longrightarrow> item_key (f i) = item_key i \<Longrightarrow> wi_fence i \<le> wi_fence (f i) \<Longrightarrow>
     evolves s (s\<lparr>st_work := dadjust w f (st_work s)\<rparr>)"
  by (auto simp: evolves_def)

lemma item_execution:
  assumes "body_inv h s" and "dget (st_work s) w = Some i"
  obtains e where "dget (st_executions s) (wi_execution_id i) = Some e" "ex_id e = wi_execution_id i"
    "ex_namespace e = wi_namespace i" "execution_post_init e = None" "execution_ok (ex_id e) e"
    "wi_status i \<noteq> COMPLETED \<longrightarrow> live_work (wi_kind i) (ex_status e)"
    "wi_kind i = EXPIRE_INTERRUPT \<longrightarrow> ex_deadline e = Some (wi_available_at i)"
proof -
  have "item_ok h s w i" using assms by (simp add: body_inv_def work_inv_def)
  then obtain e where e: "dget (st_executions s) (wi_execution_id i) = Some e"
      "ex_namespace e = wi_namespace i" "wi_status i \<noteq> COMPLETED \<longrightarrow> live_work (wi_kind i) (ex_status e)"
      "wi_kind i = EXPIRE_INTERRUPT \<longrightarrow> ex_deadline e = Some (wi_available_at i)"
    by (auto simp: item_ok_def)
  have "execution_ok (wi_execution_id i) e"
    using assms(1) execution_known [OF _ e(1)] by (simp add: body_inv_def)
  then show thesis using that e by (simp add: execution_ok_def)
qed

text \<open>A recovery pass changes an item to pending or completed and never fails.\<close>

lemma recover_item_sound:
  assumes inv: "body_inv h s" and i: "dget (st_work s) w = Some i"
  shows "run_with (recover_item h n now w)
    (\<lambda>_ t. body_inv h t \<and> evolves s t \<and> (\<forall>k. allocated t k \<le> allocated s k)) (\<lambda>_ _. False) s"
proof (cases "lease_expired n now i")
  case True
  obtain e where e: "dget (st_executions s) (wi_execution_id i) = Some e" "ex_id e = wi_execution_id i"
    "execution_post_init e = None" "wi_status i \<noteq> COMPLETED \<longrightarrow> live_work (wi_kind i) (ex_status e)"
    "wi_kind i = EXPIRE_INTERRUPT \<longrightarrow> ex_deadline e = Some (wi_available_at i)"
    by (rule item_execution [OF inv i]) blast
  have claimed: "wi_status i = CLAIMED" using True by (simp add: lease_expired_def)
  obtain tr where tr: "recover_expired_claim e (wi_kind i) now = Inr tr"
    using recover_total [OF e(3)] by blast
  have sound: "sound_transition s tr (Some w) e"
    using recover_sound [OF _ e(1) i refl _ tr] inv e claimed by (simp add: body_inv_def)
  let ?t = "after_transition tr (Some w) s"
  note t = sound_after_transition [OF inv sound]
  note cases = recover_expired_claim_cases [OF tr]
  define st where "st = (if tr_complete_work tr = NO_WORK then PENDING else COMPLETED)"
  have j: "dget (st_work ?t) w = Some (if tr_complete_work tr = NO_WORK then i else reset_claim COMPLETED i)"
    using i cases by (auto simp: transition_work_def)
  let ?f = "reset_claim st"
  have "item_ok h ?t w (?f (if tr_complete_work tr = NO_WORK then i else reset_claim COMPLETED i))"
    using t(1) j claimed unfolding st_def body_inv_def work_inv_def
    by (fastforce simp: item_ok_def)
  then have "body_inv h (?t\<lparr>st_work := dadjust w ?f (st_work ?t)\<rparr>)"
    by (rule body_inv_item [OF t(1) j]) simp
  moreover have "evolves s (?t\<lparr>st_work := dadjust w ?f (st_work ?t)\<rparr>)"
    by (rule evolves_trans [OF t(2) evolves_item [OF j]]) simp_all
  moreover have "allocated (?t\<lparr>st_work := dadjust w ?f (st_work ?t)\<rparr>) k \<le> allocated s k" for k
    using allocated_after_transition [OF inv, of tr "Some w" k] by (simp add: allocated_def)
  moreover have "dadjust w clear_claim
      (if tr_complete_work tr = NO_WORK then dadjust w (\<lambda>i. i\<lparr>wi_status := PENDING\<rparr>) (st_work ?t) else st_work ?t) =
      dadjust w ?f (st_work ?t)"
    unfolding st_def using j
    by (auto simp: dadjust_dadjust clear_claim_def reset_claim_def intro: dadjust_cong)
  ultimately show ?thesis
    using i e tr True cases
    by (auto simp: recover_item_def work_at_def execution_at_def wp wp_apply_transition update_item_def
        split: if_splits)
next
  case False
  then show ?thesis using inv i by (simp add: recover_item_def wp work_at_def)
qed

lemma recover_expired_claims_sound:
  assumes inv: "body_inv h s"
  shows "run_with (recover_expired_claims h n now)
    (\<lambda>_ t. body_inv h t \<and> evolves s t \<and> (\<forall>k. allocated t k \<le> allocated s k)) (\<lambda>_ _. False) s"
proof -
  let ?I = "\<lambda>t. body_inv h t \<and> evolves s t \<and> (\<forall>k. allocated t k \<le> allocated s k)"
  have "run_with (recover_item h n now w) (\<lambda>_. ?I) (\<lambda>_ _. False) t"
    if w: "w \<in> set (dkeys (st_work s))" and t: "?I t" for w t
  proof -
    obtain i where "dget (st_work s) w = Some i"
      using w by (metis dget_None_notin option.exhaust)
    then obtain i' where "dget (st_work t) w = Some i'" using t evolves_work by blast
    with t have "run_with (recover_item h n now w)
        (\<lambda>_ u. body_inv h u \<and> evolves t u \<and> (\<forall>k. allocated u k \<le> allocated t k)) (\<lambda>_ _. False) t"
      by (intro recover_item_sound) auto
    then show ?thesis by (rule wp_mono) (use t evolves_trans order_trans in \<open>blast, simp\<close>)
  qed
  then show ?thesis
    using inv by (auto simp: recover_expired_claims_def wp intro!: wp_for_each)
qed

section \<open>Claims\<close>

lemma transition_work_available:
  "dget d v = Some j \<Longrightarrow>
     \<exists>j'. dget (transition_work tr item d) v = Some j' \<and> wi_available_at j' = wi_available_at j"
  by (auto simp: transition_work_def split: complete_work.split option.split)

text \<open>A granted claim is honoured at once.\<close>

definition claims_hold :: "mem_store \<Rightarrow> time \<Rightarrow> work_item_claim list \<Rightarrow> bool" where
  "claims_hold s now claims \<longleftrightarrow>
     (\<forall>c \<in> set claims. \<exists>i. dget (st_work s) (cl_work_item_id c) = Some i \<and> claim_matches c now i)"

definition keeps_availability :: "mem_store \<Rightarrow> mem_store \<Rightarrow> bool" where
  "keeps_availability s t \<longleftrightarrow> (\<forall>v j. dget (st_work s) v = Some j \<longrightarrow>
     (\<exists>j'. dget (st_work t) v = Some j' \<and> wi_available_at j' = wi_available_at j))"

text \<open>An overflow keeps the invariant, but not the facts.\<close>

definition overflowed :: "host \<Rightarrow> mem_store \<Rightarrow> time \<Rightarrow> duration \<Rightarrow> aut_error \<Rightarrow> mem_store \<Rightarrow> bool" where
  "overflowed h s now d e t \<longleftrightarrow> e = OverflowError ''date value out of range'' \<and> \<not> in_datetime (now + d) \<and>
     body_inv h t \<and> evolves s t"

lemma overflowed_later: "evolves s u \<Longrightarrow> overflowed h u now d e t \<Longrightarrow> overflowed h s now d e t"
  using evolves_trans by (auto simp: overflowed_def)

lemma grant_claim_sound:
  assumes inv: "body_inv h s" and i: "dget (st_work s) w = Some i"
    and e: "dget (st_executions s) (wi_execution_id i) = Some e" "live_work (wi_kind i) (ex_status e)"
    and lease: "0 < d"
  shows "run_with (grant_claim h worker now d w)
     (\<lambda>c t. body_inv h t \<and> evolves s t \<and> keeps_availability s t \<and> (\<forall>v. v \<noteq> w \<longrightarrow> dget (st_work t) v = dget (st_work s) v) \<and>
        (\<forall>k. allocated t k = allocated s k) \<and> cl_work_item_id c = w \<and> claims_hold t now [c])
     (overflowed h s now d) s"
proof -
  let ?s = "s\<lparr>st_tokens := Suc (st_tokens s)\<rparr>"
  let ?f = "claim_item worker (hs_token h (st_tokens s))"
  let ?g = "\<lambda>i. i\<lparr>wi_lease_until := Some (now + d)\<rparr>"
  let ?t = "?s\<lparr>st_work := dadjust w ?f (st_work ?s)\<rparr>"
  let ?u = "?t\<lparr>st_work := dadjust w ?g (st_work ?t)\<rparr>"
  have inv': "body_inv h ?s" and i': "dget (st_work ?s) w = Some i" using inv i by simp_all
  have ok: "item_ok h ?s w i" using inv' i' by (simp add: body_inv_def work_inv_def)
  have "item_ok h ?s w (?f i)" "item_key (?f i) = item_key i" "wi_fence i \<le> wi_fence (?f i)"
    using ok e by (auto simp: item_ok_def claim_item_def item_key_def)
  then have t: "body_inv h ?t" "evolves ?s ?t"
    using body_inv_item [OF inv' i'] evolves_item [OF i'] by auto
  then have ev: "evolves s ?t" by (simp add: evolves_def)
  have j: "dget (st_work ?t) w = Some (?f i)" using i by simp
  have "item_ok h ?t w (?f i)" using t(1) j by (simp add: body_inv_def work_inv_def)
  then have "item_ok h ?t w (?g (?f i))" "item_key (?g (?f i)) = item_key (?f i)"
    by (auto simp: item_ok_def item_key_def)
  then have "body_inv h ?u" "evolves ?t ?u"
    using body_inv_item [where f = ?g, OF t(1) j] evolves_item [where f = ?g, OF j] by auto
  moreover from this(2) have "evolves s ?u" by (rule evolves_trans [OF ev])
  moreover have "wi_id i = w" using ok by (simp add: item_ok_def)
  ultimately show ?thesis
    using i lease t(1) ev
    by (auto simp: grant_claim_def wp update_item_def work_at_def claim_from_def claims_hold_def plus_time_def
        keeps_availability_def claim_matches_def claim_item_def allocated_def overflowed_def)
qed

definition step_keeps :: "int \<Rightarrow> int \<Rightarrow> py_str \<Rightarrow> mem_store \<Rightarrow> mem_store \<Rightarrow> bool" where
  "step_keeps limit g w s t \<longleftrightarrow> evolves s t \<and> keeps_availability s t \<and>
     (0 < limit \<longrightarrow> (\<forall>v. v \<noteq> w \<longrightarrow> dget (st_work t) v = dget (st_work s) v)) \<and>
     (\<forall>n. allocated t (global_key n) \<le> max g (allocated s (global_key n)))"

lemma step_keeps_refl [simp]: "step_keeps limit g w s s"
  by (simp add: step_keeps_def keeps_availability_def)

lemma claim_step_transition:
  assumes inv: "body_inv h s" and tr: "sound_transition s tr (Some w) e"
    and plain: "tr_deadline_work_at tr = None" and cur: "0 < limit \<longrightarrow> tr_complete_work tr = CURRENT_WORK"
  shows "body_inv h (after_transition tr (Some w) s) \<and> step_keeps limit g w s (after_transition tr (Some w) s)"
proof -
  note t = sound_after_transition [OF inv tr]
  have "keeps_availability s (after_transition tr (Some w) s)"
    by (simp add: keeps_availability_def transition_work_available)
  moreover have "allocated (after_transition tr (Some w) s) (global_key n) \<le> max g (allocated s (global_key n))" for n
    using allocated_after_transition [OF inv, of tr "Some w" "global_key n"] by linarith
  ultimately show ?thesis
    using t cur by (auto simp: step_keeps_def transition_work_def)
qed

lemma claim_step_sound:
  assumes inv: "body_inv h s" and i: "dget (st_work s) w = Some i" and due: "wi_available_at i \<le> now"
    and d: "0 < d" and limit: "0 \<le> limit"
  shows "run_with (claim_step h worker limit d g now w)
     (\<lambda>c t. body_inv h t \<and> step_keeps limit g w s t \<and>
        (\<forall>k. c = Some k \<longrightarrow> 0 < limit \<and> cl_work_item_id k = w \<and> claims_hold t now [k]))
     (overflowed h s now d) s"
proof -
  obtain e where e: "dget (st_executions s) (wi_execution_id i) = Some e" "ex_id e = wi_execution_id i"
    "execution_post_init e = None" "wi_kind i = EXPIRE_INTERRUPT \<longrightarrow> ex_deadline e = Some (wi_available_at i)"
    by (rule item_execution [OF inv i]) blast
  have facts: "facts_inv s" using inv by (simp add: body_inv_def)
  have start: "run_with (claim_step h worker limit d g now w) Q E s =
      run_with (bind (lift (claim_candidate e (wi_kind i) now)) (\<lambda>transition.
     case transition of
       Some tr \<Rightarrow> seq (apply_transition h tr (Some w)) (ret None)
     | None \<Rightarrow>
         if limit = 0 then
           if wi_kind i = EXPIRE_INTERRUPT then
             bind (lift (expire_interrupted e now)) (\<lambda>tr.
               seq (apply_transition h tr (Some w)) (ret None))
           else ret None
         else
           bind (if wi_kind i = EXECUTE then reserve_scopes e g else ret True) (\<lambda>reserved.
           if \<not> reserved then ret None
           else bind (grant_claim h worker now d w) (\<lambda>claim. ret (Some claim))))) Q E s" for Q E
    using i e(1) by (simp add: claim_step_def wp work_at_def execution_at_def)
  have "\<exists>r. claim_candidate e (wi_kind i) now = Inr r"
    by (simp add: claim_candidate_def expire_queued_ok [OF e(3)])
  then obtain r where r: "claim_candidate e (wi_kind i) now = Inr r" by blast
  show ?thesis
  proof (cases r)
    case (Some tr)
    note cases = claim_candidate_cases [OF r [unfolded Some]]
    have "sound_transition s tr (Some w) e"
      using claim_candidate_sound [OF facts e(1) i refl r [unfolded Some]] .
    then show ?thesis
      using claim_step_transition [OF inv, of tr w e limit g] cases
      by (simp add: start r Some wp wp_apply_transition)
  next
    case None
    note free = claim_candidate_None [OF r [unfolded None]]
    then have live: "live_work (wi_kind i) (ex_status e)" "\<not> is_terminal (ex_status e)"
      by (auto simp: live_work_def)
    show ?thesis
    proof (cases "limit = 0")
      case True
      show ?thesis
      proof (cases "wi_kind i = EXPIRE_INTERRUPT")
        case True
        then have "ex_status e = INTERRUPTED" "ex_deadline e = Some (wi_available_at i)"
          using free e by auto
        then obtain tr where tr: "expire_interrupted e now = Inr tr"
          using expire_interrupted_ok [OF e(3) _ _ due] by blast
        note cases = expire_interrupted_cases [OF tr]
        have "sound_transition s tr (Some w) e"
          using expire_interrupted_sound [OF facts e(1) tr] .
        then show ?thesis
          using claim_step_transition [OF inv, of tr w e limit g] cases \<open>limit = 0\<close>
          unfolding start r None by (simp add: True tr wp wp_apply_transition)
      next
        case False
        then show ?thesis
          unfolding start r None using \<open>limit = 0\<close> inv by (simp add: wp)
      qed
    next
      case False
      then have pos: "0 < limit" using limit by simp
      have grant: "run_with (grant_claim h worker now d w)
         (\<lambda>c t. body_inv h t \<and> step_keeps limit g w s t \<and> cl_work_item_id c = w \<and> claims_hold t now [c])
         (overflowed h s now d) u"
        if u: "body_inv h u" "st_work u = st_work s" "st_executions u = st_executions s" "evolves s u"
          "\<And>n. allocated u (global_key n) \<le> max g (allocated s (global_key n))" for u
      proof -
        have "run_with (grant_claim h worker now d w)
         (\<lambda>c t. body_inv h t \<and> evolves u t \<and> keeps_availability u t \<and> (\<forall>v. v \<noteq> w \<longrightarrow> dget (st_work t) v = dget (st_work u) v) \<and>
            (\<forall>k. allocated t k = allocated u k) \<and> cl_work_item_id c = w \<and> claims_hold t now [c])
         (overflowed h u now d) u"
          by (rule grant_claim_sound [OF u(1)]) (use u i e live d in auto)
        then show ?thesis
          by (rule wp_mono)
            (use u evolves_trans [OF u(4)] overflowed_later [OF u(4)] in \<open>auto simp: step_keeps_def keeps_availability_def\<close>)
      qed
      have then_some: "run_with (bind (grant_claim h worker now d w) (\<lambda>claim. ret (Some claim)))
         (\<lambda>c t. body_inv h t \<and> step_keeps limit g w s t \<and>
            (\<forall>k. c = Some k \<longrightarrow> 0 < limit \<and> cl_work_item_id k = w \<and> claims_hold t now [k])) (overflowed h s now d) u"
        if "body_inv h u" "st_work u = st_work s" "st_executions u = st_executions s" "evolves s u"
          "\<And>n. allocated u (global_key n) \<le> max g (allocated s (global_key n))" for u
        unfolding wp by (rule wp_mono [OF grant [OF that]]) (use pos in auto)
      let ?r = "(allocate (scope_key e) (allocate (global_key (ex_namespace e)) s))
         \<lparr>st_admitted := insert (ex_id e) (st_admitted s)\<rparr>"
      show ?thesis
      proof (cases "wi_kind i = EXECUTE")
        case True
        have reserved: "body_inv h ?r" if "ex_id e \<notin> st_admitted s"
          using body_inv_reserved [OF inv _ live(2) that] e by simp
        have "allocated ?r (global_key n) \<le> max g (allocated s (global_key n))"
          if "allocated s (global_key (ex_namespace e)) < g" for n
        proof -
          have "allocated ?r k = allocated (allocate (scope_key e) (allocate (global_key (ex_namespace e)) s)) k" for k
            by (simp add: allocated_def)
          moreover have "global_key n = global_key m \<longleftrightarrow> n = m" for n m
            by (simp add: global_key_def)
          ultimately show ?thesis using that by auto
        qed
        moreover have "evolves s ?r" by (auto simp: evolves_def)
        ultimately show ?thesis
          unfolding start wp_bind [of "lift _ :: execution_transition option store_op"] wp_lift r None
            sum.case option.case if_not_P [OF False] if_P [OF True]
            wp_bind [of "reserve_scopes e g"] wp_reserve
          using inv reserved e(2) by (auto simp: wp_ret intro!: then_some)
      next
        case False
        with \<open>limit \<noteq> 0\<close> inv show ?thesis
          using then_some [of s] unfolding start wp_bind [of "lift _ :: execution_transition option store_op"] wp_lift r None
            sum.case option.case if_not_P [OF \<open>limit \<noteq> 0\<close>] if_not_P [OF False]
          by (simp add: wp_bind [of "ret _ :: bool store_op"] wp_ret)
      qed
    qed
  qed
qed

text \<open>The loop: due, distinct candidates; claims so far stay honoured.\<close>

definition due_items :: "mem_store \<Rightarrow> time \<Rightarrow> py_str list \<Rightarrow> bool" where
  "due_items s now ws \<longleftrightarrow> distinct ws \<and>
     (\<forall>w \<in> set ws. \<exists>i. dget (st_work s) w = Some i \<and> wi_available_at i \<le> now)"

definition batch_ok :: "int \<Rightarrow> work_item_claim list \<Rightarrow> bool" where
  "batch_ok limit claims \<longleftrightarrow>
     (if limit = 0 then claims = [] else int (length claims) \<le> limit) \<and>
     distinct (map cl_work_item_id claims)"

lemma due_items_keep:
  "due_items s now (w # ws) \<Longrightarrow> keeps_availability s t \<Longrightarrow> due_items t now ws"
  unfolding due_items_def keeps_availability_def by fastforce

lemma claim_loop_sound:
  assumes d: "0 < d" and limit: "0 \<le> limit"
    and "body_inv h s" and "due_items s now ws" and "batch_ok limit claims" and "claims_hold s now claims"
    and "cl_work_item_id ` set claims \<inter> set ws = {}"
  shows "run_with (claim_loop h worker limit d g now ws claims)
     (\<lambda>cs t. body_inv h t \<and> evolves s t \<and> batch_ok limit cs \<and> claims_hold t now cs \<and>
        (\<forall>n. allocated t (global_key n) \<le> max g (allocated s (global_key n))))
     (overflowed h s now d) s"
  using assms(3-)
proof (induction ws arbitrary: s claims)
  case (Cons w ws)
  show ?case
  proof (cases "0 < limit \<and> limit \<le> int (length claims)")
    case True
    then show ?thesis using Cons.prems by (simp add: wp)
  next
    case False
    obtain i where i: "dget (st_work s) w = Some i" "wi_available_at i \<le> now"
      using Cons.prems(2) by (auto simp: due_items_def)
    have rest: "run_with (claim_loop h worker limit d g now ws (case c of None \<Rightarrow> claims | Some k \<Rightarrow> claims @ [k]))
       (\<lambda>cs t. body_inv h t \<and> evolves s t \<and> batch_ok limit cs \<and> claims_hold t now cs \<and>
          (\<forall>n. allocated t (global_key n) \<le> max g (allocated s (global_key n)))) (overflowed h s now d) u"
      if u: "body_inv h u" "step_keeps limit g w s u"
        and c: "\<forall>k. c = Some k \<longrightarrow> 0 < limit \<and> cl_work_item_id k = w \<and> claims_hold u now [k]" for c u
    proof -
      let ?cs = "case c of None \<Rightarrow> claims | Some k \<Rightarrow> claims @ [k]"
      have others: "cl_work_item_id k \<noteq> w" if "k \<in> set claims" for k
        using Cons.prems(5) that by auto
      have "claims_hold u now claims"
      proof (cases "limit = 0")
        case True
        then show ?thesis using Cons.prems(3) by (simp add: batch_ok_def claims_hold_def)
      next
        case False
        then have "dget (st_work u) (cl_work_item_id k) = dget (st_work s) (cl_work_item_id k)"
          if "k \<in> set claims" for k
          using others [OF that] u(2) limit by (simp add: step_keeps_def)
        then show ?thesis using Cons.prems(4) by (simp add: claims_hold_def)
      qed
      then have hold: "claims_hold u now ?cs"
        using c by (auto simp: claims_hold_def split: option.split)
      have "batch_ok limit ?cs"
        using Cons.prems(3) c False others by (auto simp: batch_ok_def image_iff split: option.split if_splits)
      moreover have "cl_work_item_id ` set ?cs \<inter> set ws = {}"
        using Cons.prems(2,5) c by (auto simp: due_items_def split: option.split)
      moreover have "due_items u now ws"
        using due_items_keep [OF Cons.prems(2)] u(2) by (simp add: step_keeps_def)
      ultimately have "run_with (claim_loop h worker limit d g now ws ?cs)
         (\<lambda>cs t. body_inv h t \<and> evolves u t \<and> batch_ok limit cs \<and> claims_hold t now cs \<and>
            (\<forall>n. allocated t (global_key n) \<le> max g (allocated u (global_key n)))) (overflowed h u now d) u"
        using hold u(1) by (intro Cons.IH)
      then show ?thesis
      proof (rule wp_mono)
        fix cs t
        assume t: "body_inv h t \<and> evolves u t \<and> batch_ok limit cs \<and> claims_hold t now cs \<and>
          (\<forall>n. allocated t (global_key n) \<le> max g (allocated u (global_key n)))"
        have "allocated t (global_key n) \<le> max g (allocated s (global_key n))" for n
        proof -
          have "allocated t (global_key n) \<le> max g (allocated u (global_key n))" using t by blast
          moreover have "allocated u (global_key n) \<le> max g (allocated s (global_key n))"
            using u(2) by (simp add: step_keeps_def)
          ultimately show ?thesis by linarith
        qed
        moreover have "evolves s t" using u(2) t evolves_trans by (auto simp: step_keeps_def)
        ultimately show "body_inv h t \<and> evolves s t \<and> batch_ok limit cs \<and> claims_hold t now cs \<and>
            (\<forall>n. allocated t (global_key n) \<le> max g (allocated s (global_key n)))"
          using t by blast
      qed (use u(2) overflowed_later in \<open>auto simp: step_keeps_def\<close>)
    qed
    have "run_with (claim_step h worker limit d g now w)
       (\<lambda>c. run_with (claim_loop h worker limit d g now ws (case c of None \<Rightarrow> claims | Some k \<Rightarrow> claims @ [k]))
         (\<lambda>cs t. body_inv h t \<and> evolves s t \<and> batch_ok limit cs \<and> claims_hold t now cs \<and>
          (\<forall>n. allocated t (global_key n) \<le> max g (allocated s (global_key n)))) (overflowed h s now d))
       (overflowed h s now d) s"
      by (rule wp_mono [OF claim_step_sound [OF Cons.prems(1) i d limit, of worker g]]) (use rest in auto)
    then show ?thesis
      unfolding claim_loop.simps if_not_P [OF False] wp_bind .
  qed
qed (use allocated_nonneg in \<open>auto simp: wp\<close>)

lemma claim_candidates_due:
  assumes "body_inv h s"
  shows "due_items s now (claim_candidates n now s)"
proof -
  have wf: "wf_dict (st_work s)" using assms body_inv_wf by blast
  let ?P = "\<lambda>p. wi_namespace (snd p) = n \<and> wi_status (snd p) = PENDING \<and> wi_available_at (snd p) \<le> now"
  have "distinct (map fst (filter ?P (st_work s)))"
    using wf by (auto simp: wf_dict_def intro: distinct_map_filter)
  then have "distinct (claim_candidates n now s)"
    unfolding claim_candidates_def
    by (auto simp: distinct_map intro: inj_on_subset)
  moreover have "\<exists>i. dget (st_work s) w = Some i \<and> wi_available_at i \<le> now"
    if "w \<in> set (claim_candidates n now s)" for w
    using that dget_iff [OF wf] by (auto simp: claim_candidates_def)
  ultimately show ?thesis by (simp add: due_items_def)
qed

lemma item_deadlines_total:
  "body_inv h s \<Longrightarrow> dget (st_work s) w = Some i \<Longrightarrow> \<exists>ds. item_deadlines s n now admit i = Inr ds"
  by (erule (1) item_execution) (simp add: item_deadlines_def)

lemma deadlines_total:
  assumes "body_inv h s"
  shows "\<exists>d. next_check_delay n now admit s = Inr d"
proof -
  have wf: "wf_dict (st_work s)" using assms body_inv_wf by blast
  have "\<exists>ds. deadlines_of s n now admit is = Inr ds" if "set is \<subseteq> set (dvals (st_work s))" for "is"
    using that
  proof (induction "is")
    case (Cons i rest)
    then obtain w where "dget (st_work s) w = Some i" using in_dvals_iff [OF wf] by auto
    then obtain ds where "item_deadlines s n now admit i = Inr ds"
      using item_deadlines_total [OF assms] by blast
    then show ?case using Cons by auto
  qed simp
  then show ?thesis by (auto simp: next_check_delay_def)
qed

text \<open>
  Claiming work fails only on invalid arguments, on a closed store, or when a lease would end
  beyond the range of \<open>datetime\<close>; what it returns is within the limit, distinct, honoured, and
  admitted within the concurrency of the scope.
\<close>

lemma claim_work_body:
  assumes inv: "mem_inv h s" and args: "claim_arguments n worker limit d g = None" and "\<not> st_closed s"
  shows "run_with (claim_work h n worker limit d g)
     (\<lambda>b t. mem_inv h t \<and> evolves s t \<and> batch_ok limit (wb_claims b) \<and>
        claims_hold t (hs_now h (st_clock_reads s)) (wb_claims b) \<and>
        (\<forall>k. allocated t (global_key k) \<le> max g (allocated s (global_key k))))
     (\<lambda>e t. mem_inv h t \<and> overflowed h s (hs_now h (st_clock_reads s)) d e t) s"
proof -
  let ?now = "hs_now h (st_clock_reads s)" and ?s = "s\<lparr>st_clock_reads := Suc (st_clock_reads s)\<rparr>"
  have clean: "s\<lparr>st_changes := []\<rparr> = s" using inv by (simp add: mem_inv_def)
  have start: "body_inv h ?s" "evolves s ?s" using inv by (simp_all add: mem_inv_def)
  have limits: "0 < d" "0 \<le> limit" using args by (auto simp: claim_arguments_def split: if_splits)
  let ?Q = "\<lambda>cs t. body_inv h t \<and> evolves s t \<and> batch_ok limit cs \<and> claims_hold t ?now cs \<and>
    (\<forall>k. allocated t (global_key k) \<le> max g (allocated s (global_key k)))"
  have loop: "run_with (claim_loop h worker limit d g ?now (claim_candidates n ?now t) []) ?Q (overflowed h s ?now d) t"
    if t: "body_inv h t" "evolves ?s t" "\<forall>k. allocated t k \<le> allocated ?s k" for t
  proof -
    have "run_with (claim_loop h worker limit d g ?now (claim_candidates n ?now t) [])
       (\<lambda>cs u. body_inv h u \<and> evolves t u \<and> batch_ok limit cs \<and> claims_hold u ?now cs \<and>
          (\<forall>k. allocated u (global_key k) \<le> max g (allocated t (global_key k)))) (overflowed h t ?now d) t"
      by (rule claim_loop_sound [OF limits t(1) claim_candidates_due [OF t(1)]])
        (use limits in \<open>simp_all add: batch_ok_def claims_hold_def\<close>)
    then show ?thesis
    proof (rule wp_mono)
      fix cs u
      assume u: "body_inv h u \<and> evolves t u \<and> batch_ok limit cs \<and> claims_hold u ?now cs \<and>
          (\<forall>k. allocated u (global_key k) \<le> max g (allocated t (global_key k)))"
      have "allocated u (global_key k) \<le> max g (allocated s (global_key k))" for k
      proof -
        have "allocated ?s (global_key k) = allocated s (global_key k)" by (simp add: allocated_def)
        then have "allocated t (global_key k) \<le> allocated s (global_key k)" using t(3) by metis
        moreover have "allocated u (global_key k) \<le> max g (allocated t (global_key k))" using u by blast
        ultimately show ?thesis by linarith
      qed
      moreover have "evolves s u" using u evolves_trans [OF start(2) t(2)] evolves_trans by blast
      ultimately show "?Q cs u" using u by blast
    qed (rule overflowed_later [OF evolves_trans [OF start(2) t(2)]])
  qed
  have finish: "run_with (bind (if 0 < limit \<and> int (length cs) = limit \<and> length cs < length ws then ret (Some 0)
             else try_gets (next_check_delay n ?now (0 < limit)))
       (\<lambda>delay. ret \<lparr>wb_claims = cs, wb_next_check_after = delay\<rparr>))
     (\<lambda>b t. ?Q (wb_claims b) t) (overflowed h s ?now d) t" if q: "?Q cs t" for cs t and ws :: "py_str list"
  proof -
    obtain delay where "next_check_delay n ?now (0 < limit) t = Inr delay"
      using deadlines_total [of h t n ?now "0 < limit"] q by blast
    then show ?thesis using q by (simp add: wp)
  qed
  have body: "run_with (seq (recover_expired_claims h n ?now)
       (bind (gets (claim_candidates n ?now)) (\<lambda>candidates.
       bind (claim_loop h worker limit d g ?now candidates []) (\<lambda>claims.
       bind (if 0 < limit \<and> int (length claims) = limit \<and> length claims < length candidates
             then ret (Some 0)
             else try_gets (next_check_delay n ?now (0 < limit))) (\<lambda>delay.
       ret \<lparr>wb_claims = claims, wb_next_check_after = delay\<rparr>)))))
     (\<lambda>b t. ?Q (wb_claims b) t) (overflowed h s ?now d) ?s"
    unfolding wp_seq
  proof (rule wp_mono [OF recover_expired_claims_sound [OF start(1)]])
    fix t
    assume t: "body_inv h t \<and> evolves ?s t \<and> (\<forall>k. allocated t k \<le> allocated ?s k)"
    show "run_with (bind (gets (claim_candidates n ?now)) (\<lambda>candidates.
       bind (claim_loop h worker limit d g ?now candidates []) (\<lambda>claims.
       bind (if 0 < limit \<and> int (length claims) = limit \<and> length claims < length candidates
             then ret (Some 0)
             else try_gets (next_check_delay n ?now (0 < limit))) (\<lambda>delay.
       ret \<lparr>wb_claims = claims, wb_next_check_after = delay\<rparr>))))
     (\<lambda>b t. ?Q (wb_claims b) t) (overflowed h s ?now d) t"
      unfolding wp_bind [of "gets _ :: py_str list store_op"] wp_gets wp_bind [of "claim_loop h worker limit d g ?now _ []"]
      by (rule wp_mono [OF loop]) (use t finish in auto)
  qed simp
  have pub: "allocated (publish t) k = allocated t k" "st_work (publish t) = st_work t"
    "mem_inv h (publish t) = body_inv h t" "evolves s t \<Longrightarrow> evolves s (publish t)" for t k
    by (simp_all add: publish_def allocated_def mem_inv_def)
  have opened: "(if st_closed s then Some (AutomationStoreError ''Memory Automation Store is closed'') else None) = None"
    using assms(3) by simp
  show ?thesis
    unfolding claim_work_def wp_seq [of "check _ :: unit store_op"] wp_check args option.case wp_mutation clean
      ensure_open_def wp_seq [of "check_state _ :: unit store_op"] wp_check_state opened
      wp_bind [of "read_clock h"] wp_clock
    by (rule wp_mono [OF body]) (use pub in \<open>auto simp: claims_hold_def overflowed_def mem_inv_def\<close>)
qed

text \<open>
  As an operation, whatever its arguments: it changes no fact when it raises, unless the error is
  the overflow.
\<close>

lemma claim_work_sound:
  assumes inv: "mem_inv h s"
  shows "run_with (claim_work h n worker limit d g) (\<lambda>_ t. mem_inv h t \<and> evolves s t)
     (\<lambda>e t. mem_inv h t \<and> (facts t = facts s \<or> overflowed h s (hs_now h (st_clock_reads s)) d e t)) s"
proof (cases "claim_arguments n worker limit d g = None \<and> \<not> st_closed s")
  case True
  then show ?thesis
    by (intro wp_mono [OF claim_work_body [OF inv]]) auto
next
  case False
  have clean: "s\<lparr>st_changes := []\<rparr> = s" using inv by (simp add: mem_inv_def)
  show ?thesis
    using False inv clean
    by (auto simp: claim_work_def wp ensure_open_def split: option.split)
qed

end
