(* ===== verification/Aut_Memory_Steps.thy ===== *)
theory Aut_Memory_Steps
  imports Aut_Memory_Work
begin

text \<open>
  The operations under a claim and the commands on an execution keep the invariant; then the
  store as a step relation, one constructor per public operation, and its interpretation as
  a system with an invariant.
\<close>

section \<open>Operations under a claim\<close>

lemma guard_clock [guards]:
  "run_with (f (hs_now h (st_clock_reads s))) Q E (s\<lparr>st_clock_reads := Suc (st_clock_reads s)\<rparr>) \<Longrightarrow>
     run_with (bind (read_clock h) f) Q E s"
  by (simp add: wp)

lemma evolves_cong:
  "evolves s t \<Longrightarrow> st_executions t' = st_executions t \<Longrightarrow> st_work t' = st_work t \<Longrightarrow>
     st_operations t' = st_operations t \<Longrightarrow> st_occurrences t' = st_occurrences t \<Longrightarrow>
     st_closed t' = st_closed t \<Longrightarrow> st_limits t' = st_limits t \<Longrightarrow> st_notifies t' = st_notifies t \<Longrightarrow>
     evolves s t'"
  by (simp add: evolves_def)

lemma valid_claim_guard:
  assumes "\<And>e n. E e (s\<lparr>st_clock_reads := n\<rparr>)" and "E (AutomationStoreError ''Memory Automation Store is closed'') s"
    and "\<And>i. \<not> st_closed s \<Longrightarrow> dget (st_work s) (cl_work_item_id c) = Some i \<Longrightarrow>
      claim_matches c (hs_now h (st_clock_reads s)) i \<Longrightarrow>
      Q i (s\<lparr>st_clock_reads := Suc (st_clock_reads s)\<rparr>)"
  shows "run_with (valid_claim h c) Q E s"
  using assms by (auto simp: valid_claim_def wp ensure_open_def split: option.split)

lemma claimed_item:
  assumes "body_inv h s" and "dget (st_work s) w = Some i" and "claim_matches c now i"
  obtains e where "dget (st_executions s) (wi_execution_id i) = Some e" "ex_id e = wi_execution_id i"
    "ex_namespace e = wi_namespace i" "execution_post_init e = None" "execution_ok (ex_id e) e"
    "live_work (wi_kind i) (ex_status e)" "\<not> is_terminal (ex_status e)" "ex_status e \<noteq> NEEDS_ATTENTION"
proof -
  obtain e where e: "dget (st_executions s) (wi_execution_id i) = Some e" "ex_id e = wi_execution_id i"
    "ex_namespace e = wi_namespace i" "execution_post_init e = None" "execution_ok (ex_id e) e"
    "wi_status i \<noteq> COMPLETED \<longrightarrow> live_work (wi_kind i) (ex_status e)"
    by (rule item_execution [OF assms(1,2)]) blast
  have live: "live_work (wi_kind i) (ex_status e)" using e(6) assms(3) by (simp add: claim_matches_def)
  then have "\<not> is_terminal (ex_status e)" "ex_status e \<noteq> NEEDS_ATTENTION"
    by (auto simp: live_work_def is_terminal_def split: work_kind.splits)
  with that e live show thesis by blast
qed

lemma renew_claim_sound:
  assumes inv: "mem_inv h s"
  shows "sound_op h (renew_claim h c d) s"
proof -
  have body: "body_inv h s" using inv by (simp add: mem_inv_def)
  have rest: "run_with (bind (read_clock h) (\<lambda>now.
      bind (lift (plus_time now d)) (\<lambda>lease_until.
      seq (update_item (cl_work_item_id c) (\<lambda>i. i\<lparr>wi_lease_until := Some lease_until\<rparr>))
      (bind (work_at (cl_work_item_id c)) (\<lambda>renewed.
      bind (lift (claim_from renewed)) (\<lambda>new_claim.
      bind (execution_at (wi_execution_id i)) (\<lambda>execution.
      ret \<lparr>cr_claim = new_claim,
           cr_cancellation_requested = (ex_status execution = CANCEL_REQUESTED)\<rparr>)))))))
      (\<lambda>_ t. mem_inv h t \<and> evolves s t) (\<lambda>_ t. mem_inv h t \<and> facts t = facts s)
      (s\<lparr>st_clock_reads := Suc (st_clock_reads s)\<rparr>)"
    if i: "dget (st_work s) (cl_work_item_id c) = Some i" "claim_matches c now i" for i now
  proof -
    obtain e where e: "dget (st_executions s) (wi_execution_id i) = Some e"
      by (rule claimed_item [OF body i])
    let ?now = "hs_now h (Suc (st_clock_reads s))"
    let ?s = "s\<lparr>st_clock_reads := Suc (Suc (st_clock_reads s))\<rparr>"
    let ?f = "\<lambda>i. i\<lparr>wi_lease_until := Some (?now + d)\<rparr>"
    let ?t = "?s\<lparr>st_work := dadjust (cl_work_item_id c) ?f (st_work ?s)\<rparr>"
    have s: "body_inv h ?s" "dget (st_work ?s) (cl_work_item_id c) = Some i" using body i by simp_all
    have "item_ok h ?s (cl_work_item_id c) i" using s by (simp add: body_inv_def work_inv_def)
    then have ok: "item_ok h ?s (cl_work_item_id c) (?f i)" "item_key (?f i) = item_key i"
      by (auto simp: item_ok_def item_key_def)
    have "body_inv h ?t" by (rule body_inv_item [where f = ?f, OF s ok])
    moreover have "evolves ?s ?t" by (rule evolves_item [where f = ?f, OF s(2) ok(2)]) simp
    then have "evolves s ?t" by (simp add: evolves_def)
    ultimately show ?thesis
      using i e inv by (simp add: wp update_item_def work_at_def execution_at_def claim_from_def
          claim_matches_def mem_inv_def plus_time_def)
  qed
  show ?thesis
    unfolding renew_claim_def sound_op_check
  proof (cases "d \<le> 0")
    case False
    show "case if d \<le> 0 then Some (ValueError ''lease_duration must be positive'') else None of
        Some e \<Rightarrow> mem_inv h s | None \<Rightarrow> sound_op h (bind (valid_claim h c) (\<lambda>item.
      bind (read_clock h) (\<lambda>now.
      bind (lift (plus_time now d)) (\<lambda>lease_until.
      seq (update_item (cl_work_item_id c) (\<lambda>i. i\<lparr>wi_lease_until := Some lease_until\<rparr>))
      (bind (work_at (cl_work_item_id c)) (\<lambda>renewed.
      bind (lift (claim_from renewed)) (\<lambda>new_claim.
      bind (execution_at (wi_execution_id item)) (\<lambda>execution.
      ret \<lparr>cr_claim = new_claim,
           cr_cancellation_requested = (ex_status execution = CANCEL_REQUESTED)\<rparr>)))))))) s"
      using False inv rest
      by (simp add: sound_op_def wp_bind [of "valid_claim h c"])
        (rule valid_claim_guard, auto simp: mem_inv_def)
  qed (use inv in simp)
qed

text \<open>The start authorization: the one transition that sets it.\<close>

lemma authorize_rule_cases:
  "authorize_start_rule e k admitted now d token = Inr a \<Longrightarrow>
     k = EXECUTE \<and> ex_start_authorized_at e = None \<and> ex_status e = QUEUED \<and> admitted \<and>
     sa_start_token a = token \<and> sa_execution a = e\<lparr>ex_status := RUNNING, ex_started_at := Some now,
           ex_deadline := Some (now + d), ex_start_authorized_at := Some now,
           ex_start_token := Some token, ex_updated_at := now\<rparr>"
  by (auto simp: authorize_start_rule_def plus_time_def split: if_splits)

lemma body_inv_started:
  assumes inv: "body_inv h s" and i: "dget (st_work s) w = Some i" "wi_execution_id i = ex_id e"
    and c: "wi_kind i = EXECUTE" and e: "dget (st_executions s) (ex_id e) = Some e"
    and q: "ex_status e = QUEUED" "ex_start_authorized_at e = None"
    and e': "e' = e\<lparr>ex_status := RUNNING, ex_started_at := Some now, ex_deadline := Some (now + d),
       ex_start_authorized_at := Some now, ex_start_token := Some token, ex_updated_at := now\<rparr>"
  shows "body_inv h (s\<lparr>st_executions := dset (ex_id e) e' (st_executions s)\<rparr>)" (is "body_inv h ?s")
    and "evolves s (s\<lparr>st_executions := dset (ex_id e) e' (st_executions s)\<rparr>)"
proof -
  have facts: "facts_inv s" and work: "work_inv h s" and counts: "counts_inv s" and adm: "admitted_inv s"
    using inv by (simp_all add: body_inv_def)
  have ok: "execution_ok (ex_id e) e" using execution_known [OF facts e] .
  have "execution_post_init e' = None"
    using ok valid_replacements(3) [of e] by (simp add: e' execution_ok_def)
  then have "execution_ok (ex_id e) e'" by (simp add: execution_ok_def e')
  moreover have "ex_namespace e' = ex_namespace e" by (simp add: e')
  moreover have "\<exists>f. dget (st_executions ?s) x = Some f \<and> ex_namespace f = n"
    if occ: "dget (st_occurrences s) (n, k) = Some x" for n k x
  proof -
    obtain f where "dget (st_executions s) x = Some f" "ex_namespace f = n"
      using facts occ unfolding facts_inv_def by blast
    then show ?thesis using e by (auto simp: e')
  qed
  ultimately have "facts_inv ?s"
    using facts by (auto simp: facts_inv_def)
  moreover have "item_ok h ?s v j" if j: "dget (st_work s) v = Some j" for v j
  proof -
    have oj: "item_ok h s v j" using work j by (simp add: work_inv_def)
    show ?thesis
    proof (cases "wi_execution_id j = ex_id e")
      case True
      have "wi_kind j = EXECUTE"
      proof (rule ccontr)
        assume "wi_kind j \<noteq> EXECUTE"
        then have "wi_kind j = EXPIRE_INTERRUPT" by (cases "wi_kind j") auto
        then have "ex_deadline e = Some (wi_available_at j)"
          using oj e True by (auto simp: item_ok_def)
        then show False using ok q by (simp add: execution_ok_def)
      qed
      then show ?thesis using oj e True q by (auto simp: item_ok_def live_work_def e')
    qed (use oj in \<open>auto simp: item_ok_def\<close>)
  qed
  then have "work_inv h ?s" using work by (simp add: work_inv_def)
  moreover have "counts_inv ?s"
    by (rule counts_cong [OF counts])
      (use e in \<open>auto simp: in_scope_def e' scope_key_def execution_scope_def split: option.splits\<close>)
  moreover have "admitted_inv ?s" using adm by (auto simp: admitted_inv_def e')
  ultimately show "body_inv h ?s" by (simp add: body_inv_def)
  show "evolves s ?s"
    using e q by (auto simp: evolves_def e' keeps_execution_def same_identity_def)
qed

lemma authorize_start_sound:
  assumes inv: "mem_inv h s"
  shows "sound_op h (authorize_start h c d) s"
proof -
  have body: "body_inv h s" using inv by (simp add: mem_inv_def)
  have rest: "run_with (bind (execution_at (wi_execution_id i)) (\<lambda>execution.
        bind (gets (\<lambda>s. ex_id execution \<in> st_admitted s)) (\<lambda>admitted.
        bind (read_clock h) (\<lambda>now.
        bind (draw_token h) (\<lambda>start_token.
        bind (lift (authorize_start_rule execution (wi_kind i) admitted now d start_token)) (\<lambda>authorization.
        seq (save_execution (sa_execution authorization))
          (ret authorization)))))))
     (\<lambda>_ t. body_inv h t \<and> evolves s t) (\<lambda>_ t. body_inv h t \<and> facts t = facts s)
     (s\<lparr>st_clock_reads := Suc (st_clock_reads s)\<rparr>)"
    if i: "dget (st_work s) (cl_work_item_id c) = Some i" "claim_matches c now i" for i now
  proof -
    obtain e where e: "dget (st_executions s) (wi_execution_id i) = Some e" "ex_id e = wi_execution_id i"
      by (rule claimed_item [OF body i])
    let ?now = "hs_now h (Suc (st_clock_reads s))" and ?tok = "hs_token h (st_tokens s)"
    show ?thesis
    proof (cases "authorize_start_rule e (wi_kind i) (ex_id e \<in> st_admitted s) ?now d ?tok")
      case (Inl err)
      then show ?thesis using e i body by (simp add: wp execution_at_def)
    next
      case (Inr a)
      note a = authorize_rule_cases [OF Inr]
      have i': "wi_execution_id i = ex_id e" "wi_kind i = EXECUTE" using e a by simp_all
      have e': "dget (st_executions s) (ex_id e) = Some e" using e by simp
      note new = body_inv_started [OF body i(1) i' e', where e' = "sa_execution a" and now = ?now and d = d and token = ?tok]
      have "body_inv h (s\<lparr>st_executions := dset (ex_id e) (sa_execution a) (st_executions s)\<rparr>)"
        "evolves s (s\<lparr>st_executions := dset (ex_id e) (sa_execution a) (st_executions s)\<rparr>)"
        using new a by simp_all
      moreover have "ex_id (sa_execution a) = ex_id e" using a by simp
      ultimately show ?thesis
        using e i Inr
        by (auto simp: wp execution_at_def save_execution_def record_change_def
            elim!: body_inv_cong evolves_cong)
    qed
  qed
  show ?thesis
    unfolding authorize_start_def sound_op_check
    using body rest
    by (auto intro!: mutation_sound [OF inv] inv valid_claim_guard
        simp: sound_body_def wp_bind [of "valid_claim h c"])
qed

section \<open>Interrupting and finishing\<close>

lemma wp_apply_deadline:
  assumes "tr_deadline_work_at tr = Some d" and "tr_complete_work tr = CURRENT_WORK"
    and "deadline_capacity tr s = None"
  shows "run_with (apply_transition h tr (Some w)) Q E s \<longleftrightarrow>
    run_with (create_work h (tr_execution tr) EXPIRE_INTERRUPT d) (\<lambda>_. Q (tr_execution tr)) E
      (after_transition tr (Some w) s)"
  using assms
  by (auto simp: apply_transition_def wp save_execution_def record_change_def complete_transition_work_def
      update_item_def release_scopes_def after_transition_def transition_work_def id_def)

lemma interrupt_sound:
  assumes inv: "body_inv h s" and i: "dget (st_work s) w = Some i" "claim_matches c now i"
    and e: "dget (st_executions s) (wi_execution_id i) = Some e"
    and tr: "interrupt_execution e ids now' = Inr tr"
  shows "sound_transition s tr (Some w) e"
proof -
  obtain e0 where "dget (st_executions s) (wi_execution_id i) = Some e0" "ex_id e0 = wi_execution_id i"
    "execution_ok (ex_id e0) e0" "live_work (wi_kind i) (ex_status e0)" "\<not> is_terminal (ex_status e0)"
    by (rule claimed_item [OF inv i])
  with e have known: "ex_id e = wi_execution_id i" "execution_ok (ex_id e) e"
    "live_work (wi_kind i) (ex_status e)" "\<not> is_terminal (ex_status e)" by auto
  note cases = interrupt_execution_cases [OF tr]
  have step: "rule_step e tr" using tr by (rule interrupt_execution_step)
  have "ex_status e \<in> {RUNNING, INTERRUPTED, CANCEL_REQUESTED}"
    using known cases by (cases "wi_kind i") (auto simp: live_work_def execution_ok_def)
  then have "ex_start_authorized_at (tr_execution tr) \<noteq> None"
    using known(2) rule_step_identity [OF step] by (auto simp: execution_ok_def)
  then have "execution_ok (ex_id e) (tr_execution tr)"
    using rule_step_valid [OF step known(2)] rule_step_identity [OF step] cases
    by (simp add: execution_ok_def)
  moreover have "compatible_work s tr (Some w) e"
    using cases i known by (cases "wi_kind i") (auto simp: compatible_work_def live_work_def split: work_kind.splits)
  ultimately show ?thesis
    using e known step by (simp add: sound_transition_def)
qed

lemma length_transition_work [simp]: "length (transition_work tr item d) = length d"
  by (simp add: transition_work_def split: complete_work.split option.split)

lemma apply_interrupt_sound:
  assumes h: "host_ok h" and inv: "body_inv h s" and i: "dget (st_work s) w = Some i" "claim_matches c now i"
    and e: "dget (st_executions s) (wi_execution_id i) = Some e"
    and tr: "interrupt_execution e ids now' = Inr tr"
  shows "run_with (apply_transition h tr (Some w)) (\<lambda>_ t. body_inv h t \<and> evolves s t)
     (\<lambda>_ t. t = s) s"
proof (cases "deadline_capacity tr s")
  case None
  note cases = interrupt_execution_cases [OF tr]
  obtain d where d: "tr_deadline_work_at tr = Some d" "ex_deadline e = Some d" using cases by auto
  note sound = interrupt_sound [OF inv i e tr]
  note t = sound_after_transition [OF inv sound]
  have step: "rule_step e tr" using sound by (simp add: sound_transition_def)
  let ?t = "after_transition tr (Some w) s"
  have "run_with (create_work h (tr_execution tr) EXPIRE_INTERRUPT d)
     (\<lambda>_ u. body_inv h u \<and> evolves ?t u \<and> length (st_work u) \<le> Suc (length (st_work ?t)) \<and>
        st_executions u = st_executions ?t \<and> st_occurrences u = st_occurrences ?t \<and>
        st_operations u = st_operations ?t) (\<lambda>_ _. False) ?t"
    by (rule create_work_sound [OF h t(1)])
      (use None cases d rule_step_identity [OF step] in
        \<open>auto simp: live_work_def deadline_capacity_def work_capacity_def ensure_capacity_def split: if_splits\<close>)
  then have "run_with (create_work h (tr_execution tr) EXPIRE_INTERRUPT d)
     (\<lambda>_ u. body_inv h u \<and> evolves s u) (\<lambda>_ u. u = s) ?t"
    by (rule wp_mono) (use evolves_trans [OF t(2)] in auto)
  then show ?thesis
    using wp_apply_deadline [OF d(1) _ None] cases by simp
next
  case (Some err)
  then show ?thesis by (simp add: apply_transition_def wp)
qed

lemma mark_interrupted_sound:
  assumes h: "host_ok h" and inv: "mem_inv h s"
  shows "sound_op h (mark_interrupted h c ids) s"
proof -
  have body: "body_inv h s" using inv by (simp add: mem_inv_def)
  have rest: "run_with (bind (execution_at (wi_execution_id i)) (\<lambda>execution.
        bind (read_clock h) (\<lambda>now.
        bind (lift (interrupt_execution execution ids now)) (\<lambda>tr.
        apply_transition h tr (Some (cl_work_item_id c))))))
     (\<lambda>_ t. body_inv h t \<and> evolves s t) (\<lambda>_ t. body_inv h t \<and> facts t = facts s)
     (s\<lparr>st_clock_reads := Suc (st_clock_reads s)\<rparr>)"
    if i: "dget (st_work s) (cl_work_item_id c) = Some i" "claim_matches c now i" for i now
  proof -
    obtain e where e: "dget (st_executions s) (wi_execution_id i) = Some e"
      by (rule claimed_item [OF body i])
    let ?now = "hs_now h (Suc (st_clock_reads s))"
    let ?s = "s\<lparr>st_clock_reads := Suc (Suc (st_clock_reads s))\<rparr>"
    show ?thesis
    proof (cases "interrupt_execution e ids ?now")
      case (Inr tr)
      have "run_with (apply_transition h tr (Some (cl_work_item_id c))) (\<lambda>_ t. body_inv h t \<and> evolves ?s t)
          (\<lambda>_ t. t = ?s) ?s"
        by (rule apply_interrupt_sound [OF h _ _ i(2) _ Inr]) (use body i e in simp_all)
      moreover have "evolves s t" if "evolves ?s t" for t
        by (rule evolves_trans [OF _ that]) simp
      ultimately have "run_with (apply_transition h tr (Some (cl_work_item_id c)))
          (\<lambda>_ t. body_inv h t \<and> evolves s t) (\<lambda>_ t. body_inv h t \<and> facts t = facts s) ?s"
        by (elim wp_mono) (use body in auto)
      then show ?thesis using e Inr by (simp add: wp execution_at_def)
    qed (use e body in \<open>simp add: wp execution_at_def\<close>)
  qed
  show ?thesis
    unfolding mark_interrupted_def sound_op_check
    using body rest
    by (auto intro!: mutation_sound [OF inv] inv valid_claim_guard
        simp: sound_body_def wp_bind [of "valid_claim h c"])
qed

lemma finish_execution_sound:
  assumes inv: "mem_inv h s"
  shows "sound_op h (finish_execution h c status result failure_code failure_message) s"
proof -
  have body: "body_inv h s" using inv by (simp add: mem_inv_def)
  have rest: "run_with (bind (execution_at (wi_execution_id i)) (\<lambda>execution.
        bind (read_clock h) (\<lambda>now.
        bind (lift (finish_execution_rule execution status now result failure_code failure_message)) (\<lambda>tr.
        apply_transition h tr (Some (cl_work_item_id c))))))
     (\<lambda>_ t. body_inv h t \<and> evolves s t) (\<lambda>_ t. body_inv h t \<and> facts t = facts s)
     (s\<lparr>st_clock_reads := Suc (st_clock_reads s)\<rparr>)"
    if i: "dget (st_work s) (cl_work_item_id c) = Some i" "claim_matches c now i" for i now
  proof -
    obtain e where e: "dget (st_executions s) (wi_execution_id i) = Some e" "\<not> is_terminal (ex_status e)"
      by (rule claimed_item [OF body i])
    let ?now = "hs_now h (Suc (st_clock_reads s))"
    let ?s = "s\<lparr>st_clock_reads := Suc (Suc (st_clock_reads s))\<rparr>"
    show ?thesis
    proof (cases "finish_execution_rule e status ?now result failure_code failure_message")
      case (Inr tr)
      have s: "body_inv h ?s" using body by simp
      have "sound_transition ?s tr (Some (cl_work_item_id c)) e"
        by (rule finish_sound [OF _ _ e(2) Inr, where x = "wi_execution_id i"])
          (use s e in \<open>simp_all add: body_inv_def\<close>)
      note t = sound_after_transition [OF s this]
      moreover have "evolves s t" if "evolves ?s t" for t
        by (rule evolves_trans [OF _ that]) simp
      ultimately show ?thesis
        using e Inr finish_execution_cases [OF Inr] by (simp add: wp execution_at_def wp_apply_transition)
    qed (use e body in \<open>simp add: wp execution_at_def\<close>)
  qed
  show ?thesis
    unfolding finish_execution_def sound_op_check
    using body rest
    by (auto intro!: mutation_sound [OF inv] inv valid_claim_guard
        simp: sound_body_def wp_bind [of "valid_claim h c"])
qed

section \<open>Commands on an execution\<close>

lemma command_saved:
  assumes body: "body_inv h s" and tr: "sound_transition s tr None e"
    and plain: "tr_deadline_work_at tr = None" "tr_complete_work tr \<noteq> CURRENT_WORK"
    and new: "\<forall>q. r = Some q \<longrightarrow> dget (st_operations s) (n, u, q) = None"
    and room: "r \<noteq> None \<longrightarrow> int (length (st_operations s)) < max_operations (st_limits s)"
  shows "run_with (bind (apply_transition h tr None) (\<lambda>updated.
       seq (save_operation n u r d (ExecutionResult updated)) (ret updated)))
     (\<lambda>_ t. body_inv h t \<and> evolves s t) E s"
proof -
  note t = sound_after_transition [OF body tr]
  then show ?thesis
    using plain new room body_inv_wf(2) [OF body]
    by (cases r) (auto simp: wp wp_apply_transition save_operation_def ensure_capacity_def
        intro!: body_inv_operations evolves_operations)
qed

lemma cancel_execution_sound:
  assumes inv: "mem_inv h s"
  shows "sound_op h (cancel_execution h n u x r d) s"
proof -
  have body: "body_inv h s" using inv by (simp add: mem_inv_def)
  have rest: "run_with (bind (apply_transition h tr None) (\<lambda>updated.
       seq (save_operation n u r d (ExecutionResult updated)) (ret updated)))
     (\<lambda>_ t. body_inv h t \<and> evolves s t) (\<lambda>_ t. body_inv h t \<and> facts t = facts s)
     (s\<lparr>st_clock_reads := Suc (st_clock_reads s)\<rparr>)"
    if e: "dget (st_executions s) x = Some e" and tr: "cancel_execution_rule e now = Inr tr"
      and new: "\<forall>q. r = Some q \<longrightarrow> dget (st_operations s) (n, u, q) = None"
      and room: "r \<noteq> None \<longrightarrow> int (length (st_operations s)) < max_operations (st_limits s)" for e tr now r n u
  proof -
    let ?s = "s\<lparr>st_clock_reads := Suc (st_clock_reads s)\<rparr>"
    have s: "body_inv h ?s" using body by simp
    have "sound_transition ?s tr None e"
      by (rule cancel_sound [OF _ _ tr, where x = x]) (use s e in \<open>simp_all add: body_inv_def\<close>)
    then have "run_with (bind (apply_transition h tr None) (\<lambda>updated.
       seq (save_operation n u r d (ExecutionResult updated)) (ret updated)))
     (\<lambda>_ t. body_inv h t \<and> evolves ?s t) (\<lambda>_ t. body_inv h t \<and> facts t = facts s) ?s"
      by (rule command_saved [OF s]) (use cancel_execution_cases [OF tr] new room in auto)
    then show ?thesis
      by (rule wp_mono) (auto intro: evolves_trans [rotated])
  qed
  show ?thesis
  proof (cases "validate_scope n u")
    case None
    show ?thesis
      unfolding cancel_execution_def sound_op_check None option.case
    proof (rule mutation_sound [OF inv], unfold sound_body_def ensure_open_def operation_result_def
        owned_execution_def require_operation_capacity_def, intro guards)
    qed (use body in \<open>auto simp: ensure_capacity_def split: if_splits option.splits intro!: rest\<close>)
  next
    case (Some err)
    show ?thesis unfolding cancel_execution_def sound_op_check Some option.case by (rule inv)
  qed
qed

lemma resolve_execution_sound:
  assumes inv: "mem_inv h s"
  shows "sound_op h (resolve_execution h n u x a r d reason) s"
proof -
  have body: "body_inv h s" using inv by (simp add: mem_inv_def)
  have rest: "run_with (bind (apply_transition h tr None) (\<lambda>updated.
       seq (save_operation n u (Some r) d (ExecutionResult updated)) (ret updated)))
     (\<lambda>_ t. body_inv h t \<and> evolves s t) (\<lambda>_ t. body_inv h t \<and> facts t = facts s)
     (s\<lparr>st_clock_reads := Suc (st_clock_reads s)\<rparr>)"
    if e: "dget (st_executions s) x = Some e" and tr: "resolve_execution_rule e a reason now = Inr tr"
      and new: "dget (st_operations s) (n, u, r) = None"
      and room: "int (length (st_operations s)) < max_operations (st_limits s)" for e tr now n u
  proof -
    let ?s = "s\<lparr>st_clock_reads := Suc (st_clock_reads s)\<rparr>"
    have s: "body_inv h ?s" using body by simp
    have "sound_transition ?s tr None e"
      by (rule resolve_sound [OF _ _ tr, where x = x]) (use s e in \<open>simp_all add: body_inv_def\<close>)
    then have "run_with (bind (apply_transition h tr None) (\<lambda>updated.
       seq (save_operation n u (Some r) d (ExecutionResult updated)) (ret updated)))
     (\<lambda>_ t. body_inv h t \<and> evolves ?s t) (\<lambda>_ t. body_inv h t \<and> facts t = facts s) ?s"
      by (rule command_saved [OF s]) (use resolve_execution_cases [OF tr] new room in auto)
    then show ?thesis
      by (rule wp_mono) (auto intro: evolves_trans [rotated])
  qed
  show ?thesis
  proof (cases "first_error [validate_scope n u, validate_persisted_text reason ''reason'' None]")
    case None
    show ?thesis
      unfolding resolve_execution_def sound_op_check None option.case
    proof (rule mutation_sound [OF inv], unfold sound_body_def ensure_open_def operation_result_def
        owned_execution_def require_operation_capacity_def, intro guards)
    qed (use body in \<open>auto simp: ensure_capacity_def split: if_splits option.splits intro!: rest\<close>)
  next
    case (Some err)
    show ?thesis unfolding resolve_execution_def sound_op_check Some option.case by (rule inv)
  qed
qed

section \<open>The store as a system\<close>

definition error_of :: "'e + 'a \<Rightarrow> 'e option" where
  "error_of r = (case r of Inl e \<Rightarrow> Some e | Inr _ \<Rightarrow> None)"

lemma error_of_simps [simp]: "error_of (Inl e) = Some e" "error_of (Inr a) = None"
  by (simp_all add: error_of_def)

text \<open>
  One call of a public operation, with the error it raised if it raised one. Two operations are
  called with what their callers construct, which the store itself does not check. An enqueued
  execution has not started. The executions of a materialized batch are queued, and have
  identifiers that are distinct and not yet in use: the service derives them from the namespace,
  the task and the occurrence with a hash.
\<close>

inductive mem_call :: "host \<Rightarrow> mem_store \<Rightarrow> aut_error option \<Rightarrow> mem_store \<Rightarrow> bool" for h where
  call_create: "create_task t r d s = (q, s') \<Longrightarrow> mem_call h s (error_of q) s'"
| call_update: "update_task t v r d s = (q, s') \<Longrightarrow> mem_call h s (error_of q) s'"
| call_delete: "delete_task h n u x v r d s = (q, s') \<Longrightarrow> mem_call h s (error_of q) s'"
| call_materialize: "batch_admissible s t xs \<Longrightarrow> materialize_task h t at xs s = (q, s') \<Longrightarrow>
    mem_call h s (error_of q) s'"
| call_enqueue: "ex_start_authorized_at e = None \<Longrightarrow> ex_deadline e = None \<Longrightarrow>
    enqueue_execution h e k r d v s = (q, s') \<Longrightarrow> mem_call h s (error_of q) s'"
| call_claim: "claim_work h n w limit lease g s = (q, s') \<Longrightarrow> mem_call h s (error_of q) s'"
| call_renew: "renew_claim h c lease s = (q, s') \<Longrightarrow> mem_call h s (error_of q) s'"
| call_authorize: "authorize_start h c timeout s = (q, s') \<Longrightarrow> mem_call h s (error_of q) s'"
| call_interrupt: "mark_interrupted h c ids s = (q, s') \<Longrightarrow> mem_call h s (error_of q) s'"
| call_finish: "finish_execution h c status result code_text message s = (q, s') \<Longrightarrow>
    mem_call h s (error_of q) s'"
| call_cancel: "cancel_execution h n u x r d s = (q, s') \<Longrightarrow> mem_call h s (error_of q) s'"
| call_resolve: "resolve_execution h n u x a rid d reason s = (q, s') \<Longrightarrow> mem_call h s (error_of q) s'"
| call_time: "current_time h s = (q, s') \<Longrightarrow> mem_call h s (error_of q) s'"
| call_close: "close_store s = (q, s') \<Longrightarrow> mem_call h s (error_of q) s'"

definition mem_step :: "host \<Rightarrow> mem_store \<Rightarrow> mem_store \<Rightarrow> bool" where
  "mem_step h s s' \<longleftrightarrow> (\<exists>err. mem_call h s err s')"

definition mem_init :: "host \<Rightarrow> mem_store \<Rightarrow> bool" where
  "mem_init h s \<longleftrightarrow> host_ok h \<and> (\<exists>limits notifies. s = new_store limits notifies)"

definition store_inv :: "host \<Rightarrow> mem_store \<Rightarrow> bool" where
  "store_inv h s \<longleftrightarrow> host_ok h \<and> mem_inv h s"

lemma new_store_inv: "mem_inv h (new_store limits notifies)"
  by (simp add: mem_inv_def body_inv_def facts_inv_def work_inv_def counts_inv_def admitted_inv_def
      new_store_def allocated_def admitted_in_def)

lemma current_time_sound: "mem_inv h s \<Longrightarrow> sound_op h (current_time h) s"
  by (simp add: sound_op_def current_time_def wp ensure_open_def mem_inv_def)

lemma close_store_sound: "mem_inv h s \<Longrightarrow> sound_op h close_store s"
  by (simp add: sound_op_def close_store_def wp mem_inv_def)

lemma sound_op_result:
  "m s = (q, s') \<Longrightarrow> err = error_of q \<Longrightarrow> sound_op h m s \<Longrightarrow>
     mem_inv h s' \<and> (err = None \<longrightarrow> evolves s s') \<and> (err \<noteq> None \<longrightarrow> facts s' = facts s)"
  by (cases q) (auto simp: sound_op_def run_with_def)

lemmas operation_sound = create_task_sound update_task_sound delete_task_sound
  materialize_task_sound enqueue_execution_sound renew_claim_sound
  authorize_start_sound mark_interrupted_sound finish_execution_sound cancel_execution_sound
  resolve_execution_sound current_time_sound close_store_sound

text \<open>
  A call that raises changes no fact, with one exception: a claim whose lease would end beyond
  the range of \<open>datetime\<close>.
\<close>

definition overflowing_claim :: "host \<Rightarrow> mem_store \<Rightarrow> aut_error \<Rightarrow> mem_store \<Rightarrow> bool" where
  "overflowing_claim h s e s' \<longleftrightarrow> (\<exists>n w limit lease g. claim_work h n w limit lease g s = (Inl e, s') \<and>
     overflowed h s (hs_now h (st_clock_reads s)) lease e s')"

lemma overflowing_claimI:
  "claim_work h n w limit lease g s = (Inl e, s') \<Longrightarrow> overflowed h s (hs_now h (st_clock_reads s)) lease e s' \<Longrightarrow>
     overflowing_claim h s e s'"
  unfolding overflowing_claim_def by blast

lemma claim_call_sound:
  assumes "claim_work h n w limit lease g s = (q, s')" and "err = error_of q" and "mem_inv h s"
  shows "mem_inv h s' \<and> (err = None \<longrightarrow> evolves s s') \<and>
    (\<forall>e. err = Some e \<longrightarrow> facts s' = facts s \<or> overflowing_claim h s e s')"
  using claim_work_sound [OF assms(3), of n w limit lease g] assms(1,2)
  by (cases q) (auto simp: run_with_def dest: overflowing_claimI)

lemma mem_call_sound:
  assumes "mem_call h s err s'" and "store_inv h s"
  shows "mem_inv h s' \<and> (err = None \<longrightarrow> evolves s s') \<and>
    (\<forall>e. err = Some e \<longrightarrow> facts s' = facts s \<or> overflowing_claim h s e s')"
proof -
  have h: "host_ok h" and inv: "mem_inv h s" using assms(2) by (simp_all add: store_inv_def)
  from assms(1) show ?thesis
  proof cases
    case call_create then show ?thesis by (simp add: sound_op_result [OF _ _ create_task_sound [OF inv]])
  next
    case call_update then show ?thesis by (simp add: sound_op_result [OF _ _ update_task_sound [OF inv]])
  next
    case call_delete then show ?thesis by (simp add: sound_op_result [OF _ _ delete_task_sound [OF inv]])
  next
    case call_materialize then show ?thesis by (simp add: sound_op_result [OF _ _ materialize_task_sound [OF h inv call_materialize(2)]])
  next
    case call_enqueue then show ?thesis by (simp add: sound_op_result [OF _ _ enqueue_execution_sound [OF h inv call_enqueue(2,3)]])
  next
    case call_claim then show ?thesis by (simp add: claim_call_sound [OF _ _ inv])
  next
    case call_renew then show ?thesis by (simp add: sound_op_result [OF _ _ renew_claim_sound [OF inv]])
  next
    case call_authorize then show ?thesis by (simp add: sound_op_result [OF _ _ authorize_start_sound [OF inv]])
  next
    case call_interrupt then show ?thesis by (simp add: sound_op_result [OF _ _ mark_interrupted_sound [OF h inv]])
  next
    case call_finish then show ?thesis by (simp add: sound_op_result [OF _ _ finish_execution_sound [OF inv]])
  next
    case call_cancel then show ?thesis by (simp add: sound_op_result [OF _ _ cancel_execution_sound [OF inv]])
  next
    case call_resolve then show ?thesis by (simp add: sound_op_result [OF _ _ resolve_execution_sound [OF inv]])
  next
    case call_time then show ?thesis by (simp add: sound_op_result [OF _ _ current_time_sound [OF inv]])
  next
    case call_close then show ?thesis by (simp add: sound_op_result [OF _ _ close_store_sound [OF inv]])
  qed
qed

lemma facts_fields:
  assumes "facts t = facts s"
  shows "st_limits t = st_limits s" "st_notifies t = st_notifies s" "st_tasks t = st_tasks s"
    "st_executions t = st_executions s" "st_occurrences t = st_occurrences s" "st_work t = st_work s"
    "st_work_keys t = st_work_keys s" "st_operations t = st_operations s"
    "st_scope_allocations t = st_scope_allocations s" "st_admitted t = st_admitted s"
    "st_closed t = st_closed s" "st_published t = st_published s"
  using assms by (cases s; cases t; simp add: facts_def)+

lemma mem_step_sound:
  assumes "mem_step h s s'" and "store_inv h s"
  shows "store_inv h s'" and "evolves s s'"
proof -
  obtain err where call: "mem_call h s err s'" using assms(1) by (auto simp: mem_step_def)
  note sound = mem_call_sound [OF call assms(2)]
  then show "store_inv h s'" using assms(2) by (simp add: store_inv_def)
  show "evolves s s'"
  proof (cases err)
    case (Some e)
    then consider "facts s' = facts s" | "overflowing_claim h s e s'" using sound by blast
    then show ?thesis
    proof cases
      case 1
      then show ?thesis by (intro evolves_cong [OF evolves_refl]) (use facts_fields [of s' s] in simp_all)
    next
      case 2
      then show ?thesis by (auto simp: overflowing_claim_def overflowed_def)
    qed
  qed (use sound in simp)
qed

section \<open>Interpretations\<close>

definition item_fence :: "mem_store \<Rightarrow> py_str \<Rightarrow> int" where
  "item_fence s w = (case dget (st_work s) w of None \<Rightarrow> 0 | Some i \<Rightarrow> wi_fence i)"

text \<open>A claim is honoured when \<open>_valid_claim\<close> would accept it at some time.\<close>

definition claim_honoured :: "mem_store \<Rightarrow> work_item_claim \<Rightarrow> bool" where
  "claim_honoured s c \<longleftrightarrow> \<not> st_closed s \<and>
     (\<exists>i now. dget (st_work s) (cl_work_item_id c) = Some i \<and> claim_matches c now i)"

lemma item_fence_step:
  assumes "mem_step h s s'" and "store_inv h s"
  shows "item_fence s w \<le> item_fence s' w"
proof -
  have "evolves s s'" and inv: "store_inv h s'" using mem_step_sound [OF assms] by blast+
  have "0 \<le> wi_fence i" if "dget (st_work s') w = Some i" for i
  proof -
    have "item_ok h s' w i" using inv that by (simp add: store_inv_def mem_inv_def body_inv_def work_inv_def)
    then show ?thesis by (simp add: item_ok_def)
  qed
  then show ?thesis
    using evolves_work [OF \<open>evolves s s'\<close>, of w] by (fastforce simp: item_fence_def split: option.split)
qed

interpretation aut_store: fenced_resource "mem_init h" "mem_step h" "store_inv h"
  item_fence claim_honoured cl_work_item_id cl_fence for h
proof unfold_locales
  show "store_inv h s" if "mem_init h s" for s
    using that new_store_inv by (auto simp: mem_init_def store_inv_def)
  show "store_inv h s'" if "store_inv h s" "mem_step h s s'" for s s'
    using mem_step_sound that by blast
  show "item_fence s (cl_work_item_id c) = cl_fence c" if "claim_honoured s c" for s c
    using that by (auto simp: claim_honoured_def item_fence_def claim_matches_def)
  show "item_fence s k \<le> item_fence s' k" if "store_inv h s" "mem_step h s s'" for s s' k
    using item_fence_step that by blast
qed

lemma evolves_steps: "(mem_step h)\<^sup>*\<^sup>* s s' \<Longrightarrow> store_inv h s \<Longrightarrow> evolves s s'"
proof (induction rule: rtranclp_induct)
  case (step t u)
  then have "store_inv h t" using aut_store.inv_steps by blast
  with step show ?case using mem_step_sound(2) evolves_trans by blast
qed simp

end
