(* ===== verification/Aut_Memory_Props.thy ===== *)
theory Aut_Memory_Props
  imports Aut_Memory_Steps
begin

text \<open>
  The properties of the single-process store over whole runs, each followed by its witness on
  a sample run: one execution is enqueued, claimed, authorized and cancelled. The commands
  with receipts are instances of \<open>idempotent_command\<close>.
\<close>

section \<open>A sample run\<close>

definition sample_host :: host where
  "sample_host = \<lparr>hs_now = (\<lambda>n. int n * second), hs_token = (\<lambda>n. replicate (Suc n) (CHR ''t'')),
     hs_uuid = (\<lambda>n. replicate (Suc n) (CHR ''w''))\<rparr>"

definition sample_execution :: automation_execution where
  "sample_execution = \<lparr>ex_id = ''x1'', ex_task_id = None, ex_namespace = ''n'', ex_owner = ''o'',
     ex_identity = \<lparr>id_namespace = ''n'', id_thread = ''th'', id_run = ''r''\<rparr>, ex_target = ''agent'',
     ex_input = [], ex_limits = default_execution_limits, ex_origin = ORIGIN_MANUAL, ex_status = QUEUED,
     ex_attempt = 1, ex_retry_of = None, ex_scheduled_for = None, ex_queued_at = 0,
     ex_queue_deadline = 1000 * second, ex_started_at = None, ex_deadline = None, ex_finished_at = None,
     ex_failure_code = None, ex_failure_message = None, ex_result = JNull, ex_interrupt_ids = [],
     ex_start_authorized_at = None, ex_start_token = None, ex_created_at = 0, ex_updated_at = 0,
     ex_task_name = None\<rparr>"

definition sample_empty :: mem_store where
  "sample_empty = new_store
     \<lparr>max_tasks = 10, max_executions = 10, max_work_items = 10, max_operations = 10\<rparr> True"

definition sample_enqueue :: "mem_store \<Rightarrow> (aut_error + automation_execution) \<times> mem_store" where
  "sample_enqueue = enqueue_execution sample_host sample_execution ''k'' (Some ''q'') ''d'' None"

definition sample_claim_work :: "mem_store \<Rightarrow> (aut_error + work_claim_batch) \<times> mem_store" where
  "sample_claim_work = claim_work sample_host ''n'' ''worker'' 1 minute 1"

definition sample_claim :: work_item_claim where
  "sample_claim = \<lparr>cl_work_item_id = ''w'', cl_namespace = ''n'', cl_execution_id = ''x1'',
     cl_kind = EXECUTE, cl_claim_token = ''t'', cl_fence = 1, cl_lease_until = 61 * second\<rparr>"

definition sample_cancel :: "mem_store \<Rightarrow> (aut_error + automation_execution) \<times> mem_store" where
  "sample_cancel = cancel_execution sample_host ''n'' ''o'' ''x1'' (Some ''c'') ''d''"

definition sample_queued :: mem_store where "sample_queued = snd (sample_enqueue sample_empty)"
definition sample_claimed :: mem_store where "sample_claimed = snd (sample_claim_work sample_queued)"
definition sample_started :: mem_store where
  "sample_started = snd (authorize_start sample_host sample_claim minute sample_claimed)"
definition sample_cancelled :: mem_store where "sample_cancelled = snd (sample_cancel sample_queued)"

lemma sample_init: "mem_init sample_host sample_empty"
proof -
  have "inj (\<lambda>n. replicate (Suc n) (CHR ''w''))"
    by (rule injI, drule arg_cong [where f = length]) simp
  then show ?thesis by (auto simp: mem_init_def host_ok_def sample_host_def sample_empty_def)
qed

lemma mem_stepI: "mem_call h s err s' \<Longrightarrow> mem_step h s s'"
  by (auto simp: mem_step_def)

lemma sample_steps:
  "mem_step sample_host sample_empty sample_queued"
  "mem_step sample_host sample_queued sample_claimed"
  "mem_step sample_host sample_claimed sample_started"
  "mem_step sample_host sample_queued sample_cancelled"
proof -
  have fresh: "ex_start_authorized_at sample_execution = None" "ex_deadline sample_execution = None"
    by (simp_all add: sample_execution_def)
  show "mem_step sample_host sample_empty sample_queued"
    unfolding sample_queued_def sample_enqueue_def
    by (rule mem_stepI [OF call_enqueue [OF fresh surjective_pairing]])
  show "mem_step sample_host sample_queued sample_claimed"
    unfolding sample_claimed_def sample_claim_work_def
    by (rule mem_stepI [OF call_claim [OF surjective_pairing]])
  show "mem_step sample_host sample_claimed sample_started"
    unfolding sample_started_def by (rule mem_stepI [OF call_authorize [OF surjective_pairing]])
  show "mem_step sample_host sample_queued sample_cancelled"
    unfolding sample_cancelled_def sample_cancel_def
    by (rule mem_stepI [OF call_cancel [OF surjective_pairing]])
qed

lemma sample_reached:
  "(mem_step sample_host)\<^sup>*\<^sup>* sample_empty sample_queued"
  "(mem_step sample_host)\<^sup>*\<^sup>* sample_empty sample_claimed"
  "(mem_step sample_host)\<^sup>*\<^sup>* sample_empty sample_started"
  "(mem_step sample_host)\<^sup>*\<^sup>* sample_empty sample_cancelled"
  using sample_steps by (meson rtranclp.rtrancl_into_rtrancl rtranclp.rtrancl_refl)+

section \<open>Executions over whole runs\<close>

text \<open>
  C2. An execution that has reached a terminal status keeps that status, its result and every
  other field whatever operations the store performs afterwards.
\<close>

theorem terminal_executions_final:
  assumes "mem_init h s0" and "(mem_step h)\<^sup>*\<^sup>* s0 s" and "(mem_step h)\<^sup>*\<^sup>* s t"
    and "dget (st_executions s) x = Some e" and "is_terminal (ex_status e)"
  shows "dget (st_executions t) x = Some e"
proof -
  have "store_inv h s" using aut_store.inv_reachable assms(1,2) by blast
  then have "evolves s t" using evolves_steps assms(3) by blast
  with assms(4,5) show ?thesis
    by (auto dest!: evolves_execution simp: keeps_execution_def)
qed

theorem terminal_executions_final_witness:
  "\<exists>e. dget (st_executions sample_cancelled) ''x1'' = Some e \<and> is_terminal (ex_status e) \<and>
     (\<forall>t. (mem_step sample_host)\<^sup>*\<^sup>* sample_cancelled t \<longrightarrow> dget (st_executions t) ''x1'' = Some e)"
proof -
  have "map_option ex_status (dget (st_executions sample_cancelled) ''x1'') = Some CANCELLED" by code_simp
  then obtain e where "dget (st_executions sample_cancelled) ''x1'' = Some e" "is_terminal (ex_status e)"
    by auto
  with terminal_executions_final [OF sample_init sample_reached(4)] show ?thesis by blast
qed

lemma authorize_start_success:
  assumes inv: "mem_inv h s" and run: "authorize_start h c d s = (Inr a, s')"
  shows "\<exists>e. dget (st_executions s) (ex_id (sa_execution a)) = Some e \<and> ex_start_authorized_at e = None \<and>
    dget (st_executions s') (ex_id (sa_execution a)) = Some (sa_execution a) \<and>
    ex_start_authorized_at (sa_execution a) \<noteq> None"
proof -
  have known: "facts_inv s" using inv by (simp add: mem_inv_def body_inv_def)
  have clean: "s\<lparr>st_changes := []\<rparr> = s" using inv by (simp add: mem_inv_def)
  have "run_with (authorize_start h c d) (\<lambda>a t.
      \<exists>e. dget (st_executions s) (ex_id (sa_execution a)) = Some e \<and> ex_start_authorized_at e = None \<and>
      dget (st_executions t) (ex_id (sa_execution a)) = Some (sa_execution a) \<and>
      ex_start_authorized_at (sa_execution a) \<noteq> None) (\<lambda>_ _. True) s"
    unfolding authorize_start_def wp_seq wp_check wp_mutation clean wp_bind [of "valid_claim h c"]
    by (auto intro!: valid_claim_guard dest!: authorize_rule_cases
        simp: wp execution_at_def save_execution_def record_change_def publish_def
        split: option.split sum.split) (frule known_id [OF known], simp)
  then show ?thesis by (simp add: run_with_def run)
qed

text \<open>
  C1. A target is started at most once: two successful start authorizations in one run, under
  whatever claims, are for different executions.
\<close>

theorem start_authorized_once:
  assumes "mem_init h s0" and "(mem_step h)\<^sup>*\<^sup>* s0 s"
    and first: "authorize_start h c d s = (Inr a, s')"
    and "(mem_step h)\<^sup>*\<^sup>* s' t"
    and second: "authorize_start h c' d' t = (Inr b, t')"
  shows "ex_id (sa_execution b) \<noteq> ex_id (sa_execution a)"
proof
  assume same: "ex_id (sa_execution b) = ex_id (sa_execution a)"
  have s: "store_inv h s" using aut_store.inv_reachable assms(1,2) by blast
  moreover have "mem_step h s s'" using mem_stepI call_authorize first by blast
  ultimately have s': "store_inv h s'" using mem_step_sound by blast
  then have "store_inv h t" and ev: "evolves s' t" using aut_store.inv_steps evolves_steps assms(4) by blast+
  then obtain e where e: "dget (st_executions t) (ex_id (sa_execution b)) = Some e"
      "ex_start_authorized_at e = None"
    using authorize_start_success [OF _ second] by (auto simp: store_inv_def)
  have "dget (st_executions s') (ex_id (sa_execution a)) = Some (sa_execution a)"
    and auth: "ex_start_authorized_at (sa_execution a) \<noteq> None"
    using authorize_start_success [OF _ first] s by (auto simp: store_inv_def)
  with ev e same have "keeps_execution (sa_execution a) e"
    by (auto dest: evolves_execution)
  with auth e show False by (simp add: keeps_execution_def)
qed

theorem start_authorized_once_witness:
  "\<exists>a. authorize_start sample_host sample_claim minute sample_claimed = (Inr a, sample_started) \<and>
     (\<forall>t c b t'. (mem_step sample_host)\<^sup>*\<^sup>* sample_started t \<and>
        authorize_start sample_host c minute t = (Inr b, t') \<longrightarrow> ex_id (sa_execution b) \<noteq> ''x1'')"
proof -
  have "map_sum id (\<lambda>a. ex_id (sa_execution a))
      (fst (authorize_start sample_host sample_claim minute sample_claimed)) = Inr ''x1''" by code_simp
  then obtain a where a: "authorize_start sample_host sample_claim minute sample_claimed = (Inr a, sample_started)"
    "ex_id (sa_execution a) = ''x1''"
    by (cases "authorize_start sample_host sample_claim minute sample_claimed")
      (auto simp: sample_started_def)
  with start_authorized_once [OF sample_init sample_reached(2) a(1)] show ?thesis by metis
qed

section \<open>Capacity\<close>

text \<open>
  C4. Admission accounting is exact in every reachable state: the counter of a scope equals the
  number of admitted executions that fall under it, and only executions that may still run
  hold a place.
\<close>

theorem admission_accounting:
  assumes "mem_init h s0" and "(mem_step h)\<^sup>*\<^sup>* s0 s"
  shows "allocated s k = int (card (admitted_in s k)) \<and>
    (\<forall>x \<in> st_admitted s. \<exists>e. dget (st_executions s) x = Some e \<and> \<not> is_terminal (ex_status e))"
proof -
  have "store_inv h s" using aut_store.inv_reachable assms by blast
  then show ?thesis
    by (auto simp: store_inv_def mem_inv_def body_inv_def counts_inv_def admitted_inv_def)
qed

theorem admission_accounting_witness:
  "allocated sample_claimed (global_key ''n'') = 1 \<and> card (admitted_in sample_claimed (global_key ''n'')) = 1"
proof -
  have "allocated sample_claimed (global_key ''n'') = 1" by code_simp
  with admission_accounting [OF sample_init sample_reached(2), of "global_key ''n''"] show ?thesis by simp
qed

text \<open>
  C5. On an open store \<open>claim_work\<close> with valid arguments returns a batch, unless the lease would
  end beyond the range of \<open>datetime\<close>; then it may raise \<open>OverflowError\<close>, and it raises nothing
  else. A batch is within the limit, names each work item once, every claim in it is honoured when
  it is handed out, and it does not push any namespace beyond the concurrency that was asked for.
\<close>

theorem claim_work_batches:
  assumes "mem_init h s0" and "(mem_step h)\<^sup>*\<^sup>* s0 s" and "\<not> st_closed s"
    and "claim_arguments n worker limit d g = None"
  shows "\<exists>r t. claim_work h n worker limit d g s = (r, t) \<and>
    (case r of
       Inl e \<Rightarrow> e = OverflowError ''date value out of range'' \<and> \<not> in_datetime (hs_now h (st_clock_reads s) + d)
     | Inr b \<Rightarrow>
         int (length (wb_claims b)) \<le> limit \<and> distinct (map cl_work_item_id (wb_claims b)) \<and>
         (\<forall>c \<in> set (wb_claims b). \<exists>i. dget (st_work t) (cl_work_item_id c) = Some i \<and>
            claim_matches c (hs_now h (st_clock_reads s)) i) \<and>
         (\<forall>k. allocated t (global_key k) \<le> max g (allocated s (global_key k))))"
proof -
  have "mem_inv h s" using aut_store.inv_reachable assms(1,2) by (auto simp: store_inv_def)
  note body = claim_work_body [OF this assms(4,3)]
  obtain r t where run: "claim_work h n worker limit d g s = (r, t)" by fastforce
  show ?thesis
  proof (cases r)
    case (Inl e)
    with run body show ?thesis by (auto simp: run_with_def overflowed_def)
  next
    case (Inr b)
    with run body show ?thesis by (auto simp: run_with_def batch_ok_def claims_hold_def split: if_splits)
  qed
qed

theorem claim_work_batches_witness:
  "\<exists>b t. claim_work sample_host ''n'' ''worker'' 1 minute 1 sample_queued = (Inr b, t) \<and>
     wb_claims b = [sample_claim] \<and> allocated t (global_key ''n'') \<le> 1"
proof -
  have open_store: "\<not> st_closed sample_queued"
    and args: "claim_arguments ''n'' ''worker'' 1 minute 1 = None"
    and empty: "allocated sample_queued (global_key ''n'') = 0"
    and claims: "map_sum id wb_claims (fst (claim_work sample_host ''n'' ''worker'' 1 minute 1 sample_queued)) =
      Inr [sample_claim]"
    by code_simp+
  obtain r t where run: "claim_work sample_host ''n'' ''worker'' 1 minute 1 sample_queued = (r, t)" by fastforce
  with claims obtain b where b: "r = Inr b" "wb_claims b = [sample_claim]" by (cases r) auto
  from claim_work_batches [OF sample_init sample_reached(1) open_store args] run b(1)
  have "allocated t (global_key ''n'') \<le> max 1 (allocated sample_queued (global_key ''n''))" by auto
  then show ?thesis using run b empty by simp
qed

section \<open>Errors\<close>

text \<open>
  C6. An operation that raises leaves every stored fact as it was and publishes nothing; it
  may only have asked the host for the time, a token or an identifier. There is one exception:
  \<open>claim_work\<close> with a lease that would end beyond the range of \<open>datetime\<close> raises \<open>OverflowError\<close>
  after it has changed the work it was about to hand out.
\<close>

theorem failed_operation_changes_nothing:
  assumes "mem_init h s0" and "(mem_step h)\<^sup>*\<^sup>* s0 s" and "mem_call h s (Some err) t"
  shows "facts t = facts s \<or>
    (\<exists>n worker limit lease g. claim_work h n worker limit lease g s = (Inl err, t) \<and>
       err = OverflowError ''date value out of range'' \<and> \<not> in_datetime (hs_now h (st_clock_reads s) + lease))"
proof -
  have "store_inv h s" using aut_store.inv_reachable assms(1,2) by blast
  with mem_call_sound [OF assms(3)] have "facts t = facts s \<or> overflowing_claim h s err t" by blast
  then show ?thesis unfolding overflowing_claim_def overflowed_def by blast
qed

theorem failed_operation_changes_nothing_witness:
  "\<exists>err. fst (finish_execution sample_host sample_claim SUCCEEDED JNull None None sample_queued) = Inl err \<and>
     facts (snd (finish_execution sample_host sample_claim SUCCEEDED JNull None None sample_queued)) =
       facts sample_queued"
proof -
  let ?r = "finish_execution sample_host sample_claim SUCCEEDED JNull None None sample_queued"
  have "fst ?r = Inl (ClaimLostError ''w'')" by code_simp
  then have run: "mem_call sample_host sample_queued (Some (ClaimLostError ''w'')) (snd ?r)"
    using call_finish [OF surjective_pairing [of ?r]] by simp
  from failed_operation_changes_nothing [OF sample_init sample_reached(1) run] \<open>fst ?r = _\<close>
  show ?thesis by simp
qed

text \<open>
  The exception is real: a lease of \<open>timedelta.max\<close> passes the checks of the arguments. The item
  stays claimed under a token that nobody was given and without a lease, which no recovery pass
  expires, and its execution keeps its place in the capacity of its scopes until it is cancelled.
\<close>

definition sample_overflow :: "(aut_error + work_claim_batch) \<times> mem_store" where
  "sample_overflow = claim_work sample_host ''n'' ''worker'' 1 (1000000000 * 24 * hour - 1) 1 sample_queued"

lemma overflow_strands_work:
  "fst sample_overflow = Inl (OverflowError ''date value out of range'') \<and>
   map_option (\<lambda>i. (wi_status i, wi_claim_token i, wi_lease_until i)) (dget (st_work (snd sample_overflow)) ''w'') =
     Some (CLAIMED, Some ''t'', None) \<and>
   allocated (snd sample_overflow) (global_key ''n'') = 1"
  by code_simp

lemma no_lease_never_expires: "wi_lease_until i = None \<Longrightarrow> \<not> lease_expired n now i \<and> \<not> claim_matches c now i"
  by (simp add: lease_expired_def claim_matches_def)

text \<open>
  C3. Fencing: once a work item has been claimed again, the earlier claim can never renew,
  authorize, interrupt or finish anything, in any later state.
\<close>

theorem superseded_claim_refused:
  assumes "mem_init h s0" and "(mem_step h)\<^sup>*\<^sup>* s0 s" and "(mem_step h)\<^sup>*\<^sup>* s t"
    and "dget (st_work s) (cl_work_item_id c) = Some i" and "cl_fence c < wi_fence i"
  shows "(\<exists>e. fst (renew_claim h c d t) = Inl e) \<and> (\<exists>e. fst (authorize_start h c d t) = Inl e) \<and>
    (\<exists>e. fst (mark_interrupted h c ids t) = Inl e) \<and>
    (\<exists>e. fst (finish_execution h c status result code_text message t) = Inl e)"
proof -
  have "store_inv h s" using aut_store.inv_reachable assms(1,2) by blast
  then have "\<not> claim_honoured t c"
    using aut_store.superseded_refused assms(3-5) by (simp add: item_fence_def)
  then have valid: "\<exists>e t'. valid_claim h c u = (Inl e, t')"
    if "st_work u = st_work t" "st_closed u = st_closed t" for u
    using that by (auto simp: valid_claim_def claim_honoured_def seq_def bind_def ensure_open_def check_state_def
        check_def gets_def read_clock_def fail_def split: option.split)
  obtain e u e' u' where v: "valid_claim h c t = (Inl e, u)" "valid_claim h c (t\<lparr>st_changes := []\<rparr>) = (Inl e', u')"
    using valid [of t] valid [of "t\<lparr>st_changes := []\<rparr>"] by auto
  then show ?thesis
    by (auto simp: renew_claim_def authorize_start_def mark_interrupted_def finish_execution_def
        seq_def bind_def check_def mutation_def)
qed

theorem superseded_claim_refused_witness:
  "\<exists>e. fst (finish_execution sample_host (sample_claim\<lparr>cl_fence := 0\<rparr>) SUCCEEDED JNull None None sample_started) = Inl e"
proof -
  have "map_option wi_fence (dget (st_work sample_claimed) (cl_work_item_id (sample_claim\<lparr>cl_fence := 0\<rparr>))) = Some 1"
    by code_simp
  then obtain i where i: "dget (st_work sample_claimed) (cl_work_item_id (sample_claim\<lparr>cl_fence := 0\<rparr>)) = Some i"
    "cl_fence (sample_claim\<lparr>cl_fence := 0\<rparr>) < wi_fence i" by auto
  have "(mem_step sample_host)\<^sup>*\<^sup>* sample_claimed sample_started" using sample_steps(3) by blast
  from superseded_claim_refused [OF sample_init sample_reached(2) this i] show ?thesis by blast
qed

section \<open>Commands with receipts\<close>

text \<open>The receipt that answers a command: under its request key and with its input digest.\<close>

definition receipt_for :: "py_str \<Rightarrow> py_str \<Rightarrow> py_str \<Rightarrow> py_str \<Rightarrow> mem_store \<Rightarrow> command_result option" where
  "receipt_for namespace owner_id request_id input_digest s =
     (case dget (st_operations s) (namespace, owner_id, request_id) of
        None \<Rightarrow> None
      | Some r \<Rightarrow> if rc_input_digest r = input_digest then Some (rc_result r) else None)"

lemma receipt_for_Some:
  "receipt_for n u r d s = Some q \<longleftrightarrow>
     (\<exists>rc. dget (st_operations s) (n, u, r) = Some rc \<and> rc_input_digest rc = d \<and> rc_result rc = q)"
  by (auto simp: receipt_for_def split: option.split)

lemma receipt_for_saved:
  "st_operations t = dset (n, u, r) \<lparr>rc_input_digest = d, rc_result = q\<rparr> ops \<Longrightarrow> receipt_for n u r d t = Some q"
  by (simp add: receipt_for_Some)

lemma receipt_for_later: "evolves s t \<Longrightarrow> receipt_for n u r d s = Some q \<Longrightarrow> receipt_for n u r d t = Some q"
  unfolding receipt_for_Some by (blast dest: evolves_receipt)

lemma operation_result_receipt:
  "receipt_for n u r d s = Some q \<Longrightarrow> operation_result n u (Some r) d s = (Inr (Some q), s)"
  by (auto simp: receipt_for_Some operation_result_def try_gets_def lift_def)

lemma operation_result_state: "operation_result n u r d s = (x, s') \<Longrightarrow> s' = s"
  by (auto simp: operation_result_def try_gets_def lift_def)

lemma operation_result_known:
  "operation_result n u (Some r) d s = (Inr (Some q), s') \<Longrightarrow> receipt_for n u r d s = Some q"
  by (auto simp: receipt_for_Some operation_result_def try_gets_def lift_def split: option.splits if_splits)

text \<open>
  The common shape of the commands: answered from the receipt when there is one. Such a
  command has no other effect when it is answered, and leaves its receipt when it returns.
\<close>

abbreviation (input) answered ::
    "py_str \<Rightarrow> py_str \<Rightarrow> py_str option \<Rightarrow> py_str \<Rightarrow> (command_result \<Rightarrow> aut_error + 'a) \<Rightarrow> 'a store_op \<Rightarrow> 'a store_op" where
  "answered n u r d f m \<equiv> mutation (seq ensure_open (bind (operation_result n u r d) (\<lambda>previous.
     case previous of Some result \<Rightarrow> lift (f result) | None \<Rightarrow> m)))"

lemma answered_replay:
  assumes "\<not> st_closed s" and "receipt_for n u r d s = Some q"
  shows "\<exists>s'. answered n u (Some r) d f m s = (f q, s') \<and> facts s' = facts s"
proof -
  have "receipt_for n u r d (s\<lparr>st_changes := []\<rparr>) = Some q" using assms(2) by (simp add: receipt_for_def)
  then show ?thesis using assms(1)
    by (cases "f q") (simp_all add: mutation_def seq_def bind_def lift_def publish_def facts_def
        operation_result_receipt ensure_open_def check_state_def check_def)
qed

lemma answered_records:
  assumes run: "answered n u (Some r) d f m s = (Inr a, s')"
    and m: "run_with m (\<lambda>a t. \<exists>q. receipt_for n u r d t = Some q \<and> f q = Inr a) (\<lambda>_ _. True)
      (s\<lparr>st_changes := []\<rparr>)"
  shows "\<exists>q. receipt_for n u r d s' = Some q \<and> f q = Inr a"
proof -
  have pub: "receipt_for n u r d (publish t) = receipt_for n u r d t" for t
    by (simp add: receipt_for_def publish_def)
  show ?thesis
  proof (cases "receipt_for n u r d (s\<lparr>st_changes := []\<rparr>)")
    case (Some q)
    with run have "f q = Inr a \<and> s' = publish (s\<lparr>st_changes := []\<rparr>)"
      by (auto simp: mutation_def seq_def bind_def lift_def operation_result_receipt ensure_open_def
          check_state_def check_def split: sum.splits option.splits if_splits)
    with Some show ?thesis by (simp add: pub)
  next
    case None
    then have "operation_result n u (Some r) d (s\<lparr>st_changes := []\<rparr>) = (Inr None, s\<lparr>st_changes := []\<rparr>) \<or>
        (\<exists>e. operation_result n u (Some r) d (s\<lparr>st_changes := []\<rparr>) = (Inl e, s\<lparr>st_changes := []\<rparr>))"
      by (auto simp: operation_result_def try_gets_def lift_def receipt_for_def split: option.splits if_splits)
    with run obtain t where "m (s\<lparr>st_changes := []\<rparr>) = (Inr a, t)" "s' = publish t"
      by (auto simp: mutation_def seq_def bind_def ensure_open_def check_state_def check_def
          split: prod.splits sum.splits if_splits)
    with m show ?thesis by (simp add: run_with_def pub)
  qed
qed

lemma bind_lift [simp]: "bind (lift (Inr a)) f = f a" "bind (lift (Inl e)) f = fail e"
  by (auto simp: bind_def lift_def fail_def)

lemma seq_check [simp]: "seq (check None) m = m" "seq (check (Some e)) m = fail e"
  by (auto simp: seq_def bind_def check_def fail_def)

lemma fail_not_Inr [simp]: "fail e s \<noteq> (Inr a, s')"
  by (simp add: fail_def)

text \<open>What the command does when it is new only has to leave the receipt.\<close>

lemmas leave_receipt = wp save_task_def record_change_def receipt_for_Some expect_task_def
  expect_execution_def expect_text_def require_operation_capacity_def save_operation_def

interpretation create_command: idempotent_command "create_task t (Some r) d"
  "receipt_for (tk_namespace t) (tk_owner t) r d" expect_task
  "\<lambda>s. \<not> st_closed s \<and> task_post_init t = None" "\<lambda>s s'. facts s' = facts s" evolves for t r d
proof unfold_locales
  fix s q assume live: "\<not> st_closed s \<and> task_post_init t = None"
    and receipt: "receipt_for (tk_namespace t) (tk_owner t) r d s = Some q"
  then have ok: "\<not> st_closed s" "task_post_init t = None" by simp_all
  show "\<exists>s'. create_task t (Some r) d s = (expect_task q, s') \<and> facts s' = facts s"
    unfolding create_task_def snapshot_task_def ok(2) option.case bind_lift by (rule answered_replay [OF ok(1) receipt])
next
  fix a s s' assume run: "create_task t (Some r) d s = (Inr a, s')"
  then have ok: "task_post_init t = None"
    by (auto simp: create_task_def snapshot_task_def split: option.splits)
  show "\<exists>q. receipt_for (tk_namespace t) (tk_owner t) r d s' = Some q \<and> expect_task q = Inr a"
    by (rule answered_records [OF run [unfolded create_task_def snapshot_task_def ok option.case bind_lift]])
      (auto simp: leave_receipt split: option.split)
qed (rule receipt_for_later)

interpretation update_command: idempotent_command "update_task t v (Some r) d"
  "receipt_for (tk_namespace t) (tk_owner t) r d" expect_task
  "\<lambda>s. \<not> st_closed s \<and> task_post_init t = None" "\<lambda>s s'. facts s' = facts s" evolves for t v r d
proof unfold_locales
  fix s q assume live: "\<not> st_closed s \<and> task_post_init t = None"
    and receipt: "receipt_for (tk_namespace t) (tk_owner t) r d s = Some q"
  then have ok: "\<not> st_closed s" "task_post_init t = None" by simp_all
  show "\<exists>s'. update_task t v (Some r) d s = (expect_task q, s') \<and> facts s' = facts s"
    unfolding update_task_def snapshot_task_def ok(2) option.case bind_lift by (rule answered_replay [OF ok(1) receipt])
next
  fix a s s' assume run: "update_task t v (Some r) d s = (Inr a, s')"
  then have ok: "task_post_init t = None"
    by (auto simp: update_task_def snapshot_task_def split: option.splits)
  show "\<exists>q. receipt_for (tk_namespace t) (tk_owner t) r d s' = Some q \<and> expect_task q = Inr a"
    by (rule answered_records [OF run [unfolded update_task_def snapshot_task_def ok option.case bind_lift]])
      (auto simp: leave_receipt owned_task_def split: option.split sum.split)
qed (rule receipt_for_later)

lemma any_apply: "run_with (apply_transition h tr item) (\<lambda>a t. Q a t) (\<lambda>_ _. True) s"
  if "\<And>a t. Q a t"
  using that by (auto simp: run_with_def split: prod.split sum.split)

interpretation cancel_command: idempotent_command "cancel_execution h n u x (Some r) d"
  "receipt_for n u r d" expect_execution
  "\<lambda>s. \<not> st_closed s \<and> validate_scope n u = None" "\<lambda>s s'. facts s' = facts s" evolves for h n u x r d
proof unfold_locales
  fix s q assume live: "\<not> st_closed s \<and> validate_scope n u = None" and receipt: "receipt_for n u r d s = Some q"
  then have ok: "\<not> st_closed s" "validate_scope n u = None" by simp_all
  show "\<exists>s'. cancel_execution h n u x (Some r) d s = (expect_execution q, s') \<and> facts s' = facts s"
    unfolding cancel_execution_def ok(2) seq_check by (rule answered_replay [OF ok(1) receipt])
next
  fix a s s' assume run: "cancel_execution h n u x (Some r) d s = (Inr a, s')"
  then have ok: "validate_scope n u = None"
    by (cases "validate_scope n u") (simp_all add: cancel_execution_def)
  show "\<exists>q. receipt_for n u r d s' = Some q \<and> expect_execution q = Inr a"
    by (rule answered_records [OF run [unfolded cancel_execution_def ok seq_check]])
      (auto simp: leave_receipt owned_execution_def intro!: any_apply split: option.split sum.split)
qed (rule receipt_for_later)

interpretation resolve_command: idempotent_command "resolve_execution h n u x a r d reason"
  "receipt_for n u r d" expect_execution
  "\<lambda>s. \<not> st_closed s \<and> first_error [validate_scope n u, validate_persisted_text reason ''reason'' None] = None"
  "\<lambda>s s'. facts s' = facts s" evolves for h n u x a r d reason
proof unfold_locales
  fix s q
  assume live: "\<not> st_closed s \<and> first_error [validate_scope n u, validate_persisted_text reason ''reason'' None] = None"
    and receipt: "receipt_for n u r d s = Some q"
  then have ok: "\<not> st_closed s" "first_error [validate_scope n u, validate_persisted_text reason ''reason'' None] = None"
    by blast+
  show "\<exists>s'. resolve_execution h n u x a r d reason s = (expect_execution q, s') \<and> facts s' = facts s"
    unfolding resolve_execution_def ok(2) seq_check by (rule answered_replay [OF ok(1) receipt])
next
  fix e s s' assume run: "resolve_execution h n u x a r d reason s = (Inr e, s')"
  then have ok: "first_error [validate_scope n u, validate_persisted_text reason ''reason'' None] = None"
    by (cases "first_error [validate_scope n u, validate_persisted_text reason ''reason'' None]")
      (simp_all add: resolve_execution_def del: first_error_None)
  show "\<exists>q. receipt_for n u r d s' = Some q \<and> expect_execution q = Inr e"
    by (rule answered_records [OF run [unfolded resolve_execution_def ok seq_check]])
      (auto simp: leave_receipt owned_execution_def intro!: any_apply split: option.split sum.split)
qed (rule receipt_for_later)

lemma lift_unit: "bind (lift c) (\<lambda>_. ret ()) = lift (map_sum id (\<lambda>_. ()) c)"
  by (rule ext, cases c) (simp_all add: bind_def lift_def ret_def)

interpretation delete_command: idempotent_command "delete_task h n u x v (Some r) d"
  "receipt_for n u r d" "\<lambda>q. map_sum id (\<lambda>_. ()) (expect_text q)"
  "\<lambda>s. \<not> st_closed s \<and> validate_scope n u = None" "\<lambda>s s'. facts s' = facts s" evolves for h n u x v r d
proof unfold_locales
  fix s q assume live: "\<not> st_closed s \<and> validate_scope n u = None" and receipt: "receipt_for n u r d s = Some q"
  then have ok: "\<not> st_closed s" "validate_scope n u = None" by simp_all
  show "\<exists>s'. delete_task h n u x v (Some r) d s = (map_sum id (\<lambda>_. ()) (expect_text q), s') \<and> facts s' = facts s"
    unfolding delete_task_def ok(2) seq_check lift_unit by (rule answered_replay [OF ok(1) receipt])
next
  have loop: "run_with (for_each f xs) (\<lambda>_. Q) (\<lambda>_ _. True) s" if "\<And>t. Q t"
    for f and xs :: "automation_execution list" and Q and s :: mem_store
    using that by (auto simp: run_with_def split: prod.split sum.split)
  fix a s s' assume run: "delete_task h n u x v (Some r) d s = (Inr a, s')"
  then have ok: "validate_scope n u = None"
    by (cases "validate_scope n u") (simp_all add: delete_task_def)
  show "\<exists>q. receipt_for n u r d s' = Some q \<and> map_sum id (\<lambda>_. ()) (expect_text q) = Inr a"
    by (rule answered_records [OF run [unfolded delete_task_def ok seq_check lift_unit]])
      (auto simp: leave_receipt owned_task_def intro!: loop split: option.split sum.split)
qed (rule receipt_for_later)

text \<open>
  Cancelling is idempotent: a cancellation that returned an execution under a request key
  returns the same execution whenever it is repeated with that key and digest on an open
  store, and changes nothing then, even when the execution has moved on in the meantime.
\<close>

theorem cancel_execution_repeats:
  assumes "mem_init h s0" and "(mem_step h)\<^sup>*\<^sup>* s0 s"
    and run: "cancel_execution h n u x (Some r) d s = (Inr e, s')"
    and "(mem_step h)\<^sup>*\<^sup>* s' t" and "\<not> st_closed t"
  shows "\<exists>t'. cancel_execution h n u x (Some r) d t = (Inr e, t') \<and> facts t' = facts t"
proof -
  have "store_inv h s" using aut_store.inv_reachable assms(1,2) by blast
  then have "store_inv h s'" using mem_step_sound mem_stepI call_cancel run by blast
  then have "evolves s' t" using evolves_steps assms(4) by blast
  moreover have "validate_scope n u = None"
    using run by (cases "validate_scope n u") (simp_all add: cancel_execution_def)
  ultimately show ?thesis using cancel_command.repeat_answer [OF run] assms(5) by blast
qed

theorem cancel_execution_repeats_witness:
  "\<exists>e t. sample_cancel sample_queued = (Inr e, sample_cancelled) \<and>
     sample_cancel sample_cancelled = (Inr e, t) \<and> facts t = facts sample_cancelled"
proof -
  have "map_sum id ex_status (fst (sample_cancel sample_queued)) = Inr CANCELLED"
    and alive: "\<not> st_closed sample_cancelled" by code_simp+
  then obtain e where run: "sample_cancel sample_queued = (Inr e, sample_cancelled)"
    by (cases "sample_cancel sample_queued") (auto simp: sample_cancelled_def)
  from cancel_execution_repeats [OF sample_init sample_reached(1) run [unfolded sample_cancel_def] _ alive]
  show ?thesis using run by (auto simp: sample_cancel_def)
qed

text \<open>
  Creating a task is idempotent in the same way: the client gets the task it created, not
  a conflict, even if the task was updated or deleted since.
\<close>

theorem create_task_repeats:
  assumes "mem_init h s0" and "(mem_step h)\<^sup>*\<^sup>* s0 s" and run: "create_task t (Some r) d s = (Inr q, s')"
    and "(mem_step h)\<^sup>*\<^sup>* s' u" and "\<not> st_closed u"
  shows "\<exists>u'. create_task t (Some r) d u = (Inr q, u') \<and> facts u' = facts u"
proof -
  have "store_inv h s" using aut_store.inv_reachable assms(1,2) by blast
  then have "store_inv h s'" using mem_step_sound mem_stepI call_create run by blast
  then have "evolves s' u" using evolves_steps assms(4) by blast
  moreover have "task_post_init t = None"
    using run by (auto simp: create_task_def snapshot_task_def split: option.splits)
  ultimately show ?thesis using create_command.repeat_answer [OF run] assms(5) by blast
qed

definition sample_task :: automation_task where
  "sample_task = \<lparr>tk_id = ''t1'', tk_namespace = ''n'', tk_owner = ''o'', tk_execution_namespace = ''n'',
     tk_name = ''Report'', tk_target = ''agent'', tk_input = [],
     tk_schedule = \<lparr>active_from = None, active_until = None, kind = IntervalSchedule 60 0\<rparr>,
     tk_status = ENABLED, tk_revision = 1, tk_next_run_at = Some minute,
     tk_misfire_policy = default_misfire_policy, tk_limits = default_execution_limits,
     tk_created_at = 0, tk_updated_at = 0\<rparr>"

theorem create_task_repeats_witness:
  "\<exists>s u. create_task sample_task (Some ''q'') ''d'' sample_empty = (Inr sample_task, s) \<and>
     create_task sample_task (Some ''q'') ''d'' s = (Inr sample_task, u) \<and> facts u = facts s"
proof -
  let ?r = "create_task sample_task (Some ''q'') ''d'' sample_empty"
  have "map_sum id tk_id (fst ?r) = Inr ''t1''" and alive: "\<not> st_closed (snd ?r)" by code_simp+
  moreover have "fst ?r = Inr sample_task" by code_simp
  ultimately have run: "?r = (Inr sample_task, snd ?r)" by (metis surjective_pairing)
  from create_task_repeats [OF sample_init _ run _ alive] show ?thesis using run by blast
qed

section \<open>Uniqueness\<close>

text \<open>
  C8. An execution has at most one work item of each kind, and work that is not completed
  belongs to an execution in a status in which that kind of work can still run.
\<close>

theorem one_work_item:
  assumes "mem_init h s0" and "(mem_step h)\<^sup>*\<^sup>* s0 s"
    and "dget (st_work s) w = Some i" and "dget (st_work s) v = Some j"
    and "wi_execution_id i = wi_execution_id j" and "wi_kind i = wi_kind j"
  shows "w = v \<and> (wi_status i \<noteq> COMPLETED \<longrightarrow> (\<exists>e. dget (st_executions s) (wi_execution_id i) = Some e \<and>
    live_work (wi_kind i) (ex_status e)))"
proof -
  have inv: "work_inv h s"
    using aut_store.inv_reachable assms(1,2) by (auto simp: store_inv_def mem_inv_def body_inv_def)
  then have "item_ok h s w i" using assms(3) by (simp add: work_inv_def)
  with item_unique [OF inv assms(3-6)] show ?thesis by (auto simp: item_ok_def)
qed

theorem one_work_item_witness:
  "\<exists>i. dget (st_work sample_claimed) ''w'' = Some i \<and> wi_status i = CLAIMED \<and>
     (\<exists>e. dget (st_executions sample_claimed) (wi_execution_id i) = Some e \<and> live_work (wi_kind i) (ex_status e))"
proof -
  have "map_option wi_status (dget (st_work sample_claimed) ''w'') = Some CLAIMED" by code_simp
  then obtain i where i: "dget (st_work sample_claimed) ''w'' = Some i" "wi_status i = CLAIMED" by auto
  from one_work_item [OF sample_init sample_reached(2) i(1,1) refl refl] i show ?thesis by auto
qed

text \<open>The receipt that is looked up first, when the call has a request key.\<close>

definition receipt_at :: "automation_execution \<Rightarrow> py_str option \<Rightarrow> mem_store \<Rightarrow> command_receipt option" where
  "receipt_at e r s = (case r of None \<Rightarrow> None | Some q \<Rightarrow> dget (st_operations s) (ex_namespace e, ex_owner e, q))"

lemma operation_result_unanswered:
  "receipt_at e r s = None \<Longrightarrow> st_operations t = st_operations s \<Longrightarrow>
     run_with (operation_result (ex_namespace e) (ex_owner e) r d) Q E t = Q None t"
  by (cases r) (simp_all add: receipt_at_def operation_result_def wp)

lemma enqueue_registers:
  assumes inv: "mem_inv h s" and run: "enqueue_execution h e k r d v s = (Inr a, s')" and new: "receipt_at e r s = None"
  shows "dget (st_occurrences s') (ex_namespace e, k) = Some (ex_id a) \<and>
    dget (st_executions s') (ex_id a) = Some a"
proof -
  have facts: "facts_inv s" and clean: "s\<lparr>st_changes := []\<rparr> = s"
    using inv by (simp_all add: mem_inv_def body_inv_def)
  have same: "run_with (create_work h e w at) (\<lambda>_ t. st_executions t = st_executions u \<and>
      st_occurrences t = st_occurrences u) (\<lambda>_ _. True) u" for w at u
    by (simp add: create_work_def wp work_at_def update_item_def split: option.split)
  have work: "run_with (create_work h e w at) (\<lambda>_. Q) (\<lambda>_ _. True) u"
    if "\<And>t. st_executions t = st_executions u \<Longrightarrow> st_occurrences t = st_occurrences u \<Longrightarrow> Q t" for w at u Q
    by (rule wp_mono [OF same]) (use that in auto)
  let ?Q = "\<lambda>a t. dget (st_occurrences t) (ex_namespace e, k) = Some (ex_id a) \<and> dget (st_executions t) (ex_id a) = Some a"
  have admitted: "run_with (admit_execution h (ex_namespace e) k e) (\<lambda>_. Q) (\<lambda>_ _. True) u"
    if "\<And>t. ?Q e t \<Longrightarrow> Q t" for u Q
    using that by (auto simp: admit_execution_def save_execution_def record_change_def wp intro!: work)
  have saved: "run_with (save_operation n m r d q) (\<lambda>_ t. ?Q e (publish t)) (\<lambda>_ _. True) u" if "?Q e u" for n m q u
    using that by (cases r) (auto simp: save_operation_def wp publish_def split: option.split)
  have looked: "run_with (operation_result (ex_namespace e) (ex_owner e) r d) Q E s = Q None s" for Q E
    by (rule operation_result_unanswered [OF new]) simp
  have "run_with (enqueue_execution h e k r d v) ?Q (\<lambda>_ _. True) s"
  proof (cases "execution_post_init e")
    case None
    then have snap: "snapshot_execution e = Inr e" by simp
    have guard_looked: "run_with (f None) Q E s \<Longrightarrow> run_with (bind (operation_result (ex_namespace e) (ex_owner e) r d) f) Q E s" for f Q E
      by (simp add: wp_bind looked)
    have store: "run_with (seq (admit_execution h (ex_namespace e) k e) (seq (save_operation n m r d q) (ret e)))
        (\<lambda>a t. ?Q a (publish t)) (\<lambda>_ _. True) s" for n m q
      unfolding wp_seq wp_ret by (intro admitted saved)
    show ?thesis
      unfolding enqueue_execution_def snap wp_bind [of "lift _ :: automation_execution store_op"] wp_lift sum.case wp_mutation clean
    proof (unfold ensure_open_def execution_at_def require_operation_capacity_def, intro guards guard_looked store)
    qed (use known_id [OF facts] in \<open>auto simp: publish_def split: option.splits\<close>)
  next
    case (Some err)
    then show ?thesis by (simp add: enqueue_execution_def snapshot_execution_def replace_execution_def wp)
  qed
  then show ?thesis by (simp add: run_with_def run)
qed

text \<open>
  C7. One occurrence is one execution. Once an occurrence was enqueued (by a call that no earlier
  receipt answered), every later call for it adds nothing and changes nothing, whatever its input,
  its digest and its request key. If its request key has a receipt, the receipt answers, or the
  call conflicts with it; otherwise it gets the execution of the first call as it is by then.
\<close>

theorem enqueue_deduplicates:
  assumes "mem_init h s0" and "(mem_step h)\<^sup>*\<^sup>* s0 s"
    and fresh: "ex_start_authorized_at e = None" "ex_deadline e = None"
    and run: "enqueue_execution h e k r d v s = (Inr a, s')" and new: "receipt_at e r s = None"
    and "(mem_step h)\<^sup>*\<^sup>* s' t" and "\<not> st_closed t"
    and e': "ex_namespace e' = ex_namespace e" "execution_post_init e' = None"
  shows "\<exists>q t'. enqueue_execution h e' k r' d' v' t = (q, t') \<and> facts t' = facts t \<and>
    (case receipt_at e' r' t of
       Some rc \<Rightarrow> q = (if rc_input_digest rc = d' then expect_execution (rc_result rc) else Inl (RequestConflictError (the r')))
     | None \<Rightarrow> \<exists>b. q = Inr b \<and> ex_id b = ex_id a \<and> dget (st_executions t) (ex_id a) = Some b)"
proof -
  have s: "store_inv h s" using aut_store.inv_reachable assms(1,2) by blast
  then have s': "store_inv h s'" using mem_step_sound mem_stepI call_enqueue [OF fresh run] by blast
  then have "store_inv h t" and ev: "evolves s' t"
    using aut_store.inv_steps evolves_steps assms(7) by blast+
  have reg: "dget (st_occurrences s') (ex_namespace e, k) = Some (ex_id a)"
    "dget (st_executions s') (ex_id a) = Some a"
    using enqueue_registers [OF _ run new] s by (auto simp: store_inv_def)
  obtain b where b: "dget (st_executions t) (ex_id a) = Some b" "same_identity a b"
    using evolves_execution [OF ev reg(2)] by (auto simp: keeps_execution_def)
  have occ: "dget (st_occurrences t) (ex_namespace e', k) = Some (ex_id a)"
    using ev reg(1) e'(1) by (simp add: evolves_def)
  note unfolded = enqueue_execution_def snapshot_execution_def replace_execution_def mutation_def seq_def bind_def
    ensure_open_def check_state_def check_def operation_result_def try_gets_def lift_def gets_def
    execution_at_def publish_def facts_def same_identity_def receipt_at_def
  show ?thesis
  proof (cases r')
    case None
    then show ?thesis using b occ assms(8) e' by (simp add: unfolded)
  next
    case (Some p)
    show ?thesis
    proof (cases "dget (st_operations t) (ex_namespace e', ex_owner e', p)")
      case None
      then show ?thesis using Some b occ assms(8) e' by (simp add: unfolded)
    next
      case receipt: (Some rc)
      show ?thesis
      proof (cases "rc_input_digest rc = d'")
        case True
        then show ?thesis
          using Some receipt assms(8) e' by (cases "expect_execution (rc_result rc)") (simp_all add: unfolded)
      next
        case False
        then show ?thesis using Some receipt assms(8) e' by (simp add: unfolded)
      qed
    qed
  qed
qed

definition sample_deduplicated :: "(aut_error + automation_execution) \<times> mem_store" where
  "sample_deduplicated = enqueue_execution sample_host sample_execution ''k'' None ''d'' None sample_empty"

theorem enqueue_deduplicates_witness:
  "\<exists>b t. enqueue_execution sample_host (sample_execution\<lparr>ex_id := ''x2''\<rparr>) ''k'' (Some ''q'') ''d'' None
       (snd sample_deduplicated) = (Inr b, t) \<and> ex_id b = ''x1''"
proof -
  have first: "fst sample_deduplicated = Inr sample_execution"
    and alive: "\<not> st_closed (snd sample_deduplicated)" by code_simp+
  then have run: "enqueue_execution sample_host sample_execution ''k'' None ''d'' None sample_empty =
      (Inr sample_execution, snd sample_deduplicated)"
    by (metis sample_deduplicated_def surjective_pairing)
  have same: "ex_start_authorized_at sample_execution = None" "ex_deadline sample_execution = None"
    "ex_namespace (sample_execution\<lparr>ex_id := ''x2''\<rparr>) = ex_namespace sample_execution"
    "execution_post_init (sample_execution\<lparr>ex_id := ''x2''\<rparr>) = None"
    "ex_id sample_execution = ''x1''"
    by code_simp+
  have new: "receipt_at sample_execution None sample_empty = None"
    "receipt_at (sample_execution\<lparr>ex_id := ''x2''\<rparr>) (Some ''q'') (snd sample_deduplicated) = None" by code_simp+
  from enqueue_deduplicates [OF sample_init _ same(1,2) run new(1) _ alive same(3,4), of "Some ''q''" "''d''" None] new(2)
  show ?thesis using same(5) by auto
qed

section \<open>Pages of executions\<close>

text \<open>Following the cursor of each page, at most \<open>fuel\<close> times.\<close>

primrec follow_executions ::
    "cursor_codec \<Rightarrow> py_str \<Rightarrow> py_str \<Rightarrow> py_str option \<Rightarrow> int \<Rightarrow> execution_filter \<Rightarrow> mem_store \<Rightarrow> nat \<Rightarrow>
       py_str option \<Rightarrow> automation_execution list" where
  "follow_executions codec n u task limit filters s 0 cursor = []"
| "follow_executions codec n u task limit filters s (Suc fuel) cursor =
     (case fst (list_executions codec n u task limit cursor filters s) of
        Inl e \<Rightarrow> []
      | Inr page \<Rightarrow> ep_items page @ (case ep_next_cursor page of
          None \<Rightarrow> [] | Some c \<Rightarrow> follow_executions codec n u task limit filters s fuel (Some c)))"

definition execution_matches ::
    "py_str \<Rightarrow> py_str \<Rightarrow> py_str option \<Rightarrow> execution_filter \<Rightarrow> automation_execution \<Rightarrow> bool" where
  "execution_matches n u task filters e \<longleftrightarrow> ex_namespace e = n \<and> ex_owner e = u \<and> matches_executions e filters \<and>
     (case task of None \<Rightarrow> True | Some t \<Rightarrow> ex_task_id e = Some t)"

definition matching_executions ::
    "py_str \<Rightarrow> py_str \<Rightarrow> py_str option \<Rightarrow> execution_filter \<Rightarrow> mem_store \<Rightarrow> automation_execution list" where
  "matching_executions n u task filters s =
     rev (sort_key execution_position (rev (filter (execution_matches n u task filters) (dvals (st_executions s)))))"

text \<open>What a query relies on: the cursors of its executions can be read back.\<close>

definition faithful_codec :: "cursor_codec \<Rightarrow> py_str \<Rightarrow> automation_execution list \<Rightarrow> bool" where
  "faithful_codec codec scope executions \<longleftrightarrow>
     (\<forall>e \<in> set executions. length (qc_encode codec scope (ex_queued_at e) (ex_id e)) \<le> 2048 \<and>
        qc_parse codec (qc_encode codec scope (ex_queued_at e) (ex_id e)) = Some (scope, execution_position e))"

lemma filter_before:
  assumes "sorted_wrt (\<lambda>a b. f b < f a) xs" and "k < length xs"
  shows "filter (\<lambda>x. f x < (f (xs ! k) :: 'b :: linorder)) xs = drop (Suc k) xs"
  using assms
proof (induction xs arbitrary: k)
  case (Cons x xs)
  show ?case
  proof (cases k)
    case 0
    have "filter (\<lambda>y. f y < f x) xs = xs" using Cons.prems by (intro filter_True) auto
    then show ?thesis using 0 by simp
  next
    case (Suc j)
    then have "\<not> f x < f (xs ! j)" using Cons.prems by (auto simp: less_imp_not_less)
    then show ?thesis using Cons Suc by simp
  qed
qed simp

lemma rev_sorted_strict:
  assumes "distinct (map f xs)"
  shows "sorted_wrt (\<lambda>a b. (f b :: 'b :: linorder) < f a) (rev (sort_key f xs))"
proof -
  have "distinct (map f (sort_key f xs))" using assms by (auto simp: distinct_map)
  then have "sorted_wrt (<) (map f (sort_key f xs))" using strict_sorted_iff by force
  then show ?thesis by (simp add: sorted_wrt_map sorted_wrt_rev)
qed

lemma matching_executions_strict:
  assumes "facts_inv s"
  shows "sorted_wrt (\<lambda>a b. execution_position b < execution_position a) (matching_executions n u task filters s)"
  unfolding matching_executions_def
proof (rule rev_sorted_strict)
  have wf: "wf_dict (st_executions s)" using assms by (simp add: facts_inv_def)
  then have ids: "ex_id e = k" if "(k, e) \<in> set (st_executions s)" for k e
    using that known_id [OF assms] dget_iff [OF wf] by blast
  have "inj_on ex_id (set (dvals (st_executions s)))"
    using ids by (auto simp: inj_on_def) (metis eq_key_imp_eq_value wf wf_dict_def)
  moreover have "distinct (dvals (st_executions s))"
    using wf ids unfolding wf_dict_def distinct_map by (auto simp: inj_on_def) metis
  ultimately show "distinct (map execution_position (rev (filter (execution_matches n u task filters) (dvals (st_executions s)))))"
    by (auto simp: distinct_map execution_position_def inj_on_def)
qed

lemma list_executions_page:
  assumes "validate_scope n u = None" and "1 \<le> limit" "limit \<le> 100" and "\<not> st_closed s"
    and "decode_cursor codec cursor (qc_execution_scope codec n u filters task) = Inr position"
  shows "list_executions codec n u task limit cursor filters s = (Inr
    (let items = filter (\<lambda>e. case position of None \<Rightarrow> True | Some p \<Rightarrow> execution_position e < p)
       (matching_executions n u task filters s)
     in \<lparr>ep_items = take (nat limit) items,
         ep_next_cursor = page_cursor codec (qc_execution_scope codec n u filters task) execution_position (nat limit) items\<rparr>), s)"
proof -
  let ?P = "\<lambda>e. case position of None \<Rightarrow> True | Some p \<Rightarrow> execution_position e < p"
  have "filter ?P (matching_executions n u task filters s) =
    rev (sort_key execution_position (rev (filter (\<lambda>e. execution_matches n u task filters e \<and> ?P e) (dvals (st_executions s)))))"
    unfolding matching_executions_def filter_sort rev_filter [symmetric] filter_filter by (simp add: conj_commute)
  then show ?thesis
    using assms
    by (simp add: list_executions_def seq_def bind_def check_def lift_def ensure_open_def check_state_def gets_def ret_def
        validate_page_limit_def execution_matches_def conj_ac Let_def)
qed

lemma follow_executions_from:
  assumes scope: "validate_scope n u = None" and limit: "1 \<le> limit" "limit \<le> 100" and alive: "\<not> st_closed s"
    and strict: "sorted_wrt (\<lambda>a b. execution_position b < execution_position a) xs" and xs: "xs = matching_executions n u task filters s"
    and codec: "faithful_codec codec (qc_execution_scope codec n u filters task) xs"
  shows "k \<le> length xs \<Longrightarrow> length xs - k < fuel \<Longrightarrow>
    cursor = (if k = 0 then None else
      Some (qc_encode codec (qc_execution_scope codec n u filters task) (ex_queued_at (xs ! (k - 1))) (ex_id (xs ! (k - 1))))) \<Longrightarrow>
    follow_executions codec n u task limit filters s fuel cursor = drop k xs"
proof (induction fuel arbitrary: k cursor)
  case (Suc fuel)
  let ?scope = "qc_execution_scope codec n u filters task" and ?l = "nat limit"
  obtain position where position: "decode_cursor codec cursor ?scope = Inr position"
    "filter (\<lambda>e. case position of None \<Rightarrow> True | Some p \<Rightarrow> execution_position e < p) xs = drop k xs"
  proof (cases k)
    case 0
    then show thesis using that [of None] Suc.prems by (simp add: decode_cursor_def)
  next
    case (Suc j)
    then have j: "j < length xs" using Suc.prems(1) by simp
    then have "xs ! j \<in> set xs" by simp
    then have "decode_cursor codec cursor ?scope = Inr (Some (execution_position (xs ! j)))"
      using codec Suc Suc.prems(3) by (auto simp: decode_cursor_def faithful_codec_def execution_position_def)
    moreover have "filter (\<lambda>e. execution_position e < execution_position (xs ! j)) xs = drop k xs"
      using filter_before [OF strict j] Suc by simp
    ultimately show thesis using that by simp
  qed
  have page: "list_executions codec n u task limit cursor filters s = (Inr
     \<lparr>ep_items = take ?l (drop k xs), ep_next_cursor = page_cursor codec ?scope execution_position ?l (drop k xs)\<rparr>, s)"
    using list_executions_page [OF scope limit alive position(1)] position(2) by (simp add: xs [symmetric] Let_def)
  show ?case
  proof (cases "?l < length (drop k xs)")
    case True
    then have "follow_executions codec n u task limit filters s fuel
        (Some (qc_encode codec ?scope (ex_queued_at (xs ! (k + ?l - 1))) (ex_id (xs ! (k + ?l - 1))))) =
      drop (k + ?l) xs"
      using Suc.prems limit by (intro Suc.IH) auto
    moreover have "drop k xs ! (?l - 1) = xs ! (k + ?l - 1)"
      using True limit by (simp add: Nat.add_diff_assoc)
    ultimately show ?thesis
      using True append_take_drop_id [of ?l "drop k xs"]
      by (simp add: page page_cursor_def Let_def execution_position_def add.commute)
  qed (simp add: page page_cursor_def)
qed simp

text \<open>
  C9. Following the cursors of \<open>list_executions\<close> visits every matching execution exactly once,
  newest first by the time of queueing and then by identifier, for every valid page size, and
  ends: one page more than there are executions is enough.
\<close>

theorem following_cursors_lists_executions:
  assumes "mem_init h s0" and "(mem_step h)\<^sup>*\<^sup>* s0 s" and "\<not> st_closed s"
    and "validate_scope n u = None" and "1 \<le> limit" and "limit \<le> 100"
    and "faithful_codec codec (qc_execution_scope codec n u filters task) (matching_executions n u task filters s)"
    and "length (st_executions s) < fuel"
  shows "set (follow_executions codec n u task limit filters s fuel None) =
      {e. (\<exists>x. dget (st_executions s) x = Some e) \<and> ex_namespace e = n \<and> ex_owner e = u \<and> matches_executions e filters \<and>
          (\<forall>t. task = Some t \<longrightarrow> ex_task_id e = Some t)} \<and>
    sorted_wrt (\<lambda>a b. execution_position b < execution_position a) (follow_executions codec n u task limit filters s fuel None)"
proof -
  have facts: "facts_inv s" using aut_store.inv_reachable assms(1,2) by (auto simp: store_inv_def mem_inv_def body_inv_def)
  note strict = matching_executions_strict [OF facts, of n u task filters]
  have "length (matching_executions n u task filters s) \<le> length (st_executions s)"
    by (simp add: matching_executions_def le_trans [OF length_filter_le])
  then have follow: "follow_executions codec n u task limit filters s fuel None = matching_executions n u task filters s"
    using follow_executions_from [OF assms(4-6,3) strict refl assms(7), of 0 fuel None] assms(8) by simp
  have "wf_dict (st_executions s)" using facts by (simp add: facts_inv_def)
  then have "e \<in> set (dvals (st_executions s)) \<longleftrightarrow> (\<exists>x. dget (st_executions s) x = Some e)" for e
    using in_dvals_iff by metis
  then show ?thesis
    using strict unfolding follow by (auto simp: matching_executions_def execution_matches_def split: option.splits)
qed

definition sample_two :: mem_store where
  "sample_two = snd (enqueue_execution sample_host (sample_execution\<lparr>ex_id := ''x2'', ex_queued_at := 5\<rparr>) ''k2'' None ''d'' None
     sample_queued)"

definition sample_codec :: cursor_codec where
  "sample_codec = \<lparr>qc_task_scope = (\<lambda>_ _ _. ''scope''), qc_execution_scope = (\<lambda>_ _ _ _. ''scope''),
     qc_encode = (\<lambda>_ _ i. i),
     qc_parse = (\<lambda>i. Some (''scope'', if i = ''x1'' then 0 else 5, i))\<rparr>"

definition no_execution_filter :: execution_filter where
  "no_execution_filter = \<lparr>ef_name_contains = None, ef_statuses = [], ef_queued_from = None, ef_queued_until = None\<rparr>"

theorem following_cursors_lists_executions_witness:
  "map ex_id (follow_executions sample_codec ''n'' ''o'' None 1 no_execution_filter sample_two 3 None) = [''x2'', ''x1''] \<and>
   sorted_wrt (\<lambda>a b. execution_position b < execution_position a)
     (follow_executions sample_codec ''n'' ''o'' None 1 no_execution_filter sample_two 3 None)"
proof -
  have "ex_start_authorized_at (sample_execution\<lparr>ex_id := ''x2'', ex_queued_at := 5\<rparr>) = None"
    "ex_deadline (sample_execution\<lparr>ex_id := ''x2'', ex_queued_at := 5\<rparr>) = None" by (simp_all add: sample_execution_def)
  then have "mem_step sample_host sample_queued sample_two"
    unfolding sample_two_def by (rule mem_stepI [OF call_enqueue [OF _ _ surjective_pairing]])
  then have steps: "(mem_step sample_host)\<^sup>*\<^sup>* sample_empty sample_two"
    using sample_reached(1) rtranclp.rtrancl_into_rtrancl [of "mem_step sample_host"] by blast
  have few: "length (st_executions sample_two) < 3" and alive: "\<not> st_closed sample_two"
    and scope: "validate_scope ''n'' ''o'' = None"
    and pages: "map ex_id (follow_executions sample_codec ''n'' ''o'' None 1 no_execution_filter sample_two 3 None) = [''x2'', ''x1'']"
    by code_simp+
  have codec: "faithful_codec sample_codec (qc_execution_scope sample_codec ''n'' ''o'' no_execution_filter None)
      (matching_executions ''n'' ''o'' None no_execution_filter sample_two)"
    by code_simp
  from following_cursors_lists_executions [OF sample_init steps alive scope _ _ codec few, of 1] pages
  show ?thesis by simp
qed

text \<open>
  Tasks are listed in the opposite order, oldest first: of two tasks created at 0 and 5 the first
  page shows the older one.
\<close>

definition sample_tasks :: mem_store where
  "sample_tasks = snd (create_task (sample_task\<lparr>tk_id := ''t2'', tk_created_at := 5\<rparr>) None ''d''
     (snd (create_task sample_task None ''d'' sample_empty)))"

lemma list_tasks_oldest_first:
  "map_sum id (\<lambda>page. map tk_id (tp_items page))
     (fst (list_tasks sample_codec ''n'' ''o'' 1 None \<lparr>tf_name_contains = None, tf_statuses = []\<rparr> sample_tasks)) = Inr [''t1'']"
  by code_simp

end
