(* ===== verification/Py_Bytes.thy ===== *)
theory Py_Bytes
  imports Prelude
begin

text \<open>
  What the code uses of Python's bytes: \<open>str.encode\<close> and \<open>base64.urlsafe_b64encode\<close>. Bytes
  are lists of characters, each one byte.
\<close>

type_synonym py_bytes = string

text \<open>UTF-8 of the code points 0 to 255: the upper half takes two bytes.\<close>

fun utf8 :: "py_str \<Rightarrow> py_bytes" where
  "utf8 [] = []"
| "utf8 (c # cs) =
     (if (of_char c :: int) < 128 then c # utf8 cs
      else char_of (192 + of_char c div 64 :: int) # char_of (128 + of_char c mod 64 :: int) # utf8 cs)"

text \<open>Three bytes become four digits of six bits; a shorter rest is filled up with equals signs.\<close>

definition base64_digit :: "int \<Rightarrow> char" where
  "base64_digit n =
     (if n < 26 then char_of (n + 65) else if n < 52 then char_of (n + 71)
      else if n < 62 then char_of (n - 4) else if n = 62 then CHR ''-'' else CHR ''_'')"

definition base64_digits :: "int \<Rightarrow> py_str" where
  "base64_digits n = map base64_digit [n div 262144 mod 64, n div 4096 mod 64, n div 64 mod 64, n mod 64]"

fun urlsafe_b64encode :: "py_bytes \<Rightarrow> py_str" where
  "urlsafe_b64encode [] = []"
| "urlsafe_b64encode [a] = take 2 (base64_digits (65536 * of_char a)) @ ''==''"
| "urlsafe_b64encode [a, b] = take 3 (base64_digits (65536 * of_char a + 256 * of_char b)) @ ''=''"
| "urlsafe_b64encode (a # b # c # rest) =
     base64_digits (65536 * of_char a + 256 * of_char b + of_char c) @ urlsafe_b64encode rest"

definition py_rstrip_char :: "char \<Rightarrow> py_str \<Rightarrow> py_str" where
  "py_rstrip_char c s = rev (dropWhile (\<lambda>d. d = c) (rev s))"

end
