(* ===== verification/Msg_Models.thy ===== *)
theory Msg_Models
  imports Contracts Py_Bytes
begin

text \<open>
  The values of the messaging package: identifiers (\<open>_identity.py\<close>), errors
  (\<open>errors.py\<close>), limits and retention (\<open>limits.py\<close>, \<open>retention.py\<close>), messages
  (\<open>models.py\<close>) and the records a backend exchanges with the framework
  (\<open>backend_contract.py\<close>). Bytes are lists of characters, each one byte; floating-point
  durations are whole microseconds, so the tests for NaN and infinity have no counterpart.
\<close>

section \<open>Errors\<close>

text \<open>
  The exceptions that the modelled code raises, with the context they carry.
  \<open>BackendOwnershipLost\<close> carries the run and the words that end its message.
\<close>

datatype msg_error =
    MsgValueError py_str
  | MsgTypeError py_str
  | MsgRuntimeError py_str
  | MsgKeyError py_str
  | RunRequestConflict run_identity
  | InvalidCursor int int
  | CodecMismatch py_str py_str
  | PublicationRejected run_identity py_str
  | MessageIdConflict run_identity py_str
  | MessagingQuotaExceeded py_str int
  | RunAlreadyActive run_identity run_identity
  | RunNotFound run_identity
  | CancellationUnsupported run_identity
  | BackendOwnershipLost py_str py_str
  | StreamDeleted py_str run_identity int
  | StreamExpired py_str run_identity int
  | StreamDeleteConflict py_str run_identity run_identity
  | MessagingBackendProtocolError py_str

text \<open>An exception object as settlement sees it: the qualified class name and \<open>str(error)\<close>.\<close>

record py_exception =
  xc_class :: py_str
  xc_message :: py_str

definition runtime_error :: "py_str \<Rightarrow> py_exception" where
  "runtime_error message = \<lparr>xc_class = ''builtins.RuntimeError'', xc_message = message\<rparr>"

section \<open>Identifiers\<close>

definition required_canonical_text :: "py_str \<Rightarrow> py_str \<Rightarrow> msg_error option" where
  "required_canonical_text name value =
     (if py_strip value = [] \<or> value \<noteq> py_strip value then
        Some (MsgValueError (name @ '' must be non-blank without surrounding whitespace''))
      else None)"

definition required_identifier :: "py_str \<Rightarrow> py_str \<Rightarrow> msg_error option" where
  "required_identifier name value = first_error
     [required_canonical_text name value,
      if 1024 < length value then
        Some (MsgValueError (name @ '' must contain at most 1024 characters'')) else None]"

definition required_identity :: "run_identity \<Rightarrow> msg_error option" where
  "required_identity identity = first_error
     [required_identifier ''identity.thread_id'' (id_thread identity),
      required_identifier ''identity.run_id'' (id_run identity)]"

definition validate_request_digest :: "py_str option \<Rightarrow> msg_error option" where
  "validate_request_digest value =
     (case value of None \<Rightarrow> None
      | Some v \<Rightarrow>
          if length v \<noteq> 64 \<or> (\<exists>c \<in> set v. c \<notin> set ''0123456789abcdef'') then
            Some (MsgValueError ''request_digest must be a lowercase SHA-256 digest'') else None)"

section \<open>Limits and retention\<close>

record messaging_limits =
  max_message_payload_bytes :: int
  max_checkpoint_bytes :: int
  max_thread_messages :: int
  max_thread_payload_bytes :: int
  max_total_bytes :: int
  max_total_records :: int

definition default_messaging_limits :: messaging_limits where
  "default_messaging_limits =
     \<lparr>max_message_payload_bytes = 16 * 1024 * 1024, max_checkpoint_bytes = 1024 * 1024,
      max_thread_messages = 100000, max_thread_payload_bytes = 1024 * 1024 * 1024,
      max_total_bytes = 1024 * 1024 * 1024, max_total_records = 100000\<rparr>"

definition positive_limit :: "py_str \<Rightarrow> int \<Rightarrow> msg_error option" where
  "positive_limit name value =
     (if value \<le> 0 then Some (MsgValueError (name @ '' must be greater than zero'')) else None)"

definition messaging_limits_post_init :: "messaging_limits \<Rightarrow> msg_error option" where
  "messaging_limits_post_init l = first_error
     [positive_limit ''max_message_payload_bytes'' (max_message_payload_bytes l),
      positive_limit ''max_checkpoint_bytes'' (max_checkpoint_bytes l),
      positive_limit ''max_thread_messages'' (max_thread_messages l),
      positive_limit ''max_thread_payload_bytes'' (max_thread_payload_bytes l),
      positive_limit ''max_total_bytes'' (max_total_bytes l),
      positive_limit ''max_total_records'' (max_total_records l),
      if max_thread_payload_bytes l < max_message_payload_bytes l then
        Some (MsgValueError ''max_thread_payload_bytes must not be smaller than max_message_payload_bytes'')
      else None]"

record retention_policy =
  terminal_ttl :: "duration option"

definition retention_post_init :: "retention_policy \<Rightarrow> msg_error option" where
  "retention_post_init p =
     (case terminal_ttl p of None \<Rightarrow> None
      | Some ttl \<Rightarrow>
          if ttl \<le> 0 then Some (MsgValueError ''terminal_ttl_seconds must be finite and positive'') else None)"

record backend_settings =
  bs_limits :: messaging_limits
  bs_retention :: retention_policy
  bs_renew_interval :: "duration option"
  bs_lease :: "duration option"
  bs_wait_timeout :: "duration option"

definition positive_duration :: "py_str \<Rightarrow> duration \<Rightarrow> msg_error option" where
  "positive_duration name value =
     (if value \<le> 0 then Some (MsgValueError (name @ '' must be finite and positive'')) else None)"

definition settings_post_init :: "backend_settings \<Rightarrow> msg_error option" where
  "settings_post_init b = first_error
     [case bs_wait_timeout b of None \<Rightarrow> None
      | Some t \<Rightarrow> positive_duration ''change_wait_timeout_seconds'' t,
      case (bs_renew_interval b, bs_lease b) of
        (None, None) \<Rightarrow> None
      | (Some renew, Some lease) \<Rightarrow> first_error
          [positive_duration ''producer_renew_interval_seconds'' renew,
           positive_duration ''producer_lease_seconds'' lease,
           if lease \<le> renew then
             Some (MsgValueError ''producer_renew_interval_seconds must be shorter than producer_lease_seconds'')
           else None]
      | _ \<Rightarrow> Some (MsgValueError ''producer renewal and lease durations must both be set or disabled'')]"

section \<open>Messages\<close>

record recovery_checkpoint =
  cp_position :: py_bytes
  cp_last_message_id :: "py_str option"

record message_envelope =
  me_channel :: py_str
  me_identity :: run_identity
  me_seq :: int
  me_message_id :: py_str
  me_codec :: py_str
  me_payload :: py_bytes
  me_created_at :: time

definition checkpoint_bytes :: "recovery_checkpoint option \<Rightarrow> int" where
  "checkpoint_bytes checkpoint =
     (case checkpoint of None \<Rightarrow> 0
      | Some c \<Rightarrow> int (length (cp_position c)) +
          int (length (utf8 (case cp_last_message_id c of None \<Rightarrow> [] | Some i \<Rightarrow> i))))"

lemma checkpoint_bytes_nonneg [simp]: "0 \<le> checkpoint_bytes c"
  by (simp add: checkpoint_bytes_def split: option.split)

section \<open>Statuses\<close>

datatype run_status =
    RUN_RUNNING | RUN_CANCEL_REQUESTED | RUN_COMPLETED | RUN_CANCELLED | RUN_FAILED | RUN_OWNER_LOST

definition is_active_run_status :: "run_status \<Rightarrow> bool" where
  "is_active_run_status status = (status \<in> {RUN_RUNNING, RUN_CANCEL_REQUESTED})"

definition is_final_run_status :: "run_status \<Rightarrow> bool" where
  "is_final_run_status status = (status \<in> {RUN_COMPLETED, RUN_CANCELLED, RUN_FAILED, RUN_OWNER_LOST})"

definition is_failed_run_status :: "run_status \<Rightarrow> bool" where
  "is_failed_run_status status = (status \<in> {RUN_FAILED, RUN_OWNER_LOST})"

lemma final_status_simps [simp]:
  "is_final_run_status RUN_COMPLETED" "is_final_run_status RUN_CANCELLED"
  "is_final_run_status RUN_FAILED" "is_final_run_status RUN_OWNER_LOST"
  "\<not> is_final_run_status RUN_RUNNING" "\<not> is_final_run_status RUN_CANCEL_REQUESTED"
  by (simp_all add: is_final_run_status_def)

lemma not_final: "\<not> is_final_run_status status \<longleftrightarrow> status = RUN_RUNNING \<or> status = RUN_CANCEL_REQUESTED"
  by (cases status) simp_all

datatype disposition = STREAM_ACTIVE | STREAM_DELETING | STREAM_DELETED | STREAM_EXPIRING | STREAM_EXPIRED

datatype cleanup_reason = REASON_DELETED | REASON_EXPIRED

datatype transition_kind =
    PREPARE_RUN | APPEND_MESSAGE | PUBLISH_MESSAGE | BEGIN_SETTLEMENT | FINISH_RUN
  | REQUEST_CANCELLATION | RENEW_OWNERSHIP | RECONCILE_OWNERSHIP | BEGIN_CLEANUP | FINISH_CLEANUP

datatype lease_action = LEASE_NONE | LEASE_ACQUIRE | LEASE_RENEW | LEASE_RELEASE

datatype retention_action = RETENTION_NONE | RETENTION_CLEAR | RETENTION_START

section \<open>The records of the backend contract\<close>

record run_reference =
  rf_channel :: py_str
  rf_identity :: run_identity
  rf_generation :: int
  rf_token :: "py_str option"
  rf_fence :: "int option"

record stored_channel =
  sc_channel :: py_str
  sc_codec :: py_str
  sc_limits :: messaging_limits
  sc_retention :: retention_policy

record stored_stream =
  ss_channel :: py_str
  ss_thread :: py_str
  ss_generation :: int
  ss_disposition :: disposition
  ss_latest :: int
  ss_payload_bytes :: int
  ss_next_fence :: int
  ss_active_run :: "py_str option"
  ss_retention_expired :: bool
  ss_message_sequence :: int
  ss_control_sequence :: int

record stored_run =
  sr_identity :: run_identity
  sr_generation :: int
  sr_start :: int
  sr_end :: int
  sr_status :: run_status
  sr_settling :: bool
  sr_cancellable :: bool
  sr_recoverable :: bool
  sr_token :: "py_str option"
  sr_fence :: int
  sr_lease_active :: bool
  sr_checkpoint :: "recovery_checkpoint option"
  sr_failure_class :: py_str
  sr_failure_message :: py_str
  sr_local_failure :: "py_exception option"
  sr_lease_remaining :: "duration option"
  sr_closed :: bool
  sr_ready :: bool
  sr_request_digest :: "py_str option"

record message_evidence =
  ev_envelope :: message_envelope
  ev_signature :: py_str
  ev_checkpoint :: "recovery_checkpoint option"

record state_snapshot =
  sn_observed_at :: time
  sn_channel :: "stored_channel option"
  sn_stream :: "stored_stream option"
  sn_target :: "stored_run option"
  sn_active :: "stored_run option"
  sn_message :: "message_evidence option"
  sn_tombstone_generation :: "int option"
  sn_tombstone_reason :: "cleanup_reason option"

record msg_transition =
  tn_kind :: transition_kind
  tn_id :: py_str
  tn_channel :: py_str
  tn_identity :: run_identity
  tn_settings :: backend_settings
  tn_reference :: "run_reference option"
  tn_codec :: "py_str option"
  tn_after :: "int option"
  tn_cancellable :: bool
  tn_recoverable :: bool
  tn_request_digest :: "py_str option"
  tn_message_id :: "py_str option"
  tn_payload :: "py_bytes option"
  tn_checkpoint :: "recovery_checkpoint option"
  tn_closes :: bool
  tn_opens :: bool
  tn_final_status :: "run_status option"
  tn_failure :: "py_exception option"
  tn_cleanup_generation :: "int option"
  tn_cleanup_reason :: "cleanup_reason option"
  tn_cleanup_token :: "py_str option"

record transition_result =
  rs_kind :: transition_kind
  rs_reference :: "run_reference option"
  rs_after :: "int option"
  rs_is_owner :: "bool option"
  rs_checkpoint :: "recovery_checkpoint option"
  rs_recovered :: bool
  rs_envelope :: "message_envelope option"
  rs_cancellation_requested :: "bool option"
  rs_cancellation_preceded :: "bool option"
  rs_ownership_confirmed :: "bool option"
  rs_status :: "run_status option"
  rs_cleanup_generation :: "int option"
  rs_cleanup_reason :: "cleanup_reason option"
  rs_cleanup_token :: "py_str option"
  rs_cleanup_required :: bool

text \<open>The result and the effect of a kind with every other field at its default.\<close>

definition result_of :: "transition_kind \<Rightarrow> transition_result" where
  "result_of k = \<lparr>rs_kind = k, rs_reference = None, rs_after = None, rs_is_owner = None,
     rs_checkpoint = None, rs_recovered = False, rs_envelope = None, rs_cancellation_requested = None,
     rs_cancellation_preceded = None, rs_ownership_confirmed = None, rs_status = None,
     rs_cleanup_generation = None, rs_cleanup_reason = None, rs_cleanup_token = None,
     rs_cleanup_required = False\<rparr>"

record storage_effect =
  ef_result :: transition_result
  ef_channel :: "stored_channel option"
  ef_stream :: "stored_stream option"
  ef_runs :: "stored_run list"
  ef_message :: "message_evidence option"
  ef_lease :: lease_action
  ef_lease_run :: "py_str option"
  ef_retention :: retention_action
  ef_tombstone :: "cleanup_reason option"

definition effect_of :: "transition_result \<Rightarrow> storage_effect" where
  "effect_of result = \<lparr>ef_result = result, ef_channel = None, ef_stream = None, ef_runs = [],
     ef_message = None, ef_lease = LEASE_NONE, ef_lease_run = None, ef_retention = RETENTION_NONE,
     ef_tombstone = None\<rparr>"

record message_query =
  mq_channel :: py_str
  mq_identity :: run_identity
  mq_generation :: int
  mq_after :: int
  mq_through :: "int option"
  mq_limit :: int
  mq_stop_at_terminal :: bool

record change_cursor =
  cc_message_sequence :: int
  cc_control_sequence :: int

record message_page =
  mp_generation :: int
  mp_latest :: int
  mp_messages :: "message_envelope list"
  mp_cursor :: change_cursor
  mp_run :: "stored_run option"

record state_query =
  sq_channel :: py_str
  sq_identity :: run_identity
  sq_generation :: "int option"
  sq_message_id :: "py_str option"
  sq_include_active :: bool

record generation_purge =
  gp_channel :: py_str
  gp_identity :: run_identity
  gp_generation :: int
  gp_maximum :: int

record purge_result =
  pr_removed :: int
  pr_complete :: bool

end
