(* ===== verification/Msg_Transition.thy ===== *)
theory Msg_Transition
  imports Msg_Models
begin

text \<open>
  The lifecycle transitions of messaging (\<open>_messaging_transition.py\<close>): pure functions from
  a consistent snapshot to a storage effect, or to the exception they raise. Each
  \<open>_resolve_*\<close> function of the source is one definition here, with its early returns and
  raises in the same order. SHA-256 is a parameter of the model.
\<close>

section \<open>Message signatures\<close>

text \<open>\<open>len(value).to_bytes(8, "big")\<close>: the most significant byte first.\<close>

definition be_bytes :: "nat \<Rightarrow> py_bytes" where
  "be_bytes n = map (\<lambda>i. char_of (int n div 256 ^ (7 - i) mod 256)) [0..<8]"

definition length_prefixed :: "py_bytes \<Rightarrow> py_bytes" where
  "length_prefixed value = be_bytes (length value) @ value"

text \<open>The bytes that \<open>messaging_message_signature\<close> feeds to the digest.\<close>

definition signature_domain :: py_bytes where
  "signature_domain = ''tinkerfin-messaging:redis-message'' @ [CHR 0x00]"

definition signature_values ::
    "run_identity \<Rightarrow> py_str \<Rightarrow> py_bytes \<Rightarrow> recovery_checkpoint option \<Rightarrow> py_bytes list" where
  "signature_values identity codec_id payload checkpoint =
     [utf8 (id_run identity), utf8 codec_id, payload] @
     (case checkpoint of None \<Rightarrow> []
      | Some c \<Rightarrow> [cp_position c, utf8 (case cp_last_message_id c of None \<Rightarrow> [] | Some i \<Rightarrow> i)])"

definition signature_bytes ::
    "run_identity \<Rightarrow> py_str \<Rightarrow> py_bytes \<Rightarrow> recovery_checkpoint option \<Rightarrow> py_bytes" where
  "signature_bytes identity codec_id payload checkpoint =
     signature_domain @ concat (map length_prefixed (signature_values identity codec_id payload checkpoint)) @
     (if checkpoint \<noteq> None then ''1'' else ''0'')"

definition message_signature ::
    "(py_bytes \<Rightarrow> py_str) \<Rightarrow> run_identity \<Rightarrow> py_str \<Rightarrow> py_bytes \<Rightarrow> recovery_checkpoint option \<Rightarrow>
       msg_error + py_str" where
  "message_signature sha identity codec_id payload checkpoint =
     require (required_identity identity) (require (required_identifier ''codec_id'' codec_id)
       (Inr (sha (signature_bytes identity codec_id payload checkpoint))))"

section \<open>Evidence required by a transition\<close>

definition raise_reference_tombstone ::
    "msg_transition \<Rightarrow> state_snapshot \<Rightarrow> int option \<Rightarrow> msg_error option" where
  "raise_reference_tombstone tn sn generation =
     (case sn_tombstone_generation sn of
        None \<Rightarrow> None
      | Some tombstone \<Rightarrow>
          if generation \<noteq> None \<and> generation \<noteq> Some tombstone then None
          else map_option (\<lambda>reason. if reason = REASON_EXPIRED
              then StreamExpired (tn_channel tn) (tn_identity tn) tombstone
              else StreamDeleted (tn_channel tn) (tn_identity tn) tombstone) (sn_tombstone_reason sn))"

definition unavailable_stream :: "msg_transition \<Rightarrow> stored_stream \<Rightarrow> msg_error" where
  "unavailable_stream tn stream =
     (if ss_disposition stream \<in> {STREAM_EXPIRED, STREAM_EXPIRING}
      then StreamExpired (tn_channel tn) (tn_identity tn) (ss_generation stream)
      else StreamDeleted (tn_channel tn) (tn_identity tn) (ss_generation stream))"

definition reference_generation :: "msg_transition \<Rightarrow> int option" where
  "reference_generation tn = map_option rf_generation (tn_reference tn)"

definition required_target_run :: "msg_transition \<Rightarrow> state_snapshot \<Rightarrow> msg_error + stored_run" where
  "required_target_run tn sn =
     (case sn_target sn of
        Some run \<Rightarrow> Inr run
      | None \<Rightarrow> require (raise_reference_tombstone tn sn (reference_generation tn))
          (Inl (RunNotFound (tn_identity tn))))"

definition required_stream :: "msg_transition \<Rightarrow> state_snapshot \<Rightarrow> msg_error + stored_stream" where
  "required_stream tn sn =
     (case sn_stream sn of
        None \<Rightarrow> require (raise_reference_tombstone tn sn (reference_generation tn))
          (Inl (RunNotFound (tn_identity tn)))
      | Some stream \<Rightarrow>
          if ss_disposition stream \<noteq> STREAM_ACTIVE then Inl (unavailable_stream tn stream)
          else Inr stream)"

definition required_reference :: "msg_transition \<Rightarrow> msg_error + run_reference" where
  "required_reference tn =
     (case tn_reference tn of
        None \<Rightarrow> Inl (MsgTypeError ''run_reference must be a MessagingRunReference'')
      | Some reference \<Rightarrow>
          if rf_channel reference \<noteq> tn_channel tn \<or> rf_identity reference \<noteq> tn_identity tn then
            Inl (MsgValueError ''run_reference conflicts with the transition identity'')
          else if rf_token reference = None \<or> rf_fence reference = None then
            Inl (BackendOwnershipLost (id_run (tn_identity tn)) ''has no producer ownership evidence'')
          else Inr reference)"

definition reference_matches_run :: "run_reference \<Rightarrow> stored_run \<Rightarrow> bool" where
  "reference_matches_run reference run \<longleftrightarrow>
     sr_generation run = rf_generation reference \<and> sr_identity run = rf_identity reference \<and>
     sr_token run = rf_token reference \<and> Some (sr_fence run) = rf_fence reference"

definition owned_run ::
    "msg_transition \<Rightarrow> state_snapshot \<Rightarrow> msg_error + (stored_run \<times> stored_stream \<times> run_reference)" where
  "owned_run tn sn =
     attempt (required_reference tn) (\<lambda>reference.
     attempt (required_target_run tn sn) (\<lambda>run.
     attempt (required_stream tn sn) (\<lambda>stream.
       if ss_generation stream \<noteq> rf_generation reference then
         require (raise_reference_tombstone tn sn (Some (rf_generation reference)))
           (Inl (BackendOwnershipLost (id_run (tn_identity tn)) ''lost its generation''))
       else if \<not> reference_matches_run reference run \<or> \<not> sr_lease_active run then
         Inl (BackendOwnershipLost (id_run (tn_identity tn)) ''lost its ownership fence'')
       else if is_final_run_status (sr_status run) then
         Inl (BackendOwnershipLost (id_run (tn_identity tn)) ''is already terminal'')
       else Inr (run, stream, reference))))"

definition owner_lost_run :: "stored_run \<Rightarrow> int \<Rightarrow> py_str \<Rightarrow> stored_run" where
  "owner_lost_run run end_sequence message =
     run\<lparr>sr_end := end_sequence, sr_status := RUN_OWNER_LOST, sr_settling := True, sr_token := None,
       sr_lease_active := False, sr_failure_class := ''tinkerfin_messaging.OwnerLost'',
       sr_failure_message := message, sr_local_failure := Some (runtime_error message)\<rparr>"

definition failure_evidence :: "py_exception option \<Rightarrow> py_str \<times> py_str" where
  "failure_evidence error = (case error of None \<Rightarrow> ([], []) | Some e \<Rightarrow> (xc_class e, xc_message e))"

definition required_text :: "py_str \<Rightarrow> py_str option \<Rightarrow> msg_error + py_str" where
  "required_text name value =
     (case value of
        None \<Rightarrow> Inl (MsgTypeError (name @ '' must be a string''))
      | Some v \<Rightarrow> require (required_identifier name v) (Inr v))"

section \<open>Preparing a run\<close>

definition attachment_result :: "msg_transition \<Rightarrow> stored_stream \<Rightarrow> int \<Rightarrow> transition_result" where
  "attachment_result tn stream cursor = (result_of (tn_kind tn))
     \<lparr>rs_reference := Some \<lparr>rf_channel = tn_channel tn, rf_identity = tn_identity tn,
        rf_generation = ss_generation stream, rf_token = None, rf_fence = None\<rparr>,
      rs_after := Some cursor, rs_is_owner := Some False, rs_recovered := False\<rparr>"

definition owner_reference :: "msg_transition \<Rightarrow> stored_stream \<Rightarrow> run_reference" where
  "owner_reference tn stream = \<lparr>rf_channel = tn_channel tn, rf_identity = tn_identity tn,
     rf_generation = ss_generation stream, rf_token = Some (tn_id tn), rf_fence = Some (ss_next_fence stream)\<rparr>"

text \<open>The channel a preparation finds or creates.\<close>

definition prepared_channel ::
    "msg_transition \<Rightarrow> py_str \<Rightarrow> state_snapshot \<Rightarrow> msg_error + stored_channel option" where
  "prepared_channel tn codec_id sn =
     (case sn_channel sn of
        None \<Rightarrow> Inr (Some \<lparr>sc_channel = tn_channel tn, sc_codec = codec_id,
          sc_limits = bs_limits (tn_settings tn), sc_retention = bs_retention (tn_settings tn)\<rparr>)
      | Some stored \<Rightarrow>
          if sc_codec stored \<noteq> codec_id then Inl (CodecMismatch (sc_codec stored) codec_id)
          else if sc_limits stored \<noteq> bs_limits (tn_settings tn) then
            Inl (MessagingBackendProtocolError ''Messaging channel uses different capacity limits'')
          else if sc_retention stored \<noteq> bs_retention (tn_settings tn) then
            Inl (MessagingBackendProtocolError ''Messaging channel uses a different retention policy'')
          else Inr None)"

definition disposition_reason :: "disposition \<Rightarrow> cleanup_reason option" where
  "disposition_reason d = (case d of STREAM_EXPIRED \<Rightarrow> Some REASON_EXPIRED
     | STREAM_DELETED \<Rightarrow> Some REASON_DELETED | _ \<Rightarrow> None)"

definition new_stream :: "msg_transition \<Rightarrow> int \<Rightarrow> stored_stream" where
  "new_stream tn generation = \<lparr>ss_channel = tn_channel tn, ss_thread = id_thread (tn_identity tn),
     ss_generation = generation, ss_disposition = STREAM_ACTIVE, ss_latest = 0, ss_payload_bytes = 0,
     ss_next_fence = 1, ss_active_run = None, ss_retention_expired = False,
     ss_message_sequence = 0, ss_control_sequence = 0\<rparr>"

text \<open>The generation a preparation continues or starts.\<close>

definition prepared_stream :: "msg_transition \<Rightarrow> state_snapshot \<Rightarrow> msg_error + stored_stream" where
  "prepared_stream tn sn =
     (let unavailable = (case sn_stream sn of None \<Rightarrow> True
            | Some stream \<Rightarrow> ss_disposition stream \<in> {STREAM_DELETED, STREAM_EXPIRED});
          previous_generation = (case sn_tombstone_generation sn of Some g \<Rightarrow> Some g
            | None \<Rightarrow> map_option ss_generation (sn_stream sn));
          unavailable_reason = (case sn_tombstone_reason sn of Some r \<Rightarrow> Some r
            | None \<Rightarrow> (case sn_stream sn of None \<Rightarrow> None | Some stream \<Rightarrow> disposition_reason (ss_disposition stream)))
      in case sn_stream sn of
           Some stream \<Rightarrow>
             if ss_disposition stream \<in> {STREAM_DELETING, STREAM_EXPIRING} then Inl (unavailable_stream tn stream)
             else if \<not> unavailable then Inr stream
             else if unavailable_reason = Some REASON_EXPIRED \<and> tn_after tn \<notin> {None, Some 0} then
               Inl (StreamExpired (tn_channel tn) (tn_identity tn)
                 (case previous_generation of None \<Rightarrow> 1 | Some g \<Rightarrow> if g = 0 then 1 else g))
             else Inr (new_stream tn (case previous_generation of None \<Rightarrow> 1 | Some g \<Rightarrow> g + 1))
         | None \<Rightarrow>
             if unavailable_reason = Some REASON_EXPIRED \<and> tn_after tn \<notin> {None, Some 0} then
               Inl (StreamExpired (tn_channel tn) (tn_identity tn)
                 (case previous_generation of None \<Rightarrow> 1 | Some g \<Rightarrow> if g = 0 then 1 else g))
             else Inr (new_stream tn (case previous_generation of None \<Rightarrow> 1 | Some g \<Rightarrow> g + 1)))"

text \<open>Losing the owner of a run of the prepared stream.\<close>

definition lose_prepared ::
    "msg_transition \<Rightarrow> stored_stream \<Rightarrow> int \<Rightarrow> stored_channel option \<Rightarrow> stored_run \<Rightarrow> py_str \<Rightarrow> storage_effect" where
  "lose_prepared tn stream cursor channel run message =
     (effect_of (attachment_result tn stream cursor))
       \<lparr>ef_channel := channel,
        ef_stream := Some (stream\<lparr>ss_active_run := None, ss_control_sequence := ss_control_sequence stream + 1\<rparr>),
        ef_runs := [owner_lost_run run (ss_latest stream) message],
        ef_lease := LEASE_RELEASE, ef_lease_run := Some (id_run (sr_identity run)),
        ef_retention := RETENTION_START\<rparr>"

definition recover_run ::
    "msg_transition \<Rightarrow> stored_stream \<Rightarrow> int \<Rightarrow> stored_channel option \<Rightarrow> stored_run \<Rightarrow> storage_effect" where
  "recover_run tn stream cursor channel run =
     (let fence = ss_next_fence stream;
          recovered = run\<lparr>
            sr_status := (if sr_status run = RUN_CANCEL_REQUESTED then RUN_CANCEL_REQUESTED else RUN_RUNNING),
            sr_settling := False, sr_cancellable := tn_cancellable tn, sr_token := Some (tn_id tn),
            sr_fence := fence, sr_lease_active := True, sr_failure_class := [],
            sr_failure_message := [], sr_local_failure := None\<rparr>
      in (effect_of ((result_of (tn_kind tn))
            \<lparr>rs_reference := Some (owner_reference tn stream), rs_after := Some cursor,
             rs_is_owner := Some True, rs_checkpoint := sr_checkpoint run, rs_recovered := True,
             rs_status := Some (sr_status recovered)\<rparr>))
          \<lparr>ef_channel := channel,
           ef_stream := Some (stream\<lparr>ss_next_fence := fence + 1, ss_active_run := Some (id_run (tn_identity tn)),
             ss_retention_expired := False, ss_control_sequence := ss_control_sequence stream + 1\<rparr>),
           ef_runs := [recovered], ef_lease := LEASE_ACQUIRE,
           ef_lease_run := Some (id_run (tn_identity tn)), ef_retention := RETENTION_CLEAR\<rparr>)"

definition resume_run ::
    "msg_transition \<Rightarrow> stored_stream \<Rightarrow> int \<Rightarrow> stored_channel option \<Rightarrow> stored_run \<Rightarrow> msg_error + storage_effect" where
  "resume_run tn stream cursor channel run =
     (if sr_generation run \<noteq> ss_generation stream then
        Inl (MessagingBackendProtocolError ''Messaging run generation conflicts with its stream'')
      else if sr_request_digest run \<noteq> tn_request_digest tn then Inl (RunRequestConflict (tn_identity tn))
      else if is_final_run_status (sr_status run) \<or> sr_lease_active run then
        Inr ((effect_of (attachment_result tn stream cursor))\<lparr>ef_channel := channel\<rparr>)
      else if sr_status run = RUN_CANCEL_REQUESTED \<and> sr_settling run then
        Inr (lose_prepared tn stream cursor channel run ''producer lease expired during cancellation settlement'')
      else if sr_recoverable run \<and> tn_recoverable tn then Inr (recover_run tn stream cursor channel run)
      else Inr (lose_prepared tn stream cursor channel run ''producer lease expired''))"

definition created_run :: "msg_transition \<Rightarrow> stored_stream \<Rightarrow> stored_run" where
  "created_run tn stream = \<lparr>sr_identity = tn_identity tn, sr_generation = ss_generation stream,
     sr_start = ss_latest stream, sr_end = ss_latest stream, sr_status = RUN_RUNNING,
     sr_settling = False, sr_cancellable = tn_cancellable tn, sr_recoverable = tn_recoverable tn,
     sr_token = Some (tn_id tn), sr_fence = ss_next_fence stream, sr_lease_active = True,
     sr_checkpoint = None, sr_failure_class = [], sr_failure_message = [], sr_local_failure = None,
     sr_lease_remaining = None, sr_closed = False, sr_ready = False,
     sr_request_digest = tn_request_digest tn\<rparr>"

definition start_run ::
    "msg_transition \<Rightarrow> state_snapshot \<Rightarrow> stored_stream \<Rightarrow> int \<Rightarrow> stored_channel option \<Rightarrow> msg_error + storage_effect" where
  "start_run tn sn stream cursor channel =
     (let start = (\<lambda>lost. Inr
        ((effect_of ((result_of (tn_kind tn))
            \<lparr>rs_reference := Some (owner_reference tn stream), rs_after := Some cursor,
             rs_is_owner := Some True, rs_recovered := False, rs_status := Some RUN_RUNNING\<rparr>))
         \<lparr>ef_channel := channel,
          ef_stream := Some (stream\<lparr>ss_next_fence := ss_next_fence stream + 1,
            ss_active_run := Some (id_run (tn_identity tn)), ss_retention_expired := False,
            ss_control_sequence := ss_control_sequence stream + (if sn_active sn \<noteq> None then 1 else 0)\<rparr>),
          ef_runs := lost @ [created_run tn stream], ef_lease := LEASE_ACQUIRE,
          ef_lease_run := Some (id_run (tn_identity tn)), ef_retention := RETENTION_CLEAR\<rparr>))
      in case sn_active sn of
           None \<Rightarrow> start []
         | Some active \<Rightarrow>
             if sr_lease_active active then Inl (RunAlreadyActive (sr_identity active) (tn_identity tn))
             else start [owner_lost_run active (ss_latest stream) ''producer lease expired''])"

definition resolve_prepare_run :: "msg_transition \<Rightarrow> state_snapshot \<Rightarrow> msg_error + storage_effect" where
  "resolve_prepare_run tn sn =
     attempt (required_text ''codec_id'' (tn_codec tn)) (\<lambda>codec_id.
     require (validate_request_digest (tn_request_digest tn)) (
     attempt (prepared_channel tn codec_id sn) (\<lambda>channel.
     attempt (prepared_stream tn sn) (\<lambda>stream.
     let cursor = (case tn_after tn of None \<Rightarrow> ss_latest stream | Some after \<Rightarrow> after)
     in if cursor < 0 \<or> ss_latest stream < cursor then Inl (InvalidCursor cursor (ss_latest stream))
        else (case sn_target sn of
            Some run \<Rightarrow> resume_run tn stream cursor channel run
          | None \<Rightarrow> start_run tn sn stream cursor channel)))))"

section \<open>Messages\<close>

text \<open>What an external publication may not carry, and when a run accepts one.\<close>

definition publication_reference ::
    "msg_transition \<Rightarrow> state_snapshot \<Rightarrow> msg_error + (stored_run \<times> stored_stream \<times> run_reference)" where
  "publication_reference tn sn =
     attempt (required_target_run tn sn) (\<lambda>run.
     attempt (required_stream tn sn) (\<lambda>stream.
     case tn_reference tn of
       None \<Rightarrow> Inl (PublicationRejected (tn_identity tn) ''generation_changed'')
     | Some reference \<Rightarrow>
         if rf_generation reference \<noteq> ss_generation stream then
           Inl (PublicationRejected (tn_identity tn) ''generation_changed'')
         else if tn_checkpoint tn \<noteq> None \<or> tn_closes tn then
           Inl (MsgValueError ''External publication cannot change source recovery or lifecycle'')
         else Inr (run, stream, reference)))"

definition publication_error :: "msg_transition \<Rightarrow> stored_run \<Rightarrow> msg_error option" where
  "publication_error tn run =
     (if sr_status run \<noteq> RUN_RUNNING \<or> sr_settling run \<or> sr_closed run then
        Some (PublicationRejected (tn_identity tn) ''run_closed'')
      else if \<not> sr_lease_active run then Some (PublicationRejected (tn_identity tn) ''owner_lost'')
      else if \<not> sr_ready run then Some (PublicationRejected (tn_identity tn) ''run_not_ready'')
      else None)"

definition quota :: "bool \<Rightarrow> py_str \<Rightarrow> int \<Rightarrow> msg_error option" where
  "quota exceeded resource limit = (if exceeded then Some (MessagingQuotaExceeded resource limit) else None)"

definition checkpoint_error :: "recovery_checkpoint option \<Rightarrow> py_str \<Rightarrow> msg_error option" where
  "checkpoint_error checkpoint message_id =
     (case checkpoint of None \<Rightarrow> None
      | Some c \<Rightarrow> if cp_last_message_id c \<noteq> Some message_id
          then Some (MsgValueError ''checkpoint.last_message_id must match message_id'') else None)"

definition checkpoint_quota :: "recovery_checkpoint option \<Rightarrow> messaging_limits \<Rightarrow> msg_error option" where
  "checkpoint_quota checkpoint limits =
     (case checkpoint of None \<Rightarrow> None
      | Some c \<Rightarrow> quota (max_checkpoint_bytes limits < int (length (cp_position c)))
          ''checkpoint_bytes'' (max_checkpoint_bytes limits))"

definition required_payload :: "msg_transition \<Rightarrow> msg_error + py_bytes" where
  "required_payload tn = (case tn_payload tn of
     None \<Rightarrow> Inl (MsgTypeError ''payload must be bytes'') | Some payload \<Rightarrow> Inr payload)"

text \<open>The channel must exist and use the codec of the message.\<close>

definition message_channel_error :: "py_str \<Rightarrow> state_snapshot \<Rightarrow> msg_error option" where
  "message_channel_error codec_id sn =
     (case sn_channel sn of
        None \<Rightarrow> Some (MessagingBackendProtocolError ''Messaging channel state is missing'')
      | Some channel \<Rightarrow>
          if sc_codec channel \<noteq> codec_id then Some (CodecMismatch (sc_codec channel) codec_id) else None)"

definition append_new ::
    "msg_transition \<Rightarrow> state_snapshot \<Rightarrow> stored_run \<Rightarrow> stored_stream \<Rightarrow> run_reference \<Rightarrow>
       py_str \<Rightarrow> py_str \<Rightarrow> py_bytes \<Rightarrow> py_str \<Rightarrow> storage_effect" where
  "append_new tn sn run stream reference codec_id message_id payload signature =
     (let external = (tn_kind tn = PUBLISH_MESSAGE);
          next_sequence = ss_latest stream + 1;
          envelope = \<lparr>me_channel = tn_channel tn, me_identity = tn_identity tn, me_seq = next_sequence,
            me_message_id = message_id, me_codec = codec_id, me_payload = payload,
            me_created_at = sn_observed_at sn\<rparr>
      in (effect_of ((result_of (tn_kind tn))
            \<lparr>rs_envelope := Some envelope, rs_status := Some (sr_status run)\<rparr>))
          \<lparr>ef_stream := Some (stream\<lparr>ss_latest := next_sequence,
             ss_payload_bytes := ss_payload_bytes stream + int (length payload),
             ss_message_sequence := next_sequence\<rparr>),
           ef_runs := [run\<lparr>sr_end := next_sequence,
             sr_ready := sr_ready run \<or> (\<not> external \<and> tn_opens tn),
             sr_closed := sr_closed run \<or> tn_closes tn,
             sr_checkpoint := (if tn_checkpoint tn = None then sr_checkpoint run else tn_checkpoint tn)\<rparr>],
           ef_message := Some \<lparr>ev_envelope = envelope, ev_signature = signature,
             ev_checkpoint = tn_checkpoint tn\<rparr>,
           ef_lease_run := (if external then None else Some (id_run (rf_identity reference)))\<rparr>)"

definition resolve_append_message ::
    "(py_bytes \<Rightarrow> py_str) \<Rightarrow> msg_transition \<Rightarrow> state_snapshot \<Rightarrow> msg_error + storage_effect" where
  "resolve_append_message sha tn sn =
     attempt (if tn_kind tn = PUBLISH_MESSAGE then publication_reference tn sn else owned_run tn sn)
       (\<lambda>(run, stream, reference).
     attempt (required_text ''codec_id'' (tn_codec tn)) (\<lambda>codec_id.
     attempt (required_text ''message_id'' (tn_message_id tn)) (\<lambda>message_id.
     attempt (required_payload tn) (\<lambda>payload.
     let limits = bs_limits (tn_settings tn) in
     require (checkpoint_error (tn_checkpoint tn) message_id)
     (require (quota (max_message_payload_bytes limits < int (length payload))
        ''message_payload_bytes'' (max_message_payload_bytes limits))
     (require (checkpoint_quota (tn_checkpoint tn) limits)
     (require (message_channel_error codec_id sn)
     (attempt (message_signature sha (tn_identity tn) codec_id payload (tn_checkpoint tn)) (\<lambda>signature.
     case sn_message sn of
       Some existing \<Rightarrow>
         if ev_signature existing \<noteq> signature then Inl (MessageIdConflict (tn_identity tn) message_id)
         else Inr (effect_of ((result_of (tn_kind tn))
           \<lparr>rs_envelope := Some (ev_envelope existing), rs_status := Some (sr_status run)\<rparr>))
     | None \<Rightarrow>
         require (if tn_kind tn = PUBLISH_MESSAGE then publication_error tn run else None)
         (require (quota (max_thread_messages limits \<le> ss_latest stream)
            ''thread_messages'' (max_thread_messages limits))
         (require (quota (max_thread_payload_bytes limits < ss_payload_bytes stream + int (length payload))
            ''thread_payload_bytes'' (max_thread_payload_bytes limits))
         (Inr (append_new tn sn run stream reference codec_id message_id payload signature)))))))))))))"

section \<open>Settlement and cancellation\<close>

definition resolve_begin_settlement :: "msg_transition \<Rightarrow> state_snapshot \<Rightarrow> msg_error + storage_effect" where
  "resolve_begin_settlement tn sn =
     attempt (owned_run tn sn) (\<lambda>(run, stream, reference).
       if sr_settling run \<or> sr_status run \<notin> {RUN_RUNNING, RUN_CANCEL_REQUESTED} then
         Inl (BackendOwnershipLost (id_run (tn_identity tn)) ''cannot begin settlement'')
       else Inr ((effect_of ((result_of (tn_kind tn))
           \<lparr>rs_cancellation_preceded := Some (sr_status run = RUN_CANCEL_REQUESTED),
            rs_status := Some (sr_status run)\<rparr>))
         \<lparr>ef_runs := [run\<lparr>sr_settling := True\<rparr>]\<rparr>))"

definition leave_active :: "msg_transition \<Rightarrow> stored_stream \<Rightarrow> stored_stream" where
  "leave_active tn stream = stream
     \<lparr>ss_active_run := (if ss_active_run stream = Some (id_run (tn_identity tn)) then None
        else ss_active_run stream),
      ss_control_sequence := ss_control_sequence stream + 1\<rparr>"

text \<open>A run that was asked to cancel cannot complete: it failed to settle the cancellation.\<close>

definition settled_status ::
    "stored_run \<Rightarrow> run_status \<Rightarrow> py_exception option \<Rightarrow> run_status \<times> py_exception option" where
  "settled_status run status failure =
     (if sr_status run = RUN_CANCEL_REQUESTED \<and> status = RUN_COMPLETED
      then (RUN_FAILED, Some (runtime_error ''producer completed without settling accepted cancellation''))
      else (status, failure))"

definition finished_run ::
    "stored_run \<Rightarrow> stored_stream \<Rightarrow> run_status \<Rightarrow> py_exception option \<Rightarrow> stored_run" where
  "finished_run run stream status failure = run
     \<lparr>sr_end := ss_latest stream, sr_status := status, sr_settling := True, sr_token := None,
      sr_lease_active := False, sr_failure_class := fst (failure_evidence failure),
      sr_failure_message := snd (failure_evidence failure), sr_local_failure := failure\<rparr>"

definition resolve_finish_run :: "msg_transition \<Rightarrow> state_snapshot \<Rightarrow> msg_error + storage_effect" where
  "resolve_finish_run tn sn =
     attempt (owned_run tn sn) (\<lambda>(run, stream, reference).
     case tn_final_status tn of
       None \<Rightarrow> Inl (MsgTypeError ''final_status must be a terminal run status'')
     | Some requested \<Rightarrow>
         if \<not> is_final_run_status requested then
           Inl (MsgTypeError ''final_status must be a terminal run status'')
         else let (status, failure) = settled_status run requested (tn_failure tn)
           in Inr ((effect_of ((result_of (tn_kind tn))\<lparr>rs_status := Some status\<rparr>))
             \<lparr>ef_stream := Some (leave_active tn stream), ef_runs := [finished_run run stream status failure],
              ef_lease := LEASE_RELEASE, ef_lease_run := Some (id_run (tn_identity tn)),
              ef_retention := RETENTION_START\<rparr>))"

definition cancellation_result :: "msg_transition \<Rightarrow> bool \<Rightarrow> run_status \<Rightarrow> transition_result" where
  "cancellation_result tn requested status = (result_of (tn_kind tn))
     \<lparr>rs_cancellation_requested := Some requested, rs_status := Some status\<rparr>"

definition resolve_request_cancellation ::
    "msg_transition \<Rightarrow> state_snapshot \<Rightarrow> msg_error + storage_effect" where
  "resolve_request_cancellation tn sn =
     attempt (required_target_run tn sn) (\<lambda>run.
     attempt (required_stream tn sn) (\<lambda>stream.
       if is_final_run_status (sr_status run) \<or> sr_settling run then
         Inr (effect_of (cancellation_result tn False (sr_status run)))
       else if \<not> sr_cancellable run then Inl (CancellationUnsupported (tn_identity tn))
       else if sr_status run = RUN_CANCEL_REQUESTED then
         Inr (effect_of (cancellation_result tn False (sr_status run)))
       else if sr_status run \<noteq> RUN_RUNNING then
         Inl (MessagingBackendProtocolError ''Messaging run has an invalid active cancellation status'')
       else Inr ((effect_of (cancellation_result tn True RUN_CANCEL_REQUESTED))
         \<lparr>ef_stream := Some (stream\<lparr>ss_control_sequence := ss_control_sequence stream + 1\<rparr>),
          ef_runs := [run\<lparr>sr_status := RUN_CANCEL_REQUESTED\<rparr>]\<rparr>)))"

section \<open>Producer ownership\<close>

definition unconfirmed :: "msg_transition \<Rightarrow> transition_result" where
  "unconfirmed tn = (result_of (tn_kind tn))\<lparr>rs_ownership_confirmed := Some False\<rparr>"

definition resolve_renew_ownership :: "msg_transition \<Rightarrow> state_snapshot \<Rightarrow> msg_error + storage_effect" where
  "resolve_renew_ownership tn sn =
     attempt (required_reference tn) (\<lambda>reference.
     case sn_target sn of
       None \<Rightarrow> require (raise_reference_tombstone tn sn (Some (rf_generation reference)))
         (Inr (effect_of (unconfirmed tn)))
     | Some run \<Rightarrow>
         if \<not> reference_matches_run reference run then Inr (effect_of (unconfirmed tn))
         else if \<not> sr_lease_active run \<or> is_final_run_status (sr_status run) then
           Inr (effect_of ((unconfirmed tn)\<lparr>rs_status := Some (sr_status run)\<rparr>))
         else Inr ((effect_of ((result_of (tn_kind tn))
             \<lparr>rs_ownership_confirmed := Some True, rs_status := Some (sr_status run)\<rparr>))
           \<lparr>ef_lease := LEASE_RENEW, ef_lease_run := Some (id_run (tn_identity tn))\<rparr>))"

definition reconcile_reference_error ::
    "msg_transition \<Rightarrow> state_snapshot \<Rightarrow> stored_run \<Rightarrow> stored_stream \<Rightarrow> msg_error option" where
  "reconcile_reference_error tn sn run stream =
     (case tn_reference tn of
        None \<Rightarrow> None
      | Some reference \<Rightarrow>
          if rf_channel reference \<noteq> tn_channel tn \<or> rf_identity reference \<noteq> tn_identity tn then
            Some (MsgValueError ''run_reference conflicts with the transition identity'')
          else if rf_generation reference \<noteq> ss_generation stream \<or> rf_generation reference \<noteq> sr_generation run then
            (case raise_reference_tombstone tn sn (Some (rf_generation reference)) of
               Some e \<Rightarrow> Some e
             | None \<Rightarrow> Some (MessagingBackendProtocolError
                 ''Messaging ownership snapshot does not match the requested generation''))
          else None)"

definition resolve_reconcile_ownership ::
    "msg_transition \<Rightarrow> state_snapshot \<Rightarrow> msg_error + storage_effect" where
  "resolve_reconcile_ownership tn sn =
     attempt (required_target_run tn sn) (\<lambda>run.
     attempt (required_stream tn sn) (\<lambda>stream.
     require (reconcile_reference_error tn sn run stream)
       (if is_final_run_status (sr_status run) \<or> sr_lease_active run then
          Inr (effect_of ((result_of (tn_kind tn))\<lparr>rs_status := Some (sr_status run)\<rparr>))
        else Inr ((effect_of ((result_of (tn_kind tn))\<lparr>rs_status := Some RUN_OWNER_LOST\<rparr>))
          \<lparr>ef_stream := Some (leave_active tn stream),
           ef_runs := [owner_lost_run run (ss_latest stream)
             (if sr_status run = RUN_CANCEL_REQUESTED \<and> sr_settling run
              then ''producer lease expired during cancellation settlement''
              else ''producer lease expired'')],
           ef_lease := LEASE_RELEASE, ef_lease_run := Some (id_run (tn_identity tn)),
           ef_retention := RETENTION_START\<rparr>))))"

section \<open>Cleanup of a generation\<close>

definition cleanup_result ::
    "msg_transition \<Rightarrow> int option \<Rightarrow> cleanup_reason option \<Rightarrow> bool \<Rightarrow> transition_result" where
  "cleanup_result tn generation reason required = (result_of (tn_kind tn))
     \<lparr>rs_cleanup_generation := generation, rs_cleanup_reason := reason, rs_cleanup_required := required\<rparr>"

definition sealed_disposition :: "cleanup_reason \<Rightarrow> disposition" where
  "sealed_disposition reason = (if reason = REASON_DELETED then STREAM_DELETING else STREAM_EXPIRING)"

definition final_disposition :: "cleanup_reason \<Rightarrow> disposition" where
  "final_disposition reason = (if reason = REASON_DELETED then STREAM_DELETED else STREAM_EXPIRED)"

text \<open>The producer that holds the stream, if its lease still blocks the cleanup.\<close>

definition cleanup_owner ::
    "msg_transition \<Rightarrow> state_snapshot \<Rightarrow> stored_stream \<Rightarrow> msg_error + stored_run option" where
  "cleanup_owner tn sn stream =
     (case ss_active_run stream of
        None \<Rightarrow> Inr None
      | Some active_id \<Rightarrow>
          let owner = (case sn_target sn of
                None \<Rightarrow> sn_active sn
              | Some run \<Rightarrow> if id_run (sr_identity run) \<noteq> active_id then sn_active sn else Some run);
              active_identity = (case owner of Some run \<Rightarrow> sr_identity run
                | None \<Rightarrow> \<lparr>id_namespace = id_namespace (tn_identity tn),
                    id_thread = id_thread (tn_identity tn), id_run = active_id\<rparr>)
          in (case owner of
                None \<Rightarrow> Inl (StreamDeleteConflict (tn_channel tn) (tn_identity tn) active_identity)
              | Some run \<Rightarrow>
                  if sr_lease_active run
                  then Inl (StreamDeleteConflict (tn_channel tn) (tn_identity tn) active_identity)
                  else Inr (Some (owner_lost_run run (ss_latest stream) ''producer lease expired''))))"

definition seal_stream ::
    "msg_transition \<Rightarrow> stored_stream \<Rightarrow> cleanup_reason \<Rightarrow> stored_run option \<Rightarrow> storage_effect" where
  "seal_stream tn stream reason lost =
     (effect_of (cleanup_result tn (Some (ss_generation stream)) (Some reason) True))
       \<lparr>ef_stream := Some (stream\<lparr>ss_disposition := sealed_disposition reason, ss_active_run := None,
          ss_control_sequence := ss_control_sequence stream + 1\<rparr>),
        ef_runs := (case lost of None \<Rightarrow> [] | Some run \<Rightarrow> [run]),
        ef_lease := (case lost of None \<Rightarrow> LEASE_NONE | Some _ \<Rightarrow> LEASE_RELEASE),
        ef_lease_run := map_option (\<lambda>run. id_run (sr_identity run)) lost,
        ef_retention := RETENTION_CLEAR\<rparr>"

definition resolve_begin_cleanup :: "msg_transition \<Rightarrow> state_snapshot \<Rightarrow> msg_error + storage_effect" where
  "resolve_begin_cleanup tn sn =
     (case tn_cleanup_reason tn of
        None \<Rightarrow> Inl (MsgTypeError ''cleanup_reason must be deleted or expired'')
      | Some reason \<Rightarrow>
          (case sn_stream sn of
             None \<Rightarrow>
               if (sn_tombstone_generation sn = None) \<noteq> (sn_tombstone_reason sn = None) then
                 Inl (MessagingBackendProtocolError ''Messaging cleanup tombstone evidence is incomplete'')
               else Inr (effect_of (cleanup_result tn (sn_tombstone_generation sn) (sn_tombstone_reason sn) False))
           | Some stream \<Rightarrow>
               if ss_disposition stream \<in> {STREAM_DELETED, STREAM_EXPIRED} then
                 Inr (effect_of (cleanup_result tn (Some (ss_generation stream))
                   (disposition_reason (ss_disposition stream)) False))
               else if ss_disposition stream \<in> {STREAM_DELETING, STREAM_EXPIRING} then
                 Inr (effect_of (cleanup_result tn (Some (ss_generation stream))
                   (Some (if ss_disposition stream = STREAM_DELETING then REASON_DELETED else REASON_EXPIRED)) True))
               else attempt (cleanup_owner tn sn stream) (\<lambda>lost.
                 if reason = REASON_EXPIRED \<and> \<not> ss_retention_expired stream then
                   Inr (effect_of (cleanup_result tn None None False))
                 else Inr (seal_stream tn stream reason lost))))"

definition finalize_stream :: "msg_transition \<Rightarrow> stored_stream \<Rightarrow> int \<Rightarrow> cleanup_reason \<Rightarrow> storage_effect" where
  "finalize_stream tn stream generation reason =
     (effect_of (cleanup_result tn (Some generation) (Some reason) False))
       \<lparr>ef_stream := Some (stream\<lparr>ss_disposition := final_disposition reason, ss_active_run := None,
          ss_control_sequence := ss_control_sequence stream + 1\<rparr>),
        ef_tombstone := Some reason\<rparr>"

definition resolve_finish_cleanup :: "msg_transition \<Rightarrow> state_snapshot \<Rightarrow> msg_error + storage_effect" where
  "resolve_finish_cleanup tn sn =
     (case tn_cleanup_reason tn of
        None \<Rightarrow> Inl (MsgTypeError ''cleanup_reason must be deleted or expired'')
      | Some reason \<Rightarrow>
     (case tn_cleanup_generation tn of
        None \<Rightarrow> Inl (MsgTypeError ''cleanup_generation must be an integer'')
      | Some generation \<Rightarrow>
          if generation < 1 then Inl (MsgValueError ''cleanup_generation must be positive'')
          else (case sn_stream sn of
             None \<Rightarrow>
               if sn_tombstone_generation sn = Some generation \<and> sn_tombstone_reason sn = Some reason then
                 Inr (effect_of (cleanup_result tn (Some generation) (Some reason) False))
               else if sn_tombstone_generation sn = Some generation then
                 Inl (MessagingBackendProtocolError
                   ''Messaging generation was finalized for a different cleanup reason'')
               else Inl (MessagingBackendProtocolError ''Messaging generation cleanup state is missing'')
           | Some stream \<Rightarrow>
               if ss_generation stream \<noteq> generation then
                 Inl (MessagingBackendProtocolError
                   ''Messaging cleanup snapshot does not match the requested generation'')
               else if ss_disposition stream = final_disposition reason then
                 Inr (effect_of (cleanup_result tn (Some generation) (Some reason) False))
               else if ss_disposition stream \<noteq> sealed_disposition reason then
                 Inl (MessagingBackendProtocolError
                   ''Messaging generation is not sealed for the requested cleanup'')
               else Inr (finalize_stream tn stream generation reason))))"

section \<open>Every transition\<close>

definition validate_transition_identity :: "msg_transition \<Rightarrow> msg_error option" where
  "validate_transition_identity tn = first_error
     [required_identifier ''transition_id'' (tn_id tn), required_identifier ''channel'' (tn_channel tn),
      required_identity (tn_identity tn)]"

definition resolve_transition ::
    "(py_bytes \<Rightarrow> py_str) \<Rightarrow> msg_transition \<Rightarrow> state_snapshot \<Rightarrow> msg_error + storage_effect" where
  "resolve_transition sha tn sn =
     require (validate_transition_identity tn)
       (case tn_kind tn of
          PREPARE_RUN \<Rightarrow> resolve_prepare_run tn sn
        | APPEND_MESSAGE \<Rightarrow> resolve_append_message sha tn sn
        | PUBLISH_MESSAGE \<Rightarrow> resolve_append_message sha tn sn
        | BEGIN_SETTLEMENT \<Rightarrow> resolve_begin_settlement tn sn
        | FINISH_RUN \<Rightarrow> resolve_finish_run tn sn
        | REQUEST_CANCELLATION \<Rightarrow> resolve_request_cancellation tn sn
        | RENEW_OWNERSHIP \<Rightarrow> resolve_renew_ownership tn sn
        | RECONCILE_OWNERSHIP \<Rightarrow> resolve_reconcile_ownership tn sn
        | BEGIN_CLEANUP \<Rightarrow> resolve_begin_cleanup tn sn
        | FINISH_CLEANUP \<Rightarrow> resolve_finish_cleanup tn sn)"

end
