(* ===== verification/Msg_Transition_Cases.thy ===== *)
theory Msg_Transition_Cases
  imports Msg_Transition
begin

text \<open>
  What a resolved transition can be, as case rules: which evidence it found and which effect
  it asks for. Everything that is not a listed change is an \<open>idle\<close> effect, which leaves the
  storage as it is.
\<close>

definition idle :: "storage_effect \<Rightarrow> bool" where
  "idle ef \<longleftrightarrow> ef_stream ef = None \<and> ef_runs ef = [] \<and> ef_message ef = None \<and>
     ef_retention ef = RETENTION_NONE \<and> ef_tombstone ef = None"

lemma effect_of_simps [simp]:
  "ef_result (effect_of r) = r" "ef_channel (effect_of r) = None" "ef_stream (effect_of r) = None"
  "ef_runs (effect_of r) = []" "ef_message (effect_of r) = None" "ef_retention (effect_of r) = RETENTION_NONE"
  "ef_tombstone (effect_of r) = None"
  by (simp_all add: effect_of_def)

lemma idle_effect_of [simp]: "idle (effect_of r)" "idle ((effect_of r)\<lparr>ef_channel := c\<rparr>)"
  "idle ((effect_of r)\<lparr>ef_lease := l, ef_lease_run := x\<rparr>)"
  by (simp_all add: idle_def)

text \<open>The evidence a producer's transition must find.\<close>

definition owned_evidence ::
    "msg_transition \<Rightarrow> state_snapshot \<Rightarrow> stored_run \<Rightarrow> stored_stream \<Rightarrow> run_reference \<Rightarrow> bool" where
  "owned_evidence tn sn run stream reference \<longleftrightarrow>
     tn_reference tn = Some reference \<and> rf_channel reference = tn_channel tn \<and>
     rf_identity reference = tn_identity tn \<and> rf_token reference \<noteq> None \<and>
     sn_target sn = Some run \<and> sn_stream sn = Some stream \<and> ss_disposition stream = STREAM_ACTIVE \<and>
     ss_generation stream = rf_generation reference \<and> sr_generation run = rf_generation reference \<and>
     sr_token run = rf_token reference \<and> Some (sr_fence run) = rf_fence reference \<and>
     sr_lease_active run \<and> \<not> is_final_run_status (sr_status run)"

lemma required_target_run_Inr: "required_target_run tn sn = Inr run \<longleftrightarrow> sn_target sn = Some run"
  by (auto simp: required_target_run_def require_Inr split: option.split)

lemma required_stream_Inr:
  "required_stream tn sn = Inr stream \<longleftrightarrow> sn_stream sn = Some stream \<and> ss_disposition stream = STREAM_ACTIVE"
  by (auto simp: required_stream_def require_Inr split: option.split)

lemma required_text_Inr: "required_text name v = Inr t \<longleftrightarrow> v = Some t \<and> required_identifier name t = None"
  by (auto simp: required_text_def require_Inr split: option.split)

lemma required_payload_Inr: "required_payload tn = Inr payload \<longleftrightarrow> tn_payload tn = Some payload"
  by (simp add: required_payload_def split: option.split)

lemmas required_Inr = required_target_run_Inr required_stream_Inr required_text_Inr required_payload_Inr

lemma owned_run_Inr: "owned_run tn sn = Inr (run, stream, reference) \<Longrightarrow> owned_evidence tn sn run stream reference"
  by (auto simp: owned_run_def owned_evidence_def attempt_Inr require_Inr required_Inr required_reference_def
      reference_matches_run_def split: if_splits option.splits)

lemma publication_reference_Inr:
  "publication_reference tn sn = Inr (run, stream, reference) \<Longrightarrow>
     sn_target sn = Some run \<and> sn_stream sn = Some stream \<and> ss_disposition stream = STREAM_ACTIVE \<and>
     tn_reference tn = Some reference \<and> rf_generation reference = ss_generation stream \<and>
     tn_checkpoint tn = None \<and> \<not> tn_closes tn"
  by (auto simp: publication_reference_def attempt_Inr required_Inr split: if_splits option.splits)

section \<open>Preparing\<close>

definition fresh_generation :: "state_snapshot \<Rightarrow> int" where
  "fresh_generation sn = (case sn_tombstone_generation sn of Some g \<Rightarrow> g + 1
     | None \<Rightarrow> (case sn_stream sn of None \<Rightarrow> 1 | Some stream \<Rightarrow> ss_generation stream + 1))"

lemma prepared_stream_Inr:
  "prepared_stream tn sn = Inr stream \<Longrightarrow>
     (sn_stream sn = Some stream \<and> ss_disposition stream = STREAM_ACTIVE) \<or>
     (stream = new_stream tn (fresh_generation sn) \<and>
      (case sn_stream sn of None \<Rightarrow> True | Some s \<Rightarrow> ss_disposition s \<in> {STREAM_DELETED, STREAM_EXPIRED}))"
  by (cases "sn_stream sn"; cases "ss_disposition (the (sn_stream sn))")
    (auto simp: prepared_stream_def fresh_generation_def Let_def split: if_splits option.splits)

lemma prepared_channel_Inr:
  "prepared_channel tn codec_id sn = Inr channel \<Longrightarrow>
     (sn_channel sn = None \<and> channel = Some \<lparr>sc_channel = tn_channel tn, sc_codec = codec_id,
        sc_limits = bs_limits (tn_settings tn), sc_retention = bs_retention (tn_settings tn)\<rparr>) \<or>
     (channel = None \<and> (\<exists>stored. sn_channel sn = Some stored \<and> sc_codec stored = codec_id))"
  by (auto simp: prepared_channel_def split: if_splits option.splits)

text \<open>A preparation attaches, recovers or loses the known run, or starts a new one.\<close>

lemma resolve_prepare_cases:
  assumes "resolve_prepare_run tn sn = Inr ef"
  obtains (attach) stream cursor channel run where
      "prepared_stream tn sn = Inr stream" "sn_target sn = Some run" "sr_generation run = ss_generation stream"
      "is_final_run_status (sr_status run) \<or> sr_lease_active run" "sr_request_digest run = tn_request_digest tn"
      "ef = (effect_of (attachment_result tn stream cursor))\<lparr>ef_channel := channel\<rparr>"
      "prepared_channel tn (the (tn_codec tn)) sn = Inr channel"
    | (lost) stream cursor channel run message where
      "prepared_stream tn sn = Inr stream" "sn_target sn = Some run" "sr_generation run = ss_generation stream"
      "\<not> is_final_run_status (sr_status run)" "\<not> sr_lease_active run"
      "ef = lose_prepared tn stream cursor channel run message"
    | (recovered) stream cursor channel run where
      "prepared_stream tn sn = Inr stream" "sn_target sn = Some run" "sr_generation run = ss_generation stream"
      "\<not> is_final_run_status (sr_status run)" "\<not> sr_lease_active run"
      "ef = recover_run tn stream cursor channel run"
    | (start) stream cursor channel where
      "prepared_stream tn sn = Inr stream" "sn_target sn = None"
      "prepared_channel tn (the (tn_codec tn)) sn = Inr channel"
      "start_run tn sn stream cursor channel = Inr ef" "0 \<le> cursor" "cursor \<le> ss_latest stream"
proof -
  obtain codec_id channel stream cursor where *: "required_text ''codec_id'' (tn_codec tn) = Inr codec_id"
    "prepared_channel tn codec_id sn = Inr channel" "prepared_stream tn sn = Inr stream"
    "0 \<le> cursor" "cursor \<le> ss_latest stream"
    "(case sn_target sn of Some run \<Rightarrow> resume_run tn stream cursor channel run
        | None \<Rightarrow> start_run tn sn stream cursor channel) = Inr ef"
    using assms that
    by (fastforce simp: resolve_prepare_run_def attempt_Inr require_Inr Let_def not_less split: if_splits)
  have codec: "the (tn_codec tn) = codec_id" using *(1) by (simp add: required_Inr)
  show thesis
  proof (cases "sn_target sn")
    case None
    then show thesis using start * codec by simp
  next
    case (Some run)
    then have "resume_run tn stream cursor channel run = Inr ef" using *(6) by simp
    then show thesis
      using attach lost recovered * Some codec by (auto simp: resume_run_def split: if_splits)
  qed
qed

lemma start_run_cases:
  assumes "start_run tn sn stream cursor channel = Inr ef"
  shows "ef_channel ef = channel \<and>
    ef_stream ef = Some (stream\<lparr>ss_next_fence := ss_next_fence stream + 1,
      ss_active_run := Some (id_run (tn_identity tn)), ss_retention_expired := False,
      ss_control_sequence := ss_control_sequence stream + (if sn_active sn \<noteq> None then 1 else 0)\<rparr>) \<and>
    ef_runs ef = (case sn_active sn of None \<Rightarrow> []
      | Some active \<Rightarrow> [owner_lost_run active (ss_latest stream) ''producer lease expired'']) @ [created_run tn stream] \<and>
    (\<forall>active. sn_active sn = Some active \<longrightarrow> \<not> sr_lease_active active) \<and>
    ef_message ef = None \<and> ef_retention ef = RETENTION_CLEAR \<and> ef_tombstone ef = None \<and>
    ef_result ef = (result_of (tn_kind tn))
            \<lparr>rs_reference := Some (owner_reference tn stream), rs_after := Some cursor,
             rs_is_owner := Some True, rs_recovered := False, rs_status := Some RUN_RUNNING\<rparr>"
  using assms by (auto simp: start_run_def Let_def split: option.splits if_splits)

section \<open>Messages, settlement, cancellation and ownership\<close>

lemma resolve_append_cases:
  assumes "resolve_append_message sha tn sn = Inr ef"
  obtains (known) run existing signature where
      "sn_target sn = Some run" "sn_message sn = Some existing"
      "message_signature sha (tn_identity tn) (the (tn_codec tn)) (the (tn_payload tn)) (tn_checkpoint tn) = Inr signature"
      "ev_signature existing = signature"
      "ef = effect_of ((result_of (tn_kind tn))\<lparr>rs_envelope := Some (ev_envelope existing),
         rs_status := Some (sr_status run)\<rparr>)"
    | (new) run stream reference codec_id message_id payload signature where
      "sn_target sn = Some run" "sn_stream sn = Some stream" "ss_disposition stream = STREAM_ACTIVE"
      "tn_codec tn = Some codec_id" "tn_message_id tn = Some message_id" "tn_payload tn = Some payload"
      "sn_message sn = None" "\<not> is_final_run_status (sr_status run)" "sr_lease_active run"
      "required_identifier ''message_id'' message_id = None" "required_identifier ''codec_id'' codec_id = None"
      "\<exists>channel. sn_channel sn = Some channel \<and> sc_codec channel = codec_id"
      "message_signature sha (tn_identity tn) codec_id payload (tn_checkpoint tn) = Inr signature"
      "int (length payload) \<le> max_message_payload_bytes (bs_limits (tn_settings tn))"
      "ss_latest stream < max_thread_messages (bs_limits (tn_settings tn))"
      "ss_payload_bytes stream + int (length payload) \<le> max_thread_payload_bytes (bs_limits (tn_settings tn))"
      "tn_kind tn = PUBLISH_MESSAGE \<longrightarrow> sr_status run = RUN_RUNNING \<and> \<not> sr_settling run \<and>
         \<not> sr_closed run \<and> sr_ready run \<and> tn_checkpoint tn = None \<and> \<not> tn_closes tn"
      "tn_kind tn \<noteq> PUBLISH_MESSAGE \<longrightarrow> owned_evidence tn sn run stream reference"
      "ef = append_new tn sn run stream reference codec_id message_id payload signature"
proof -
  obtain run stream reference codec_id message_id payload signature where
    start: "(if tn_kind tn = PUBLISH_MESSAGE then publication_reference tn sn else owned_run tn sn) =
        Inr (run, stream, reference)"
      "tn_codec tn = Some codec_id" "tn_message_id tn = Some message_id" "tn_payload tn = Some payload"
      "required_identifier ''message_id'' message_id = None" "required_identifier ''codec_id'' codec_id = None"
      "message_channel_error codec_id sn = None"
      "quota (max_message_payload_bytes (bs_limits (tn_settings tn)) < int (length payload))
        ''message_payload_bytes'' (max_message_payload_bytes (bs_limits (tn_settings tn))) = None"
      "message_signature sha (tn_identity tn) codec_id payload (tn_checkpoint tn) = Inr signature"
    and rest: "(case sn_message sn of
       Some existing \<Rightarrow>
         if ev_signature existing \<noteq> signature then Inl (MessageIdConflict (tn_identity tn) message_id)
         else Inr (effect_of ((result_of (tn_kind tn))
           \<lparr>rs_envelope := Some (ev_envelope existing), rs_status := Some (sr_status run)\<rparr>))
     | None \<Rightarrow>
         require (if tn_kind tn = PUBLISH_MESSAGE then publication_error tn run else None)
         (require (quota (max_thread_messages (bs_limits (tn_settings tn)) \<le> ss_latest stream)
            ''thread_messages'' (max_thread_messages (bs_limits (tn_settings tn))))
         (require (quota (max_thread_payload_bytes (bs_limits (tn_settings tn)) <
              ss_payload_bytes stream + int (length payload))
            ''thread_payload_bytes'' (max_thread_payload_bytes (bs_limits (tn_settings tn))))
         (Inr (append_new tn sn run stream reference codec_id message_id payload signature))))) = Inr ef"
    using assms unfolding resolve_append_message_def
    by (auto simp: attempt_Inr require_Inr Let_def required_Inr)
  have found: "sn_target sn = Some run" "sn_stream sn = Some stream" "ss_disposition stream = STREAM_ACTIVE"
    "tn_kind tn \<noteq> PUBLISH_MESSAGE \<longrightarrow> owned_evidence tn sn run stream reference"
    "tn_kind tn = PUBLISH_MESSAGE \<longrightarrow> tn_checkpoint tn = None \<and> \<not> tn_closes tn"
    using start(1) owned_run_Inr publication_reference_Inr
    by (auto split: if_splits simp: owned_evidence_def dest: owned_run_Inr publication_reference_Inr)
  have channel: "\<exists>channel. sn_channel sn = Some channel \<and> sc_codec channel = codec_id"
    using start(7) by (auto simp: message_channel_error_def split: option.splits if_splits)
  show thesis
  proof (cases "sn_message sn")
    case (Some existing)
    then show thesis using rest known found start by (auto split: if_splits)
  next
    case None
    then have *: "tn_kind tn = PUBLISH_MESSAGE \<longrightarrow> publication_error tn run = None"
      "ss_latest stream < max_thread_messages (bs_limits (tn_settings tn))"
      "ss_payload_bytes stream + int (length payload) \<le> max_thread_payload_bytes (bs_limits (tn_settings tn))"
      "ef = append_new tn sn run stream reference codec_id message_id payload signature"
      using rest by (auto simp: require_Inr quota_def split: if_splits)
    then have "\<not> is_final_run_status (sr_status run)" "sr_lease_active run"
      "tn_kind tn = PUBLISH_MESSAGE \<longrightarrow> sr_status run = RUN_RUNNING \<and> \<not> sr_settling run \<and>
         \<not> sr_closed run \<and> sr_ready run \<and> tn_checkpoint tn = None \<and> \<not> tn_closes tn"
      using found by (auto simp: publication_error_def owned_evidence_def split: if_splits)
    moreover have "int (length payload) \<le> max_message_payload_bytes (bs_limits (tn_settings tn))"
      using start(8) by (auto simp: quota_def split: if_splits)
    ultimately show thesis using new found start None * channel by blast
  qed
qed

lemma resolve_begin_settlement_cases:
  assumes "resolve_begin_settlement tn sn = Inr ef"
  obtains run stream reference where "owned_evidence tn sn run stream reference" "\<not> sr_settling run"
    "ef = (effect_of ((result_of (tn_kind tn))
           \<lparr>rs_cancellation_preceded := Some (sr_status run = RUN_CANCEL_REQUESTED),
            rs_status := Some (sr_status run)\<rparr>))
         \<lparr>ef_runs := [run\<lparr>sr_settling := True\<rparr>]\<rparr>"
  using assms that
  by (auto simp: resolve_begin_settlement_def attempt_Inr split: if_splits dest!: owned_run_Inr)

lemma resolve_finish_run_cases:
  assumes "resolve_finish_run tn sn = Inr ef"
  obtains run stream reference requested status failure where
    "owned_evidence tn sn run stream reference" "tn_final_status tn = Some requested"
    "is_final_run_status requested" "(status, failure) = settled_status run requested (tn_failure tn)"
    "is_final_run_status status"
    "ef = (effect_of ((result_of (tn_kind tn))\<lparr>rs_status := Some status\<rparr>))
       \<lparr>ef_stream := Some (leave_active tn stream), ef_runs := [finished_run run stream status failure],
        ef_lease := LEASE_RELEASE, ef_lease_run := Some (id_run (tn_identity tn)),
        ef_retention := RETENTION_START\<rparr>"
proof -
  obtain run stream reference where owned: "owned_run tn sn = Inr (run, stream, reference)"
    using assms by (auto simp: resolve_finish_run_def attempt_Inr)
  obtain requested where final: "tn_final_status tn = Some requested"
    using assms owned by (auto simp: resolve_finish_run_def split: option.splits)
  obtain status failure where settled: "settled_status run requested (tn_failure tn) = (status, failure)" by fastforce
  have requested: "is_final_run_status requested"
    using assms owned final by (auto simp: resolve_finish_run_def split: if_splits)
  moreover have "is_final_run_status status"
    using requested settled by (auto simp: settled_status_def split: if_splits)
  ultimately show thesis
    using that [OF owned_run_Inr [OF owned] final] assms owned final settled
    by (auto simp: resolve_finish_run_def)
qed

lemma resolve_request_cancellation_cases:
  assumes "resolve_request_cancellation tn sn = Inr ef"
  obtains (idle) "idle ef" "ef_channel ef = None"
    | (requested) run stream where "sn_target sn = Some run" "sn_stream sn = Some stream"
      "ss_disposition stream = STREAM_ACTIVE" "sr_status run = RUN_RUNNING" "\<not> sr_settling run" "sr_cancellable run"
      "ef = (effect_of (cancellation_result tn True RUN_CANCEL_REQUESTED))
         \<lparr>ef_stream := Some (stream\<lparr>ss_control_sequence := ss_control_sequence stream + 1\<rparr>),
          ef_runs := [run\<lparr>sr_status := RUN_CANCEL_REQUESTED\<rparr>]\<rparr>"
proof -
  obtain run stream where found: "sn_target sn = Some run" "sn_stream sn = Some stream"
      "ss_disposition stream = STREAM_ACTIVE"
    using assms by (auto simp: resolve_request_cancellation_def attempt_Inr required_Inr)
  have ef: "(if is_final_run_status (sr_status run) \<or> sr_settling run then
         Inr (effect_of (cancellation_result tn False (sr_status run)))
       else if \<not> sr_cancellable run then Inl (CancellationUnsupported (tn_identity tn))
       else if sr_status run = RUN_CANCEL_REQUESTED then
         Inr (effect_of (cancellation_result tn False (sr_status run)))
       else if sr_status run \<noteq> RUN_RUNNING then
         Inl (MessagingBackendProtocolError ''Messaging run has an invalid active cancellation status'')
       else Inr ((effect_of (cancellation_result tn True RUN_CANCEL_REQUESTED))
         \<lparr>ef_stream := Some (stream\<lparr>ss_control_sequence := ss_control_sequence stream + 1\<rparr>),
          ef_runs := [run\<lparr>sr_status := RUN_CANCEL_REQUESTED\<rparr>]\<rparr>)) = Inr ef"
    using assms found by (simp only: resolve_request_cancellation_def required_target_run_def
        required_stream_def option.case attempt_simps HOL.simp_thms if_False)
  show thesis
  proof (cases "is_final_run_status (sr_status run) \<or> sr_settling run")
    case True
    then have "effect_of (cancellation_result tn False (sr_status run)) = ef" using ef by simp
    then show thesis using idle by auto
  next
    case False
    then have c: "sr_cancellable run" using ef by (simp split: if_splits)
    show thesis
    proof (cases "sr_status run = RUN_CANCEL_REQUESTED")
      case True
      then have "effect_of (cancellation_result tn False (sr_status run)) = ef" using ef False c by simp
      then show thesis using idle by auto
    next
      case other: False
      then have "sr_status run = RUN_RUNNING" using False by (simp add: not_final)
      then show thesis using requested [OF found] ef False c by simp
    qed
  qed
qed

lemma resolve_renew_idle: "resolve_renew_ownership tn sn = Inr ef \<Longrightarrow> idle ef \<and> ef_channel ef = None"
proof -
  assume renew: "resolve_renew_ownership tn sn = Inr ef"
  then obtain reference where reference: "required_reference tn = Inr reference"
    by (auto simp: resolve_renew_ownership_def attempt_Inr)
  show ?thesis
  proof (cases "sn_target sn")
    case None
    then have "effect_of (unconfirmed tn) = ef"
      using renew by (simp add: resolve_renew_ownership_def reference require_Inr)
    then show ?thesis by auto
  next
    case (Some run)
    then show ?thesis
      using renew by (cases "reference_matches_run reference run";
          cases "\<not> sr_lease_active run \<or> is_final_run_status (sr_status run)")
        (auto simp: resolve_renew_ownership_def reference)
  qed
qed

lemma resolve_reconcile_cases:
  assumes "resolve_reconcile_ownership tn sn = Inr ef"
  obtains (idle) "idle ef" "ef_channel ef = None"
    | (lost) run where "sn_target sn = Some run" "\<not> is_final_run_status (sr_status run)" "\<not> sr_lease_active run"
proof -
  obtain run stream where found: "sn_target sn = Some run" "sn_stream sn = Some stream"
      "ss_disposition stream = STREAM_ACTIVE"
    using assms by (auto simp: resolve_reconcile_ownership_def attempt_Inr required_Inr)
  show thesis
  proof (cases "is_final_run_status (sr_status run) \<or> sr_lease_active run")
    case True
    then have "effect_of ((result_of (tn_kind tn))\<lparr>rs_status := Some (sr_status run)\<rparr>) = ef"
      using assms found
      by (simp add: resolve_reconcile_ownership_def require_Inr required_target_run_def required_stream_def)
    then show thesis using idle by auto
  next
    case False
    then show thesis using lost [OF found(1)] by blast
  qed
qed

section \<open>Cleanup\<close>

lemma resolve_begin_cleanup_cases:
  assumes "resolve_begin_cleanup tn sn = Inr ef"
  obtains (idle) "idle ef" "ef_channel ef = None"
    | (sealed) stream reason lost where "sn_stream sn = Some stream" "ss_disposition stream = STREAM_ACTIVE"
      "cleanup_owner tn sn stream = Inr lost" "ef = seal_stream tn stream reason lost"
      "reason = REASON_EXPIRED \<longrightarrow> ss_retention_expired stream"
proof -
  obtain reason where reason: "tn_cleanup_reason tn = Some reason"
    using assms by (auto simp: resolve_begin_cleanup_def split: option.splits)
  show thesis
  proof (cases "sn_stream sn")
    case None
    then show thesis using assms reason idle by (auto simp: resolve_begin_cleanup_def split: if_splits)
  next
    case (Some stream)
    show thesis
    proof (cases "ss_disposition stream = STREAM_ACTIVE")
      case True
      then obtain lost where owner: "cleanup_owner tn sn stream = Inr lost"
        using assms reason Some by (auto simp: resolve_begin_cleanup_def attempt_Inr)
      show thesis
      proof (cases "reason = REASON_EXPIRED \<and> \<not> ss_retention_expired stream")
        case True
        then have "effect_of (cleanup_result tn None None False) = ef"
          using assms reason Some owner \<open>ss_disposition stream = STREAM_ACTIVE\<close>
          by (simp add: resolve_begin_cleanup_def)
        then show thesis using idle by auto
      next
        case False
        then have "seal_stream tn stream reason lost = ef"
          using assms reason Some owner \<open>ss_disposition stream = STREAM_ACTIVE\<close>
          by (simp add: resolve_begin_cleanup_def split: if_splits)
        then show thesis using sealed [OF Some True owner, of reason] False by auto
      qed
    next
      case False
      then show thesis
        using assms reason Some idle
        by (cases "ss_disposition stream") (auto simp: resolve_begin_cleanup_def split: if_splits)
    qed
  qed
qed

lemma cleanup_owner_free:
  "cleanup_owner tn sn stream = Inr lost \<Longrightarrow>
     (ss_active_run stream = None \<and> lost = None) \<or>
     (\<exists>active run. ss_active_run stream = Some active \<and> \<not> sr_lease_active run \<and>
        (sn_target sn = Some run \<and> id_run (sr_identity run) = active \<or> sn_active sn = Some run) \<and>
        lost = Some (owner_lost_run run (ss_latest stream) ''producer lease expired''))"
  by (auto simp: cleanup_owner_def Let_def split: option.splits if_splits)

lemma resolve_finish_cleanup_cases:
  assumes "resolve_finish_cleanup tn sn = Inr ef"
  obtains (idle) "idle ef" "ef_channel ef = None"
    | (final) stream reason where "sn_stream sn = Some stream"
      "ss_disposition stream = sealed_disposition reason" "tn_cleanup_generation tn = Some (ss_generation stream)"
      "ef = finalize_stream tn stream (ss_generation stream) reason"
proof -
  obtain reason generation where given: "tn_cleanup_reason tn = Some reason" "tn_cleanup_generation tn = Some generation"
    using assms by (auto simp: resolve_finish_cleanup_def split: option.splits)
  show thesis
  proof (cases "sn_stream sn")
    case None
    then show thesis using assms given idle by (auto simp: resolve_finish_cleanup_def split: if_splits)
  next
    case (Some stream)
    then show thesis
      using assms given idle final [OF Some, of reason] by (auto simp: resolve_finish_cleanup_def split: if_splits)
  qed
qed

end
