(* ===== verification/Msg_Signature.thy ===== *)
theory Msg_Signature
  imports Msg_Transition_Cases
begin

text \<open>
  The bytes that identify a message commit. Each value is preceded by its length in eight
  bytes, so the concatenation can be taken apart again: two commits with the same bytes are
  the same commit.
\<close>

section \<open>Bytes of numbers and text\<close>

lemma byte_bounds [simp]: "(of_char c :: int) < 256" "0 \<le> (of_char c :: int)"
proof -
  have "(of_char c :: int) = of_char c mod 256"
    using of_char_of [of "of_char c :: int"] by simp
  then show "(of_char c :: int) < 256" "0 \<le> (of_char c :: int)"
    using pos_mod_bound [of 256 "of_char c :: int"] pos_mod_sign [of 256 "of_char c :: int"] by linarith+
qed

lemma char_of_eq: "0 \<le> a \<Longrightarrow> a < 256 \<Longrightarrow> 0 \<le> b \<Longrightarrow> b < 256 \<Longrightarrow> (char_of (a :: int) = char_of b) = (a = b)"
  by (metis mod_pos_pos_trivial of_char_of)

lemma digits_determine:
  "(\<And>j. j < k \<Longrightarrow> n div 256 ^ j mod 256 = m div 256 ^ j mod 256) \<Longrightarrow> n mod 256 ^ k = m mod (256 ^ k :: int)"
proof (induction k)
  case (Suc k)
  have "x mod 256 ^ Suc k = 256 ^ k * (x div 256 ^ k mod 256) + x mod 256 ^ k" for x :: int
    using mod_mult2_eq' [of x "256 ^ k" 256] by (simp add: mult.commute)
  then show ?case using Suc by simp
qed simp

lemma length_be_bytes [simp]: "length (be_bytes n) = 8"
  by (simp add: be_bytes_def)

lemma be_bytes_inj:
  assumes "be_bytes n = be_bytes m" and "n < 2 ^ 64" and "m < 2 ^ 64"
  shows "n = m"
proof -
  have "int n div 256 ^ j mod 256 = int m div 256 ^ j mod 256" if "j < 8" for j
  proof -
    have "[0..<8] ! (7 - j) = 7 - j" using that by (subst nth_upt) auto
    moreover have "be_bytes n ! (7 - j) = be_bytes m ! (7 - j)" using assms(1) by simp
    ultimately have "char_of (int n div 256 ^ j mod 256) = char_of (int m div 256 ^ j mod 256)"
      using that by (simp add: be_bytes_def)
    then show ?thesis by (simp add: char_of_eq)
  qed
  then have "int n mod 256 ^ 8 = int m mod 256 ^ 8" by (rule digits_determine)
  moreover have "int n < 256 ^ 8" "int m < 256 ^ 8" using assms(2,3) by simp_all
  ultimately show ?thesis by simp
qed

lemma length_prefixed_cancel:
  assumes "length_prefixed v @ r = length_prefixed w @ s" and "length v < 2 ^ 64" and "length w < 2 ^ 64"
  shows "v = w \<and> r = s"
proof -
  have "be_bytes (length v) = be_bytes (length w)" "v @ r = w @ s"
    using assms(1) by (simp_all add: length_prefixed_def)
  then show ?thesis using be_bytes_inj [OF _ assms(2,3)] by simp
qed

lemma utf8_inj: "utf8 xs = utf8 ys \<Longrightarrow> xs = ys"
proof (induction xs arbitrary: ys)
  case Nil
  then show ?case by (cases ys) (auto split: if_splits)
next
  case (Cons c cs)
  then obtain d ds where ys: "ys = d # ds" by (cases ys) (auto split: if_splits)
  have small: "0 \<le> (of_char e :: int) div 64" "(of_char e :: int) div 64 < 4" "0 \<le> (of_char e :: int) mod 64"
    "(of_char e :: int) mod 64 < 64" for e
    using byte_bounds [of e] by linarith+
  show ?case
  proof (cases "(of_char c :: int) < 128"; cases "(of_char d :: int) < 128")
    assume "(of_char c :: int) < 128" "(of_char d :: int) < 128"
    then show ?thesis using Cons ys by simp
  next
    assume c: "(of_char c :: int) < 128" "\<not> (of_char d :: int) < 128"
    then have "c = char_of (192 + of_char d div 64 :: int)" using Cons.prems ys by simp
    then have "(of_char c :: int) = (192 + of_char d div 64) mod 256" by simp
    then show ?thesis using small [of d] c(1) by simp
  next
    assume c: "\<not> (of_char c :: int) < 128" "(of_char d :: int) < 128"
    then have "d = char_of (192 + of_char c div 64 :: int)" using Cons.prems ys by simp
    then have "(of_char d :: int) = (192 + of_char c div 64) mod 256" by simp
    then show ?thesis using small [of c] c(2) by simp
  next
    assume c: "\<not> (of_char c :: int) < 128" "\<not> (of_char d :: int) < 128"
    then have "char_of (192 + of_char c div 64 :: int) = char_of (192 + of_char d div 64 :: int)"
      "char_of (128 + of_char c mod 64 :: int) = char_of (128 + of_char d mod 64 :: int)" "utf8 cs = utf8 ds"
      using Cons.prems ys by simp_all
    then have "(of_char c :: int) div 64 = of_char d div 64" "(of_char c :: int) mod 64 = of_char d mod 64"
      using small [of c] small [of d] by (simp_all add: char_of_eq)
    then have "(of_char c :: int) = of_char d" by (metis div_mult_mod_eq)
    then show ?thesis using Cons.IH \<open>utf8 cs = utf8 ds\<close> ys by (metis char_of_char)
  qed
qed

section \<open>The bytes of a commit\<close>

definition short :: "py_bytes \<Rightarrow> bool" where
  "short v \<longleftrightarrow> length v < 2 ^ 64"

lemma prefixed_cancel:
  "list_all2 (\<lambda>v w. short v \<and> short w) vs ws \<Longrightarrow>
     concat (map length_prefixed vs) @ r = concat (map length_prefixed ws) @ s \<Longrightarrow> vs = ws \<and> r = s"
proof (induction vs ws rule: list_all2_induct)
  case (Cons v vs w ws)
  have "v = w \<and> concat (map length_prefixed vs) @ r = concat (map length_prefixed ws) @ s"
    by (rule length_prefixed_cancel) (use Cons.prems Cons.hyps in \<open>simp_all add: short_def\<close>)
  then show ?case using Cons.IH by simp
qed simp

text \<open>A checkpoint as the digest sees it: its position and the text of its message identifier.\<close>

definition checkpoint_values :: "recovery_checkpoint option \<Rightarrow> (py_bytes \<times> py_str) option" where
  "checkpoint_values cp = map_option (\<lambda>c. (cp_position c, case cp_last_message_id c of None \<Rightarrow> [] | Some i \<Rightarrow> i)) cp"

text \<open>
  C21. The bytes that the digest of a message commit covers determine the commit: if the run,
  the codec, the payload or the checkpoint differ, the bytes differ.
\<close>

theorem signature_bytes_injective:
  assumes "signature_bytes i codec payload cp = signature_bytes j codec' payload' cp'"
    and "\<forall>v \<in> set (signature_values i codec payload cp) \<union> set (signature_values j codec' payload' cp'). short v"
  shows "id_run i = id_run j \<and> codec = codec' \<and> payload = payload' \<and> checkpoint_values cp = checkpoint_values cp'"
proof -
  let ?v = "signature_values i codec payload cp" and ?w = "signature_values j codec' payload' cp'"
  let ?m = "\<lambda>cp :: recovery_checkpoint option. if cp \<noteq> None then ''1'' else ''0''"
  have eq: "concat (map length_prefixed ?v) @ ?m cp = concat (map length_prefixed ?w) @ ?m cp'"
    using assms(1) by (simp only: signature_bytes_def append_assoc same_append_eq)
  then have "last (concat (map length_prefixed ?v) @ ?m cp) = last (concat (map length_prefixed ?w) @ ?m cp')" by simp
  then have same: "cp = None \<longleftrightarrow> cp' = None" by (cases cp; cases cp') simp_all
  then have "length ?v = length ?w" by (cases cp; cases cp') (simp_all add: signature_values_def)
  then have "list_all2 (\<lambda>v w. short v \<and> short w) ?v ?w"
    using assms(2) by (auto simp: list_all2_conv_all_nth)
  then have "?v = ?w" using prefixed_cancel eq by blast
  then show ?thesis
    using same by (cases cp; cases cp') (auto simp: signature_values_def checkpoint_values_def dest: utf8_inj)
qed

theorem signature_bytes_injective_witness:
  "signature_bytes \<lparr>id_namespace = ''n'', id_thread = ''t'', id_run = ''r''\<rparr> ''x'' ''ab'' None \<noteq>
     signature_bytes \<lparr>id_namespace = ''n'', id_thread = ''t'', id_run = ''r''\<rparr> ''xa'' ''b'' None"
proof
  assume same: "signature_bytes \<lparr>id_namespace = ''n'', id_thread = ''t'', id_run = ''r''\<rparr> ''x'' ''ab'' None =
     signature_bytes \<lparr>id_namespace = ''n'', id_thread = ''t'', id_run = ''r''\<rparr> ''xa'' ''b'' None"
  have "''x'' = ''xa''"
    using signature_bytes_injective [OF same] by (simp add: signature_values_def short_def)
  then show False by simp
qed

end
