(* ===== verification/Msg_Expiry.thy ===== *)
theory Msg_Expiry
  imports Msg_Models
begin

text \<open>
  The index of terminal deadlines (\<open>_ExpiryIndex\<close> of \<open>_capacity.py\<close>). The dictionary owns
  the current deadlines; the heap may hold stale entries. A \<open>heapq\<close> list is modelled by the
  sorted list of its entries: the code only looks at the least entry and at the length.
\<close>

type_synonym expiry_key = "py_str \<times> py_str"

record expiry_index =
  xi_deadlines :: "(expiry_key, time) dict"
  xi_heap :: "(time \<times> expiry_key) list"

definition empty_index :: expiry_index where
  "empty_index = \<lparr>xi_deadlines = [], xi_heap = []\<rparr>"

definition swap_entry :: "expiry_key \<times> time \<Rightarrow> time \<times> expiry_key" where
  "swap_entry p = (snd p, fst p)"

text \<open>Entries that are no longer current are dropped once they outnumber the live ones.\<close>

definition compact_index :: "expiry_index \<Rightarrow> expiry_index" where
  "compact_index x =
     (if 2 * length (xi_deadlines x) + 64 < length (xi_heap x)
      then x\<lparr>xi_heap := sort (map swap_entry (xi_deadlines x))\<rparr> else x)"

definition set_deadline :: "expiry_key \<Rightarrow> time option \<Rightarrow> expiry_index \<Rightarrow> expiry_index" where
  "set_deadline k deadline x = compact_index
     (case deadline of
        None \<Rightarrow> x\<lparr>xi_deadlines := ddel k (xi_deadlines x)\<rparr>
      | Some d \<Rightarrow> x\<lparr>xi_deadlines := dset k d (xi_deadlines x), xi_heap := insort (d, k) (xi_heap x)\<rparr>)"

text \<open>The loop of \<open>pop_due\<close> over the heap that remains.\<close>

fun pop_loop :: "(expiry_key, time) dict \<Rightarrow> time \<Rightarrow> (time \<times> expiry_key) list \<Rightarrow>
    expiry_key option \<times> (time \<times> expiry_key) list" where
  "pop_loop deadlines now [] = (None, [])"
| "pop_loop deadlines now ((d, k) # heap) =
     (if now < d then (None, (d, k) # heap)
      else if dget deadlines k = Some d then (Some k, heap)
      else pop_loop deadlines now heap)"

definition pop_due :: "time \<Rightarrow> expiry_index \<Rightarrow> expiry_key option \<times> expiry_index" where
  "pop_due now x =
     (let (found, heap) = pop_loop (xi_deadlines x) now (xi_heap x)
      in (found, x\<lparr>xi_heap := heap,
            xi_deadlines := (case found of None \<Rightarrow> xi_deadlines x | Some k \<Rightarrow> ddel k (xi_deadlines x))\<rparr>))"

section \<open>The invariant of the index\<close>

text \<open>Every current deadline is in the heap, which is sorted.\<close>

definition index_inv :: "expiry_index \<Rightarrow> bool" where
  "index_inv x \<longleftrightarrow> wf_dict (xi_deadlines x) \<and> sorted (xi_heap x) \<and>
     (\<forall>k d. dget (xi_deadlines x) k = Some d \<longrightarrow> (d, k) \<in> set (xi_heap x))"

lemma index_inv_empty [simp]: "index_inv empty_index"
  by (simp add: index_inv_def empty_index_def)

lemma compact_index_inv:
  assumes "wf_dict (xi_deadlines x)" and "sorted (xi_heap x)"
    and "\<And>k d. dget (xi_deadlines x) k = Some d \<Longrightarrow> (d, k) \<in> set (xi_heap x)"
  shows "index_inv (compact_index x)"
  using assms by (auto simp: index_inv_def compact_index_def swap_entry_def image_iff dest!: dget_in) force+

lemma set_deadline_inv [simp, intro]: "index_inv x \<Longrightarrow> index_inv (set_deadline k d x)"
  unfolding set_deadline_def
  by (rule compact_index_inv)
    (auto simp: index_inv_def sorted_insort set_insort_key split: option.split if_splits)

lemma set_deadline_deadlines [simp]:
  "dget (xi_deadlines (set_deadline k d x)) k' = (if k' = k then d else dget (xi_deadlines x) k')"
  by (simp add: set_deadline_def compact_index_def split: option.split)

lemma set_deadline_bound:
  "length (xi_heap (set_deadline k d x)) \<le> 2 * length (xi_deadlines (set_deadline k d x)) + 64"
  by (simp add: set_deadline_def compact_index_def)

lemma pop_loop_suffix: "\<exists>dropped. heap = dropped @ snd (pop_loop ds now heap) \<and>
    (\<forall>(d, k) \<in> set dropped. d \<le> now \<and> (dget ds k = Some d \<longrightarrow> fst (pop_loop ds now heap) = Some k))"
proof (induction ds now heap rule: pop_loop.induct)
  case (2 ds now d k heap)
  show ?case
  proof (cases "now < d \<or> dget ds k = Some d")
    case True
    then show ?thesis by (cases "now < d") (auto intro: exI [of _ "[]"] exI [of _ "[(d, k)]"])
  next
    case False
    with 2 obtain dropped where "heap = dropped @ snd (pop_loop ds now heap)"
      "\<forall>(d, k) \<in> set dropped. d \<le> now \<and> (dget ds k = Some d \<longrightarrow> fst (pop_loop ds now heap) = Some k)"
      by auto
    with False show ?thesis by (intro exI [of _ "(d, k) # dropped"]) auto
  qed
qed simp

lemma pop_loop_found:
  "fst (pop_loop ds now heap) = Some k \<Longrightarrow> \<exists>d. dget ds k = Some d \<and> d \<le> now \<and> (d, k) \<in> set heap"
  by (induction ds now heap rule: pop_loop.induct) (auto split: if_splits)

lemma pop_loop_none:
  "fst (pop_loop ds now heap) = None \<Longrightarrow> sorted heap \<Longrightarrow> (d, k) \<in> set heap \<Longrightarrow> dget ds k = Some d \<Longrightarrow> now < d"
proof (induction ds now heap rule: pop_loop.induct)
  case (2 ds now d' k' heap)
  show ?case
  proof (cases "now < d'")
    case True
    have "d' \<le> d" using "2.prems"(2,3) by (fastforce simp: less_eq_prod_def)
    with True show ?thesis by simp
  next
    case False
    with 2 show ?thesis by (auto split: if_splits)
  qed
qed simp

lemma pop_due_inv [simp, intro]:
  assumes "index_inv x"
  shows "index_inv (snd (pop_due now x))"
proof -
  let ?r = "pop_loop (xi_deadlines x) now (xi_heap x)"
  obtain dropped where heap: "xi_heap x = dropped @ snd ?r"
    "\<forall>(d, k) \<in> set dropped. d \<le> now \<and> (dget (xi_deadlines x) k = Some d \<longrightarrow> fst ?r = Some k)"
    using pop_loop_suffix [of "xi_heap x" "xi_deadlines x" now] by blast
  have "sorted (snd ?r)" using assms heap(1) by (metis index_inv_def sorted_append)
  moreover have "(d, k) \<in> set (snd ?r)"
    if "dget (xi_deadlines x) k = Some d" "fst ?r \<noteq> Some k" for d k
  proof -
    have "(d, k) \<in> set dropped \<union> set (snd ?r)" using assms that(1) heap(1) unfolding index_inv_def by (metis set_append)
    then show ?thesis using heap(2) that by auto
  qed
  ultimately show ?thesis
    using assms by (auto simp: pop_due_def index_inv_def split: prod.split option.split)
qed

lemma pop_due_Some:
  "pop_due now x = (Some k, x') \<Longrightarrow>
     \<exists>d. dget (xi_deadlines x) k = Some d \<and> d \<le> now \<and> xi_deadlines x' = ddel k (xi_deadlines x)"
  using pop_loop_found [of "xi_deadlines x" now "xi_heap x" k] by (auto simp: pop_due_def split: prod.splits)

lemma pop_due_None:
  "pop_due now x = (None, x') \<Longrightarrow> index_inv x \<Longrightarrow> dget (xi_deadlines x) k = Some d \<Longrightarrow> now < d"
  using pop_loop_none [of "xi_deadlines x" now "xi_heap x" d k]
  by (cases k) (auto simp: pop_due_def index_inv_def split: prod.splits)

end
