(* ===== verification/Msg_Expiry_Props.thy ===== *)
theory Msg_Expiry_Props
  imports Msg_Expiry
begin

text \<open>
  The contract that \<open>MemoryBackend\<close> relies on when it reclaims expired threads: an index of
  deadlines from which due keys are taken one by one. Draining such an index finds exactly the
  keys that are due. The expiry index of the source is an instance.
\<close>

section \<open>The contract\<close>

text \<open>Taking due keys until none is left, or \<open>n\<close> were taken, as \<open>_reclaim_expired\<close> does.\<close>

primrec drain :: "(int \<Rightarrow> 'x \<Rightarrow> 'k option \<times> 'x) \<Rightarrow> int \<Rightarrow> nat \<Rightarrow> 'x \<Rightarrow> 'k list \<times> 'x" where
  "drain pop now 0 x = ([], x)"
| "drain pop now (Suc n) x =
     (case pop now x of
        (None, x') \<Rightarrow> ([], x')
      | (Some k, x') \<Rightarrow> let (ks, x'') = drain pop now n x' in (k # ks, x''))"

locale deadline_index =
  fixes inv :: "'x \<Rightarrow> bool"
    and deadline :: "'x \<Rightarrow> 'k \<Rightarrow> int option"
    and pop :: "int \<Rightarrow> 'x \<Rightarrow> 'k option \<times> 'x"
  assumes pop_inv: "inv x \<Longrightarrow> inv (snd (pop now x))"
    and pop_none: "inv x \<Longrightarrow> fst (pop now x) = None \<Longrightarrow> deadline x k = Some d \<Longrightarrow> now < d"
    and pop_some: "fst (pop now x) = Some k \<Longrightarrow> \<exists>d. deadline x k = Some d \<and> d \<le> now"
    and pop_deadline: "deadline (snd (pop now x)) k = (if fst (pop now x) = Some k then None else deadline x k)"
begin

lemma drain_spec:
  "inv x \<Longrightarrow> drain pop now n x = (ks, x') \<Longrightarrow>
     inv x' \<and> distinct ks \<and> length ks \<le> n \<and> (\<forall>k \<in> set ks. \<exists>d. deadline x k = Some d \<and> d \<le> now) \<and>
     (\<forall>k. deadline x' k = (if k \<in> set ks then None else deadline x k)) \<and>
     (length ks < n \<longrightarrow> (\<forall>k d. deadline x' k = Some d \<longrightarrow> now < d))"
proof (induction n arbitrary: x ks x')
  case (Suc n)
  obtain found y where pop: "pop now x = (found, y)" by fastforce
  have y: "inv y" "\<And>k. deadline y k = (if found = Some k then None else deadline x k)"
    using pop_inv [OF Suc.prems(1), of now] pop_deadline [of now x] pop by simp_all
  show ?case
  proof (cases found)
    case None
    then show ?thesis using Suc.prems pop y pop_none [OF Suc.prems(1), of now] by auto
  next
    case (Some k)
    obtain ls z where rest: "drain pop now n y = (ls, z)" by fastforce
    then have out: "ks = k # ls" "x' = z" using Suc.prems(2) pop Some by simp_all
    have due: "\<exists>d. deadline x k = Some d \<and> d \<le> now" using pop_some [of now x k] pop Some by simp
    note IH = Suc.IH [OF y(1) rest]
    have fresh: "k \<notin> set ls" using IH y(2) [of k] Some by auto
    have "\<exists>d. deadline x j = Some d \<and> d \<le> now" if "j \<in> set ls" for j
    proof -
      have "deadline y j \<noteq> None" "\<exists>d. deadline y j = Some d \<and> d \<le> now" using IH that by auto
      then show ?thesis using y(2) [of j] by (auto split: if_splits)
    qed
    moreover have "deadline z j = (if j \<in> set (k # ls) then None else deadline x j)" for j
      using IH y(2) [of j] Some by auto
    ultimately show ?thesis using IH out due fresh by auto
  qed
qed simp

end

section \<open>The expiry index\<close>

interpretation expiry: deadline_index index_inv "\<lambda>x. dget (xi_deadlines x)" pop_due
proof
  fix x :: expiry_index and now k d
  show "index_inv x \<Longrightarrow> index_inv (snd (pop_due now x))" by (rule pop_due_inv)
  show "index_inv x \<Longrightarrow> fst (pop_due now x) = None \<Longrightarrow> dget (xi_deadlines x) k = Some d \<Longrightarrow> now < d"
    using pop_due_None [of now x "snd (pop_due now x)" k d] by (simp add: prod_eq_iff)
  show "fst (pop_due now x) = Some k \<Longrightarrow> \<exists>d. dget (xi_deadlines x) k = Some d \<and> d \<le> now"
    using pop_due_Some [of now x k "snd (pop_due now x)"] by (auto simp: prod_eq_iff)
  show "dget (xi_deadlines (snd (pop_due now x))) k =
      (if fst (pop_due now x) = Some k then None else dget (xi_deadlines x) k)"
    by (auto simp: pop_due_def split: prod.split option.split)
qed

text \<open>
  C22. Taking due threads from the expiry index, as reclaiming does, returns only threads whose
  current deadline has passed, none of them twice, and forgets exactly those; when it stops
  before its bound, no thread that is still indexed is due. Setting a deadline afterwards keeps
  the heap within twice the indexed threads plus 64 entries.
\<close>

theorem drain_finds_due:
  assumes "index_inv x" and "drain pop_due now n x = (ks, x')"
  shows "distinct ks \<and> length ks \<le> n \<and>
    (\<forall>k \<in> set ks. \<exists>d. dget (xi_deadlines x) k = Some d \<and> d \<le> now) \<and>
    (\<forall>k. dget (xi_deadlines x') k = (if k \<in> set ks then None else dget (xi_deadlines x) k)) \<and>
    (length ks < n \<longrightarrow> (\<forall>k d. dget (xi_deadlines x') k = Some d \<longrightarrow> now < d)) \<and>
    (let y = set_deadline k d x' in length (xi_heap y) \<le> 2 * length (xi_deadlines y) + 64)"
  using expiry.drain_spec [OF assms] set_deadline_bound unfolding Let_def by blast

definition sample_index :: expiry_index where
  "sample_index = set_deadline (''c'', ''t1'') (Some 5) (set_deadline (''c'', ''t2'') (Some 9)
     (set_deadline (''c'', ''t1'') (Some 2) empty_index))"

theorem drain_finds_due_witness:
  "drain pop_due 6 64 sample_index = ([(''c'', ''t1'')], snd (drain pop_due 6 64 sample_index)) \<and>
     dget (xi_deadlines (snd (drain pop_due 6 64 sample_index))) (''c'', ''t1'') = None \<and>
     dget (xi_deadlines (snd (drain pop_due 6 64 sample_index))) (''c'', ''t2'') = Some 9"
proof -
  have inv: "index_inv sample_index" by (auto simp: sample_index_def)
  have found: "fst (drain pop_due 6 64 sample_index) = [(''c'', ''t1'')]"
    and second: "dget (xi_deadlines sample_index) (''c'', ''t2'') = Some 9" by code_simp+
  then have run: "drain pop_due 6 64 sample_index = ([(''c'', ''t1'')], snd (drain pop_due 6 64 sample_index))"
    by (simp add: prod_eq_iff)
  show ?thesis using drain_finds_due [OF inv run] run second by simp
qed

end
