(* ===== verification/Msg_Memory.thy ===== *)
theory Msg_Memory
  imports Msg_Transition Msg_Expiry State_Error
begin

text \<open>
  The in-memory messaging backend (\<open>MemoryBackend\<close> of \<open>backend.py\<close>). Streams, runs and
  channels are mutable objects that the source reaches through dictionaries; here they are
  values stored back into them. A commit holds the channel's lock and the stream's condition
  and never awaits between its snapshot and the end of the effect, so it is one atomic
  step. Clock readings, the digest and the JSON text of a thread identity come from a
  \<open>msg_host\<close>: the n-th reading of a clock is its n-th value.
\<close>

section \<open>State\<close>

record run_record =
  rr_identity :: run_identity
  rr_start :: int
  rr_end :: int
  rr_token :: "py_str option"
  rr_fence :: int
  rr_cancellable :: bool
  rr_recoverable :: bool
  rr_digest :: "py_str option"
  rr_status :: run_status
  rr_settling :: bool
  rr_closed :: bool
  rr_ready :: bool
  rr_error :: "py_exception option"
  rr_checkpoint :: "recovery_checkpoint option"

record stream_state =
  sm_generation :: int
  sm_disposition :: disposition
  sm_deleted :: bool
  sm_messages :: "message_envelope list"
  sm_by_id :: "(py_str, message_envelope) dict"
  sm_signatures :: "(py_str, py_str \<times> py_str \<times> py_bytes \<times> recovery_checkpoint option) dict"
  sm_runs :: "(py_str, run_record) dict"
  sm_active :: "run_identity option"
  sm_payload_bytes :: int
  sm_retained_bytes :: int
  sm_retained_records :: int
  sm_expires :: "time option"
  sm_control :: int

definition new_stream_state :: "int \<Rightarrow> stream_state" where
  "new_stream_state generation = \<lparr>sm_generation = generation, sm_disposition = STREAM_ACTIVE,
     sm_deleted = False, sm_messages = [], sm_by_id = [], sm_signatures = [], sm_runs = [],
     sm_active = None, sm_payload_bytes = 0, sm_retained_bytes = 0, sm_retained_records = 1,
     sm_expires = None, sm_control = 0\<rparr>"

record channel_state =
  ch_channel :: py_str
  ch_codec :: "py_str option"
  ch_streams :: "(py_str, stream_state) dict"
  ch_next_generations :: "(py_str, int) dict"
  ch_tombstones :: "(py_str, (int, cleanup_reason) dict) dict"

definition new_channel_state :: "py_str \<Rightarrow> channel_state" where
  "new_channel_state channel = \<lparr>ch_channel = channel, ch_codec = None, ch_streams = [],
     ch_next_generations = [], ch_tombstones = []\<rparr>"

record msg_host =
  mh_monotonic :: "nat \<Rightarrow> time"
  mh_utc :: "nat \<Rightarrow> time"
  mh_sha256 :: "py_bytes \<Rightarrow> py_str"
  mh_thread_key :: "run_identity \<Rightarrow> py_str"

record memory_backend =
  mb_channels :: "(py_str, channel_state) dict"
  mb_total_bytes :: int
  mb_total_records :: int
  mb_expirations :: expiry_index
  mb_limits :: messaging_limits
  mb_retention :: retention_policy
  mb_monotonic_reads :: nat
  mb_utc_reads :: nat

type_synonym 'a msg_op = "(memory_backend, msg_error, 'a) op"

definition new_backend :: "messaging_limits \<Rightarrow> retention_policy \<Rightarrow> memory_backend" where
  "new_backend limits retention = \<lparr>mb_channels = [], mb_total_bytes = 0, mb_total_records = 0,
     mb_expirations = empty_index, mb_limits = limits, mb_retention = retention,
     mb_monotonic_reads = 0, mb_utc_reads = 0\<rparr>"

definition messaging_settings :: "memory_backend \<Rightarrow> backend_settings" where
  "messaging_settings b = \<lparr>bs_limits = mb_limits b, bs_retention = mb_retention b,
     bs_renew_interval = None, bs_lease = None, bs_wait_timeout = None\<rparr>"

definition read_monotonic :: "msg_host \<Rightarrow> time msg_op" where
  "read_monotonic h = (\<lambda>b. (Inr (mh_monotonic h (mb_monotonic_reads b)),
     b\<lparr>mb_monotonic_reads := Suc (mb_monotonic_reads b)\<rparr>))"

definition read_utc :: "msg_host \<Rightarrow> time msg_op" where
  "read_utc h = (\<lambda>b. (Inr (mh_utc h (mb_utc_reads b)), b\<lparr>mb_utc_reads := Suc (mb_utc_reads b)\<rparr>))"

text \<open>\<open>_channel\<close>: a channel that was never registered is a fresh, unsaved one.\<close>

definition channel_at :: "py_str \<Rightarrow> memory_backend \<Rightarrow> channel_state" where
  "channel_at channel b =
     (case dget (mb_channels b) channel of Some c \<Rightarrow> c | None \<Rightarrow> new_channel_state channel)"

definition stream_at :: "py_str \<Rightarrow> py_str \<Rightarrow> memory_backend \<Rightarrow> stream_state option" where
  "stream_at channel thread b = dget (ch_streams (channel_at channel b)) thread"

section \<open>Unavailable generations\<close>

definition tombstones_of :: "channel_state \<Rightarrow> py_str \<Rightarrow> (int, cleanup_reason) dict" where
  "tombstones_of c thread = (case dget (ch_tombstones c) thread of None \<Rightarrow> [] | Some d \<Rightarrow> d)"

definition tombstone_reason ::
    "channel_state \<Rightarrow> py_str \<Rightarrow> int option \<Rightarrow> (int \<times> cleanup_reason) option" where
  "tombstone_reason c thread generation =
     (let tombstones = tombstones_of c thread
      in case generation of
           Some g \<Rightarrow> map_option (\<lambda>reason. (g, reason)) (dget tombstones g)
         | None \<Rightarrow>
             if tombstones = [] then None
             else (let latest = Max (set (dkeys tombstones))
                   in map_option (\<lambda>reason. (latest, reason)) (dget tombstones latest)))"

definition record_tombstone :: "py_str \<Rightarrow> int \<Rightarrow> cleanup_reason \<Rightarrow> channel_state \<Rightarrow> channel_state" where
  "record_tombstone thread generation reason c = c\<lparr>ch_tombstones :=
     dset thread (dset generation reason (tombstones_of c thread)) (ch_tombstones c)\<rparr>"

definition tombstone_error :: "py_str \<Rightarrow> run_identity \<Rightarrow> int \<Rightarrow> cleanup_reason \<Rightarrow> msg_error" where
  "tombstone_error channel identity generation reason =
     (if reason = REASON_EXPIRED then StreamExpired channel identity generation
      else StreamDeleted channel identity generation)"

definition disposition_error :: "py_str \<Rightarrow> run_identity \<Rightarrow> int \<Rightarrow> disposition \<Rightarrow> msg_error" where
  "disposition_error channel identity generation disp =
     (if disp \<in> {STREAM_EXPIRING, STREAM_EXPIRED} then StreamExpired channel identity generation
      else StreamDeleted channel identity generation)"

definition generation_unavailable ::
    "msg_host \<Rightarrow> py_str \<Rightarrow> run_identity \<Rightarrow> int \<Rightarrow> memory_backend \<Rightarrow> msg_error" where
  "generation_unavailable h channel identity generation b =
     (case dget (mb_channels b) channel of
        None \<Rightarrow> StreamDeleted channel identity generation
      | Some c \<Rightarrow>
          (case tombstone_reason c (mh_thread_key h identity) (Some generation) of
             None \<Rightarrow> StreamDeleted channel identity generation
           | Some (g, reason) \<Rightarrow> tombstone_error channel identity g reason))"

section \<open>Retention\<close>

text \<open>The generation record becomes its tombstone, so retiring needs no spare quota.\<close>

definition retired_channel :: "py_str \<Rightarrow> stream_state \<Rightarrow> cleanup_reason \<Rightarrow> channel_state \<Rightarrow> channel_state" where
  "retired_channel thread state reason c =
     record_tombstone thread (sm_generation state) reason
       (c\<lparr>ch_streams := ddel thread (ch_streams c),
          ch_next_generations := dset thread (sm_generation state + 1) (ch_next_generations c)\<rparr>)"

definition retire_generation ::
    "channel_state \<Rightarrow> py_str \<Rightarrow> stream_state \<Rightarrow> cleanup_reason \<Rightarrow> memory_backend \<Rightarrow> memory_backend" where
  "retire_generation c thread state reason b = b
     \<lparr>mb_total_bytes := mb_total_bytes b - sm_retained_bytes state,
      mb_total_records := mb_total_records b - (sm_retained_records state - 1),
      mb_channels := dset (ch_channel c) (retired_channel thread state reason c) (mb_channels b),
      mb_expirations := set_deadline (ch_channel c, thread) None (mb_expirations b)\<rparr>"

text \<open>
  \<open>_expire_if_due\<close>. The monotonic clock is read only for a generation with a deadline. A
  channel that is not registered has no streams.
\<close>

definition expire_if_due :: "msg_host \<Rightarrow> py_str \<Rightarrow> py_str \<Rightarrow> unit msg_op" where
  "expire_if_due h channel thread =
     bind (gets (stream_at channel thread)) (\<lambda>found.
       case found of
         None \<Rightarrow> ret ()
       | Some state \<Rightarrow>
           (case sm_expires state of
              None \<Rightarrow> ret ()
            | Some deadline \<Rightarrow>
                bind (read_monotonic h) (\<lambda>now.
                  if_op (deadline \<le> now) (modify (\<lambda>b.
                    retire_generation (channel_at channel b) thread state REASON_EXPIRED b)))))"

text \<open>\<open>_reclaim_expired\<close>: at most 64 due threads, found at one reading of the clock.\<close>

primrec reclaim_loop :: "msg_host \<Rightarrow> time \<Rightarrow> nat \<Rightarrow> unit msg_op" where
  "reclaim_loop h now 0 = ret ()"
| "reclaim_loop h now (Suc n) =
     bind (gets (\<lambda>b. pop_due now (mb_expirations b))) (\<lambda>(found, index).
       seq (modify (\<lambda>b. b\<lparr>mb_expirations := index\<rparr>))
         (case found of
            None \<Rightarrow> ret ()
          | Some (channel, thread) \<Rightarrow>
              seq (check_state (\<lambda>b. if dget (mb_channels b) channel = None
                     then Some (MsgKeyError channel) else None))
                (seq (expire_if_due h channel thread) (reclaim_loop h now n))))"

definition reclaim_expired :: "msg_host \<Rightarrow> unit msg_op" where
  "reclaim_expired h = bind (read_monotonic h) (\<lambda>now. reclaim_loop h now 64)"

section \<open>Snapshots\<close>

definition stored_memory_run :: "run_record \<Rightarrow> int \<Rightarrow> stored_run" where
  "stored_memory_run r generation = \<lparr>sr_identity = rr_identity r, sr_generation = generation,
     sr_start = rr_start r, sr_end = rr_end r, sr_status = rr_status r, sr_settling = rr_settling r,
     sr_cancellable = rr_cancellable r, sr_recoverable = rr_recoverable r, sr_token = rr_token r,
     sr_fence = rr_fence r,
     sr_lease_active = (\<not> is_final_run_status (rr_status r) \<and> rr_token r \<noteq> None),
     sr_checkpoint = rr_checkpoint r, sr_failure_class = fst (failure_evidence (rr_error r)),
     sr_failure_message = snd (failure_evidence (rr_error r)), sr_local_failure = rr_error r,
     sr_lease_remaining = None, sr_closed = rr_closed r, sr_ready = rr_ready r,
     sr_request_digest = rr_digest r\<rparr>"

definition next_fence :: "stream_state \<Rightarrow> int" where
  "next_fence state = 1 + (if sm_runs state = [] then 0 else Max (set (map rr_fence (dvals (sm_runs state)))))"

definition memory_stream :: "py_str \<Rightarrow> run_identity \<Rightarrow> stream_state \<Rightarrow> stored_stream" where
  "memory_stream channel identity state = \<lparr>ss_channel = channel, ss_thread = id_thread identity,
     ss_generation = sm_generation state, ss_disposition = sm_disposition state,
     ss_latest = int (length (sm_messages state)), ss_payload_bytes = sm_payload_bytes state,
     ss_next_fence = next_fence state, ss_active_run = map_option id_run (sm_active state),
     ss_retention_expired = False, ss_message_sequence = int (length (sm_messages state)),
     ss_control_sequence = sm_control state\<rparr>"

definition matching_message ::
    "msg_host \<Rightarrow> run_identity \<Rightarrow> stream_state \<Rightarrow> py_str option \<Rightarrow> msg_error + message_evidence option" where
  "matching_message h identity state message_id =
     (case message_id of
        None \<Rightarrow> Inr None
      | Some i \<Rightarrow>
          (case (dget (sm_by_id state) i, dget (sm_signatures state) i) of
             (Some envelope, Some (run_id, codec_id, payload, checkpoint)) \<Rightarrow>
               attempt (message_signature (mh_sha256 h)
                   \<lparr>id_namespace = id_namespace identity, id_thread = id_thread identity, id_run = run_id\<rparr>
                   codec_id payload checkpoint)
                 (\<lambda>signature. Inr (Some \<lparr>ev_envelope = envelope, ev_signature = signature,
                    ev_checkpoint = checkpoint\<rparr>))
           | _ \<Rightarrow> Inr None))"

definition active_record :: "run_identity \<Rightarrow> bool \<Rightarrow> stream_state \<Rightarrow> run_record option" where
  "active_record identity include_active state =
     (case sm_active state of
        None \<Rightarrow> None
      | Some active \<Rightarrow>
          if \<not> include_active \<or> id_run active = id_run identity then None
          else dget (sm_runs state) (id_run active))"

definition snapshot_channel :: "memory_backend \<Rightarrow> channel_state \<Rightarrow> py_str \<Rightarrow> stored_channel option" where
  "snapshot_channel b c channel = map_option (\<lambda>codec. \<lparr>sc_channel = channel, sc_codec = codec,
     sc_limits = mb_limits b, sc_retention = mb_retention b\<rparr>) (ch_codec c)"

definition selected_stream :: "stream_state option \<Rightarrow> int option \<Rightarrow> stream_state option" where
  "selected_stream found generation =
     (case found of
        None \<Rightarrow> None
      | Some state \<Rightarrow>
          if generation \<noteq> None \<and> generation \<noteq> Some (sm_generation state) then None else Some state)"

definition memory_snapshot ::
    "msg_host \<Rightarrow> py_str \<Rightarrow> run_identity \<Rightarrow> int option \<Rightarrow> py_str option \<Rightarrow> bool \<Rightarrow> state_snapshot msg_op" where
  "memory_snapshot h channel identity generation message_id include_active =
     bind (gets (\<lambda>b. (channel_at channel b, snapshot_channel b (channel_at channel b) channel)))
       (\<lambda>(c, stored_channel).
     let thread = mh_thread_key h identity;
         selected = selected_stream (dget (ch_streams c) thread) generation;
         tombstone = tombstone_reason c thread generation
     in bind (lift (case selected of None \<Rightarrow> Inr None
            | Some state \<Rightarrow> matching_message h identity state message_id)) (\<lambda>matching.
        bind (read_utc h) (\<lambda>now. ret
          \<lparr>sn_observed_at = now, sn_channel = stored_channel,
           sn_stream = map_option (memory_stream channel identity) selected,
           sn_target = (case selected of None \<Rightarrow> None
             | Some state \<Rightarrow> map_option (\<lambda>r. stored_memory_run r (sm_generation state))
                 (dget (sm_runs state) (id_run identity))),
           sn_active = (case selected of None \<Rightarrow> None
             | Some state \<Rightarrow> map_option (\<lambda>r. stored_memory_run r (sm_generation state))
                 (active_record identity include_active state)),
           sn_message = matching,
           sn_tombstone_generation = map_option fst tombstone,
           sn_tombstone_reason = map_option snd tombstone\<rparr>)))"

definition empty_snapshot :: "msg_host \<Rightarrow> state_snapshot msg_op" where
  "empty_snapshot h = bind (read_utc h) (\<lambda>now. ret
     \<lparr>sn_observed_at = now, sn_channel = None, sn_stream = None, sn_target = None, sn_active = None,
      sn_message = None, sn_tombstone_generation = None, sn_tombstone_reason = None\<rparr>)"

definition load_state :: "msg_host \<Rightarrow> state_query \<Rightarrow> state_snapshot msg_op" where
  "load_state h q =
     seq (check (first_error [required_identifier ''channel'' (sq_channel q), required_identity (sq_identity q)]))
     (bind (gets (\<lambda>b. dget (mb_channels b) (sq_channel q))) (\<lambda>found.
      case found of
        None \<Rightarrow> empty_snapshot h
      | Some c \<Rightarrow>
          seq (expire_if_due h (sq_channel q) (mh_thread_key h (sq_identity q)))
            (memory_snapshot h (sq_channel q) (sq_identity q) (sq_generation q) (sq_message_id q)
               (sq_include_active q))))"

section \<open>Applying an effect\<close>

definition run_checkpoint_bytes :: "run_record option \<Rightarrow> int" where
  "run_checkpoint_bytes r = (case r of None \<Rightarrow> 0 | Some r \<Rightarrow> checkpoint_bytes (rr_checkpoint r))"

definition known_run :: "stream_state option \<Rightarrow> py_str \<Rightarrow> run_record option" where
  "known_run state run_id = (case state of None \<Rightarrow> None | Some s \<Rightarrow> dget (sm_runs s) run_id)"

definition message_is_new :: "stream_state option \<Rightarrow> message_evidence \<Rightarrow> bool" where
  "message_is_new state m =
     (case state of None \<Rightarrow> True | Some s \<Rightarrow> dget (sm_by_id s) (me_message_id (ev_envelope m)) = None)"

text \<open>Bytes, total records and records of the generation that an effect adds.\<close>

definition effect_capacity ::
    "channel_state \<Rightarrow> py_str \<Rightarrow> storage_effect \<Rightarrow> int \<times> int \<times> int" where
  "effect_capacity c thread effect =
     (let state = dget (ch_streams c) thread;
          records = of_bool (ch_codec c = None \<and> ef_channel effect \<noteq> None) +
            (if ef_stream effect \<noteq> None \<and> state = None
             then 1 + of_bool (dget (ch_next_generations c) thread = None) else 0);
          run_records = sum_list (map (\<lambda>run. of_bool (known_run state (id_run (sr_identity run)) = None)) (ef_runs effect));
          run_bytes = sum_list (map (\<lambda>run. checkpoint_bytes (sr_checkpoint run) -
            run_checkpoint_bytes (known_run state (id_run (sr_identity run)))) (ef_runs effect));
          (message_records, message_bytes) = (case ef_message effect of
              None \<Rightarrow> (0, 0)
            | Some m \<Rightarrow> if message_is_new state m
                then (1, int (length (me_payload (ev_envelope m))) + checkpoint_bytes (ev_checkpoint m))
                else (0, 0))
      in (run_bytes + message_bytes, records + (run_records + message_records), run_records + message_records))"

text \<open>A run record after its effect; the identity is set when the record is created.\<close>

definition overwrite_run :: "run_identity \<Rightarrow> stored_run \<Rightarrow> run_record" where
  "overwrite_run identity run = \<lparr>rr_identity = identity, rr_start = sr_start run, rr_end = sr_end run,
     rr_token = sr_token run, rr_fence = sr_fence run, rr_cancellable = sr_cancellable run,
     rr_recoverable = sr_recoverable run, rr_digest = sr_request_digest run,
     rr_status = sr_status run, rr_settling = sr_settling run, rr_closed = sr_closed run,
     rr_ready = sr_ready run, rr_error = sr_local_failure run, rr_checkpoint = sr_checkpoint run\<rparr>"

definition apply_run :: "stored_run \<Rightarrow> stream_state \<Rightarrow> stream_state" where
  "apply_run run state =
     (let run_id = id_run (sr_identity run);
          identity = (case dget (sm_runs state) run_id of None \<Rightarrow> sr_identity run | Some r \<Rightarrow> rr_identity r)
      in state\<lparr>sm_runs := dset run_id (overwrite_run identity run) (sm_runs state)\<rparr>)"

definition apply_stream :: "run_identity \<Rightarrow> stored_stream \<Rightarrow> stream_state \<Rightarrow> stream_state" where
  "apply_stream identity stream state = state
     \<lparr>sm_disposition := ss_disposition stream, sm_deleted := (ss_disposition stream \<noteq> STREAM_ACTIVE),
      sm_payload_bytes := ss_payload_bytes stream, sm_control := ss_control_sequence stream,
      sm_active := map_option (\<lambda>run_id. \<lparr>id_namespace = id_namespace identity,
        id_thread = id_thread identity, id_run = run_id\<rparr>) (ss_active_run stream)\<rparr>"

definition apply_message :: "message_evidence \<Rightarrow> stream_state \<Rightarrow> stream_state" where
  "apply_message m state =
     (let envelope = ev_envelope m
      in if dget (sm_by_id state) (me_message_id envelope) \<noteq> None then state
         else state\<lparr>sm_messages := sm_messages state @ [envelope],
           sm_by_id := dset (me_message_id envelope) envelope (sm_by_id state),
           sm_signatures := dset (me_message_id envelope)
             (id_run (me_identity envelope), me_codec envelope, me_payload envelope, ev_checkpoint m)
             (sm_signatures state)\<rparr>)"

definition charge_stream :: "int \<Rightarrow> int \<Rightarrow> stream_state \<Rightarrow> stream_state" where
  "charge_stream bytes records state = state
     \<lparr>sm_retained_bytes := sm_retained_bytes state + bytes,
      sm_retained_records := sm_retained_records state + records\<rparr>"

text \<open>The stream an effect works on: the current one, or a new generation.\<close>

definition effect_stream :: "channel_state \<Rightarrow> py_str \<Rightarrow> storage_effect \<Rightarrow> stream_state option" where
  "effect_stream c thread effect =
     (case ef_stream effect of
        None \<Rightarrow> dget (ch_streams c) thread
      | Some stream \<Rightarrow>
          (case dget (ch_streams c) thread of
             Some state \<Rightarrow>
               if sm_generation state \<noteq> ss_generation stream then Some (new_stream_state (ss_generation stream))
               else Some state
           | None \<Rightarrow> Some (new_stream_state (ss_generation stream))))"

text \<open>Everything an effect does to the stream it works on, but for its deadline.\<close>

definition updated_stream :: "run_identity \<Rightarrow> storage_effect \<Rightarrow> int \<Rightarrow> int \<Rightarrow> stream_state \<Rightarrow> stream_state" where
  "updated_stream identity effect bytes records state =
     (case ef_message effect of None \<Rightarrow> id | Some m \<Rightarrow> apply_message m)
       (fold apply_run (ef_runs effect)
         ((case ef_stream effect of None \<Rightarrow> id | Some stream \<Rightarrow> apply_stream identity stream)
           (charge_stream bytes records state)))"

text \<open>\<open>self._total_bytes\<close>, \<open>_total_records\<close> and the registration of a new channel.\<close>

definition charge_backend :: "int \<Rightarrow> int \<Rightarrow> memory_backend \<Rightarrow> memory_backend" where
  "charge_backend bytes records b = b\<lparr>mb_total_bytes := mb_total_bytes b + bytes,
     mb_total_records := mb_total_records b + records\<rparr>"

definition effect_channel :: "channel_state \<Rightarrow> storage_effect \<Rightarrow> channel_state" where
  "effect_channel c effect =
     (case ef_channel effect of
        None \<Rightarrow> c
      | Some stored \<Rightarrow> if ch_codec c = None then c\<lparr>ch_codec := Some (sc_codec stored)\<rparr> else c)"

text \<open>
  Storing a channel back. Changes to a channel that is neither registered nor being
  registered are lost with the object.
\<close>

definition put_channel :: "bool \<Rightarrow> channel_state \<Rightarrow> memory_backend \<Rightarrow> memory_backend" where
  "put_channel register c b =
     (if register \<or> dget (mb_channels b) (ch_channel c) \<noteq> None
      then b\<lparr>mb_channels := dset (ch_channel c) c (mb_channels b)\<rparr> else b)"

definition put_stream :: "py_str \<Rightarrow> stream_state \<Rightarrow> channel_state \<Rightarrow> channel_state" where
  "put_stream thread state c = c\<lparr>ch_streams := dset thread state (ch_streams c)\<rparr>"

text \<open>The new deadline: the monotonic clock is read only when a retention window starts.\<close>

definition effect_deadline ::
    "msg_host \<Rightarrow> storage_effect \<Rightarrow> time option \<Rightarrow> time option msg_op" where
  "effect_deadline h effect current =
     (case ef_retention effect of
        RETENTION_NONE \<Rightarrow> ret current
      | RETENTION_CLEAR \<Rightarrow> ret None
      | RETENTION_START \<Rightarrow>
          bind (gets (\<lambda>b. terminal_ttl (mb_retention b))) (\<lambda>ttl.
            case ttl of
              None \<Rightarrow> ret None
            | Some t \<Rightarrow> bind (read_monotonic h) (\<lambda>now. ret (Some (now + t)))))"

definition schedule_expiry :: "storage_effect \<Rightarrow> expiry_key \<Rightarrow> time option \<Rightarrow> memory_backend \<Rightarrow> memory_backend" where
  "schedule_expiry effect k deadline b =
     (if ef_retention effect = RETENTION_NONE then b
      else b\<lparr>mb_expirations := set_deadline k deadline (mb_expirations b)\<rparr>)"

definition effect_error :: "channel_state \<Rightarrow> storage_effect \<Rightarrow> int \<Rightarrow> int \<Rightarrow> memory_backend \<Rightarrow> msg_error option" where
  "effect_error c effect bytes records b =
     (if max_total_bytes (mb_limits b) < mb_total_bytes b + bytes then
        Some (MessagingQuotaExceeded ''total_bytes'' (max_total_bytes (mb_limits b)))
      else if max_total_records (mb_limits b) < mb_total_records b + records then
        Some (MessagingQuotaExceeded ''total_records'' (max_total_records (mb_limits b)))
      else (case (ef_channel effect, ch_codec c) of
          (Some stored, Some codec) \<Rightarrow>
            if codec \<noteq> sc_codec stored then Some (CodecMismatch codec (sc_codec stored)) else None
        | _ \<Rightarrow> None))"

text \<open>The exceptions for an effect that has no stream to work on, after it was charged.\<close>

definition streamless_error :: "storage_effect \<Rightarrow> msg_error option" where
  "streamless_error effect =
     (if ef_runs effect \<noteq> [] then Some (MsgRuntimeError ''Messaging run effect requires a stream'')
      else if ef_message effect \<noteq> None then Some (MsgRuntimeError ''Messaging message effect requires a stream'')
      else if ef_tombstone effect \<noteq> None then Some (MsgRuntimeError ''Messaging tombstone effect requires a stream'')
      else None)"

definition apply_effect :: "msg_host \<Rightarrow> py_str \<Rightarrow> run_identity \<Rightarrow> storage_effect \<Rightarrow> unit msg_op" where
  "apply_effect h channel identity effect =
     bind (gets (channel_at channel)) (\<lambda>c.
     let thread = mh_thread_key h identity;
         (bytes, records, generation_records) = effect_capacity c thread effect;
         register = (ch_codec c = None \<and> ef_channel effect \<noteq> None);
         c' = effect_channel c effect
     in seq (check_state (effect_error c effect bytes records))
        (seq (modify (charge_backend bytes records))
        (case effect_stream c thread effect of
           None \<Rightarrow> seq (modify (put_channel register c')) (check (streamless_error effect))
         | Some state \<Rightarrow>
             bind (effect_deadline h effect (sm_expires state)) (\<lambda>deadline.
             let state' = (updated_stream identity effect bytes generation_records state)\<lparr>sm_expires := deadline\<rparr>
             in seq (modify (put_channel register (put_stream thread state' c')))
                (seq (modify (schedule_expiry effect (channel, thread) deadline))
                (case ef_tombstone effect of
                   None \<Rightarrow> ret ()
                 | Some reason \<Rightarrow> modify (retire_generation (put_stream thread state' c') thread state' reason)))))))"

section \<open>Committing a transition\<close>

definition selected_generation :: "msg_transition \<Rightarrow> int option" where
  "selected_generation tn =
     (if tn_kind tn = FINISH_CLEANUP then tn_cleanup_generation tn
      else map_option rf_generation (tn_reference tn))"

definition commit_transition :: "msg_host \<Rightarrow> msg_transition \<Rightarrow> transition_result msg_op" where
  "commit_transition h tn =
     seq (if_op (tn_kind tn \<in> {PREPARE_RUN, APPEND_MESSAGE, PUBLISH_MESSAGE}) (reclaim_expired h))
     (seq (expire_if_due h (tn_channel tn) (mh_thread_key h (tn_identity tn)))
     (bind (memory_snapshot h (tn_channel tn) (tn_identity tn) (selected_generation tn) (tn_message_id tn) True) (\<lambda>sn.
      bind (lift (resolve_transition (mh_sha256 h) tn sn)) (\<lambda>effect.
      seq (apply_effect h (tn_channel tn) (tn_identity tn) effect)
        (ret (ef_result effect))))))"

section \<open>Reading committed messages\<close>

definition query_error :: "message_query \<Rightarrow> msg_error option" where
  "query_error q = first_error
     [if mq_after q < 0 then Some (MsgValueError ''after_sequence must be non-negative'') else None,
      if \<not> (1 \<le> mq_limit q \<and> mq_limit q \<le> 1000)
      then Some (MsgValueError ''limit must be between 1 and 1000'') else None]"

definition page_through :: "message_query \<Rightarrow> int \<Rightarrow> run_record option \<Rightarrow> int" where
  "page_through q latest run =
     (let through = (case mq_through q of None \<Rightarrow> latest | Some t \<Rightarrow> min t latest)
      in case run of
           None \<Rightarrow> through
         | Some r \<Rightarrow> if mq_stop_at_terminal q \<and> is_final_run_status (rr_status r)
             then min through (rr_end r) else through)"

text \<open>Python's slice \<open>xs[a:b]\<close> for \<open>0 <= a <= len(xs)\<close>: a negative bound counts from the end.\<close>

definition py_slice :: "'a list \<Rightarrow> int \<Rightarrow> int \<Rightarrow> 'a list" where
  "py_slice xs a b =
     (let stop = (if b < 0 then max 0 (b + int (length xs)) else b)
      in drop (nat a) (take (nat stop) xs))"

definition page_of :: "message_query \<Rightarrow> stream_state \<Rightarrow> message_page" where
  "page_of q state =
     (let latest = int (length (sm_messages state));
          run = dget (sm_runs state) (id_run (mq_identity q));
          through = page_through q latest run
      in \<lparr>mp_generation = sm_generation state, mp_latest = latest,
          mp_messages = py_slice (sm_messages state) (mq_after q) (min through (mq_after q + mq_limit q)),
          mp_cursor = \<lparr>cc_message_sequence = latest, cc_control_sequence = sm_control state\<rparr>,
          mp_run = map_option (\<lambda>r. stored_memory_run r (sm_generation state)) run\<rparr>)"

text \<open>The generation a reader asked for, or why it cannot be read.\<close>

definition readable_stream ::
    "msg_host \<Rightarrow> py_str \<Rightarrow> run_identity \<Rightarrow> int \<Rightarrow> memory_backend \<Rightarrow> msg_error + stream_state" where
  "readable_stream h channel identity generation b =
     (case stream_at channel (mh_thread_key h identity) b of
        None \<Rightarrow> Inl (generation_unavailable h channel identity generation b)
      | Some state \<Rightarrow>
          if sm_generation state \<noteq> generation then Inl (generation_unavailable h channel identity generation b)
          else if sm_disposition state \<noteq> STREAM_ACTIVE then
            Inl (disposition_error channel identity generation (sm_disposition state))
          else Inr state)"

definition read_committed :: "msg_host \<Rightarrow> message_query \<Rightarrow> message_page msg_op" where
  "read_committed h q =
     seq (check (query_error q))
     (seq (expire_if_due h (mq_channel q) (mh_thread_key h (mq_identity q)))
     (bind (try_gets (readable_stream h (mq_channel q) (mq_identity q) (mq_generation q))) (\<lambda>state.
      seq (check (if int (length (sm_messages state)) < mq_after q
             then Some (InvalidCursor (mq_after q) (int (length (sm_messages state)))) else None))
        (ret (page_of q state)))))"

text \<open>
  \<open>wait_for_messaging_change\<close> up to the point where it would suspend: whether the caller has
  to wait for a notification.
\<close>

definition must_wait :: "msg_host \<Rightarrow> py_str \<Rightarrow> run_identity \<Rightarrow> int \<Rightarrow> change_cursor \<Rightarrow> bool msg_op" where
  "must_wait h channel identity generation after =
     seq (expire_if_due h channel (mh_thread_key h identity))
     (bind (try_gets (readable_stream h channel identity generation)) (\<lambda>state.
       ret (int (length (sm_messages state)) = cc_message_sequence after \<and>
         sm_control state = cc_control_sequence after)))"

section \<open>Purging a sealed generation\<close>

definition release_records :: "int \<Rightarrow> int \<Rightarrow> stream_state \<Rightarrow> stream_state" where
  "release_records bytes records state = charge_stream (- bytes) (- records) state"

text \<open>Removing the last message and the oldest run, with the bytes each releases.\<close>

definition last_message_bytes :: "stream_state \<Rightarrow> int" where
  "last_message_bytes state =
     (let m = last (sm_messages state)
      in int (length (me_payload m)) +
         (case dget (sm_signatures state) (me_message_id m) of
            None \<Rightarrow> 0 | Some (_, _, _, checkpoint) \<Rightarrow> checkpoint_bytes checkpoint))"

definition drop_message :: "stream_state \<Rightarrow> stream_state" where
  "drop_message state =
     (let i = me_message_id (last (sm_messages state))
      in release_records (last_message_bytes state) 1
           (state\<lparr>sm_messages := butlast (sm_messages state), sm_by_id := ddel i (sm_by_id state),
              sm_signatures := ddel i (sm_signatures state)\<rparr>))"

definition first_run_bytes :: "stream_state \<Rightarrow> int" where
  "first_run_bytes state = checkpoint_bytes (rr_checkpoint (snd (hd (sm_runs state))))"

definition drop_run :: "stream_state \<Rightarrow> stream_state" where
  "drop_run state = release_records (first_run_bytes state) 1 (state\<lparr>sm_runs := tl (sm_runs state)\<rparr>)"

text \<open>The two loops of \<open>purge_stream_generation\<close>, with the bytes and records released so far.\<close>

function purge_messages :: "int \<Rightarrow> stream_state \<Rightarrow> int \<Rightarrow> int \<Rightarrow> stream_state \<times> int \<times> int" where
  "purge_messages maximum state bytes removed =
     (if sm_messages state = [] \<or> maximum \<le> removed then (state, bytes, removed)
      else purge_messages maximum (drop_message state) (bytes + last_message_bytes state) (removed + 1))"
  by pat_completeness auto
termination
  by (relation "measure (\<lambda>(maximum, state, bytes, removed). length (sm_messages state))")
    (auto simp: drop_message_def release_records_def charge_stream_def Let_def)

function purge_runs :: "int \<Rightarrow> stream_state \<Rightarrow> int \<Rightarrow> int \<Rightarrow> stream_state \<times> int \<times> int" where
  "purge_runs maximum state bytes removed =
     (if sm_runs state = [] \<or> maximum \<le> removed then (state, bytes, removed)
      else purge_runs maximum (drop_run state) (bytes + first_run_bytes state) (removed + 1))"
  by pat_completeness auto
termination
  by (relation "measure (\<lambda>(maximum, state, bytes, removed). length (sm_runs state))")
    (auto simp: drop_run_def release_records_def charge_stream_def)

declare purge_messages.simps [simp del] purge_runs.simps [simp del]

definition purge_state :: "int \<Rightarrow> stream_state \<Rightarrow> stream_state \<times> int \<times> int" where
  "purge_state maximum state =
     (let (state', bytes, removed) = purge_messages maximum state 0 0
      in purge_runs maximum state' bytes removed)"

definition purge_generation :: "msg_host \<Rightarrow> generation_purge \<Rightarrow> purge_result msg_op" where
  "purge_generation h p =
     seq (check (if gp_maximum p < 1 then Some (MsgValueError ''maximum_records must be positive'') else None))
     (bind (gets (\<lambda>b. (channel_at (gp_channel p) b, stream_at (gp_channel p) (mh_thread_key h (gp_identity p)) b)))
       (\<lambda>(c, found).
      case found of
        None \<Rightarrow> ret \<lparr>pr_removed = 0, pr_complete = True\<rparr>
      | Some state \<Rightarrow>
          if sm_generation state \<noteq> gp_generation p then ret \<lparr>pr_removed = 0, pr_complete = True\<rparr>
          else if sm_disposition state \<notin> {STREAM_DELETING, STREAM_EXPIRING} then
            fail (StreamDeleteConflict (gp_channel p) (gp_identity p)
              (case sm_active state of Some active \<Rightarrow> active | None \<Rightarrow> gp_identity p))
          else let (state', bytes, removed) = purge_state (gp_maximum p) state
            in seq (modify (charge_backend (- bytes) (- removed)))
               (seq (modify (put_channel True (put_stream (mh_thread_key h (gp_identity p)) state' c)))
                 (ret \<lparr>pr_removed = removed,
                    pr_complete = (sm_messages state' = [] \<and> sm_runs state' = [])\<rparr>))))"

end
