(* ===== verification/Msg_Memory_Inv.thy ===== *)
theory Msg_Memory_Inv
  imports Msg_Memory Msg_Transition_Cases
begin

text \<open>
  The invariant of the in-memory backend and the relation between an earlier and a later
  state. \<open>stream_ok\<close> is the invariant of one generation: a gapless log whose index and
  signatures agree with it, at most one live producer, and exact accounting of what the
  generation retains. \<open>backend_inv\<close> adds channels, deadlines and the totals. \<open>later\<close> states
  what no operation takes back.
\<close>

declare split_paired_All [simp del] split_paired_Ex [simp del]

section \<open>One generation\<close>

text \<open>Two identities share a stored thread exactly when they name the same thread.\<close>

definition msg_host_ok :: "msg_host \<Rightarrow> bool" where
  "msg_host_ok h \<longleftrightarrow> (\<forall>i j. mh_thread_key h i = mh_thread_key h j \<longleftrightarrow>
     id_namespace i = id_namespace j \<and> id_thread i = id_thread j)"

text \<open>The signature of a stored message can be computed again.\<close>

definition signable :: "message_envelope \<Rightarrow> bool" where
  "signable m \<longleftrightarrow> required_identifier ''identity.run_id'' (id_run (me_identity m)) = None \<and>
     required_identifier ''codec_id'' (me_codec m) = None"

definition log_ok :: "stream_state \<Rightarrow> bool" where
  "log_ok st \<longleftrightarrow>
     (\<forall>i < length (sm_messages st). me_seq (sm_messages st ! i) = int i + 1) \<and>
     distinct (map me_message_id (sm_messages st)) \<and> wf_dict (sm_by_id st) \<and> wf_dict (sm_signatures st) \<and>
     (\<forall>i m. dget (sm_by_id st) i = Some m \<longleftrightarrow> m \<in> set (sm_messages st) \<and> me_message_id m = i) \<and>
     (\<forall>m \<in> set (sm_messages st). \<exists>cp. dget (sm_signatures st) (me_message_id m) =
        Some (id_run (me_identity m), me_codec m, me_payload m, cp)) \<and>
     (\<forall>i. dget (sm_by_id st) i = None \<longrightarrow> dget (sm_signatures st) i = None) \<and>
     (\<forall>m \<in> set (sm_messages st). signable m)"

definition run_ok :: "msg_host \<Rightarrow> py_str \<Rightarrow> stream_state \<Rightarrow> py_str \<Rightarrow> run_record \<Rightarrow> bool" where
  "run_ok h thread st run_id r \<longleftrightarrow>
     id_run (rr_identity r) = run_id \<and> mh_thread_key h (rr_identity r) = thread \<and>
     (rr_token r = None \<longleftrightarrow> is_final_run_status (rr_status r)) \<and>
     (\<not> is_final_run_status (rr_status r) \<longrightarrow> sm_active st = Some (rr_identity r)) \<and>
     (is_final_run_status (rr_status r) \<longrightarrow> rr_settling r) \<and>
     (sm_disposition st = STREAM_ACTIVE \<longrightarrow>
        0 \<le> rr_start r \<and> rr_start r \<le> rr_end r \<and> rr_end r \<le> int (length (sm_messages st)))"

definition runs_ok :: "msg_host \<Rightarrow> py_str \<Rightarrow> stream_state \<Rightarrow> bool" where
  "runs_ok h thread st \<longleftrightarrow> wf_dict (sm_runs st) \<and>
     (\<forall>run_id r. dget (sm_runs st) run_id = Some r \<longrightarrow> run_ok h thread st run_id r) \<and>
     (\<forall>active. sm_active st = Some active \<longrightarrow> (\<exists>r. dget (sm_runs st) (id_run active) = Some r \<and>
        rr_identity r = active \<and> \<not> is_final_run_status (rr_status r)))"

definition message_weight :: "stream_state \<Rightarrow> message_envelope \<Rightarrow> int" where
  "message_weight st m = int (length (me_payload m)) +
     (case dget (sm_signatures st) (me_message_id m) of
        None \<Rightarrow> 0 | Some (_, _, _, checkpoint) \<Rightarrow> checkpoint_bytes checkpoint)"

definition run_weight :: "run_record \<Rightarrow> int" where
  "run_weight r = checkpoint_bytes (rr_checkpoint r)"

definition counts_ok :: "stream_state \<Rightarrow> bool" where
  "counts_ok st \<longleftrightarrow>
     sm_retained_records st = 1 + int (length (sm_messages st)) + int (length (sm_runs st)) \<and>
     sm_retained_bytes st = sum_list (map (message_weight st) (sm_messages st)) + dsum run_weight (sm_runs st) \<and>
     (sm_disposition st = STREAM_ACTIVE \<longrightarrow>
        sm_payload_bytes st = sum_list (map (\<lambda>m. int (length (me_payload m))) (sm_messages st)))"

definition shape_ok :: "stream_state \<Rightarrow> bool" where
  "shape_ok st \<longleftrightarrow> 1 \<le> sm_generation st \<and>
     sm_disposition st \<in> {STREAM_ACTIVE, STREAM_DELETING, STREAM_EXPIRING} \<and>
     sm_deleted st = (sm_disposition st \<noteq> STREAM_ACTIVE) \<and>
     (sm_expires st \<noteq> None \<longrightarrow> sm_active st = None \<and> sm_disposition st = STREAM_ACTIVE) \<and>
     (sm_disposition st \<noteq> STREAM_ACTIVE \<longrightarrow> sm_active st = None)"

definition stream_ok :: "msg_host \<Rightarrow> py_str \<Rightarrow> stream_state \<Rightarrow> bool" where
  "stream_ok h thread st \<longleftrightarrow> log_ok st \<and> runs_ok h thread st \<and> counts_ok st \<and> shape_ok st"

lemma log_ok_cong:
  "log_ok st \<Longrightarrow> sm_messages st' = sm_messages st \<Longrightarrow> sm_by_id st' = sm_by_id st \<Longrightarrow>
     sm_signatures st' = sm_signatures st \<Longrightarrow> log_ok st'"
  by (simp add: log_ok_def)

lemma new_stream_ok: "1 \<le> g \<Longrightarrow> stream_ok h thread (new_stream_state g)"
  by (simp add: stream_ok_def log_ok_def runs_ok_def counts_ok_def shape_ok_def new_stream_state_def)

lemma stream_ok_run:
  "stream_ok h thread st \<Longrightarrow> dget (sm_runs st) run_id = Some r \<Longrightarrow> run_ok h thread st run_id r"
  by (simp add: stream_ok_def runs_ok_def)

section \<open>What later states of a generation keep\<close>

definition run_later :: "run_record \<Rightarrow> run_record \<Rightarrow> bool" where
  "run_later r r' \<longleftrightarrow>
     rr_identity r' = rr_identity r \<and> rr_start r' = rr_start r \<and> rr_digest r' = rr_digest r \<and>
     rr_fence r \<le> rr_fence r' \<and> rr_end r \<le> rr_end r' \<and>
     (rr_settling r \<longrightarrow> rr_settling r') \<and> (rr_closed r \<longrightarrow> rr_closed r') \<and> (rr_ready r \<longrightarrow> rr_ready r') \<and>
     (rr_status r = RUN_CANCEL_REQUESTED \<longrightarrow> rr_status r' \<notin> {RUN_RUNNING, RUN_COMPLETED}) \<and>
     (is_final_run_status (rr_status r) \<longrightarrow> r' = r)"

definition same_generation :: "stream_state \<Rightarrow> stream_state \<Rightarrow> bool" where
  "same_generation st st' \<longleftrightarrow> sm_generation st' = sm_generation st \<and>
     (sm_disposition st \<noteq> STREAM_ACTIVE \<longrightarrow> sm_disposition st' = sm_disposition st) \<and>
     (sm_disposition st' = STREAM_ACTIVE \<longrightarrow>
        (\<exists>ms. sm_messages st' = sm_messages st @ ms) \<and> sm_control st \<le> sm_control st' \<and>
        (\<forall>i s. dget (sm_signatures st) i = Some s \<longrightarrow> dget (sm_signatures st') i = Some s) \<and>
        (\<forall>run_id r. dget (sm_runs st) run_id = Some r \<longrightarrow>
           (\<exists>r'. dget (sm_runs st') run_id = Some r' \<and> run_later r r')))"

lemma run_later_refl [simp]: "run_later r r"
  by (auto simp: run_later_def)

lemma run_later_trans: "run_later a b \<Longrightarrow> run_later b c \<Longrightarrow> run_later a c"
  by (cases "rr_status b") (auto simp: run_later_def)

lemma same_generation_refl [simp]: "same_generation st st"
  by (simp add: same_generation_def)

lemma same_generation_trans: "same_generation a b \<Longrightarrow> same_generation b c \<Longrightarrow> same_generation a c"
proof -
  assume ab: "same_generation a b" and bc: "same_generation b c"
  show ?thesis
  proof (cases "sm_disposition c = STREAM_ACTIVE")
    case True
    then have b: "sm_disposition b = STREAM_ACTIVE" using bc by (auto simp: same_generation_def)
    have "\<exists>ms. sm_messages c = sm_messages a @ ms"
      using ab bc b True by (auto simp: same_generation_def)
    moreover have "\<exists>r'. dget (sm_runs c) i = Some r' \<and> run_later r r'" if r: "dget (sm_runs a) i = Some r" for i r
    proof -
      obtain q where q: "dget (sm_runs b) i = Some q" "run_later r q"
        using ab b r unfolding same_generation_def by blast
      obtain r' where "dget (sm_runs c) i = Some r'" "run_later q r'"
        using bc True q(1) unfolding same_generation_def by blast
      then show ?thesis using q(2) run_later_trans by blast
    qed
    moreover have "\<forall>i s. dget (sm_signatures a) i = Some s \<longrightarrow> dget (sm_signatures c) i = Some s"
      using ab bc b True by (simp add: same_generation_def)
    moreover have "sm_control a \<le> sm_control c"
      using ab bc b True by (simp add: same_generation_def)
    ultimately show ?thesis using ab bc b True by (simp add: same_generation_def)
  next
    case False
    then show ?thesis using ab bc by (simp add: same_generation_def)
  qed
qed

section \<open>Changes of a generation\<close>

text \<open>Replacing a known run by one with the same identity.\<close>

lemma apply_known_run:
  "dget (sm_runs st) run_id = Some r \<Longrightarrow> id_run (sr_identity run) = run_id \<Longrightarrow>
     apply_run run st = st\<lparr>sm_runs := dset run_id (overwrite_run (rr_identity r) run) (sm_runs st)\<rparr>"
  by (simp add: apply_run_def Let_def)

lemma apply_new_run:
  "dget (sm_runs st) (id_run (sr_identity run)) = None \<Longrightarrow>
     apply_run run st = st\<lparr>sm_runs := dset (id_run (sr_identity run)) (overwrite_run (sr_identity run) run) (sm_runs st)\<rparr>"
  by (simp add: apply_run_def Let_def)

lemma stored_run_simps [simp]:
  "sr_identity (stored_memory_run r g) = rr_identity r" "sr_generation (stored_memory_run r g) = g"
  "sr_status (stored_memory_run r g) = rr_status r" "sr_settling (stored_memory_run r g) = rr_settling r"
  "sr_token (stored_memory_run r g) = rr_token r" "sr_fence (stored_memory_run r g) = rr_fence r"
  "sr_checkpoint (stored_memory_run r g) = rr_checkpoint r" "sr_closed (stored_memory_run r g) = rr_closed r"
  "sr_ready (stored_memory_run r g) = rr_ready r" "sr_request_digest (stored_memory_run r g) = rr_digest r"
  "sr_start (stored_memory_run r g) = rr_start r" "sr_end (stored_memory_run r g) = rr_end r"
  "sr_cancellable (stored_memory_run r g) = rr_cancellable r"
  "sr_recoverable (stored_memory_run r g) = rr_recoverable r"
  "sr_lease_active (stored_memory_run r g) = (\<not> is_final_run_status (rr_status r) \<and> rr_token r \<noteq> None)"
  "sr_local_failure (stored_memory_run r g) = rr_error r"
  by (simp_all add: stored_memory_run_def)

lemma overwrite_run_simps [simp]:
  "rr_identity (overwrite_run i run) = i" "rr_start (overwrite_run i run) = sr_start run"
  "rr_end (overwrite_run i run) = sr_end run" "rr_token (overwrite_run i run) = sr_token run"
  "rr_fence (overwrite_run i run) = sr_fence run" "rr_cancellable (overwrite_run i run) = sr_cancellable run"
  "rr_recoverable (overwrite_run i run) = sr_recoverable run" "rr_digest (overwrite_run i run) = sr_request_digest run"
  "rr_status (overwrite_run i run) = sr_status run" "rr_settling (overwrite_run i run) = sr_settling run"
  "rr_closed (overwrite_run i run) = sr_closed run" "rr_ready (overwrite_run i run) = sr_ready run"
  "rr_error (overwrite_run i run) = sr_local_failure run" "rr_checkpoint (overwrite_run i run) = sr_checkpoint run"
  by (simp_all add: overwrite_run_def)

text \<open>
  One rule for every change that replaces one run, and possibly the active run, the control
  cursor and the deadline, but no message: the new run and the new active run must fit.
\<close>

definition replaced_run :: "stream_state \<Rightarrow> py_str \<Rightarrow> run_record \<Rightarrow> stream_state \<Rightarrow> bool" where
  "replaced_run st run_id r' st' \<longleftrightarrow>
     sm_generation st' = sm_generation st \<and> sm_disposition st' = sm_disposition st \<and>
     sm_deleted st' = sm_deleted st \<and>
     sm_messages st' = sm_messages st \<and> sm_by_id st' = sm_by_id st \<and> sm_signatures st' = sm_signatures st \<and>
     sm_payload_bytes st' = sm_payload_bytes st \<and> sm_runs st' = dset run_id r' (sm_runs st) \<and>
     sm_retained_bytes st' = sm_retained_bytes st + run_weight r' -
       (case dget (sm_runs st) run_id of None \<Rightarrow> 0 | Some r \<Rightarrow> run_weight r) \<and>
     sm_retained_records st' = sm_retained_records st + of_bool (dget (sm_runs st) run_id = None) \<and>
     sm_control st \<le> sm_control st'"

lemma replaced_run_ok:
  assumes ok: "stream_ok h thread st" and new: "replaced_run st run_id r' st'"
    and r': "run_ok h thread st' run_id r'"
    and active: "sm_active st' = (if is_final_run_status (rr_status r') then None else Some (rr_identity r'))"
    and single: "\<And>a. sm_active st = Some a \<Longrightarrow> id_run a = run_id"
    and expires: "sm_expires st' \<noteq> None \<Longrightarrow> sm_active st' = None"
    and open_stream: "sm_disposition st = STREAM_ACTIVE"
  shows "stream_ok h thread st'"
proof -
  have log: "log_ok st" and runs: "runs_ok h thread st" and counts: "counts_ok st" and shape: "shape_ok st"
    using ok by (simp_all add: stream_ok_def)
  have "log_ok st'" using log_ok_cong [OF log] new by (simp add: replaced_run_def)
  moreover have "runs_ok h thread st'"
  proof -
    have "run_ok h thread st' i r" if "dget (sm_runs st') i = Some r" for i r
    proof (cases "i = run_id")
      case True
      then show ?thesis using that r' new by (simp add: replaced_run_def)
    next
      case False
      then have known: "run_ok h thread st i r" using that runs new by (simp add: replaced_run_def runs_ok_def)
      have "is_final_run_status (rr_status r)"
      proof (rule ccontr)
        assume "\<not> is_final_run_status (rr_status r)"
        then have "sm_active st = Some (rr_identity r)" "id_run (rr_identity r) = i" using known by (simp_all add: run_ok_def)
        with single False show False by auto
      qed
      with known new show ?thesis by (simp add: run_ok_def replaced_run_def)
    qed
    then show ?thesis
      using runs new active r' by (auto simp: runs_ok_def replaced_run_def run_ok_def split: if_splits)
  qed
  moreover have "counts_ok st'"
  proof -
    have wf: "wf_dict (sm_runs st)" using runs by (simp add: runs_ok_def)
    have "message_weight st' = message_weight st"
      using new by (intro ext) (simp add: message_weight_def replaced_run_def)
    then show ?thesis
      using counts new wf
      by (auto simp: counts_ok_def replaced_run_def dsum_dset length_dset split: option.splits)
  qed
  moreover have "shape_ok st'"
    using shape new expires open_stream by (auto simp: shape_ok_def replaced_run_def)
  ultimately show ?thesis by (simp add: stream_ok_def)
qed

lemma replaced_run_later:
  assumes "stream_ok h thread st" and "replaced_run st run_id r' st'"
    and "\<And>r. dget (sm_runs st) run_id = Some r \<Longrightarrow> run_later r r'"
  shows "same_generation st st'"
  using assms by (auto simp: same_generation_def replaced_run_def)

text \<open>Appending a message, together with the change of its run.\<close>

lemma sum_list_cong_weight:
  "(\<And>m. m \<in> set ms \<Longrightarrow> f m = g m) \<Longrightarrow> sum_list (map f ms) = (sum_list (map g ms) :: int)"
  by (induction ms) auto

lemma append_message_ok:
  assumes ok: "stream_ok h thread st" and open_stream: "sm_disposition st = STREAM_ACTIVE"
    and r: "dget (sm_runs st) run_id = Some r" "\<not> is_final_run_status (rr_status r)"
    and fresh: "dget (sm_by_id st) (me_message_id m) = None"
    and m: "me_seq m = int (length (sm_messages st)) + 1" "id_run (me_identity m) = run_id" "signable m"
    and r': "run_ok h thread st' run_id r'" "\<not> is_final_run_status (rr_status r')" "rr_identity r' = rr_identity r"
    and st': "st' = st\<lparr>sm_messages := sm_messages st @ [m], sm_by_id := dset (me_message_id m) m (sm_by_id st),
       sm_signatures := dset (me_message_id m) (id_run (me_identity m), me_codec m, me_payload m, cp) (sm_signatures st),
       sm_runs := dset run_id r' (sm_runs st),
       sm_payload_bytes := sm_payload_bytes st + int (length (me_payload m)),
       sm_retained_bytes := sm_retained_bytes st + (run_weight r' - run_weight r +
         (int (length (me_payload m)) + checkpoint_bytes cp)),
       sm_retained_records := sm_retained_records st + 1\<rparr>"
  shows "stream_ok h thread st'"
proof -
  have log: "log_ok st" and runs: "runs_ok h thread st" and counts: "counts_ok st" and shape: "shape_ok st"
    using ok by (simp_all add: stream_ok_def)
  have absent: "me_message_id m \<notin> me_message_id ` set (sm_messages st)"
    using log fresh by (force simp: log_ok_def)
  have "log_ok st'"
    unfolding log_ok_def
  proof (intro conjI)
    show "\<forall>i<length (sm_messages st'). me_seq (sm_messages st' ! i) = int i + 1"
      using log m by (auto simp: st' log_ok_def nth_append less_Suc_eq)
    show "\<forall>i k. dget (sm_by_id st') i = Some k \<longleftrightarrow> k \<in> set (sm_messages st') \<and> me_message_id k = i"
      using log absent by (auto simp: st' log_ok_def) (metis imageI)
    show "\<forall>k\<in>set (sm_messages st'). \<exists>cp. dget (sm_signatures st') (me_message_id k) =
        Some (id_run (me_identity k), me_codec k, me_payload k, cp)"
      using log absent by (auto simp: st' log_ok_def image_iff)
  qed (use log absent m(3) in \<open>auto simp: st' log_ok_def\<close>)
  moreover have "runs_ok h thread st'"
  proof -
    have active: "sm_active st = Some (rr_identity r)"
      using stream_ok_run [OF ok r(1)] r(2) by (simp add: run_ok_def)
    have "run_ok h thread st' i k" if "dget (sm_runs st') i = Some k" for i k
    proof (cases "i = run_id")
      case True
      then show ?thesis using that r' by (simp add: st')
    next
      case False
      then have "run_ok h thread st i k" using that runs by (simp add: st' runs_ok_def)
      then show ?thesis by (auto simp: run_ok_def st')
    qed
    moreover have "id_run (rr_identity r) = run_id" using stream_ok_run [OF ok r(1)] by (simp add: run_ok_def)
    ultimately show ?thesis
      using runs r' active by (auto simp: runs_ok_def st')
  qed
  moreover have "counts_ok st'"
  proof -
    have "message_weight st' k = message_weight st k" if "k \<in> set (sm_messages st)" for k
    proof -
      have "me_message_id k \<noteq> me_message_id m" using that absent by (metis imageI)
      then show ?thesis by (simp add: message_weight_def st')
    qed
    then have "sum_list (map (message_weight st') (sm_messages st)) = sum_list (map (message_weight st) (sm_messages st))"
      by (rule sum_list_cong_weight)
    moreover have "message_weight st' m = int (length (me_payload m)) + checkpoint_bytes cp"
      by (simp add: message_weight_def st')
    ultimately show ?thesis
      using counts r(1) runs open_stream
      by (simp add: counts_ok_def st' dsum_dset length_dset runs_ok_def)
  qed
  moreover have "shape_ok st'" using shape by (simp add: shape_ok_def st')
  ultimately show ?thesis by (simp add: stream_ok_def)
qed

section \<open>Channels and the backend\<close>

definition channel_ok :: "msg_host \<Rightarrow> py_str \<Rightarrow> channel_state \<Rightarrow> bool" where
  "channel_ok h channel c \<longleftrightarrow>
     ch_channel c = channel \<and> ch_codec c \<noteq> None \<and>
     wf_dict (ch_streams c) \<and> wf_dict (ch_next_generations c) \<and> wf_dict (ch_tombstones c) \<and>
     (\<forall>t. wf_dict (tombstones_of c t)) \<and> (\<forall>t g. dget (tombstones_of c t) g \<noteq> None \<longrightarrow> 1 \<le> g) \<and>
     (\<forall>t st. dget (ch_streams c) t = Some st \<longrightarrow> stream_ok h t st \<and>
        (\<forall>g. dget (tombstones_of c t) g \<noteq> None \<longrightarrow> g < sm_generation st))"

text \<open>What a channel retains: itself, its threads, its live generations and its tombstones.\<close>

definition channel_bytes :: "channel_state \<Rightarrow> int" where
  "channel_bytes c = dsum sm_retained_bytes (ch_streams c)"

definition channel_threads :: "channel_state \<Rightarrow> py_str set" where
  "channel_threads c = set (dkeys (ch_streams c)) \<union> set (dkeys (ch_next_generations c))"

definition channel_records :: "channel_state \<Rightarrow> int" where
  "channel_records c = of_bool (ch_codec c \<noteq> None) + int (card (channel_threads c)) +
     dsum sm_retained_records (ch_streams c) + dsum (\<lambda>d. int (length d)) (ch_tombstones c)"

definition backend_inv :: "msg_host \<Rightarrow> memory_backend \<Rightarrow> bool" where
  "backend_inv h b \<longleftrightarrow>
     wf_dict (mb_channels b) \<and> (\<forall>k c. dget (mb_channels b) k = Some c \<longrightarrow> channel_ok h k c) \<and>
     index_inv (mb_expirations b) \<and>
     (\<forall>k t d. dget (xi_deadlines (mb_expirations b)) (k, t) = Some d \<longrightarrow>
        (\<exists>c st. dget (mb_channels b) k = Some c \<and> dget (ch_streams c) t = Some st \<and> sm_expires st = Some d)) \<and>
     mb_total_bytes b = dsum channel_bytes (mb_channels b) \<and>
     mb_total_records b = dsum channel_records (mb_channels b) \<and>
     mb_total_bytes b \<le> max_total_bytes (mb_limits b) \<and>
     mb_total_records b \<le> max_total_records (mb_limits b)"

text \<open>What later states of the backend keep.\<close>

definition later :: "memory_backend \<Rightarrow> memory_backend \<Rightarrow> bool" where
  "later b b' \<longleftrightarrow>
     mb_limits b' = mb_limits b \<and> mb_retention b' = mb_retention b \<and>
     (\<forall>k c. dget (mb_channels b) k = Some c \<longrightarrow>
       (\<exists>c'. dget (mb_channels b') k = Some c' \<and> ch_codec c' = ch_codec c \<and>
         (\<forall>t g reason. dget (tombstones_of c t) g = Some reason \<longrightarrow> dget (tombstones_of c' t) g = Some reason) \<and>
         (\<forall>t st. dget (ch_streams c) t = Some st \<longrightarrow>
            dget (tombstones_of c' t) (sm_generation st) \<noteq> None \<or>
            (\<exists>st'. dget (ch_streams c') t = Some st' \<and> same_generation st st'))))"

lemma later_refl [simp, intro]: "later b b"
  by (auto simp: later_def)

lemma later_trans [trans]: "later a b \<Longrightarrow> later b c \<Longrightarrow> later a c"
  unfolding later_def
proof (elim conjE, intro conjI allI impI)
  fix k x
  assume ab: "\<forall>k c. dget (mb_channels a) k = Some c \<longrightarrow>
       (\<exists>c'. dget (mb_channels b) k = Some c' \<and> ch_codec c' = ch_codec c \<and>
         (\<forall>t g reason. dget (tombstones_of c t) g = Some reason \<longrightarrow> dget (tombstones_of c' t) g = Some reason) \<and>
         (\<forall>t st. dget (ch_streams c) t = Some st \<longrightarrow>
            dget (tombstones_of c' t) (sm_generation st) \<noteq> None \<or>
            (\<exists>st'. dget (ch_streams c') t = Some st' \<and> same_generation st st')))"
    and bc: "\<forall>k c'. dget (mb_channels b) k = Some c' \<longrightarrow>
       (\<exists>c''. dget (mb_channels c) k = Some c'' \<and> ch_codec c'' = ch_codec c' \<and>
         (\<forall>t g reason. dget (tombstones_of c' t) g = Some reason \<longrightarrow> dget (tombstones_of c'' t) g = Some reason) \<and>
         (\<forall>t st. dget (ch_streams c') t = Some st \<longrightarrow>
            dget (tombstones_of c'' t) (sm_generation st) \<noteq> None \<or>
            (\<exists>st'. dget (ch_streams c'') t = Some st' \<and> same_generation st st')))"
    and x: "dget (mb_channels a) k = Some x"
  obtain y where y: "dget (mb_channels b) k = Some y" "ch_codec y = ch_codec x"
    "\<forall>t g reason. dget (tombstones_of x t) g = Some reason \<longrightarrow> dget (tombstones_of y t) g = Some reason"
    "\<forall>t st. dget (ch_streams x) t = Some st \<longrightarrow> dget (tombstones_of y t) (sm_generation st) \<noteq> None \<or>
       (\<exists>st'. dget (ch_streams y) t = Some st' \<and> same_generation st st')"
    using ab x by blast
  obtain z where z: "dget (mb_channels c) k = Some z" "ch_codec z = ch_codec y"
    "\<forall>t g reason. dget (tombstones_of y t) g = Some reason \<longrightarrow> dget (tombstones_of z t) g = Some reason"
    "\<forall>t st. dget (ch_streams y) t = Some st \<longrightarrow> dget (tombstones_of z t) (sm_generation st) \<noteq> None \<or>
       (\<exists>st'. dget (ch_streams z) t = Some st' \<and> same_generation st st')"
    using bc y(1) by blast
  have "dget (tombstones_of z t) (sm_generation st) \<noteq> None \<or>
      (\<exists>st'. dget (ch_streams z) t = Some st' \<and> same_generation st st')" if st: "dget (ch_streams x) t = Some st" for t st
  proof (cases "dget (tombstones_of y t) (sm_generation st) = None")
    case False
    then show ?thesis using z(3) by blast
  next
    case True
    then obtain u where u: "dget (ch_streams y) t = Some u" "same_generation st u" using y(4) st by blast
    then have "sm_generation u = sm_generation st" by (simp add: same_generation_def)
    then show ?thesis using z(4) u same_generation_trans by metis
  qed
  then show "\<exists>c'. dget (mb_channels c) k = Some c' \<and> ch_codec c' = ch_codec x \<and>
         (\<forall>t g reason. dget (tombstones_of x t) g = Some reason \<longrightarrow> dget (tombstones_of c' t) g = Some reason) \<and>
         (\<forall>t st. dget (ch_streams x) t = Some st \<longrightarrow>
            dget (tombstones_of c' t) (sm_generation st) \<noteq> None \<or>
            (\<exists>st'. dget (ch_streams c') t = Some st' \<and> same_generation st st'))"
    using z y by metis
qed simp_all

lemma backend_inv_reads [simp]:
  "backend_inv h (b\<lparr>mb_monotonic_reads := n\<rparr>) = backend_inv h b" "backend_inv h (b\<lparr>mb_utc_reads := n\<rparr>) = backend_inv h b"
  "later a (b\<lparr>mb_monotonic_reads := n\<rparr>) = later a b" "later a (b\<lparr>mb_utc_reads := n\<rparr>) = later a b"
  "later (b\<lparr>mb_monotonic_reads := n\<rparr>) a = later b a" "later (b\<lparr>mb_utc_reads := n\<rparr>) a = later b a"
  by (simp_all add: backend_inv_def later_def)

lemma backend_inv_channel: "backend_inv h b \<Longrightarrow> dget (mb_channels b) k = Some c \<Longrightarrow> channel_ok h k c"
  by (simp add: backend_inv_def)

lemma channel_ok_stream: "channel_ok h k c \<Longrightarrow> dget (ch_streams c) t = Some st \<Longrightarrow> stream_ok h t st"
  by (simp add: channel_ok_def)

lemma stream_at_known:
  "stream_at k t b = Some st \<Longrightarrow> \<exists>c. dget (mb_channels b) k = Some c \<and> dget (ch_streams c) t = Some st"
  by (auto simp: stream_at_def channel_at_def new_channel_state_def split: option.splits)

lemma stream_at_channel [simp]: "dget (mb_channels b) k = Some c \<Longrightarrow> stream_at k t b = dget (ch_streams c) t"
  by (simp add: stream_at_def channel_at_def)

lemma channel_at_known [simp]: "dget (mb_channels b) k = Some c \<Longrightarrow> channel_at k b = c"
  by (simp add: channel_at_def)

section \<open>Changing one stream of a channel\<close>

lemma tombstones_put [simp]: "tombstones_of (put_stream t st c) u = tombstones_of c u"
  by (simp add: tombstones_of_def put_stream_def)

lemma put_stream_simps [simp]:
  "ch_streams (put_stream t st c) = dset t st (ch_streams c)" "ch_channel (put_stream t st c) = ch_channel c"
  "ch_codec (put_stream t st c) = ch_codec c" "ch_next_generations (put_stream t st c) = ch_next_generations c"
  "ch_tombstones (put_stream t st c) = ch_tombstones c"
  by (simp_all add: put_stream_def)

lemma card_insert_threads:
  "int (card (channel_threads (put_stream t st c))) =
     int (card (channel_threads c)) + of_bool (t \<notin> channel_threads c)"
proof -
  have "channel_threads (put_stream t st c) = insert t (channel_threads c)"
    by (auto simp: channel_threads_def dkeys_dset)
  moreover have "finite (channel_threads c)" by (simp add: channel_threads_def)
  ultimately show ?thesis by (simp add: card_insert_if)
qed

lemma channel_ok_put:
  assumes "channel_ok h k c" and "stream_ok h t st"
    and "\<And>g. dget (tombstones_of c t) g \<noteq> None \<Longrightarrow> g < sm_generation st"
  shows "channel_ok h k (put_stream t st c)"
  using assms by (auto simp: channel_ok_def)

text \<open>The weights of a channel after one of its streams was replaced or created.\<close>

lemma channel_bytes_put:
  "wf_dict (ch_streams c) \<Longrightarrow> channel_bytes (put_stream t st c) = channel_bytes c + sm_retained_bytes st -
     (case dget (ch_streams c) t of None \<Rightarrow> 0 | Some old \<Rightarrow> sm_retained_bytes old)"
  by (simp add: channel_bytes_def dsum_dset)

lemma channel_records_put:
  "wf_dict (ch_streams c) \<Longrightarrow> channel_records (put_stream t st c) = channel_records c + sm_retained_records st -
     (case dget (ch_streams c) t of None \<Rightarrow> 0 | Some old \<Rightarrow> sm_retained_records old) +
     of_bool (t \<notin> channel_threads c)"
  using card_insert_threads [of t st c]
  by (simp add: channel_records_def dsum_dset)

end
