(* ===== verification/Msg_Memory_Sound.thy ===== *)
theory Msg_Memory_Sound
  imports Msg_Memory_Inv
begin

text \<open>
  Every operation of the in-memory backend keeps its invariant and leads to a later state,
  whether it returns or raises.
\<close>

section \<open>Storing a channel back\<close>

lemma weights_new_channel [simp]:
  "channel_bytes (new_channel_state k) = 0" "channel_records (new_channel_state k) = 0"
  by (simp_all add: channel_bytes_def channel_records_def channel_threads_def new_channel_state_def)

lemma dsum_channels:
  "wf_dict (mb_channels b) \<Longrightarrow> f (new_channel_state k) = 0 \<Longrightarrow>
     dsum f (dset k c (mb_channels b)) = dsum f (mb_channels b) + f c - f (channel_at k b)"
  by (simp add: dsum_dset channel_at_def split: option.split)

definition with_channel ::
    "py_str \<Rightarrow> channel_state \<Rightarrow> int \<Rightarrow> int \<Rightarrow> expiry_index \<Rightarrow> memory_backend \<Rightarrow> memory_backend" where
  "with_channel k c bytes records index b = b\<lparr>mb_channels := dset k c (mb_channels b),
     mb_total_bytes := mb_total_bytes b + bytes, mb_total_records := mb_total_records b + records,
     mb_expirations := index\<rparr>"

lemma with_channel_inv:
  assumes inv: "backend_inv h b" and ok: "channel_ok h k c"
    and weights: "channel_bytes c = channel_bytes (channel_at k b) + bytes"
      "channel_records c = channel_records (channel_at k b) + records"
    and bounds: "mb_total_bytes b + bytes \<le> max_total_bytes (mb_limits b)"
      "mb_total_records b + records \<le> max_total_records (mb_limits b)"
    and index: "index_inv index"
      "\<And>t d. dget (xi_deadlines index) (k, t) = Some d \<Longrightarrow> \<exists>st. dget (ch_streams c) t = Some st \<and> sm_expires st = Some d"
      "\<And>k' t d. k' \<noteq> k \<Longrightarrow> dget (xi_deadlines index) (k', t) = Some d \<Longrightarrow>
         dget (xi_deadlines (mb_expirations b)) (k', t) = Some d"
  shows "backend_inv h (with_channel k c bytes records index b)"
proof -
  have wf: "wf_dict (mb_channels b)" using inv by (simp add: backend_inv_def)
  have "mb_total_bytes b = dsum channel_bytes (mb_channels b)" "mb_total_records b = dsum channel_records (mb_channels b)"
    using inv by (simp_all add: backend_inv_def)
  then have totals: "mb_total_bytes b + bytes = dsum channel_bytes (dset k c (mb_channels b))"
    "mb_total_records b + records = dsum channel_records (dset k c (mb_channels b))"
    using weights dsum_channels [OF wf, of channel_bytes k c] dsum_channels [OF wf, of channel_records k c]
    by simp_all
  have deadlines: "\<exists>c' st. dget (dset k c (mb_channels b)) k' = Some c' \<and> dget (ch_streams c') t = Some st \<and> sm_expires st = Some d"
    if "dget (xi_deadlines index) (k', t) = Some d" for k' t d
  proof (cases "k' = k")
    case True
    then show ?thesis using index(2) that by auto
  next
    case False
    then show ?thesis using index(3) [OF False that] inv unfolding backend_inv_def by auto
  qed
  show ?thesis
    using inv ok bounds index(1) totals deadlines wf unfolding backend_inv_def with_channel_def by simp
qed

lemma with_channel_later:
  assumes "\<And>c'. dget (mb_channels b) k = Some c' \<Longrightarrow> ch_codec c = ch_codec c' \<and>
       (\<forall>t g reason. dget (tombstones_of c' t) g = Some reason \<longrightarrow> dget (tombstones_of c t) g = Some reason) \<and>
       (\<forall>t st. dget (ch_streams c') t = Some st \<longrightarrow> dget (tombstones_of c t) (sm_generation st) \<noteq> None \<or>
          (\<exists>st'. dget (ch_streams c) t = Some st' \<and> same_generation st st'))"
  shows "later b (with_channel k c bytes records index b)"
  unfolding later_def with_channel_def
proof (intro conjI allI impI)
  fix k' x assume x: "dget (mb_channels b) k' = Some x"
  show "\<exists>c''. dget (mb_channels (b\<lparr>mb_channels := dset k c (mb_channels b), mb_total_bytes := mb_total_bytes b + bytes,
        mb_total_records := mb_total_records b + records, mb_expirations := index\<rparr>)) k' = Some c'' \<and>
      ch_codec c'' = ch_codec x \<and>
      (\<forall>t g reason. dget (tombstones_of x t) g = Some reason \<longrightarrow> dget (tombstones_of c'' t) g = Some reason) \<and>
      (\<forall>t st. dget (ch_streams x) t = Some st \<longrightarrow> dget (tombstones_of c'' t) (sm_generation st) \<noteq> None \<or>
          (\<exists>st'. dget (ch_streams c'') t = Some st' \<and> same_generation st st'))"
  proof (cases "k' = k")
    case True
    then show ?thesis using assms x by simp
  next
    case False
    then show ?thesis using x by auto
  qed
qed simp_all

section \<open>Retiring a generation\<close>

lemma tombstones_recorded:
  "dget (tombstones_of (record_tombstone t g reason c) u) g' =
     (if u = t \<and> g' = g then Some reason else dget (tombstones_of c u) g')"
  by (simp add: tombstones_of_def record_tombstone_def)

lemma tombstones_retired [simp]:
  "dget (tombstones_of (retired_channel t st reason c) u) g =
     (if u = t \<and> g = sm_generation st then Some reason else dget (tombstones_of c u) g)"
  by (simp add: retired_channel_def record_tombstone_def tombstones_of_def)

lemma wf_tombstones_retired:
  "(\<And>u. wf_dict (tombstones_of c u)) \<Longrightarrow> wf_dict (tombstones_of (retired_channel t st reason c) u)"
  by (simp add: retired_channel_def record_tombstone_def tombstones_of_def split: option.splits)

lemma retired_simps [simp]:
  "ch_streams (retired_channel t st reason c) = ddel t (ch_streams c)"
  "ch_channel (retired_channel t st reason c) = ch_channel c" "ch_codec (retired_channel t st reason c) = ch_codec c"
  "ch_next_generations (retired_channel t st reason c) = dset t (sm_generation st + 1) (ch_next_generations c)"
  by (simp_all add: retired_channel_def record_tombstone_def)

lemma dkeys_ddel: "set (dkeys (ddel k d)) = set (dkeys d) - {k}"
  by (induction d) auto

lemma retired_threads:
  "t \<in> set (dkeys (ch_streams c)) \<Longrightarrow> channel_threads (retired_channel t st reason c) = channel_threads c"
  unfolding channel_threads_def retired_simps dkeys_ddel dkeys_dset by auto

lemma tombstone_count:
  assumes "wf_dict (ch_tombstones c)" and "dget (tombstones_of c t) (sm_generation st) = None"
  shows "dsum (\<lambda>d. int (length d)) (ch_tombstones (retired_channel t st reason c)) =
    dsum (\<lambda>d. int (length d)) (ch_tombstones c) + 1"
proof -
  have "length (dset (sm_generation st) reason (tombstones_of c t)) = Suc (length (tombstones_of c t))"
    using assms(2) by (simp add: length_dset)
  moreover have "ch_tombstones (retired_channel t st reason c) =
      dset t (dset (sm_generation st) reason (tombstones_of c t)) (ch_tombstones c)"
    by (simp add: retired_channel_def record_tombstone_def tombstones_of_def)
  ultimately show ?thesis
    using assms(1) by (simp add: dsum_dset tombstones_of_def split: option.split)
qed

lemma channel_ok_retired:
  assumes ok: "channel_ok h k c" and st: "dget (ch_streams c) t = Some st"
  shows "channel_ok h k (retired_channel t st reason c)"
proof -
  have gen: "1 \<le> sm_generation st" using ok st by (auto simp: channel_ok_def stream_ok_def shape_ok_def)
  have "wf_dict (ch_tombstones (retired_channel t st reason c))"
    using ok by (simp add: retired_channel_def record_tombstone_def channel_ok_def)
  then show ?thesis
    using ok wf_tombstones_retired [of c t st reason] gen by (auto simp: channel_ok_def split: if_splits)
qed

lemma retire_with_channel:
  "ch_channel c = k \<Longrightarrow> retire_generation c t st reason b =
     with_channel k (retired_channel t st reason c) (- sm_retained_bytes st) (- (sm_retained_records st - 1))
       (set_deadline (k, t) None (mb_expirations b)) b"
  by (simp add: retire_generation_def with_channel_def)

lemma retire_sound:
  assumes inv: "backend_inv h b" and c: "dget (mb_channels b) k = Some c" and st: "dget (ch_streams c) t = Some st"
  shows "backend_inv h (retire_generation c t st reason b) \<and> later b (retire_generation c t st reason b)"
proof -
  have ok: "channel_ok h k c" using backend_inv_channel [OF inv c] .
  have ch: "ch_channel c = k" and wf: "wf_dict (ch_streams c)" and wft: "wf_dict (ch_tombstones c)"
    using ok by (simp_all add: channel_ok_def)
  have fresh: "dget (tombstones_of c t) (sm_generation st) = None"
    using ok st by (force simp: channel_ok_def)
  have counts: "1 \<le> sm_retained_records st" "0 \<le> sm_retained_bytes st"
  proof -
    have "counts_ok st" using channel_ok_stream [OF ok st] by (simp add: stream_ok_def)
    moreover have "0 \<le> sum_list (map (message_weight st) (sm_messages st))"
      by (rule sum_list_nonneg) (auto simp: message_weight_def split: option.split)
    moreover have "0 \<le> dsum run_weight (sm_runs st)" by (rule dsum_nonneg) (simp add: run_weight_def)
    ultimately show "1 \<le> sm_retained_records st" "0 \<le> sm_retained_bytes st" by (simp_all add: counts_ok_def)
  qed
  have "t \<in> set (dkeys (ch_streams c))" using dget_None_notin [of "ch_streams c" t] st by auto
  then have records: "channel_records (retired_channel t st reason c) = channel_records c - (sm_retained_records st - 1)"
    using tombstone_count [OF wft fresh, of reason] retired_threads [of t c st reason] st wf
    by (simp add: channel_records_def dsum_ddel)
  have bytes: "channel_bytes (retired_channel t st reason c) = channel_bytes c - sm_retained_bytes st"
    using wf st by (simp add: channel_bytes_def dsum_ddel)
  have totals: "mb_total_bytes b \<le> max_total_bytes (mb_limits b)" "mb_total_records b \<le> max_total_records (mb_limits b)"
    using inv by (simp_all add: backend_inv_def)
  have "backend_inv h (retire_generation c t st reason b)"
    unfolding retire_with_channel [OF ch]
  proof (rule with_channel_inv [OF inv channel_ok_retired [OF ok st]])
    show "index_inv (set_deadline (k, t) None (mb_expirations b))" using inv by (auto simp: backend_inv_def)
    fix u d assume "dget (xi_deadlines (set_deadline (k, t) None (mb_expirations b))) (k, u) = Some d"
    then show "\<exists>st'. dget (ch_streams (retired_channel t st reason c)) u = Some st' \<and> sm_expires st' = Some d"
      using inv c unfolding backend_inv_def by (force split: if_splits)
  qed (use c totals counts bytes records in auto)
  moreover have "later b (retire_generation c t st reason b)"
    unfolding retire_with_channel [OF ch]
    by (rule with_channel_later) (use c st fresh in auto)
  ultimately show ?thesis by blast
qed

section \<open>Expiry\<close>

definition keeps :: "msg_host \<Rightarrow> 'a msg_op \<Rightarrow> memory_backend \<Rightarrow> bool" where
  "keeps h m b = run_with m (\<lambda>_ t. backend_inv h t \<and> later b t) (\<lambda>_ t. backend_inv h t \<and> later b t) b"

lemma wp_monotonic [wp]: "run_with (read_monotonic h) Q E b =
    Q (mh_monotonic h (mb_monotonic_reads b)) (b\<lparr>mb_monotonic_reads := Suc (mb_monotonic_reads b)\<rparr>)"
  by (simp add: run_with_def read_monotonic_def)

lemma wp_utc [wp]: "run_with (read_utc h) Q E b =
    Q (mh_utc h (mb_utc_reads b)) (b\<lparr>mb_utc_reads := Suc (mb_utc_reads b)\<rparr>)"
  by (simp add: run_with_def read_utc_def)

lemma keeps_seq:
  assumes "keeps h m b" and "\<And>t. backend_inv h t \<Longrightarrow> later b t \<Longrightarrow> keeps h n t"
  shows "keeps h (seq m n) b"
  unfolding keeps_def wp_seq
  by (rule wp_mono [OF assms(1) [unfolded keeps_def]])
    (auto intro!: wp_mono [OF assms(2) [unfolded keeps_def]] dest: later_trans)

text \<open>Expiring retires a generation or leaves the backend alone; it cannot fail.\<close>

lemma expire_if_due_wp:
  assumes "backend_inv h b"
  shows "run_with (expire_if_due h k t) (\<lambda>_ u. backend_inv h u \<and> later b u \<and>
    (u = b \<or> u = b\<lparr>mb_monotonic_reads := Suc (mb_monotonic_reads b)\<rparr> \<or> stream_at k t u = None)) (\<lambda>_ _. False) b"
proof (cases "stream_at k t b")
  case None
  then show ?thesis using assms by (simp add: expire_if_due_def wp)
next
  case (Some st)
  then obtain c where c: "dget (mb_channels b) k = Some c" "dget (ch_streams c) t = Some st"
    using stream_at_known by blast
  have ch: "ch_channel c = k" using backend_inv_channel [OF assms c(1)] by (simp add: channel_ok_def)
  let ?b = "b\<lparr>mb_monotonic_reads := Suc (mb_monotonic_reads b)\<rparr>"
  have "backend_inv h (retire_generation c t st REASON_EXPIRED ?b) \<and> later ?b (retire_generation c t st REASON_EXPIRED ?b)"
    by (rule retire_sound) (use assms c in simp_all)
  moreover have "stream_at k t (retire_generation c t st REASON_EXPIRED ?b) = None"
    by (simp add: retire_generation_def ch stream_at_def channel_at_def)
  ultimately show ?thesis
    using assms c Some by (simp add: expire_if_due_def wp channel_at_def split: option.split)
qed

lemma expire_if_due_keeps: "backend_inv h b \<Longrightarrow> keeps h (expire_if_due h k t) b"
  unfolding keeps_def by (rule wp_mono [OF expire_if_due_wp]) auto

lemma popped_inv:
  assumes inv: "backend_inv h b"
  shows "backend_inv h (b\<lparr>mb_expirations := snd (pop_due now (mb_expirations b))\<rparr>) \<and>
    later b (b\<lparr>mb_expirations := snd (pop_due now (mb_expirations b))\<rparr>)"
proof -
  have "dget (xi_deadlines (mb_expirations b)) p = Some d"
    if "dget (xi_deadlines (snd (pop_due now (mb_expirations b)))) p = Some d" for p d
    using that by (auto simp: pop_due_def split: prod.splits option.splits if_splits)
  then show ?thesis using inv by (auto simp: backend_inv_def later_def)
qed

lemma reclaim_loop_keeps: "backend_inv h b \<Longrightarrow> keeps h (reclaim_loop h now n) b"
proof (induction n arbitrary: b)
  case (Suc n)
  let ?b = "b\<lparr>mb_expirations := snd (pop_due now (mb_expirations b))\<rparr>"
  have b: "backend_inv h ?b" "later b ?b" using popped_inv [OF Suc.prems] by blast+
  obtain found index where pop: "pop_due now (mb_expirations b) = (found, index)" by fastforce
  have rest: "keeps h (seq (expire_if_due h k t) (reclaim_loop h now n)) ?b" for k t
    by (rule keeps_seq [OF expire_if_due_keeps [OF b(1)]]) (rule Suc.IH)
  have "run_with (seq (expire_if_due h k t) (reclaim_loop h now n)) (\<lambda>_ u. backend_inv h u \<and> later b u)
     (\<lambda>_ u. backend_inv h u \<and> later b u) ?b" for k t
    by (rule wp_mono [OF rest [unfolded keeps_def]]) (use later_trans [OF b(2)] in auto)
  then show ?case
    using b pop by (auto simp: keeps_def wp_bind wp_gets wp_seq [of "modify _ :: unit msg_op"] wp_modify
        wp_seq [of "check_state _ :: unit msg_op"] wp_check_state wp_option wp_ret split: option.split)
qed (simp add: keeps_def wp)

lemma reclaim_expired_keeps:
  assumes "backend_inv h b"
  shows "keeps h (reclaim_expired h) b"
proof -
  let ?b = "b\<lparr>mb_monotonic_reads := Suc (mb_monotonic_reads b)\<rparr>"
  have "keeps h (reclaim_loop h now 64) ?b" for now by (rule reclaim_loop_keeps) (use assms in simp)
  then show ?thesis by (simp add: reclaim_expired_def keeps_def wp_bind wp_monotonic)
qed

section \<open>Applying an effect\<close>

lemma wp_apply_effect:
  assumes "effect_capacity (channel_at k b) (mh_thread_key h i) ef = (bytes, records, grecords)"
    and "effect_error (channel_at k b) ef bytes records b = None"
    and "effect_stream (channel_at k b) (mh_thread_key h i) ef = Some st"
  shows "run_with (apply_effect h k i ef) Q E b =
    run_with (bind (effect_deadline h ef (sm_expires st)) (\<lambda>deadline.
       let st' = (updated_stream i ef bytes grecords st)\<lparr>sm_expires := deadline\<rparr>;
           c' = effect_channel (channel_at k b) ef;
           register = (ch_codec (channel_at k b) = None \<and> ef_channel ef \<noteq> None)
       in seq (modify (put_channel register (put_stream (mh_thread_key h i) st' c')))
          (seq (modify (schedule_expiry ef (k, mh_thread_key h i) deadline))
          (case ef_tombstone ef of None \<Rightarrow> ret ()
           | Some reason \<Rightarrow> modify (retire_generation (put_stream (mh_thread_key h i) st' c')
               (mh_thread_key h i) st' reason))))) Q E (charge_backend bytes records b)"
  using assms by (simp add: apply_effect_def wp Let_def)

lemma updated_stream_simps [simp]:
  "sm_retained_bytes (updated_stream i ef bytes records st) = sm_retained_bytes st + bytes"
  "sm_retained_records (updated_stream i ef bytes records st) = sm_retained_records st + records"
  "sm_generation (updated_stream i ef bytes records st) = sm_generation st"
  "sm_expires (updated_stream i ef bytes records st) = sm_expires st"
proof -
  have runs: "sm_retained_bytes (fold apply_run rs u) = sm_retained_bytes u"
    "sm_retained_records (fold apply_run rs u) = sm_retained_records u"
    "sm_generation (fold apply_run rs u) = sm_generation u" "sm_expires (fold apply_run rs u) = sm_expires u" for rs u
    by (induction rs arbitrary: u) (simp_all add: apply_run_def Let_def)
  show "sm_retained_bytes (updated_stream i ef bytes records st) = sm_retained_bytes st + bytes"
    "sm_retained_records (updated_stream i ef bytes records st) = sm_retained_records st + records"
    "sm_generation (updated_stream i ef bytes records st) = sm_generation st"
    "sm_expires (updated_stream i ef bytes records st) = sm_expires st"
    by (simp_all add: updated_stream_def apply_message_def apply_stream_def charge_stream_def runs Let_def
        split: option.split)
qed

text \<open>The deadlines an effect can set: none, the current one, or a new one when the window starts.\<close>

definition deadline_fits :: "storage_effect \<Rightarrow> time option \<Rightarrow> time option \<Rightarrow> bool" where
  "deadline_fits ef current deadline \<longleftrightarrow>
     (case ef_retention ef of RETENTION_NONE \<Rightarrow> deadline = current | RETENTION_CLEAR \<Rightarrow> deadline = None
      | RETENTION_START \<Rightarrow> True)"

lemma effect_deadline_wp:
  assumes "\<And>deadline n. deadline_fits ef current deadline \<Longrightarrow> Q deadline (b\<lparr>mb_monotonic_reads := n\<rparr>)"
  shows "run_with (effect_deadline h ef current) Q E b"
proof -
  have same: "b\<lparr>mb_monotonic_reads := mb_monotonic_reads b\<rparr> = b" by simp
  have "Q deadline b" if "deadline_fits ef current deadline" for deadline
    using assms [OF that, of "mb_monotonic_reads b"] by (simp add: same)
  then show ?thesis
    using assms by (simp add: effect_deadline_def wp deadline_fits_def split: retention_action.split option.split)
qed

text \<open>The channel and the counts that a charged effect leads to.\<close>

lemma effect_channel_simps [simp]:
  "ch_streams (effect_channel c ef) = ch_streams c" "ch_channel (effect_channel c ef) = ch_channel c"
  "ch_next_generations (effect_channel c ef) = ch_next_generations c"
  "ch_tombstones (effect_channel c ef) = ch_tombstones c" "tombstones_of (effect_channel c ef) t = tombstones_of c t"
  "channel_bytes (effect_channel c ef) = channel_bytes c"
  "channel_threads (effect_channel c ef) = channel_threads c"
  by (simp_all add: effect_channel_def channel_bytes_def channel_threads_def tombstones_of_def split: option.split)

lemma effect_channel_records:
  "channel_records (effect_channel c ef) = channel_records c + of_bool (ch_codec c = None \<and> ef_channel ef \<noteq> None)"
  by (simp add: effect_channel_def channel_records_def channel_threads_def split: option.split)

lemma not_in_threads:
  "dget (ch_streams c) t = None \<Longrightarrow> t \<notin> channel_threads c \<longleftrightarrow> dget (ch_next_generations c) t = None"
  by (simp add: channel_threads_def dget_None_notin)

lemma capacity_records:
  "effect_capacity c t ef = (bytes, records, grecords) \<Longrightarrow> records = grecords +
     of_bool (ch_codec c = None \<and> ef_channel ef \<noteq> None) +
     (if ef_stream ef \<noteq> None \<and> dget (ch_streams c) t = None
      then 1 + of_bool (dget (ch_next_generations c) t = None) else 0)"
  by (auto simp: effect_capacity_def Let_def split: option.splits if_splits)

text \<open>
  An effect fits a backend when the channel is known or created, the effect works on the
  current generation or opens a new one, and the generation stays a good one.
\<close>

definition fits :: "msg_host \<Rightarrow> py_str \<Rightarrow> run_identity \<Rightarrow> storage_effect \<Rightarrow> memory_backend \<Rightarrow> bool" where
  "fits h k i ef b \<longleftrightarrow>
     (let c = channel_at k b; t = mh_thread_key h i in
      (dget (mb_channels b) k = None \<longrightarrow> ef_channel ef \<noteq> None) \<and> ef_tombstone ef = None \<and>
      (\<exists>st bytes records grecords. effect_capacity c t ef = (bytes, records, grecords) \<and>
         effect_stream c t ef = Some st \<and>
         (case dget (ch_streams c) t of
            Some old \<Rightarrow> st = old \<and> same_generation old (updated_stream i ef bytes grecords st)
          | None \<Rightarrow> ef_stream ef \<noteq> None \<and> st = new_stream_state (sm_generation st) \<and>
              (\<forall>g. dget (tombstones_of c t) g \<noteq> None \<longrightarrow> g < sm_generation st)) \<and>
         (\<forall>deadline. deadline_fits ef (sm_expires st) deadline \<longrightarrow>
            stream_ok h t ((updated_stream i ef bytes grecords st)\<lparr>sm_expires := deadline\<rparr>))))"

lemma channel_at_ok:
  assumes inv: "backend_inv h b" and "dget (mb_channels b) k = None \<longrightarrow> ef_channel ef \<noteq> None"
  shows "channel_ok h k (effect_channel (channel_at k b) ef)"
proof (cases "dget (mb_channels b) k")
  case None
  then obtain sc where "ef_channel ef = Some sc" using assms(2) by auto
  then show ?thesis using None
    by (simp add: channel_at_def effect_channel_def channel_ok_def new_channel_state_def tombstones_of_def)
next
  case (Some c)
  then have "channel_ok h k c" using backend_inv_channel inv by blast
  then show ?thesis using Some
    by (auto simp: channel_ok_def effect_channel_def tombstones_of_def split: option.split)
qed

lemma same_generation_expires: "same_generation a b \<Longrightarrow> same_generation a (b\<lparr>sm_expires := d\<rparr>)"
  by (simp add: same_generation_def)

lemma apply_effect_keeps:
  assumes inv: "backend_inv h b" and fits: "fits h k i ef b"
  shows "keeps h (apply_effect h k i ef) b"
proof -
  let ?c = "channel_at k b" and ?t = "mh_thread_key h i"
  let ?c' = "effect_channel ?c ef"
  obtain st bytes records grecords where fit: "dget (mb_channels b) k = None \<longrightarrow> ef_channel ef \<noteq> None"
    "ef_tombstone ef = None" "effect_capacity ?c ?t ef = (bytes, records, grecords)" "effect_stream ?c ?t ef = Some st"
    "(case dget (ch_streams ?c) ?t of
            Some old \<Rightarrow> st = old \<and> same_generation old (updated_stream i ef bytes grecords st)
          | None \<Rightarrow> ef_stream ef \<noteq> None \<and> st = new_stream_state (sm_generation st) \<and>
              (\<forall>g. dget (tombstones_of ?c ?t) g \<noteq> None \<longrightarrow> g < sm_generation st))"
    "\<And>deadline. deadline_fits ef (sm_expires st) deadline \<Longrightarrow>
            stream_ok h ?t ((updated_stream i ef bytes grecords st)\<lparr>sm_expires := deadline\<rparr>)"
    using fits unfolding fits_def Let_def by (elim conjE exE) (rule that, assumption+, blast)
  have ok: "channel_ok h k ?c'" using channel_at_ok [OF inv fit(1)] .
  show ?thesis
  proof (cases "effect_error ?c ef bytes records b")
    case (Some e)
    then show ?thesis using inv fit(3) by (simp add: keeps_def apply_effect_def wp Let_def)
  next
    case None
    then have bounds: "mb_total_bytes b + bytes \<le> max_total_bytes (mb_limits b)"
      "mb_total_records b + records \<le> max_total_records (mb_limits b)"
      by (auto simp: effect_error_def split: if_splits)
    have stored: "backend_inv h u \<and> later b u"
      if d: "deadline_fits ef (sm_expires st) deadline"
        and u: "u = schedule_expiry ef (k, ?t) deadline (put_channel (ch_codec ?c = None \<and> ef_channel ef \<noteq> None)
          (put_stream ?t ((updated_stream i ef bytes grecords st)\<lparr>sm_expires := deadline\<rparr>) ?c')
          ((charge_backend bytes records b)\<lparr>mb_monotonic_reads := n\<rparr>))" for deadline n u
    proof -
      let ?st = "(updated_stream i ef bytes grecords st)\<lparr>sm_expires := deadline\<rparr>"
      let ?i = "if ef_retention ef = RETENTION_NONE then mb_expirations b
        else set_deadline (k, ?t) deadline (mb_expirations b)"
      let ?w = "with_channel k (put_stream ?t ?st ?c') bytes records ?i b"
      have ch: "ch_channel ?c = k" using ok by (simp add: channel_ok_def)
      have codec: "dget (mb_channels b) k = None \<longrightarrow> ch_codec ?c = None"
        by (simp add: channel_at_def new_channel_state_def split: option.split)
      then have eq: "u = ?w\<lparr>mb_monotonic_reads := n\<rparr>"
        using fit(1) ch by (auto simp: u schedule_expiry_def put_channel_def charge_backend_def with_channel_def)
      have gens: "g < sm_generation ?st" if "dget (tombstones_of ?c' ?t) g \<noteq> None" for g
      proof (cases "dget (ch_streams ?c) ?t")
        case None
        then show ?thesis using fit(5) that by simp
      next
        case (Some old)
        then have "st = old" using fit(5) by simp
        with Some ok that show ?thesis by (auto simp: channel_ok_def)
      qed
      have ok': "channel_ok h k (put_stream ?t ?st ?c')"
        by (rule channel_ok_put [OF ok fit(6) [OF d]]) (use gens in blast)
      have wf: "wf_dict (ch_streams ?c)" using ok by (simp add: channel_ok_def)
      have weights: "channel_bytes (put_stream ?t ?st ?c') = channel_bytes ?c + bytes"
        "channel_records (put_stream ?t ?st ?c') = channel_records ?c + records"
      proof -
        have "channel_bytes (put_stream ?t ?st ?c') = channel_bytes ?c + bytes \<and>
          channel_records (put_stream ?t ?st ?c') = channel_records ?c + records"
        proof (cases "dget (ch_streams ?c) ?t")
          case None
          then have "sm_retained_bytes st = 0 \<and> sm_retained_records st = 1" "ef_stream ef \<noteq> None"
            using fit(5) by (auto simp: new_stream_state_def dest: arg_cong [where f = sm_retained_bytes]
                arg_cong [where f = sm_retained_records])
          then show ?thesis
            using None wf capacity_records [OF fit(3)] not_in_threads [OF None]
            by (simp add: channel_bytes_put channel_records_put effect_channel_records)
        next
          case (Some old)
          then have "st = old" using fit(5) by simp
          moreover have "?t \<in> channel_threads ?c"
            using dget_None_notin [of "ch_streams ?c" ?t] Some by (simp add: channel_threads_def)
          ultimately show ?thesis
            using Some wf capacity_records [OF fit(3)]
            by (simp add: channel_bytes_put channel_records_put effect_channel_records)
        qed
        then show "channel_bytes (put_stream ?t ?st ?c') = channel_bytes ?c + bytes"
          "channel_records (put_stream ?t ?st ?c') = channel_records ?c + records" by blast+
      qed
      have deadlines: "\<exists>st'. dget (ch_streams (put_stream ?t ?st ?c')) u = Some st' \<and> sm_expires st' = Some e"
        if "dget (xi_deadlines ?i) (k, u) = Some e" for u e
      proof (cases "u = ?t")
        case False
        then have "dget (xi_deadlines (mb_expirations b)) (k, u) = Some e" using that by (auto split: if_splits)
        then obtain c s where "dget (mb_channels b) k = Some c" "dget (ch_streams c) u = Some s" "sm_expires s = Some e"
          using inv unfolding backend_inv_def by blast
        then show ?thesis using False by simp
      next
        case True
        show ?thesis
        proof (cases "ef_retention ef = RETENTION_NONE")
          case True
          then have "dget (xi_deadlines (mb_expirations b)) (k, ?t) = Some e" using that \<open>u = ?t\<close> by simp
          then obtain c s where "dget (mb_channels b) k = Some c" "dget (ch_streams c) ?t = Some s" "sm_expires s = Some e"
            using inv unfolding backend_inv_def by blast
          then show ?thesis using fit(5) d True \<open>u = ?t\<close> by (simp add: deadline_fits_def)
        next
          case False
          then show ?thesis using that True by simp
        qed
      qed
      have "backend_inv h ?w"
        by (rule with_channel_inv [OF inv ok' weights bounds _ deadlines])
          (use inv in \<open>auto simp: backend_inv_def split: if_splits\<close>)
      moreover have "later b ?w"
      proof (rule with_channel_later)
        fix c assume c: "dget (mb_channels b) k = Some c"
        have "ch_codec c \<noteq> None" using backend_inv_channel [OF inv c] by (simp add: channel_ok_def)
        then have "ch_codec ?c' = ch_codec c" using c by (auto simp: effect_channel_def split: option.split)
        moreover have "\<exists>s'. dget (ch_streams (put_stream ?t ?st ?c')) u = Some s' \<and> same_generation s s'"
          if "dget (ch_streams c) u = Some s" for u s
          using that c fit(5) by (auto intro: same_generation_expires)
        ultimately show "ch_codec (put_stream ?t ?st ?c') = ch_codec c \<and>
         (\<forall>t g reason. dget (tombstones_of c t) g = Some reason \<longrightarrow> dget (tombstones_of (put_stream ?t ?st ?c') t) g = Some reason) \<and>
         (\<forall>t st. dget (ch_streams c) t = Some st \<longrightarrow> dget (tombstones_of (put_stream ?t ?st ?c') t) (sm_generation st) \<noteq> None \<or>
            (\<exists>st'. dget (ch_streams (put_stream ?t ?st ?c')) t = Some st' \<and> same_generation st st'))"
          using c by simp
      qed
      ultimately show ?thesis by (simp add: eq)
    qed
    show ?thesis
      unfolding keeps_def wp_apply_effect [OF fit(3) None fit(4)] wp_bind fit(2) option.case
      by (rule effect_deadline_wp) (simp add: wp Let_def stored)
  qed
qed

end
