(* ===== verification/Msg_Memory_Fits.thy ===== *)
theory Msg_Memory_Fits
  imports Msg_Memory_Sound
begin

text \<open>
  What a snapshot of a good backend shows, and the changes of a generation that an effect can
  ask for: replacing the run of a live producer and starting a run keep the generation good.
\<close>

section \<open>Snapshots of a good backend\<close>

definition snapshot_of ::
    "msg_host \<Rightarrow> py_str \<Rightarrow> run_identity \<Rightarrow> int option \<Rightarrow> py_str option \<Rightarrow> memory_backend \<Rightarrow> state_snapshot \<Rightarrow> bool" where
  "snapshot_of h k i generation message_id b sn \<longleftrightarrow>
     (let c = channel_at k b; t = mh_thread_key h i;
          selected = selected_stream (dget (ch_streams c) t) generation in
      sn_channel sn = snapshot_channel b c k \<and>
      sn_stream sn = map_option (memory_stream k i) selected \<and>
      sn_target sn = (case selected of None \<Rightarrow> None
        | Some st \<Rightarrow> map_option (\<lambda>r. stored_memory_run r (sm_generation st)) (dget (sm_runs st) (id_run i))) \<and>
      sn_active sn = (case selected of None \<Rightarrow> None
        | Some st \<Rightarrow> map_option (\<lambda>r. stored_memory_run r (sm_generation st)) (active_record i True st)) \<and>
      (case selected of None \<Rightarrow> sn_message sn = None
        | Some st \<Rightarrow> matching_message h i st message_id = Inr (sn_message sn)) \<and>
      sn_tombstone_generation sn = map_option fst (tombstone_reason c t generation) \<and>
      sn_tombstone_reason sn = map_option snd (tombstone_reason c t generation))"

lemma memory_snapshot_wp:
  assumes "\<And>e st. stream_at k (mh_thread_key h i) b = Some st \<Longrightarrow> matching_message h i st message_id = Inl e \<Longrightarrow> E e b"
    and "\<And>sn. snapshot_of h k i generation message_id b sn \<Longrightarrow> Q sn (b\<lparr>mb_utc_reads := Suc (mb_utc_reads b)\<rparr>)"
  shows "run_with (memory_snapshot h k i generation message_id True) Q E b"
proof (cases "case selected_stream (dget (ch_streams (channel_at k b)) (mh_thread_key h i)) generation of
    None \<Rightarrow> Inr None | Some st \<Rightarrow> matching_message h i st message_id")
  case (Inl e)
  then show ?thesis
    using assms(1) by (auto simp: memory_snapshot_def wp Let_def stream_at_def selected_stream_def split: option.splits if_splits)
next
  case (Inr matching)
  have "Q \<lparr>sn_observed_at = mh_utc h (mb_utc_reads b), sn_channel = snapshot_channel b (channel_at k b) k,
       sn_stream = map_option (memory_stream k i) (selected_stream (dget (ch_streams (channel_at k b)) (mh_thread_key h i)) generation),
       sn_target = (case selected_stream (dget (ch_streams (channel_at k b)) (mh_thread_key h i)) generation of None \<Rightarrow> None
         | Some st \<Rightarrow> map_option (\<lambda>r. stored_memory_run r (sm_generation st)) (dget (sm_runs st) (id_run i))),
       sn_active = (case selected_stream (dget (ch_streams (channel_at k b)) (mh_thread_key h i)) generation of None \<Rightarrow> None
         | Some st \<Rightarrow> map_option (\<lambda>r. stored_memory_run r (sm_generation st)) (active_record i True st)),
       sn_message = matching,
       sn_tombstone_generation = map_option fst (tombstone_reason (channel_at k b) (mh_thread_key h i) generation),
       sn_tombstone_reason = map_option snd (tombstone_reason (channel_at k b) (mh_thread_key h i) generation)\<rparr>
     (b\<lparr>mb_utc_reads := Suc (mb_utc_reads b)\<rparr>)"
    by (rule assms(2)) (use Inr in \<open>auto simp: snapshot_of_def Let_def split: option.splits\<close>)
  then show ?thesis using Inr by (simp add: memory_snapshot_def wp Let_def)
qed

section \<open>Effects on a known generation\<close>

definition located :: "msg_host \<Rightarrow> memory_backend \<Rightarrow> py_str \<Rightarrow> run_identity \<Rightarrow> channel_state \<Rightarrow> stream_state \<Rightarrow> bool" where
  "located h b k i c st \<longleftrightarrow> msg_host_ok h \<and> backend_inv h b \<and> dget (mb_channels b) k = Some c \<and>
     dget (ch_streams c) (mh_thread_key h i) = Some st"

lemma located_ok: "located h b k i c st \<Longrightarrow> stream_ok h (mh_thread_key h i) st"
  unfolding located_def using backend_inv_channel channel_ok_stream by blast

lemma located_codec: "located h b k i c st \<Longrightarrow> ch_codec c \<noteq> None"
  unfolding located_def using backend_inv_channel by (auto simp: channel_ok_def)

lemma known_identity:
  assumes "located h b k i c st" and "dget (sm_runs st) (id_run i) = Some r"
  shows "rr_identity r = i"
proof -
  have "run_ok h (mh_thread_key h i) st (id_run i) r" using stream_ok_run located_ok assms by blast
  then have "id_run (rr_identity r) = id_run i" "mh_thread_key h (rr_identity r) = mh_thread_key h i"
    by (simp_all add: run_ok_def)
  moreover have "id_namespace (rr_identity r) = id_namespace i \<and> id_thread (rr_identity r) = id_thread i"
    using calculation(2) assms(1) by (simp add: located_def msg_host_ok_def)
  ultimately show ?thesis by simp
qed

lemma fits_known:
  assumes at: "located h b k i c st" and ef: "ef_tombstone ef = None"
    "effect_capacity c (mh_thread_key h i) ef = (bytes, records, grecords)"
    "effect_stream c (mh_thread_key h i) ef = Some st"
    and new: "same_generation st (updated_stream i ef bytes grecords st)"
    "\<And>deadline. deadline_fits ef (sm_expires st) deadline \<Longrightarrow>
       stream_ok h (mh_thread_key h i) ((updated_stream i ef bytes grecords st)\<lparr>sm_expires := deadline\<rparr>)"
  shows "fits h k i ef b"
  using assms unfolding fits_def located_def Let_def by auto

lemma idle_fits:
  assumes at: "located h b k i c st" and "idle ef" "ef_channel ef = None"
  shows "fits h k i ef b"
proof (rule fits_known [OF at])
  have same: "updated_stream i ef 0 0 st = st"
    using assms(2) by (simp add: updated_stream_def idle_def charge_stream_def)
  show "ef_tombstone ef = None" "effect_capacity c (mh_thread_key h i) ef = (0, 0, 0)"
    "effect_stream c (mh_thread_key h i) ef = Some st"
    using assms by (auto simp: idle_def effect_capacity_def effect_stream_def located_def Let_def)
  show "same_generation st (updated_stream i ef 0 0 st)" by (simp add: same)
  show "stream_ok h (mh_thread_key h i) ((updated_stream i ef 0 0 st)\<lparr>sm_expires := deadline\<rparr>)"
    if "deadline_fits ef (sm_expires st) deadline" for deadline
    using that assms located_ok [OF at] by (simp add: deadline_fits_def idle_def same)
qed

text \<open>Replacing the run of a live producer.\<close>

lemma replaced_run_log:
  "replaced_run st run_id r (st'\<lparr>sm_expires := d\<rparr>) \<Longrightarrow>
     sm_messages st' = sm_messages st \<and> sm_disposition st' = sm_disposition st"
  by (simp add: replaced_run_def)

lemma run_change_fits:
  assumes at: "located h b k i c st" and r: "dget (sm_runs st) (id_run i) = Some r" "\<not> is_final_run_status (rr_status r)"
    and open_stream: "sm_disposition st = STREAM_ACTIVE"
    and ef: "ef_channel ef = None" "ef_message ef = None" "ef_tombstone ef = None" "ef_runs ef = [run]"
      "ef_stream ef = None \<and> \<not> is_final_run_status (sr_status run) \<or>
       (\<exists>s. ef_stream ef = Some s \<and> ss_generation s = sm_generation st \<and> ss_disposition s = STREAM_ACTIVE \<and>
          ss_payload_bytes s = sm_payload_bytes st \<and> sm_control st \<le> ss_control_sequence s \<and>
          ss_active_run s = (if is_final_run_status (sr_status run) then None else Some (id_run i)))"
    and run: "sr_identity run = i" "sr_token run = None \<longleftrightarrow> is_final_run_status (sr_status run)"
      "is_final_run_status (sr_status run) \<longrightarrow> sr_settling run"
      "sr_start run = rr_start r" "rr_end r \<le> sr_end run" "sr_end run \<le> int (length (sm_messages st))"
      "run_later r (overwrite_run i run)"
    and retention: "ef_retention ef \<noteq> RETENTION_START \<or> is_final_run_status (sr_status run)"
  shows "fits h k i ef b"
proof -
  let ?t = "mh_thread_key h i"
  let ?r = "overwrite_run i run"
  let ?d = "run_weight ?r - run_weight r"
  let ?st = "updated_stream i ef ?d 0 st"
  have ok: "stream_ok h ?t st" using located_ok [OF at] .
  have known: "rr_identity r = i" using known_identity [OF at r(1)] .
  have r_ok: "run_ok h ?t st (id_run i) r" using stream_ok_run [OF ok r(1)] .
  then have active: "sm_active st = Some i" using r(2) known by (simp add: run_ok_def)
  have wf: "wf_dict (sm_runs st)" using ok by (simp add: stream_ok_def runs_ok_def)
  have capacity: "effect_capacity c ?t ef = (?d, 0, 0)"
    using at ef(1-4) r(1) run(1) located_codec [OF at]
    by (auto simp: effect_capacity_def located_def Let_def known_run_def run_checkpoint_bytes_def run_weight_def)
  have stream: "effect_stream c ?t ef = Some st"
    using at ef(5) by (auto simp: effect_stream_def located_def)
  have replaced: "replaced_run st (id_run i) ?r (?st\<lparr>sm_expires := deadline\<rparr>) \<and>
      sm_active ?st = (if is_final_run_status (rr_status ?r) then None else Some i)" for deadline
    using ef open_stream ok active r(1) run(1) known
    by (auto simp: replaced_run_def updated_stream_def apply_run_def apply_stream_def charge_stream_def Let_def
        stream_ok_def shape_ok_def)
  have run_ok: "run_ok h ?t (?st\<lparr>sm_expires := deadline\<rparr>) (id_run i) ?r" for deadline
  proof -
    have "sm_messages ?st = sm_messages st \<and> sm_disposition ?st = sm_disposition st"
      using replaced [of None] replaced_run_log by blast
    then show ?thesis
      using run replaced [of deadline] r_ok open_stream by (auto simp: run_ok_def)
  qed
  show ?thesis
  proof (rule fits_known [OF at ef(3) capacity stream])
    have "sm_expires st = None" using ok active by (auto simp: stream_ok_def shape_ok_def)
    have "same_generation st (?st\<lparr>sm_expires := sm_expires st\<rparr>)"
      by (rule replaced_run_later [OF ok]) (use replaced [of "sm_expires st"] r run(7) in auto)
    then show "same_generation st ?st" by (simp add: same_generation_def)
    show "stream_ok h ?t (?st\<lparr>sm_expires := deadline\<rparr>)" if "deadline_fits ef (sm_expires st) deadline" for deadline
    proof (rule replaced_run_ok [OF ok _ run_ok])
      show "replaced_run st (id_run i) ?r (?st\<lparr>sm_expires := deadline\<rparr>)" using replaced by blast
      show "sm_active (?st\<lparr>sm_expires := deadline\<rparr>) =
          (if is_final_run_status (rr_status ?r) then None else Some (rr_identity ?r))"
        using replaced [of deadline] by simp
      show "sm_active (?st\<lparr>sm_expires := deadline\<rparr>) = None" if "sm_expires (?st\<lparr>sm_expires := deadline\<rparr>) \<noteq> None"
        using that \<open>deadline_fits ef (sm_expires st) deadline\<close> \<open>sm_expires st = None\<close> retention replaced [of deadline]
        by (cases "ef_retention ef") (auto simp: deadline_fits_def)
    qed (use active open_stream in auto)
  qed
qed

section \<open>What a snapshot shows\<close>

lemma snapshot_stream:
  assumes "msg_host_ok h" "backend_inv h b" "snapshot_of h k i g message_id b sn" and stream: "sn_stream sn = Some stream"
  obtains c st where "located h b k i c st" "stream = memory_stream k i st"
    "sn_target sn = map_option (\<lambda>r. stored_memory_run r (sm_generation st)) (dget (sm_runs st) (id_run i))"
    "sn_active sn = map_option (\<lambda>r. stored_memory_run r (sm_generation st)) (active_record i True st)"
    "matching_message h i st message_id = Inr (sn_message sn)" "g = None \<or> g = Some (sm_generation st)"
proof -
  let ?found = "dget (ch_streams (channel_at k b)) (mh_thread_key h i)"
  obtain st where st: "selected_stream ?found g = Some st" "stream = memory_stream k i st"
    using assms(3) stream by (cases "selected_stream ?found g") (simp_all add: snapshot_of_def Let_def)
  then have found: "?found = Some st" "g = None \<or> g = Some (sm_generation st)"
    by (auto simp: selected_stream_def split: option.splits if_splits)
  then obtain c where "dget (mb_channels b) k = Some c" "dget (ch_streams c) (mh_thread_key h i) = Some st"
    using stream_at_known [of k "mh_thread_key h i" b st] by (auto simp: stream_at_def)
  then have "located h b k i c st" using assms(1,2) by (simp add: located_def)
  then show thesis using that [of c st] st found(2) assms(3) by (simp add: snapshot_of_def Let_def)
qed

lemma snapshot_none:
  assumes "snapshot_of h k i g message_id b sn" and "sn_stream sn = None"
  shows "sn_target sn = None \<and> sn_active sn = None \<and> sn_message sn = None \<and>
    (g = None \<longrightarrow> dget (ch_streams (channel_at k b)) (mh_thread_key h i) = None)"
  using assms
  by (auto simp: snapshot_of_def Let_def selected_stream_def split: option.splits if_splits)

lemma memory_stream_simps [simp]:
  "ss_generation (memory_stream k i st) = sm_generation st" "ss_disposition (memory_stream k i st) = sm_disposition st"
  "ss_latest (memory_stream k i st) = int (length (sm_messages st))"
  "ss_payload_bytes (memory_stream k i st) = sm_payload_bytes st"
  "ss_active_run (memory_stream k i st) = map_option id_run (sm_active st)"
  "ss_control_sequence (memory_stream k i st) = sm_control st"
  by (simp_all add: memory_stream_def)

text \<open>In memory every producer that is not terminal holds its lease.\<close>

lemma located_lease:
  "located h b k i c st \<Longrightarrow> dget (sm_runs st) x = Some r \<Longrightarrow>
     sr_lease_active (stored_memory_run r g) \<longleftrightarrow> \<not> is_final_run_status (rr_status r)"
  using stream_ok_run [OF located_ok] by (auto simp: run_ok_def)

lemma located_active:
  assumes at: "located h b k i c st" and active: "active_record i True st = Some r"
  shows "\<not> is_final_run_status (rr_status r) \<and> (\<exists>x. dget (sm_runs st) x = Some r)"
proof -
  obtain a where a: "sm_active st = Some a" "dget (sm_runs st) (id_run a) = Some r"
    using active by (auto simp: active_record_def split: option.splits if_splits)
  moreover have "runs_ok h (mh_thread_key h i) st" using located_ok [OF at] by (simp add: stream_ok_def)
  ultimately show ?thesis by (auto simp: runs_ok_def)
qed

text \<open>Without a known run and without another active run the generation is free.\<close>

lemma located_free:
  assumes at: "located h b k i c st" and "dget (sm_runs st) (id_run i) = None" "active_record i True st = None"
  shows "sm_active st = None"
proof (rule ccontr)
  assume "sm_active st \<noteq> None"
  then obtain a where a: "sm_active st = Some a" by auto
  moreover have "runs_ok h (mh_thread_key h i) st" using located_ok [OF at] by (simp add: stream_ok_def)
  ultimately obtain r where "dget (sm_runs st) (id_run a) = Some r" unfolding runs_ok_def by blast
  then show False using a assms(2,3) by (cases "id_run a = id_run i") (auto simp: active_record_def)
qed

section \<open>Starting a run\<close>

lemma started_ok:
  assumes ok: "stream_ok h (mh_thread_key h i) st" and free: "sm_disposition st = STREAM_ACTIVE" "sm_active st = None"
      "dget (sm_runs st) (id_run i) = None"
    and ef: "ef_stream ef = Some s" "ef_message ef = None" "ef_runs ef = [run]" "ss_disposition s = STREAM_ACTIVE"
      "ss_payload_bytes s = sm_payload_bytes st" "sm_control st \<le> ss_control_sequence s"
      "ss_active_run s = Some (id_run i)"
    and run: "sr_identity run = i" "sr_status run = RUN_RUNNING" "sr_token run \<noteq> None" "sr_checkpoint run = None"
      "sr_start run = int (length (sm_messages st))" "sr_end run = int (length (sm_messages st))"
  shows "same_generation st (updated_stream i ef 0 1 st) \<and>
    stream_ok h (mh_thread_key h i) ((updated_stream i ef 0 1 st)\<lparr>sm_expires := None\<rparr>)"
proof -
  let ?r = "overwrite_run i run"
  let ?st = "updated_stream i ef 0 1 st"
  have deleted: "\<not> sm_deleted st" using ok free(1) by (simp add: stream_ok_def shape_ok_def)
  have replaced: "replaced_run st (id_run i) ?r (?st\<lparr>sm_expires := d\<rparr>) \<and> sm_active ?st = Some i" for d
    using ef free run deleted
    by (auto simp: replaced_run_def updated_stream_def apply_run_def apply_stream_def charge_stream_def Let_def
        run_weight_def checkpoint_bytes_def)
  then have log: "sm_messages ?st = sm_messages st \<and> sm_disposition ?st = sm_disposition st"
    using replaced_run_log by blast
  have "same_generation st (?st\<lparr>sm_expires := None\<rparr>)"
    by (rule replaced_run_later [OF ok]) (use replaced [of None] free in auto)
  moreover have "stream_ok h (mh_thread_key h i) (?st\<lparr>sm_expires := None\<rparr>)"
  proof (rule replaced_run_ok [OF ok])
    show "replaced_run st (id_run i) ?r (?st\<lparr>sm_expires := None\<rparr>)" using replaced by blast
    show "run_ok h (mh_thread_key h i) (?st\<lparr>sm_expires := None\<rparr>) (id_run i) ?r"
      using run log replaced by (simp add: run_ok_def)
    show "sm_active (?st\<lparr>sm_expires := None\<rparr>) =
        (if is_final_run_status (rr_status ?r) then None else Some (rr_identity ?r))"
      using replaced run by simp
  qed (use free in auto)
  ultimately show ?thesis by (simp add: same_generation_def)
qed

end
