(* ===== verification/Msg_Memory_Commit.thy ===== *)
theory Msg_Memory_Commit
  imports Msg_Memory_Fits
begin

text \<open>
  Each effect that a transition can resolve to on a snapshot of a good backend fits it, so a
  commit keeps the invariant and leads to a later state, whether it returns or raises.
\<close>

section \<open>Effects of a resolved transition\<close>

text \<open>
  How the messaging ledger builds its transitions: only a preparation starts without a
  reference.
\<close>

definition transition_ok :: "msg_transition \<Rightarrow> bool" where
  "transition_ok tn \<longleftrightarrow> (tn_kind tn = PREPARE_RUN \<longrightarrow> tn_reference tn = None)"

definition committed :: "msg_host \<Rightarrow> msg_transition \<Rightarrow> memory_backend \<Rightarrow> state_snapshot \<Rightarrow> bool" where
  "committed h tn b sn \<longleftrightarrow> msg_host_ok h \<and> backend_inv h b \<and>
     snapshot_of h (tn_channel tn) (tn_identity tn) (selected_generation tn) (tn_message_id tn) b sn"

abbreviation fitting :: "msg_host \<Rightarrow> msg_transition \<Rightarrow> storage_effect \<Rightarrow> memory_backend \<Rightarrow> bool" where
  "fitting h tn ef b \<equiv> fits h (tn_channel tn) (tn_identity tn) ef b"

lemma committed_stream:
  assumes "committed h tn b sn" and "sn_stream sn = Some stream"
  obtains c st where "located h b (tn_channel tn) (tn_identity tn) c st"
    "stream = memory_stream (tn_channel tn) (tn_identity tn) st"
    "sn_target sn = map_option (\<lambda>r. stored_memory_run r (sm_generation st)) (dget (sm_runs st) (id_run (tn_identity tn)))"
    "sn_active sn = map_option (\<lambda>r. stored_memory_run r (sm_generation st)) (active_record (tn_identity tn) True st)"
    "matching_message h (tn_identity tn) st (tn_message_id tn) = Inr (sn_message sn)"
  using assms unfolding committed_def by (blast elim: snapshot_stream)

text \<open>A snapshot that found the run also found its stream.\<close>

lemma committed_target:
  assumes "committed h tn b sn" and "sn_target sn = Some run"
  obtains c st r where "located h b (tn_channel tn) (tn_identity tn) c st"
    "sn_stream sn = Some (memory_stream (tn_channel tn) (tn_identity tn) st)"
    "dget (sm_runs st) (id_run (tn_identity tn)) = Some r" "run = stored_memory_run r (sm_generation st)"
    "sr_lease_active run \<longleftrightarrow> \<not> is_final_run_status (rr_status r)" "rr_identity r = tn_identity tn"
proof -
  obtain stream where stream: "sn_stream sn = Some stream"
    using assms snapshot_none unfolding committed_def by (cases "sn_stream sn") fastforce+
  obtain c st where *: "located h b (tn_channel tn) (tn_identity tn) c st"
    "stream = memory_stream (tn_channel tn) (tn_identity tn) st"
    "sn_target sn = map_option (\<lambda>r. stored_memory_run r (sm_generation st)) (dget (sm_runs st) (id_run (tn_identity tn)))"
    using committed_stream [OF assms(1) stream] by metis
  then obtain r where "dget (sm_runs st) (id_run (tn_identity tn)) = Some r" "run = stored_memory_run r (sm_generation st)"
    using assms(2) by (metis (no_types, lifting) map_option_eq_Some)
  then show thesis
    using that * stream located_lease [OF *(1)] known_identity [OF *(1)] by blast
qed

lemma committed_active:
  assumes "committed h tn b sn" and "sn_active sn = Some run"
  shows "sr_lease_active run"
proof -
  obtain stream where stream: "sn_stream sn = Some stream"
    using assms snapshot_none unfolding committed_def by (cases "sn_stream sn") fastforce+
  obtain c st where *: "located h b (tn_channel tn) (tn_identity tn) c st"
    "sn_active sn = map_option (\<lambda>r. stored_memory_run r (sm_generation st)) (active_record (tn_identity tn) True st)"
    using committed_stream [OF assms(1) stream] by metis
  then obtain r where "active_record (tn_identity tn) True st = Some r" "run = stored_memory_run r (sm_generation st)"
    using assms(2) by (metis (no_types, lifting) map_option_eq_Some)
  then show ?thesis using located_active [OF *(1)] located_lease [OF *(1)] by blast
qed

lemma settlement_fits:
  assumes "committed h tn b sn" and "resolve_begin_settlement tn sn = Inr ef"
  shows "fitting h tn ef b"
proof -
  obtain run stream reference where owned: "owned_evidence tn sn run stream reference" "\<not> sr_settling run"
    and ef: "ef = (effect_of ((result_of (tn_kind tn))
           \<lparr>rs_cancellation_preceded := Some (sr_status run = RUN_CANCEL_REQUESTED),
            rs_status := Some (sr_status run)\<rparr>))
         \<lparr>ef_runs := [run\<lparr>sr_settling := True\<rparr>]\<rparr>"
    using resolve_begin_settlement_cases [OF assms(2)] by metis
  from owned have "sn_target sn = Some run" "sn_stream sn = Some stream" "ss_disposition stream = STREAM_ACTIVE"
    "\<not> is_final_run_status (sr_status run)" by (simp_all add: owned_evidence_def)
  then obtain c st r where *: "located h b (tn_channel tn) (tn_identity tn) c st" "sm_disposition st = STREAM_ACTIVE"
    "dget (sm_runs st) (id_run (tn_identity tn)) = Some r" "run = stored_memory_run r (sm_generation st)"
    "\<not> is_final_run_status (rr_status r)" "rr_identity r = tn_identity tn"
    using committed_target [OF assms(1)] by (metis memory_stream_simps(2) option.inject stored_run_simps(3))
  have r: "run_ok h (mh_thread_key h (tn_identity tn)) st (id_run (tn_identity tn)) r"
    using stream_ok_run [OF located_ok [OF *(1)] *(3)] .
  show ?thesis
    by (rule run_change_fits [OF *(1,3,5,2)]) (use r * ef in \<open>auto simp: run_ok_def run_later_def\<close>)
qed

lemma finish_fits:
  assumes "committed h tn b sn" and "resolve_finish_run tn sn = Inr ef"
  shows "fitting h tn ef b"
proof -
  obtain run stream reference requested status failure where owned: "owned_evidence tn sn run stream reference"
    and final: "is_final_run_status status" "(status, failure) = settled_status run requested (tn_failure tn)"
    and ef: "ef = (effect_of ((result_of (tn_kind tn))\<lparr>rs_status := Some status\<rparr>))
       \<lparr>ef_stream := Some (leave_active tn stream), ef_runs := [finished_run run stream status failure],
        ef_lease := LEASE_RELEASE, ef_lease_run := Some (id_run (tn_identity tn)),
        ef_retention := RETENTION_START\<rparr>"
    using resolve_finish_run_cases [OF assms(2)] by metis
  from owned have found: "sn_target sn = Some run" "sn_stream sn = Some stream" "ss_disposition stream = STREAM_ACTIVE"
    "\<not> is_final_run_status (sr_status run)" by (simp_all add: owned_evidence_def)
  obtain c st r where *: "located h b (tn_channel tn) (tn_identity tn) c st"
    "sn_stream sn = Some (memory_stream (tn_channel tn) (tn_identity tn) st)"
    "dget (sm_runs st) (id_run (tn_identity tn)) = Some r" "run = stored_memory_run r (sm_generation st)"
    "rr_identity r = tn_identity tn"
    using committed_target [OF assms(1) found(1)] by metis
  then have open_stream: "sm_disposition st = STREAM_ACTIVE" "\<not> is_final_run_status (rr_status r)"
    "stream = memory_stream (tn_channel tn) (tn_identity tn) st"
    using found by simp_all
  have r: "run_ok h (mh_thread_key h (tn_identity tn)) st (id_run (tn_identity tn)) r"
    using stream_ok_run [OF located_ok [OF *(1)] *(3)] .
  have cancelled: "rr_status r = RUN_CANCEL_REQUESTED \<Longrightarrow> status \<noteq> RUN_COMPLETED \<and> status \<noteq> RUN_RUNNING"
    using final * by (auto simp: settled_status_def split: if_splits)
  show ?thesis
    by (rule run_change_fits [OF *(1,3) open_stream(2,1)])
      (use r * ef open_stream final cancelled in \<open>auto simp: run_ok_def run_later_def finished_run_def leave_active_def\<close>)
qed

lemma cancellation_fits:
  assumes "committed h tn b sn" and "resolve_request_cancellation tn sn = Inr ef"
  shows "idle ef \<and> ef_channel ef = None \<or> fitting h tn ef b"
  using assms(2)
proof (cases rule: resolve_request_cancellation_cases)
  case (requested run stream)
  obtain c st r where *: "located h b (tn_channel tn) (tn_identity tn) c st"
    "sn_stream sn = Some (memory_stream (tn_channel tn) (tn_identity tn) st)"
    "dget (sm_runs st) (id_run (tn_identity tn)) = Some r" "run = stored_memory_run r (sm_generation st)"
    "rr_identity r = tn_identity tn"
    using committed_target [OF assms(1) requested(1)] by metis
  then have open_stream: "sm_disposition st = STREAM_ACTIVE" "rr_status r = RUN_RUNNING"
    "stream = memory_stream (tn_channel tn) (tn_identity tn) st"
    using requested by simp_all
  have r: "run_ok h (mh_thread_key h (tn_identity tn)) st (id_run (tn_identity tn)) r"
    using stream_ok_run [OF located_ok [OF *(1)] *(3)] .
  have "fitting h tn ef b"
    by (rule run_change_fits [OF *(1,3) _ open_stream(1)])
      (use r * requested(7) open_stream in \<open>auto simp: run_ok_def run_later_def\<close>)
  then show ?thesis by simp
qed simp

text \<open>Sealing: no producer is left, because in memory a live one holds its lease.\<close>

lemma sealed_owner:
  assumes "committed h tn b sn" "sn_stream sn = Some stream" "cleanup_owner tn sn stream = Inr lost"
  shows "lost = None \<and> ss_active_run stream = None"
proof -
  have False if active: "ss_active_run stream = Some active" "\<not> sr_lease_active run"
      "sn_target sn = Some run \<and> id_run (sr_identity run) = active \<or> sn_active sn = Some run" for active run
  proof -
    have target: "sn_target sn = Some run" "id_run (sr_identity run) = active"
      using that committed_active [OF assms(1)] by auto
    obtain c st r where *: "located h b (tn_channel tn) (tn_identity tn) c st"
      "sn_stream sn = Some (memory_stream (tn_channel tn) (tn_identity tn) st)"
      "dget (sm_runs st) (id_run (tn_identity tn)) = Some r" "run = stored_memory_run r (sm_generation st)"
      "sr_lease_active run \<longleftrightarrow> \<not> is_final_run_status (rr_status r)" "rr_identity r = tn_identity tn"
      using committed_target [OF assms(1) target(1)] by metis
    then obtain a where "sm_active st = Some a" "id_run a = id_run (tn_identity tn)"
      using active(1) target assms(2) by auto
    moreover have "runs_ok h (mh_thread_key h (tn_identity tn)) st"
      using located_ok [OF *(1)] by (simp add: stream_ok_def)
    ultimately have "\<not> is_final_run_status (rr_status r)" using *(3) by (auto simp: runs_ok_def)
    then show False using *(5) active(2) by simp
  qed
  then show ?thesis using cleanup_owner_free [OF assms(3)] by blast
qed

lemma sealed_ok:
  assumes ok: "stream_ok h thread st" and "sm_disposition st = STREAM_ACTIVE" "sm_active st = None"
    and st': "sm_generation st' = sm_generation st" "sm_messages st' = sm_messages st" "sm_by_id st' = sm_by_id st"
      "sm_signatures st' = sm_signatures st" "sm_runs st' = sm_runs st" "sm_retained_bytes st' = sm_retained_bytes st"
      "sm_retained_records st' = sm_retained_records st" "sm_disposition st' \<in> {STREAM_DELETING, STREAM_EXPIRING}"
      "sm_deleted st'" "sm_active st' = None" "sm_expires st' = None"
  shows "stream_ok h thread st'"
proof -
  have "message_weight st' = message_weight st" using st' by (intro ext) (simp add: message_weight_def)
  then show ?thesis
    using ok assms(2,3) st' unfolding stream_ok_def
    by (auto simp: log_ok_def runs_ok_def run_ok_def counts_ok_def shape_ok_def)
qed

lemma sealed_disposition_in: "sealed_disposition reason \<in> {STREAM_DELETING, STREAM_EXPIRING}"
  by (simp add: sealed_disposition_def)

lemma seal_fits:
  assumes "committed h tn b sn" "sn_stream sn = Some stream" "ss_disposition stream = STREAM_ACTIVE"
    "cleanup_owner tn sn stream = Inr lost"
  shows "fitting h tn (seal_stream tn stream reason lost) b"
proof -
  let ?i = "tn_identity tn"
  let ?ef = "seal_stream tn stream reason None"
  obtain c st where at: "located h b (tn_channel tn) ?i c st" "stream = memory_stream (tn_channel tn) ?i st"
    using committed_stream [OF assms(1,2)] by metis
  have lost: "lost = None" and free: "sm_active st = None" using sealed_owner [OF assms(1,2,4)] at(2) by simp_all
  have open_stream: "sm_disposition st = STREAM_ACTIVE" using assms(3) at(2) by simp
  have ef: "ef_channel ?ef = None" "ef_tombstone ?ef = None" "ef_message ?ef = None" "ef_runs ?ef = []"
    "ef_retention ?ef = RETENTION_CLEAR"
    "ef_stream ?ef = Some (stream\<lparr>ss_disposition := sealed_disposition reason, ss_active_run := None,
          ss_control_sequence := ss_control_sequence stream + 1\<rparr>)"
    by (simp_all add: seal_stream_def)
  have updated: "updated_stream ?i ?ef 0 0 st = st\<lparr>sm_disposition := sealed_disposition reason, sm_deleted := True,
      sm_control := sm_control st + 1\<rparr>"
  proof -
    have "sealed_disposition reason \<noteq> STREAM_ACTIVE" by (simp add: sealed_disposition_def)
    moreover have "ss_payload_bytes stream = sm_payload_bytes st" "ss_control_sequence stream = sm_control st"
      by (simp_all add: at(2))
    ultimately show ?thesis
      by (intro stream_state.equality) (simp_all add: updated_stream_def ef apply_stream_def charge_stream_def free)
  qed
  have "fitting h tn ?ef b"
  proof (rule fits_known [OF at(1) ef(2)])
    show "effect_capacity c (mh_thread_key h ?i) ?ef = (0, 0, 0)"
      using at(1) ef by (simp add: effect_capacity_def located_def Let_def)
    show "effect_stream c (mh_thread_key h ?i) ?ef = Some st"
      using at ef by (simp add: effect_stream_def located_def)
    show "same_generation st (updated_stream ?i ?ef 0 0 st)"
      using sealed_disposition_in [of reason] open_stream by (auto simp: updated same_generation_def)
    show "stream_ok h (mh_thread_key h ?i) ((updated_stream ?i ?ef 0 0 st)\<lparr>sm_expires := deadline\<rparr>)"
      if "deadline_fits ?ef (sm_expires st) deadline" for deadline
      by (rule sealed_ok [OF located_ok [OF at(1)] open_stream free])
        (use that ef free sealed_disposition_in [of reason] in \<open>simp_all add: updated deadline_fits_def\<close>)
  qed
  then show ?thesis by (simp add: lost)
qed

section \<open>Preparing a run\<close>

lemma Max_above: "finite A \<Longrightarrow> x \<in> A \<Longrightarrow> x < Max A + (1 :: int)"
  using Max_ge by fastforce

text \<open>The generation that a preparation opens is above every generation that was retired.\<close>

lemma fresh_above:
  assumes snap: "snapshot_of h k i None message_id b sn" and none: "sn_stream sn = None" and inv: "backend_inv h b"
  shows "1 \<le> fresh_generation sn \<and>
    (\<forall>g. dget (tombstones_of (channel_at k b) (mh_thread_key h i)) g \<noteq> None \<longrightarrow> g < fresh_generation sn)"
proof -
  let ?ts = "tombstones_of (channel_at k b) (mh_thread_key h i)"
  have positive: "1 \<le> g" if "dget ?ts g \<noteq> None" for g
  proof (cases "dget (mb_channels b) k")
    case None
    then show ?thesis using that by (simp add: channel_at_def tombstones_of_def new_channel_state_def)
  next
    case (Some c)
    then show ?thesis using that backend_inv_channel [OF inv Some] by (simp add: channel_ok_def)
  qed
  show ?thesis
  proof (cases "?ts = []")
    case True
    then show ?thesis
      using snap none by (simp add: snapshot_of_def Let_def tombstone_reason_def fresh_generation_def)
  next
    case False
    let ?m = "Max (set (dkeys ?ts))"
    have "?m \<in> set (dkeys ?ts)" using False by (intro Max_in) auto
    then obtain reason where m: "dget ?ts ?m = Some reason" using dget_None_notin [of ?ts ?m] by auto
    then have "fresh_generation sn = ?m + 1"
      using snap False by (simp add: snapshot_of_def Let_def tombstone_reason_def fresh_generation_def)
    moreover have "g < ?m + 1" if "dget ?ts g \<noteq> None" for g
      by (rule Max_above) (use that dget_None_notin [of ?ts g] in auto)
    ultimately show ?thesis using positive [of ?m] m by simp
  qed
qed

lemma snapshot_new_channel:
  assumes "snapshot_of h k i g message_id b sn" "backend_inv h b"
  shows "sn_channel sn = None \<longleftrightarrow> dget (mb_channels b) k = None"
proof (cases "dget (mb_channels b) k")
  case None
  then show ?thesis using assms(1)
    by (simp add: snapshot_of_def Let_def snapshot_channel_def channel_at_def new_channel_state_def)
next
  case (Some c)
  then show ?thesis using assms(1) backend_inv_channel [OF assms(2) Some]
    by (simp add: snapshot_of_def Let_def snapshot_channel_def channel_ok_def)
qed

lemma start_fits:
  assumes snap: "committed h tn b sn" and kind: "tn_kind tn = PREPARE_RUN" "transition_ok tn"
    and stream: "prepared_stream tn sn = Inr stream" and none: "sn_target sn = None"
    and channel: "prepared_channel tn codec sn = Inr channel"
    and start: "start_run tn sn stream cursor channel = Inr ef"
  shows "fitting h tn ef b"
proof -
  let ?i = "tn_identity tn" and ?k = "tn_channel tn"
  let ?t = "mh_thread_key h ?i"
  have inv: "backend_inv h b" "msg_host_ok h" using snap by (simp_all add: committed_def)
  have gen: "selected_generation tn = None" using kind by (simp add: selected_generation_def transition_ok_def)
  have taken: "snapshot_of h ?k ?i None (tn_message_id tn) b sn" using snap gen by (simp add: committed_def)
  have unowned: "sn_active sn = None"
    using start_run_cases [OF start] committed_active [OF snap] by (cases "sn_active sn") auto
  then have ef: "ef_channel ef = channel" "ef_message ef = None" "ef_retention ef = RETENTION_CLEAR"
    "ef_tombstone ef = None" "ef_runs ef = [created_run tn stream]"
    "ef_stream ef = Some (stream\<lparr>ss_next_fence := ss_next_fence stream + 1,
      ss_active_run := Some (id_run ?i), ss_retention_expired := False\<rparr>)"
    using start_run_cases [OF start] by simp_all
  note created = created_run_def
  show ?thesis
  proof (cases "sn_stream sn")
    case (Some found)
    obtain c st where at: "located h b ?k ?i c st" "found = memory_stream ?k ?i st"
      "sn_target sn = map_option (\<lambda>r. stored_memory_run r (sm_generation st)) (dget (sm_runs st) (id_run ?i))"
      "sn_active sn = map_option (\<lambda>r. stored_memory_run r (sm_generation st)) (active_record ?i True st)"
      using committed_stream [OF snap Some] by metis
    have "sm_disposition st \<in> {STREAM_ACTIVE, STREAM_DELETING, STREAM_EXPIRING}"
      using located_ok [OF at(1)] by (simp add: stream_ok_def shape_ok_def)
    then have found: "stream = memory_stream ?k ?i st" "sm_disposition st = STREAM_ACTIVE"
      using prepared_stream_Inr [OF stream] Some at(2) by auto
    have free: "dget (sm_runs st) (id_run ?i) = None" "sm_active st = None"
      using located_free [OF at(1)] at(3,4) none unowned by simp_all
    have "sn_channel sn \<noteq> None"
      using snapshot_new_channel [OF taken inv(1)] at(1) by (simp add: located_def)
    then have "channel = None" using prepared_channel_Inr [OF channel] by auto
    note ef' = ef [unfolded this found(1)]
    have good: "same_generation st (updated_stream ?i ef 0 1 st) \<and>
        stream_ok h ?t ((updated_stream ?i ef 0 1 st)\<lparr>sm_expires := None\<rparr>)"
      by (rule started_ok [OF located_ok [OF at(1)] found(2) free(2,1) ef'(6) ef'(2) ef'(5)])
        (simp_all add: found created)
    show ?thesis
    proof (rule fits_known [OF at(1) ef(4)])
      show "effect_capacity c ?t ef = (0, 1, 1)"
        using at(1) ef' free by (simp add: effect_capacity_def located_def Let_def known_run_def created
            run_checkpoint_bytes_def checkpoint_bytes_def)
      show "effect_stream c ?t ef = Some st"
        using at(1) ef' by (simp add: effect_stream_def located_def)
      show "stream_ok h ?t ((updated_stream ?i ef 0 1 st)\<lparr>sm_expires := deadline\<rparr>)"
        if "deadline_fits ef (sm_expires st) deadline" for deadline
        using that good ef(3) by (simp add: deadline_fits_def)
    qed (use good in simp)
  next
    case None
    let ?g = "fresh_generation sn"
    let ?st = "new_stream_state ?g"
    have new: "stream = new_stream tn ?g" using prepared_stream_Inr [OF stream] None by simp
    note ef' = ef [unfolded this]
    have absent: "dget (ch_streams (channel_at ?k b)) ?t = None" using snapshot_none [OF taken None] by simp
    have above: "1 \<le> ?g" "\<forall>g. dget (tombstones_of (channel_at ?k b) ?t) g \<noteq> None \<longrightarrow> g < ?g"
      using fresh_above [OF taken None inv(1)] by blast+
    have good: "same_generation ?st (updated_stream ?i ef 0 1 ?st) \<and>
        stream_ok h ?t ((updated_stream ?i ef 0 1 ?st)\<lparr>sm_expires := None\<rparr>)"
      by (rule started_ok [OF new_stream_ok [OF above(1)] _ _ _ ef'(6) ef'(2) ef'(5)])
        (simp_all add: new_stream_def new_stream_state_def created)
    obtain records where capacity: "effect_capacity (channel_at ?k b) ?t ef = (0, records, 1)"
      using ef' absent by (simp add: effect_capacity_def Let_def known_run_def created
          run_checkpoint_bytes_def checkpoint_bytes_def)
    have opened: "effect_stream (channel_at ?k b) ?t ef = Some ?st"
      using ef' absent by (simp add: effect_stream_def new_stream_def)
    have registered: "dget (mb_channels b) ?k = None \<longrightarrow> ef_channel ef \<noteq> None"
      using snapshot_new_channel [OF taken inv(1)] prepared_channel_Inr [OF channel] ef(1) by auto
    have generation: "sm_generation ?st = ?g" by (simp add: new_stream_state_def)
    show ?thesis
      unfolding fits_def Let_def
    proof (intro conjI exI)
      show "effect_capacity (channel_at ?k b) ?t ef = (0, records, 1)" by (rule capacity)
      show "effect_stream (channel_at ?k b) ?t ef = Some ?st" by (rule opened)
      show "case dget (ch_streams (channel_at ?k b)) ?t of
            Some old \<Rightarrow> ?st = old \<and> same_generation old (updated_stream ?i ef 0 1 ?st)
          | None \<Rightarrow> ef_stream ef \<noteq> None \<and> ?st = new_stream_state (sm_generation ?st) \<and>
              (\<forall>g. dget (tombstones_of (channel_at ?k b) ?t) g \<noteq> None \<longrightarrow> g < sm_generation ?st)"
        using absent above(2) ef(6) generation by simp
      show "\<forall>deadline. deadline_fits ef (sm_expires ?st) deadline \<longrightarrow>
          stream_ok h ?t ((updated_stream ?i ef 0 1 ?st)\<lparr>sm_expires := deadline\<rparr>)"
        using good ef(3) by (simp add: deadline_fits_def)
    qed (use registered ef(4) in blast)+
  qed
qed

section \<open>Appending a message\<close>

lemma matching_none:
  "matching_message h i st (Some x) = Inr None \<Longrightarrow> stream_ok h t st \<Longrightarrow> dget (sm_by_id st) x = None"
proof (rule ccontr)
  assume none: "matching_message h i st (Some x) = Inr None" and ok: "stream_ok h t st"
    and "dget (sm_by_id st) x \<noteq> None"
  then obtain m where m: "dget (sm_by_id st) x = Some m" by auto
  then obtain cp where "dget (sm_signatures st) x = Some (id_run (me_identity m), me_codec m, me_payload m, cp)"
    using ok by (auto simp: stream_ok_def log_ok_def)
  then show False using none m by (auto simp: matching_message_def attempt_Inr)
qed

lemma append_fits:
  assumes snap: "committed h tn b sn" and target: "sn_target sn = Some run" and stream: "sn_stream sn = Some stream"
    "ss_disposition stream = STREAM_ACTIVE" and live: "\<not> is_final_run_status (sr_status run)"
    and message: "tn_message_id tn = Some message_id" "sn_message sn = None"
    and signed: "message_signature sha (tn_identity tn) codec_id payload (tn_checkpoint tn) = Inr signature"
    and ef: "ef = append_new tn sn run stream reference codec_id message_id payload signature"
  shows "fitting h tn ef b"
proof -
  let ?i = "tn_identity tn" and ?k = "tn_channel tn"
  let ?t = "mh_thread_key h ?i"
  obtain c st r where *: "located h b ?k ?i c st" "sn_stream sn = Some (memory_stream ?k ?i st)"
    "dget (sm_runs st) (id_run ?i) = Some r" "run = stored_memory_run r (sm_generation st)" "rr_identity r = ?i"
    using committed_target [OF snap target] by metis
  have ok: "stream_ok h ?t st" by (rule located_ok [OF *(1)])
  have st: "stream = memory_stream ?k ?i st" "sm_disposition st = STREAM_ACTIVE" "\<not> is_final_run_status (rr_status r)"
    using * stream live by simp_all
  have run: "run_ok h ?t st (id_run ?i) r" using stream_ok_run [OF ok *(3)] .
  have active: "sm_active st = Some ?i" using run st(3) *(5) by (simp add: run_ok_def)
  obtain c' st' where "located h b ?k ?i c' st'" "matching_message h ?i st' (tn_message_id tn) = Inr (sn_message sn)"
    using committed_stream [OF snap stream(1)] by metis
  then have fresh: "dget (sm_by_id st) message_id = None"
    using *(1) matching_none [OF _ ok] message by (simp add: located_def)
  then have unsigned: "dget (sm_signatures st) message_id = None" using ok by (simp add: stream_ok_def log_ok_def)
  let ?n = "int (length (sm_messages st)) + 1"
  define m where "m = \<lparr>me_channel = ?k, me_identity = ?i, me_seq = ?n, me_message_id = message_id,
    me_codec = codec_id, me_payload = payload, me_created_at = sn_observed_at sn\<rparr>"
  define run' where "run' = run\<lparr>sr_end := ?n, sr_ready := sr_ready run \<or> (tn_kind tn \<noteq> PUBLISH_MESSAGE \<and> tn_opens tn),
    sr_closed := sr_closed run \<or> tn_closes tn,
    sr_checkpoint := (if tn_checkpoint tn = None then sr_checkpoint run else tn_checkpoint tn)\<rparr>"
  let ?r = "overwrite_run ?i run'"
  let ?bytes = "run_weight ?r - run_weight r + (int (length payload) + checkpoint_bytes (tn_checkpoint tn))"
  have ef': "ef_channel ef = None" "ef_tombstone ef = None" "ef_runs ef = [run']" "ef_retention ef = RETENTION_NONE"
    "ef_message ef = Some \<lparr>ev_envelope = m, ev_signature = signature, ev_checkpoint = tn_checkpoint tn\<rparr>"
    "ef_stream ef = Some (stream\<lparr>ss_latest := ?n, ss_payload_bytes := sm_payload_bytes st + int (length payload),
       ss_message_sequence := ?n\<rparr>)"
    by (simp_all add: ef append_new_def Let_def m_def run'_def st(1))
  have identity: "sr_identity run' = ?i" using * by (simp add: run'_def)
  have deleted: "sm_deleted st = (sm_disposition st \<noteq> STREAM_ACTIVE)" using ok by (simp add: stream_ok_def shape_ok_def)
  have updated: "updated_stream ?i ef ?bytes 1 st = st\<lparr>sm_messages := sm_messages st @ [m],
      sm_by_id := dset (me_message_id m) m (sm_by_id st),
      sm_signatures := dset (me_message_id m) (id_run (me_identity m), me_codec m, me_payload m, tn_checkpoint tn) (sm_signatures st),
      sm_runs := dset (id_run ?i) ?r (sm_runs st),
      sm_payload_bytes := sm_payload_bytes st + int (length (me_payload m)),
      sm_retained_bytes := sm_retained_bytes st + (run_weight ?r - run_weight r +
         (int (length (me_payload m)) + checkpoint_bytes (tn_checkpoint tn))),
      sm_retained_records := sm_retained_records st + 1\<rparr>"
    using fresh *(3,5) active deleted st(2)
    by (intro stream_state.equality)
      (simp_all add: updated_stream_def ef' apply_stream_def charge_stream_def apply_message_def apply_run_def
        identity Let_def m_def st(1))
  have later: "run_later r ?r"
    using run * st(3) by (auto simp: run_later_def run'_def run_ok_def not_final st(2))
  have run_ok: "run_ok h ?t (updated_stream ?i ef ?bytes 1 st) (id_run ?i) ?r"
    using run * st(2,3) active unfolding updated by (auto simp: run_ok_def run'_def)
  have valid: "signable m"
    using signed by (auto simp: signable_def m_def message_signature_def require_Inr required_identity_def)
  have good: "stream_ok h ?t (updated_stream ?i ef ?bytes 1 st)"
    by (rule append_message_ok [OF ok st(2) *(3) st(3) _ _ _ _ run_ok _ _ updated])
      (use fresh * st(3) valid in \<open>simp_all add: m_def run'_def\<close>)
  show ?thesis
  proof (rule fits_known [OF *(1) ef'(2)])
    show "effect_capacity c ?t ef = (?bytes, 1, 1)"
      using *(1,3) ef' fresh by (simp add: effect_capacity_def located_def Let_def known_run_def identity
          run_checkpoint_bytes_def run_weight_def message_is_new_def m_def)
    show "effect_stream c ?t ef = Some st"
      using *(1) ef' by (simp add: effect_stream_def located_def st(1))
    show "same_generation st (updated_stream ?i ef ?bytes 1 st)"
      unfolding updated using later *(3) st(2) unsigned by (auto simp: same_generation_def m_def)
    show "stream_ok h ?t ((updated_stream ?i ef ?bytes 1 st)\<lparr>sm_expires := deadline\<rparr>)"
      if "deadline_fits ef (sm_expires st) deadline" for deadline
    proof -
      have "deadline = sm_expires st" using that ef'(4) by (simp add: deadline_fits_def)
      then have "(updated_stream ?i ef ?bytes 1 st)\<lparr>sm_expires := deadline\<rparr> = updated_stream ?i ef ?bytes 1 st"
        by (simp add: updated)
      then show ?thesis using good by simp
    qed
  qed
qed

section \<open>Effects that change no generation\<close>

lemma dset_same: "dget d k = Some v \<Longrightarrow> dset k v d = d"
  by (induction d) auto

lemma put_same_channel:
  assumes "backend_inv h b"
  shows "put_channel False (channel_at k b) b = b"
proof (cases "dget (mb_channels b) k")
  case None
  then show ?thesis by (simp add: put_channel_def channel_at_def new_channel_state_def)
next
  case (Some c)
  then have "ch_channel c = k" using backend_inv_channel [OF assms Some] by (simp add: channel_ok_def)
  then show ?thesis using Some by (simp add: put_channel_def dset_same)
qed

lemma idle_keeps:
  assumes inv: "backend_inv h b" "msg_host_ok h" and "idle ef" "ef_channel ef = None"
  shows "keeps h (apply_effect h k i ef) b"
proof (cases "dget (ch_streams (channel_at k b)) (mh_thread_key h i)")
  case None
  let ?c = "channel_at k b"
  have capacity: "effect_capacity ?c (mh_thread_key h i) ef = (0, 0, 0)"
    using assms by (simp add: idle_def effect_capacity_def Let_def)
  have stream: "effect_stream ?c (mh_thread_key h i) ef = None"
    using assms None by (simp add: idle_def effect_stream_def)
  have "charge_backend 0 0 b = b" by (simp add: charge_backend_def)
  then show ?thesis
    using assms capacity stream put_same_channel [OF inv(1)]
    by (simp add: keeps_def apply_effect_def wp Let_def effect_channel_def streamless_error_def idle_def
        split: option.split)
next
  case (Some st)
  then obtain c where "dget (mb_channels b) k = Some c" "dget (ch_streams c) (mh_thread_key h i) = Some st"
    using stream_at_known [of k "mh_thread_key h i" b st] by (auto simp: stream_at_def)
  then have "fits h k i ef b"
    using idle_fits [OF _ assms(3,4)] inv by (simp add: located_def)
  then show ?thesis by (rule apply_effect_keeps [OF inv(1)])
qed

section \<open>Finishing a cleanup\<close>

lemma ddel_dset: "ddel k (dset k v d) = ddel k d"
  by (induction d) auto

text \<open>Finalizing amounts to retiring the sealed generation.\<close>

lemma finalize_run:
  assumes at: "located h b (tn_channel tn) (tn_identity tn) c st"
  shows "run_with (apply_effect h (tn_channel tn) (tn_identity tn)
      (finalize_stream tn (memory_stream (tn_channel tn) (tn_identity tn) st) (sm_generation st) reason)) Q E b =
    Q () (retire_generation c (mh_thread_key h (tn_identity tn)) st reason b)"
proof -
  let ?k = "tn_channel tn" and ?i = "tn_identity tn"
  let ?t = "mh_thread_key h ?i"
  let ?ef = "finalize_stream tn (memory_stream ?k ?i st) (sm_generation st) reason"
  let ?st = "(updated_stream ?i ?ef 0 0 st)\<lparr>sm_expires := sm_expires st\<rparr>"
  let ?c = "put_stream ?t ?st c"
  have found: "dget (mb_channels b) ?k = Some c" "dget (ch_streams c) ?t = Some st" "backend_inv h b"
    using at by (simp_all add: located_def)
  have ch: "ch_channel c = ?k" using backend_inv_channel [OF found(3,1)] by (simp add: channel_ok_def)
  have ef: "ef_channel ?ef = None" "ef_tombstone ?ef = Some reason" "ef_message ?ef = None" "ef_runs ?ef = []"
    "ef_retention ?ef = RETENTION_NONE" "\<exists>s. ef_stream ?ef = Some s \<and> ss_generation s = sm_generation st"
    by (simp_all add: finalize_stream_def)
  have capacity: "effect_capacity (channel_at ?k b) ?t ?ef = (0, 0, 0)"
    using found ef by (simp add: effect_capacity_def Let_def)
  have stream: "effect_stream (channel_at ?k b) ?t ?ef = Some st"
    using found ef by (auto simp: effect_stream_def)
  have error: "effect_error (channel_at ?k b) ?ef 0 0 b = None"
    using found(3) ef by (simp add: effect_error_def backend_inv_def split: option.split)
  have retired: "retired_channel ?t ?st reason ?c = retired_channel ?t st reason c"
    by (simp add: retired_channel_def record_tombstone_def tombstones_of_def put_stream_def ddel_dset)
  have "retire_generation ?c ?t ?st reason (put_channel False ?c b) = retire_generation c ?t st reason b"
    using found ch retired by (simp add: retire_generation_def put_channel_def dset_dset)
  moreover have "charge_backend 0 0 b = b" by (simp add: charge_backend_def)
  ultimately show ?thesis
    using found ef ch
    by (simp add: wp_apply_effect [OF capacity error stream] wp Let_def effect_deadline_def schedule_expiry_def
        effect_channel_def)
qed

lemma finalize_keeps:
  assumes at: "located h b (tn_channel tn) (tn_identity tn) c st"
  shows "keeps h (apply_effect h (tn_channel tn) (tn_identity tn)
    (finalize_stream tn (memory_stream (tn_channel tn) (tn_identity tn) st) (sm_generation st) reason)) b"
  unfolding keeps_def finalize_run [OF at] using at retire_sound unfolding located_def by blast

section \<open>Committing\<close>

text \<open>What a resolved transition asks of the storage: nothing, a fitting change, or a finalization.\<close>

lemma resolved_cases:
  assumes snap: "committed h tn b sn" and kind: "transition_ok tn"
    and ef: "resolve_transition (mh_sha256 h) tn sn = Inr ef"
  obtains (idle) "idle ef" "ef_channel ef = None"
    | (fitting) "fitting h tn ef b"
    | (final) c st reason where "located h b (tn_channel tn) (tn_identity tn) c st"
      "sm_disposition st = sealed_disposition reason" "tn_kind tn = FINISH_CLEANUP"
      "tn_cleanup_generation tn = Some (sm_generation st)"
      "ef = finalize_stream tn (memory_stream (tn_channel tn) (tn_identity tn) st) (sm_generation st) reason"
proof -
  have inv: "backend_inv h b" "msg_host_ok h" using snap by (simp_all add: committed_def)
  note final' = final
  have append: thesis if "resolve_append_message (mh_sha256 h) tn sn = Inr ef"
    using that
  proof (cases rule: resolve_append_cases)
    case (new run stream reference codec_id message_id payload signature)
    then show thesis using append_fits [OF snap] fitting by metis
  qed (use idle in simp)
  show thesis
  proof (cases "tn_kind tn")
    case PREPARE_RUN
    then have resolved: "resolve_prepare_run tn sn = Inr ef" using ef by (simp add: resolve_transition_def require_Inr)
    have live: "sr_lease_active run \<or> is_final_run_status (sr_status run)" if "sn_target sn = Some run" for run
      using committed_target [OF snap that] by (metis stored_run_simps(3))
    show thesis
      using resolved
    proof (cases rule: resolve_prepare_cases)
      case (attach stream cursor channel run)
      obtain c st where "located h b (tn_channel tn) (tn_identity tn) c st"
        using committed_target [OF snap attach(2)] by metis
      then have "sn_channel sn \<noteq> None"
        using snap inv(1) by (auto simp: committed_def located_def snapshot_new_channel)
      then have "channel = None" using prepared_channel_Inr [OF attach(7)] by auto
      then show thesis using attach(6) idle by simp
    next
      case (start stream cursor channel)
      then show thesis using start_fits [OF snap PREPARE_RUN kind] fitting by blast
    qed (use live in blast)+
  next
    case BEGIN_SETTLEMENT
    then show thesis using ef settlement_fits [OF snap] fitting by (simp add: resolve_transition_def require_Inr)
  next
    case FINISH_RUN
    then show thesis using ef finish_fits [OF snap] fitting by (simp add: resolve_transition_def require_Inr)
  next
    case REQUEST_CANCELLATION
    then show thesis using ef cancellation_fits [OF snap] fitting idle
      by (auto simp add: resolve_transition_def require_Inr)
  next
    case RENEW_OWNERSHIP
    then have "resolve_renew_ownership tn sn = Inr ef" using ef by (simp add: resolve_transition_def require_Inr)
    then show thesis using resolve_renew_idle idle by metis
  next
    case RECONCILE_OWNERSHIP
    then have "resolve_reconcile_ownership tn sn = Inr ef" using ef by (simp add: resolve_transition_def require_Inr)
    then show thesis
    proof (cases rule: resolve_reconcile_cases)
      case (lost run)
      then show thesis using committed_target [OF snap lost(1)] by (metis stored_run_simps(3))
    qed (use idle in blast)
  next
    case BEGIN_CLEANUP
    then have "resolve_begin_cleanup tn sn = Inr ef" using ef by (simp add: resolve_transition_def require_Inr)
    then show thesis
    proof (cases rule: resolve_begin_cleanup_cases)
      case (sealed stream reason lost)
      then show thesis using seal_fits [OF snap] fitting by blast
    qed (use idle in blast)
  next
    case FINISH_CLEANUP
    then have "resolve_finish_cleanup tn sn = Inr ef" using ef by (simp add: resolve_transition_def require_Inr)
    then show thesis
    proof (cases rule: resolve_finish_cleanup_cases)
      case (final stream reason)
      obtain c st where "located h b (tn_channel tn) (tn_identity tn) c st"
        "stream = memory_stream (tn_channel tn) (tn_identity tn) st"
        using committed_stream [OF snap final(1)] by metis
      then show thesis using final' [of c st reason] final FINISH_CLEANUP by simp
    qed (use idle in blast)
  next
    case APPEND_MESSAGE
    then show thesis using ef append by (simp add: resolve_transition_def require_Inr)
  next
    case PUBLISH_MESSAGE
    then show thesis using ef append by (simp add: resolve_transition_def require_Inr)
  qed
qed

lemma resolved_keeps:
  assumes snap: "committed h tn b sn" and kind: "transition_ok tn"
    and ef: "resolve_transition (mh_sha256 h) tn sn = Inr ef"
  shows "keeps h (apply_effect h (tn_channel tn) (tn_identity tn) ef) b"
proof -
  have inv: "backend_inv h b" "msg_host_ok h" using snap by (simp_all add: committed_def)
  show ?thesis
    using snap kind ef
  proof (cases rule: resolved_cases)
    case idle
    then show ?thesis by (rule idle_keeps [OF inv])
  next
    case fitting
    then show ?thesis by (rule apply_effect_keeps [OF inv(1)])
  next
    case (final c st reason)
    then show ?thesis using finalize_keeps by simp
  qed
qed

lemma commit_keeps:
  assumes "backend_inv h b" "msg_host_ok h" "transition_ok tn"
  shows "keeps h (commit_transition h tn) b"
  unfolding commit_transition_def
proof (rule keeps_seq)
  show "keeps h (if_op (tn_kind tn \<in> {PREPARE_RUN, APPEND_MESSAGE, PUBLISH_MESSAGE}) (reclaim_expired h)) b"
    using reclaim_expired_keeps [OF assms(1)] assms(1) by (simp add: if_op_def keeps_def wp)
next
  fix t assume t: "backend_inv h t"
  show "keeps h (seq (expire_if_due h (tn_channel tn) (mh_thread_key h (tn_identity tn)))
     (bind (memory_snapshot h (tn_channel tn) (tn_identity tn) (selected_generation tn) (tn_message_id tn) True) (\<lambda>sn.
      bind (lift (resolve_transition (mh_sha256 h) tn sn)) (\<lambda>effect.
      seq (apply_effect h (tn_channel tn) (tn_identity tn) effect) (ret (ef_result effect)))))) t"
  proof (rule keeps_seq [OF expire_if_due_keeps [OF t]])
    fix u assume u: "backend_inv h u"
    let ?u = "u\<lparr>mb_utc_reads := Suc (mb_utc_reads u)\<rparr>"
    have "run_with (bind (lift (resolve_transition (mh_sha256 h) tn sn)) (\<lambda>effect.
        seq (apply_effect h (tn_channel tn) (tn_identity tn) effect) (ret (ef_result effect))))
        (\<lambda>_ v. backend_inv h v \<and> later u v) (\<lambda>_ v. backend_inv h v \<and> later u v) ?u"
      if snap: "snapshot_of h (tn_channel tn) (tn_identity tn) (selected_generation tn) (tn_message_id tn) u sn" for sn
    proof (cases "resolve_transition (mh_sha256 h) tn sn")
      case (Inl e)
      then show ?thesis using u by (simp add: wp)
    next
      case (Inr ef)
      have "committed h tn ?u sn"
        using snap u assms(2) by (simp add: committed_def snapshot_of_def Let_def snapshot_channel_def channel_at_def)
      then have "keeps h (apply_effect h (tn_channel tn) (tn_identity tn) ef) ?u"
        by (rule resolved_keeps [OF _ assms(3) Inr])
      then show ?thesis using Inr by (simp add: wp keeps_def)
    qed
    then show "keeps h (bind (memory_snapshot h (tn_channel tn) (tn_identity tn) (selected_generation tn) (tn_message_id tn) True) (\<lambda>sn.
      bind (lift (resolve_transition (mh_sha256 h) tn sn)) (\<lambda>effect.
      seq (apply_effect h (tn_channel tn) (tn_identity tn) effect) (ret (ef_result effect))))) u"
      unfolding keeps_def wp_bind [of "memory_snapshot _ _ _ _ _ _"] by (intro memory_snapshot_wp) (use u in simp_all)
  qed
qed

end
