(* ===== verification/Msg_Memory_Steps.thy ===== *)
theory Msg_Memory_Steps
  imports Msg_Memory_Commit
begin

text \<open>
  The remaining operations keep the invariant: loading a snapshot, reading a page, checking
  for a change and purging a sealed generation. Then the backend as a step relation, its
  interpretation as a system with an invariant, and what every later state keeps.
\<close>

section \<open>Loading and reading\<close>

lemma load_keeps:
  assumes "backend_inv h b"
  shows "keeps h (load_state h q) b"
proof -
  have snap: "keeps h (memory_snapshot h k i g m inc) u" if "backend_inv h u" for k i g m inc u
    using that by (simp add: keeps_def memory_snapshot_def wp Let_def split: sum.split)
  have "keeps h (seq (expire_if_due h k t) (memory_snapshot h k i g m inc)) b" for k t i g m inc
    by (rule keeps_seq [OF expire_if_due_keeps [OF assms]]) (rule snap)
  then show ?thesis
    using assms
    by (simp add: load_state_def keeps_def wp_seq [of "check _"] wp_check wp_bind wp_gets wp_option empty_snapshot_def
        wp_utc wp_ret split: option.split)
qed

lemma read_keeps:
  assumes "backend_inv h b"
  shows "keeps h (read_committed h q) b"
proof -
  have "keeps h (bind (try_gets (readable_stream h (mq_channel q) (mq_identity q) (mq_generation q))) (\<lambda>state.
      seq (check (if int (length (sm_messages state)) < mq_after q
             then Some (InvalidCursor (mq_after q) (int (length (sm_messages state)))) else None))
        (ret (page_of q state)))) u" if "backend_inv h u" for u
    using that by (simp add: keeps_def wp split: sum.split)
  then have "keeps h (seq (expire_if_due h (mq_channel q) (mh_thread_key h (mq_identity q)))
     (bind (try_gets (readable_stream h (mq_channel q) (mq_identity q) (mq_generation q))) (\<lambda>state.
      seq (check (if int (length (sm_messages state)) < mq_after q
             then Some (InvalidCursor (mq_after q) (int (length (sm_messages state)))) else None))
        (ret (page_of q state))))) b"
    by (intro keeps_seq [OF expire_if_due_keeps [OF assms]])
  then show ?thesis
    using assms by (simp add: read_committed_def keeps_def wp_seq [of "check _"] wp_check split: option.split)
qed

lemma wait_keeps:
  assumes "backend_inv h b"
  shows "keeps h (must_wait h k i g after) b"
  unfolding must_wait_def
  by (rule keeps_seq [OF expire_if_due_keeps [OF assms]]) (simp add: keeps_def wp split: sum.split)

section \<open>Purging\<close>

lemma sum_list_butlast: "xs \<noteq> [] \<Longrightarrow> sum_list (map f (butlast xs)) = sum_list (map f xs) - (f (last xs) :: int)"
  by (induction xs rule: rev_induct) simp_all

lemma dropped_log:
  assumes "log_ok st" "sm_messages st \<noteq> []"
  shows "log_ok (drop_message st)"
proof -
  let ?ms = "sm_messages st" and ?i = "me_message_id (last (sm_messages st))"
  have ms: "?ms = butlast ?ms @ [last ?ms]" using assms(2) by simp
  have dist: "distinct (map me_message_id ?ms)" using assms(1) by (simp add: log_ok_def)
  then have fresh: "?i \<notin> me_message_id ` set (butlast ?ms)"
    by (subst (asm) ms) (simp add: image_iff)
  have members: "m \<in> set (butlast ?ms) \<longleftrightarrow> m \<in> set ?ms \<and> me_message_id m \<noteq> ?i" for m
  proof -
    have "set ?ms = insert (last ?ms) (set (butlast ?ms))" by (subst (1) ms) simp
    then show ?thesis using fresh by auto (metis imageI)
  qed
  have dist': "distinct (map me_message_id (butlast ?ms))" using dist by (subst (asm) ms) simp
  have "me_seq (butlast ?ms ! n) = int n + 1" if "n < length (butlast ?ms)" for n
    using assms(1) that by (simp add: log_ok_def nth_butlast)
  then show ?thesis
    using assms(1) dist' members
    by (auto simp: log_ok_def drop_message_def release_records_def charge_stream_def Let_def)
qed

lemma drop_message_simps [simp]:
  "sm_generation (drop_message st) = sm_generation st" "sm_disposition (drop_message st) = sm_disposition st"
  "sm_deleted (drop_message st) = sm_deleted st" "sm_runs (drop_message st) = sm_runs st"
  "sm_active (drop_message st) = sm_active st" "sm_expires (drop_message st) = sm_expires st"
  "sm_messages (drop_message st) = butlast (sm_messages st)"
  "sm_retained_bytes (drop_message st) = sm_retained_bytes st - last_message_bytes st"
  "sm_retained_records (drop_message st) = sm_retained_records st - 1"
  by (simp_all add: drop_message_def release_records_def charge_stream_def Let_def)

lemma drop_run_simps [simp]:
  "sm_generation (drop_run st) = sm_generation st" "sm_disposition (drop_run st) = sm_disposition st"
  "sm_deleted (drop_run st) = sm_deleted st" "sm_runs (drop_run st) = tl (sm_runs st)"
  "sm_active (drop_run st) = sm_active st" "sm_expires (drop_run st) = sm_expires st"
  "sm_messages (drop_run st) = sm_messages st" "sm_by_id (drop_run st) = sm_by_id st"
  "sm_signatures (drop_run st) = sm_signatures st"
  "sm_retained_bytes (drop_run st) = sm_retained_bytes st - first_run_bytes st"
  "sm_retained_records (drop_run st) = sm_retained_records st - 1"
  by (simp_all add: drop_run_def release_records_def charge_stream_def)

definition sealed_state :: "stream_state \<Rightarrow> bool" where
  "sealed_state st \<longleftrightarrow> sm_disposition st \<in> {STREAM_DELETING, STREAM_EXPIRING}"

lemma drop_message_ok:
  assumes ok: "stream_ok h t st" and sealed: "sealed_state st" and some: "sm_messages st \<noteq> []"
  shows "stream_ok h t (drop_message st)"
proof -
  have log: "log_ok st" and counts: "counts_ok st" using ok by (simp_all add: stream_ok_def)
  have dist: "distinct (map me_message_id (sm_messages st))" using log by (simp add: log_ok_def)
  have "me_message_id m \<noteq> me_message_id (last (sm_messages st))" if "m \<in> set (butlast (sm_messages st))" for m
  proof -
    have "distinct (map me_message_id (butlast (sm_messages st) @ [last (sm_messages st)]))" using dist some by simp
    then show ?thesis using that by auto (metis image_eqI)
  qed
  then have "message_weight (drop_message st) m = message_weight st m" if "m \<in> set (butlast (sm_messages st))" for m
    using that by (simp add: message_weight_def drop_message_def release_records_def charge_stream_def Let_def)
  then have "sum_list (map (message_weight (drop_message st)) (butlast (sm_messages st))) =
      sum_list (map (message_weight st) (butlast (sm_messages st)))"
    by (rule sum_list_cong_weight)
  moreover have "last_message_bytes st = message_weight st (last (sm_messages st))"
    by (simp add: last_message_bytes_def message_weight_def Let_def)
  moreover have "int (length (sm_messages st)) = 1 + int (length (sm_messages st) - Suc 0)"
    using some by (cases "sm_messages st") simp_all
  moreover have "sm_disposition st \<noteq> STREAM_ACTIVE" using sealed by (auto simp: sealed_state_def)
  ultimately have "counts_ok (drop_message st)"
    using counts sealed sum_list_butlast [OF some, of "message_weight st"]
    unfolding counts_ok_def sealed_state_def drop_message_simps length_butlast
    by (intro conjI impI) (linarith | blast)+
  then show ?thesis
    using ok dropped_log [OF log some] sealed
    by (auto simp: stream_ok_def runs_ok_def run_ok_def shape_ok_def sealed_state_def)
qed

lemma drop_run_ok:
  assumes ok: "stream_ok h t st" and sealed: "sealed_state st" and some: "sm_runs st \<noteq> []"
  shows "stream_ok h t (drop_run st)"
proof -
  obtain x r rs where runs: "sm_runs st = (x, r) # rs" using some by (cases "sm_runs st") auto
  have wf: "wf_dict (sm_runs st)" using ok by (simp add: stream_ok_def runs_ok_def)
  then have "dget rs i = Some q \<Longrightarrow> dget (sm_runs st) i = Some q" for i q
    by (auto simp: runs wf_dict_def dest: dget_in) (metis dget_in fst_conv image_eqI)
  moreover have "wf_dict rs" using wf by (simp add: runs wf_dict_def)
  moreover have "message_weight (drop_run st) = message_weight st" by (intro ext) (simp add: message_weight_def)
  moreover have "first_run_bytes st = run_weight r" by (simp add: first_run_bytes_def run_weight_def runs)
  ultimately show ?thesis
    using ok sealed log_ok_cong [of st "drop_run st"]
    by (auto simp: stream_ok_def runs_ok_def run_ok_def counts_ok_def shape_ok_def sealed_state_def runs)
qed

text \<open>What the two loops leave: a good sealed generation that paid for what they removed.\<close>

definition purged :: "msg_host \<Rightarrow> py_str \<Rightarrow> stream_state \<Rightarrow> stream_state \<Rightarrow> int \<Rightarrow> int \<Rightarrow> bool" where
  "purged h t st st' bytes removed \<longleftrightarrow> stream_ok h t st' \<and> sealed_state st' \<and>
     sm_generation st' = sm_generation st \<and> sm_disposition st' = sm_disposition st \<and> sm_expires st' = sm_expires st \<and>
     0 \<le> bytes \<and> 0 \<le> removed \<and>
     sm_retained_bytes st' = sm_retained_bytes st - bytes \<and> sm_retained_records st' = sm_retained_records st - removed"

lemma last_message_bytes_nonneg [simp]: "0 \<le> last_message_bytes st"
  by (auto simp: last_message_bytes_def Let_def split: option.split)

lemma first_run_bytes_nonneg [simp]: "0 \<le> first_run_bytes st"
  by (simp add: first_run_bytes_def)

lemma purge_messages_purged:
  "purged h t st0 st bytes removed \<Longrightarrow> purge_messages maximum st bytes removed = (st', bytes', removed') \<Longrightarrow>
     purged h t st0 st' bytes' removed'"
proof (induction maximum st bytes removed rule: purge_messages.induct)
  case (1 maximum st bytes removed)
  show ?case
  proof (cases "sm_messages st = [] \<or> maximum \<le> removed")
    case True
    then show ?thesis using "1.prems" by (simp add: purge_messages.simps)
  next
    case False
    have "purged h t st0 (drop_message st) (bytes + last_message_bytes st) (removed + 1)"
      using "1.prems"(1) False drop_message_ok by (auto simp: purged_def sealed_state_def)
    then show ?thesis using 1 False by (simp add: purge_messages.simps [of maximum st])
  qed
qed

lemma purge_runs_purged:
  "purged h t st0 st bytes removed \<Longrightarrow> purge_runs maximum st bytes removed = (st', bytes', removed') \<Longrightarrow>
     purged h t st0 st' bytes' removed'"
proof (induction maximum st bytes removed rule: purge_runs.induct)
  case (1 maximum st bytes removed)
  show ?case
  proof (cases "sm_runs st = [] \<or> maximum \<le> removed")
    case True
    then show ?thesis using "1.prems" by (simp add: purge_runs.simps)
  next
    case False
    have "purged h t st0 (drop_run st) (bytes + first_run_bytes st) (removed + 1)"
      using "1.prems"(1) False drop_run_ok by (auto simp: purged_def sealed_state_def)
    then show ?thesis using 1 False by (simp add: purge_runs.simps [of maximum st])
  qed
qed

lemma purge_state_purged:
  assumes "stream_ok h t st" "sealed_state st" "purge_state maximum st = (st', bytes, removed)"
  shows "purged h t st st' bytes removed"
proof -
  obtain u b1 r1 where first: "purge_messages maximum st 0 0 = (u, b1, r1)" by (metis prod_cases3)
  have "purged h t st st 0 0" using assms by (simp add: purged_def)
  then have "purged h t st u b1 r1" by (rule purge_messages_purged [OF _ first])
  moreover have "purge_runs maximum u b1 r1 = (st', bytes, removed)" using assms(3) first by (simp add: purge_state_def)
  ultimately show ?thesis by (rule purge_runs_purged)
qed

lemma purge_keeps:
  assumes inv: "backend_inv h b"
  shows "keeps h (purge_generation h p) b"
proof (cases "stream_at (gp_channel p) (mh_thread_key h (gp_identity p)) b")
  case None
  then show ?thesis using inv by (simp add: keeps_def purge_generation_def wp split: option.split)
next
  case (Some st)
  let ?k = "gp_channel p" and ?t = "mh_thread_key h (gp_identity p)"
  obtain c where c: "dget (mb_channels b) ?k = Some c" "dget (ch_streams c) ?t = Some st"
    using stream_at_known [OF Some] by blast
  obtain st' bytes removed where out: "purge_state (gp_maximum p) st = (st', bytes, removed)" by (metis prod_cases3)
  let ?b = "put_channel True (put_stream ?t st' c) (charge_backend (- bytes) (- removed) b)"
  have "backend_inv h ?b \<and> later b ?b" if sealed: "sm_disposition st \<in> {STREAM_DELETING, STREAM_EXPIRING}"
  proof -
    have ok: "channel_ok h ?k c" using backend_inv_channel [OF inv c(1)] .
    have st_ok: "stream_ok h ?t st" using channel_ok_stream [OF ok c(2)] .
    have p: "purged h ?t st st' bytes removed"
      using purge_state_purged [OF st_ok _ out] sealed by (simp add: sealed_state_def)
    have "sm_expires st = None" using st_ok sealed by (auto simp: stream_ok_def shape_ok_def)
    have eq: "?b = with_channel ?k (put_stream ?t st' c) (- bytes) (- removed) (mb_expirations b) b"
      using ok by (simp add: put_channel_def charge_backend_def with_channel_def channel_ok_def)
    have wf: "wf_dict (ch_streams c)" using ok by (simp add: channel_ok_def)
    have known: "?t \<in> channel_threads c"
      using dget_None_notin [of "ch_streams c" ?t] c(2) by (simp add: channel_threads_def)
    have deadlines: "\<exists>s. dget (ch_streams (put_stream ?t st' c)) u = Some s \<and> sm_expires s = Some d"
      if known: "dget (xi_deadlines (mb_expirations b)) (?k, u) = Some d" for u d
    proof -
      obtain x s where "dget (mb_channels b) ?k = Some x" "dget (ch_streams x) u = Some s" "sm_expires s = Some d"
        using known inv unfolding backend_inv_def by blast
      then show ?thesis using c \<open>sm_expires st = None\<close> by auto
    qed
    have "backend_inv h (with_channel ?k (put_stream ?t st' c) (- bytes) (- removed) (mb_expirations b) b)"
    proof (rule with_channel_inv [OF inv _ _ _ _ _ _ deadlines])
      show "channel_ok h ?k (put_stream ?t st' c)"
        by (rule channel_ok_put [OF ok]) (use p ok c(2) in \<open>auto simp: purged_def channel_ok_def\<close>)
      show "channel_bytes (put_stream ?t st' c) = channel_bytes (channel_at ?k b) + - bytes"
        "channel_records (put_stream ?t st' c) = channel_records (channel_at ?k b) + - removed"
        using p c wf known by (simp_all add: channel_bytes_put channel_records_put purged_def)
      show "mb_total_bytes b + - bytes \<le> max_total_bytes (mb_limits b)"
        "mb_total_records b + - removed \<le> max_total_records (mb_limits b)"
        using p inv by (simp_all add: purged_def backend_inv_def)
    qed (use inv in \<open>simp_all add: backend_inv_def\<close>)
    moreover have "later b (with_channel ?k (put_stream ?t st' c) (- bytes) (- removed) (mb_expirations b) b)"
    proof (rule with_channel_later)
      fix c' assume "dget (mb_channels b) ?k = Some c'"
      then have "c' = c" using c(1) by simp
      moreover have "same_generation st st'"
        using p sealed by (auto simp: purged_def same_generation_def)
      ultimately show "ch_codec (put_stream ?t st' c) = ch_codec c' \<and>
       (\<forall>u g reason. dget (tombstones_of c' u) g = Some reason \<longrightarrow> dget (tombstones_of (put_stream ?t st' c) u) g = Some reason) \<and>
       (\<forall>u s. dget (ch_streams c') u = Some s \<longrightarrow> dget (tombstones_of (put_stream ?t st' c) u) (sm_generation s) \<noteq> None \<or>
          (\<exists>s'. dget (ch_streams (put_stream ?t st' c)) u = Some s' \<and> same_generation s s'))"
        using c(2) by auto
    qed
    ultimately show ?thesis by (simp add: eq)
  qed
  note sound = this
  have run: "run_with (purge_generation h p) Q E b =
     (if gp_maximum p < 1 then E (MsgValueError ''maximum_records must be positive'') b
      else if sm_generation st \<noteq> gp_generation p then Q \<lparr>pr_removed = 0, pr_complete = True\<rparr> b
      else if sm_disposition st \<notin> {STREAM_DELETING, STREAM_EXPIRING} then
        E (StreamDeleteConflict ?k (gp_identity p)
              (case sm_active st of Some active \<Rightarrow> active | None \<Rightarrow> gp_identity p)) b
      else Q \<lparr>pr_removed = removed, pr_complete = (sm_messages st' = [] \<and> sm_runs st' = [])\<rparr> ?b)" for Q E
    by (simp add: purge_generation_def wp Some out channel_at_known [OF c(1)])
  show ?thesis unfolding keeps_def run using sound inv by auto
qed

section \<open>The backend as a system\<close>

text \<open>
  One step is one call of the backend with any arguments, whatever its outcome. The ledger
  builds the transitions, so they satisfy \<open>transition_ok\<close>.
\<close>

inductive msg_step :: "msg_host \<Rightarrow> memory_backend \<Rightarrow> memory_backend \<Rightarrow> bool" for h where
  commit: "transition_ok tn \<Longrightarrow> commit_transition h tn b = (outcome, b') \<Longrightarrow> msg_step h b b'"
| load: "load_state h q b = (outcome, b') \<Longrightarrow> msg_step h b b'"
| read: "read_committed h q b = (outcome, b') \<Longrightarrow> msg_step h b b'"
| wait: "must_wait h channel identity generation after b = (outcome, b') \<Longrightarrow> msg_step h b b'"
| purge: "purge_generation h p b = (outcome, b') \<Longrightarrow> msg_step h b b'"

definition msg_init :: "msg_host \<Rightarrow> memory_backend \<Rightarrow> bool" where
  "msg_init h b \<longleftrightarrow> msg_host_ok h \<and> (\<exists>limits retention. messaging_limits_post_init limits = None \<and>
     retention_post_init retention = None \<and> b = new_backend limits retention)"

definition msg_inv :: "msg_host \<Rightarrow> memory_backend \<Rightarrow> bool" where
  "msg_inv h b \<longleftrightarrow> msg_host_ok h \<and> backend_inv h b"

lemma keeps_outcome: "keeps h m b \<Longrightarrow> m b = (outcome, b') \<Longrightarrow> backend_inv h b' \<and> later b b'"
  by (cases outcome) (simp_all add: keeps_def run_with_def)

lemma msg_step_keeps:
  assumes "msg_step h b b'" and "msg_inv h b"
  shows "backend_inv h b' \<and> later b b'"
  using assms
proof cases
  case (commit tn outcome)
  then show ?thesis using assms(2) keeps_outcome [OF commit_keeps] by (auto simp: msg_inv_def)
next
  case (load q outcome)
  then show ?thesis using assms(2) keeps_outcome [OF load_keeps] by (auto simp: msg_inv_def)
next
  case (read q outcome)
  then show ?thesis using assms(2) keeps_outcome [OF read_keeps] by (auto simp: msg_inv_def)
next
  case (wait channel identity generation after outcome)
  then show ?thesis using assms(2) keeps_outcome [OF wait_keeps] by (auto simp: msg_inv_def)
next
  case (purge p outcome)
  then show ?thesis using assms(2) keeps_outcome [OF purge_keeps] by (auto simp: msg_inv_def)
qed

lemma new_backend_inv:
  "messaging_limits_post_init limits = None \<Longrightarrow> backend_inv h (new_backend limits retention)"
proof -
  assume "messaging_limits_post_init limits = None"
  then have "0 < max_total_bytes limits" "0 < max_total_records limits"
    by (simp_all add: messaging_limits_post_init_def positive_limit_def not_le split: if_splits)
  then show ?thesis by (simp add: backend_inv_def new_backend_def) (simp add: empty_index_def)
qed

section \<open>Generations as fences\<close>

text \<open>The latest generation of a thread: the live one, or the last that was retired.\<close>

definition latest_generation :: "memory_backend \<Rightarrow> py_str \<times> py_str \<Rightarrow> int" where
  "latest_generation b p = (case p of (k, t) \<Rightarrow>
     (case stream_at k t b of
        Some st \<Rightarrow> sm_generation st
      | None \<Rightarrow> (let d = tombstones_of (channel_at k b) t in if d = [] then 0 else Max (set (dkeys d)))))"

definition generation_live :: "memory_backend \<Rightarrow> (py_str \<times> py_str) \<times> int \<Rightarrow> bool" where
  "generation_live b claim \<longleftrightarrow> (case claim of ((k, t), g) \<Rightarrow> map_option sm_generation (stream_at k t b) = Some g)"

lemma tombstone_positive:
  assumes "backend_inv h b" and "dget (tombstones_of (channel_at k b) t) g \<noteq> None"
  shows "1 \<le> g"
proof (cases "dget (mb_channels b) k")
  case None
  then show ?thesis using assms(2) by (simp add: channel_at_def tombstones_of_def new_channel_state_def)
next
  case (Some c)
  then show ?thesis using assms(2) backend_inv_channel [OF assms(1) Some] by (simp add: channel_ok_def)
qed

lemma latest_upper:
  assumes "backend_inv h b" and "dget (tombstones_of (channel_at k b) t) g \<noteq> None"
  shows "g \<le> latest_generation b (k, t)"
proof (cases "stream_at k t b")
  case None
  have "g \<in> set (dkeys (tombstones_of (channel_at k b) t))"
    using assms(2) dget_None_notin [of "tombstones_of (channel_at k b) t" g] by simp
  then have "g \<le> Max (set (dkeys (tombstones_of (channel_at k b) t)))" by (intro Max_ge) auto
  moreover have "tombstones_of (channel_at k b) t \<noteq> []" using assms(2) by auto
  ultimately show ?thesis by (simp add: latest_generation_def None Let_def)
next
  case (Some st)
  then obtain c where c: "dget (mb_channels b) k = Some c" "dget (ch_streams c) t = Some st"
    using stream_at_known by blast
  then have "g < sm_generation st"
    using backend_inv_channel [OF assms(1) c(1)] assms(2) by (simp add: channel_ok_def)
  then show ?thesis by (simp add: latest_generation_def Some)
qed

lemma later_latest:
  assumes "backend_inv h b" "backend_inv h b'" "later b b'"
  shows "latest_generation b p \<le> latest_generation b' p"
proof -
  obtain k t where p: "p = (k, t)" by fastforce
  have kept: "dget (tombstones_of (channel_at k b') t) g \<noteq> None"
    if g: "dget (tombstones_of (channel_at k b) t) g = Some reason" for g reason
  proof (cases "dget (mb_channels b) k")
    case None
    then show ?thesis using g by (simp add: channel_at_def new_channel_state_def tombstones_of_def)
  next
    case (Some c)
    then obtain c' where "dget (mb_channels b') k = Some c'"
      "\<forall>t g reason. dget (tombstones_of c t) g = Some reason \<longrightarrow> dget (tombstones_of c' t) g = Some reason"
      using assms(3) unfolding later_def by blast
    then show ?thesis using g Some by auto
  qed
  have nonneg: "0 \<le> latest_generation b' (k, t)"
  proof (cases "stream_at k t b'")
    case (Some st)
    then obtain c where "dget (mb_channels b') k = Some c" "dget (ch_streams c) t = Some st"
      using stream_at_known by blast
    then have "stream_ok h t st" using assms(2) backend_inv_channel channel_ok_stream by blast
    then show ?thesis by (simp add: latest_generation_def Some stream_ok_def shape_ok_def)
  next
    case None
    show ?thesis
    proof (cases "tombstones_of (channel_at k b') t")
      case Nil
      then show ?thesis by (simp add: latest_generation_def None)
    next
      case (Cons q rest)
      have "dget (tombstones_of (channel_at k b') t) (fst q) \<noteq> None" by (simp add: Cons)
      then have "1 \<le> fst q \<and> fst q \<le> latest_generation b' (k, t)"
        using latest_upper [OF assms(2)] tombstone_positive [OF assms(2)] by blast
      then show ?thesis by simp
    qed
  qed
  show ?thesis
  proof (cases "stream_at k t b")
    case None
    let ?d = "tombstones_of (channel_at k b) t"
    show ?thesis
    proof (cases "?d = []")
      case True
      then show ?thesis using nonneg by (simp add: p latest_generation_def None)
    next
      case False
      then have "Max (set (dkeys ?d)) \<in> set (dkeys ?d)" by (intro Max_in) auto
      then obtain reason where "dget ?d (Max (set (dkeys ?d))) = Some reason"
        using dget_None_notin [of ?d] by blast
      then have "Max (set (dkeys ?d)) \<le> latest_generation b' (k, t)"
        using kept latest_upper [OF assms(2)] by blast
      then show ?thesis using False by (simp add: p latest_generation_def [of b] None Let_def)
    qed
  next
    case (Some st)
    then obtain c where c: "dget (mb_channels b) k = Some c" "dget (ch_streams c) t = Some st"
      using stream_at_known by blast
    then obtain c' where c': "dget (mb_channels b') k = Some c'"
      "dget (tombstones_of c' t) (sm_generation st) \<noteq> None \<or>
            (\<exists>st'. dget (ch_streams c') t = Some st' \<and> same_generation st st')"
      using assms(3) unfolding later_def by blast
    then show ?thesis
    proof (elim disjE exE conjE)
      assume "dget (tombstones_of c' t) (sm_generation st) \<noteq> None"
      then have "sm_generation st \<le> latest_generation b' (k, t)" using latest_upper [OF assms(2)] c' by simp
      then show ?thesis by (simp add: p latest_generation_def [of b] Some)
    next
      fix st' assume "dget (ch_streams c') t = Some st'" "same_generation st st'"
      then show ?thesis using c' c by (simp add: p latest_generation_def same_generation_def)
    qed
  qed
qed

interpretation messages: fenced_resource "msg_init h" "msg_step h" "msg_inv h" latest_generation generation_live fst snd
  for h
proof (unfold_locales, goal_cases)
  case (1 s)
  then show ?case using new_backend_inv by (auto simp: msg_init_def msg_inv_def)
next
  case (2 s s')
  then show ?case using msg_step_keeps by (auto simp: msg_inv_def)
next
  case (3 s c)
  then show ?case by (auto simp: generation_live_def latest_generation_def split: prod.splits)
next
  case (4 s s' k)
  then have "backend_inv h s" "backend_inv h s'" "later s s'"
    using msg_step_keeps [OF 4(2,1)] by (simp_all add: msg_inv_def)
  then show ?case by (rule later_latest)
qed

end
