(* ===== verification/Msg_Memory_Outcome.thy ===== *)
theory Msg_Memory_Outcome
  imports Msg_Memory_Steps
begin

text \<open>
  What one call leaves behind. Before its own work a call may retire generations whose
  deadline it found to have passed; \<open>expired_only\<close> says that this is all that changed. A
  commit then either raises and changes nothing more, or applies the effect it resolved.
\<close>

section \<open>Retiring what is due\<close>

definition expired_only :: "msg_host \<Rightarrow> memory_backend \<Rightarrow> memory_backend \<Rightarrow> bool" where
  "expired_only h b u \<longleftrightarrow>
     mb_limits u = mb_limits b \<and> mb_retention u = mb_retention b \<and> mb_monotonic_reads b \<le> mb_monotonic_reads u \<and>
     (\<forall>k. dget (mb_channels u) k = None \<longleftrightarrow> dget (mb_channels b) k = None) \<and>
     (\<forall>k. ch_codec (channel_at k u) = ch_codec (channel_at k b)) \<and>
     (\<forall>k t st. stream_at k t u = Some st \<longrightarrow> stream_at k t b = Some st) \<and>
     (\<forall>k t st. stream_at k t b = Some st \<longrightarrow> stream_at k t u = Some st \<or>
        (\<exists>d n. sm_expires st = Some d \<and> n < mb_monotonic_reads u \<and> d \<le> mh_monotonic h n \<and>
           dget (tombstones_of (channel_at k u) t) (sm_generation st) = Some REASON_EXPIRED)) \<and>
     (\<forall>k t g reason. dget (tombstones_of (channel_at k b) t) g = Some reason \<longrightarrow>
        dget (tombstones_of (channel_at k u) t) g = Some reason)"

lemma expired_only_refl [simp]: "expired_only h b b"
  by (simp add: expired_only_def)

lemma expired_only_trans: "expired_only h a b \<Longrightarrow> expired_only h b c \<Longrightarrow> expired_only h a c"
  unfolding expired_only_def by (intro conjI) (simp, simp, simp, simp, simp, metis, metis order_less_le_trans, metis)

lemma expired_only_reads [simp]:
  "expired_only h b (u\<lparr>mb_utc_reads := n\<rparr>) = expired_only h b u"
  by (simp add: expired_only_def stream_at_def channel_at_def)

lemma expired_only_read: "expired_only h b (b\<lparr>mb_monotonic_reads := Suc (mb_monotonic_reads b)\<rparr>)"
  by (simp add: expired_only_def stream_at_def channel_at_def)

lemma expired_only_index [simp]: "expired_only h b (u\<lparr>mb_expirations := x\<rparr>) = expired_only h b u"
  by (simp add: expired_only_def stream_at_def channel_at_def)

text \<open>A generation that lost its stream was retired; one that kept it is untouched.\<close>

lemma expired_only_kept: "expired_only h b u \<Longrightarrow> stream_at k t b = Some st \<Longrightarrow> sm_expires st = None \<Longrightarrow> stream_at k t u = Some st"
  unfolding expired_only_def by fastforce

lemma retire_expired_only:
  assumes inv: "backend_inv h b" and c: "dget (mb_channels b) k = Some c" "dget (ch_streams c) t = Some st"
    and due: "sm_expires st = Some d" "n < mb_monotonic_reads b" "d \<le> mh_monotonic h n"
  shows "expired_only h b (retire_generation c t st REASON_EXPIRED b)"
proof -
  have ok: "channel_ok h k c" using backend_inv_channel [OF inv c(1)] .
  then have ch: "ch_channel c = k" by (simp add: channel_ok_def)
  have fresh: "dget (tombstones_of c t) (sm_generation st) = None" using ok c(2) by (force simp: channel_ok_def)
  let ?u = "retire_generation c t st REASON_EXPIRED b"
  have "dget (mb_channels ?u) = (dget (mb_channels b))(k \<mapsto> retired_channel t st REASON_EXPIRED c)"
    by (rule ext) (simp add: retire_generation_def ch)
  then have at: "channel_at k' ?u = (if k' = k then retired_channel t st REASON_EXPIRED c else channel_at k' b)" for k'
    by (simp add: channel_at_def)
  have streams: "stream_at k' t' ?u = (if k' = k \<and> t' = t then None else stream_at k' t' b)" for k' t'
    using c channel_at_known [OF c(1)] by (simp add: stream_at_def at)
  have codecs: "ch_codec (channel_at k' ?u) = ch_codec (channel_at k' b)" for k'
    using channel_at_known [OF c(1)] by (simp add: at retired_channel_def record_tombstone_def)
  have tombs: "dget (tombstones_of (channel_at k' ?u) t') g =
      (if k' = k \<and> t' = t \<and> g = sm_generation st then Some REASON_EXPIRED else dget (tombstones_of (channel_at k' b) t') g)"
    for k' t' g using c channel_at_known [OF c(1)] by (simp add: at)
  have "mb_limits ?u = mb_limits b \<and> mb_retention ?u = mb_retention b \<and> mb_monotonic_reads ?u = mb_monotonic_reads b \<and>
      (\<forall>k. dget (mb_channels ?u) k = None \<longleftrightarrow> dget (mb_channels b) k = None)"
    using c(1) by (simp add: retire_generation_def ch)
  moreover have "stream_at k t b = Some st" using c by simp
  moreover have "dget (tombstones_of (channel_at k b) t) (sm_generation st) = None" using fresh c(1) by simp
  ultimately show ?thesis
    using due unfolding expired_only_def streams tombs codecs by auto
qed

definition expires :: "msg_host \<Rightarrow> memory_backend \<Rightarrow> memory_backend \<Rightarrow> bool" where
  "expires h b u \<longleftrightarrow> backend_inv h u \<and> expired_only h b u"

lemma expires_trans: "expires h a b \<Longrightarrow> expires h b c \<Longrightarrow> expires h a c"
  unfolding expires_def using expired_only_trans by blast

lemma expire_if_due_expires:
  assumes "backend_inv h b"
  shows "run_with (expire_if_due h k t) (\<lambda>_ u. expires h b u) (\<lambda>_ _. False) b"
proof (cases "stream_at k t b")
  case None
  then show ?thesis using assms by (simp add: expire_if_due_def wp expires_def)
next
  case (Some st)
  then obtain c where c: "dget (mb_channels b) k = Some c" "dget (ch_streams c) t = Some st"
    using stream_at_known by blast
  let ?b = "b\<lparr>mb_monotonic_reads := Suc (mb_monotonic_reads b)\<rparr>"
  have inv: "backend_inv h ?b" using assms by simp
  have "expires h b (retire_generation c t st REASON_EXPIRED ?b)"
    if "sm_expires st = Some d" "d \<le> mh_monotonic h (mb_monotonic_reads b)" for d
  proof -
    have "expired_only h ?b (retire_generation c t st REASON_EXPIRED ?b)"
      by (rule retire_expired_only [OF inv _ _ that(1) _ that(2)]) (use c in simp_all)
    then have "expired_only h b (retire_generation c t st REASON_EXPIRED ?b)"
      using expired_only_trans [OF expired_only_read] by blast
    moreover have "backend_inv h (retire_generation c t st REASON_EXPIRED ?b)"
      using retire_sound [OF inv] c by simp
    ultimately show ?thesis by (simp add: expires_def)
  qed
  moreover have "expires h b b" "expires h b ?b" using assms expired_only_read by (simp_all add: expires_def)
  ultimately show ?thesis
    using c Some by (auto simp: expire_if_due_def wp channel_at_def split: option.split)
qed

lemma reclaim_loop_expires:
  "backend_inv h b \<Longrightarrow> run_with (reclaim_loop h now n) (\<lambda>_ u. expires h b u) (\<lambda>_ _. False) b"
proof (induction n arbitrary: b)
  case (Suc n)
  obtain found index where pop: "pop_due now (mb_expirations b) = (found, index)" by fastforce
  let ?b = "b\<lparr>mb_expirations := index\<rparr>"
  have b: "expires h b ?b" using popped_inv [OF Suc.prems, of now] pop by (simp add: expires_def)
  show ?case
  proof (cases found)
    case None
    then show ?thesis using pop b by (simp add: wp)
  next
    case (Some p)
    obtain k t where p: "p = (k, t)" by fastforce
    obtain d where "dget (xi_deadlines (mb_expirations b)) (k, t) = Some d"
      using pop_due_Some [of now "mb_expirations b" "(k, t)" index] pop Some p by auto
    then obtain c where c: "dget (mb_channels b) k = Some c" using Suc.prems unfolding backend_inv_def by blast
    have "run_with (seq (expire_if_due h k t) (reclaim_loop h now n)) (\<lambda>_ u. expires h b u) (\<lambda>_ _. False) ?b"
      unfolding wp_seq
    proof (rule wp_mono [OF expire_if_due_expires])
      show "backend_inv h ?b" using b by (simp add: expires_def)
      fix u assume u: "expires h ?b u"
      show "run_with (reclaim_loop h now n) (\<lambda>_ u. expires h b u) (\<lambda>_ _. False) u"
        by (rule wp_mono [OF Suc.IH]) (use u expires_trans [OF b] expires_trans in \<open>auto simp: expires_def\<close>)
    qed
    then show ?thesis
      using pop c Some p by (simp add: wp_bind wp_gets wp_seq [of "modify _ :: unit msg_op"] wp_modify
        wp_seq [of "check_state _ :: unit msg_op"] wp_check_state)
  qed
qed (simp add: wp expires_def)

lemma reclaim_expires:
  assumes "backend_inv h b"
  shows "run_with (reclaim_expired h) (\<lambda>_ u. expires h b u) (\<lambda>_ _. False) b"
proof -
  let ?b = "b\<lparr>mb_monotonic_reads := Suc (mb_monotonic_reads b)\<rparr>"
  have "run_with (reclaim_loop h (mh_monotonic h (mb_monotonic_reads b)) 64) (\<lambda>_ u. expires h b u) (\<lambda>_ _. False) ?b"
    by (rule wp_mono [OF reclaim_loop_expires])
      (use assms expires_trans [of h b ?b] expired_only_read in \<open>auto simp: expires_def\<close>)
  then show ?thesis by (simp add: reclaim_expired_def wp)
qed

section \<open>Applying one effect\<close>

definition next_deadline :: "msg_host \<Rightarrow> storage_effect \<Rightarrow> time option \<Rightarrow> memory_backend \<Rightarrow> time option" where
  "next_deadline h ef current b =
     (case ef_retention ef of RETENTION_NONE \<Rightarrow> current | RETENTION_CLEAR \<Rightarrow> None
      | RETENTION_START \<Rightarrow> map_option (\<lambda>t. mh_monotonic h (mb_monotonic_reads b) + t) (terminal_ttl (mb_retention b)))"

lemma effect_deadline_run:
  "\<exists>n. effect_deadline h ef current b = (Inr (next_deadline h ef current b), b\<lparr>mb_monotonic_reads := n\<rparr>)"
proof (cases "ef_retention ef = RETENTION_START \<and> terminal_ttl (mb_retention b) \<noteq> None")
  case True
  then have "effect_deadline h ef current b =
      (Inr (next_deadline h ef current b), b\<lparr>mb_monotonic_reads := Suc (mb_monotonic_reads b)\<rparr>)"
    by (auto simp: effect_deadline_def bind_def gets_def ret_def read_monotonic_def next_deadline_def)
  then show ?thesis by blast
next
  case False
  then have "effect_deadline h ef current b =
      (Inr (next_deadline h ef current b), b\<lparr>mb_monotonic_reads := mb_monotonic_reads b\<rparr>)"
    by (auto simp: effect_deadline_def bind_def gets_def ret_def next_deadline_def split: retention_action.split option.split)
  then show ?thesis by blast
qed

text \<open>What a fitting effect stores: the updated generation, and no other stream changes.\<close>

definition stored :: "msg_host \<Rightarrow> py_str \<Rightarrow> run_identity \<Rightarrow> storage_effect \<Rightarrow> memory_backend \<Rightarrow> memory_backend \<Rightarrow> bool" where
  "stored h k i ef b b' \<longleftrightarrow>
     (\<exists>st bytes records grecords. effect_capacity (channel_at k b) (mh_thread_key h i) ef = (bytes, records, grecords) \<and>
        effect_stream (channel_at k b) (mh_thread_key h i) ef = Some st \<and>
        stream_at k (mh_thread_key h i) b' =
          Some ((updated_stream i ef bytes grecords st)\<lparr>sm_expires := next_deadline h ef (sm_expires st) b\<rparr>)) \<and>
     (\<forall>k' t. (k', t) \<noteq> (k, mh_thread_key h i) \<longrightarrow> stream_at k' t b' = stream_at k' t b)"

lemma stream_at_index [simp]: "stream_at k t (schedule_expiry ef p d b) = stream_at k t b"
  by (simp add: schedule_expiry_def stream_at_def channel_at_def)

lemma stream_at_reads [simp]:
  "stream_at k t (b\<lparr>mb_monotonic_reads := n\<rparr>) = stream_at k t b" "stream_at k t (b\<lparr>mb_utc_reads := n\<rparr>) = stream_at k t b"
  "channel_at k (b\<lparr>mb_monotonic_reads := n\<rparr>) = channel_at k b" "channel_at k (b\<lparr>mb_utc_reads := n\<rparr>) = channel_at k b"
  "stream_at k t (charge_backend x y b) = stream_at k t b"
  by (simp_all add: stream_at_def channel_at_def charge_backend_def)

lemma stream_at_stored:
  assumes "mb_channels u = dset k (put_stream t st c) (mb_channels b)" "ch_streams c = ch_streams (channel_at k b)"
  shows "stream_at k' t' u = (if (k', t') = (k, t) then Some st else stream_at k' t' b)"
proof (cases "k' = k")
  case True
  then show ?thesis by (simp add: stream_at_def channel_at_def assms(1)) (simp add: assms(2) channel_at_def)
next
  case False
  then show ?thesis by (simp add: stream_at_def channel_at_def assms(1))
qed

lemma fitting_outcome:
  assumes inv: "backend_inv h b" and fits: "fits h k i ef b"
  shows "run_with (apply_effect h k i ef) (\<lambda>_ b'. stored h k i ef b b') (\<lambda>_ b'. b' = b) b"
proof -
  let ?c = "channel_at k b" and ?t = "mh_thread_key h i"
  obtain st bytes records grecords where fit: "dget (mb_channels b) k = None \<longrightarrow> ef_channel ef \<noteq> None"
    "ef_tombstone ef = None" "effect_capacity ?c ?t ef = (bytes, records, grecords)" "effect_stream ?c ?t ef = Some st"
    using fits unfolding fits_def Let_def by (elim conjE exE) (rule that, assumption+)
  show ?thesis
  proof (cases "effect_error ?c ef bytes records b")
    case (Some e)
    then show ?thesis using fit(3) by (simp add: apply_effect_def wp Let_def)
  next
    case None
    let ?d = "next_deadline h ef (sm_expires st) b"
    let ?st = "(updated_stream i ef bytes grecords st)\<lparr>sm_expires := ?d\<rparr>"
    let ?c' = "put_stream ?t ?st (effect_channel ?c ef)"
    let ?reg = "ch_codec ?c = None \<and> ef_channel ef \<noteq> None"
    have ch: "ch_channel ?c' = k"
      using channel_at_ok [OF inv fit(1)] by (simp add: channel_ok_def)
    have "dget (mb_channels b) k = None \<longrightarrow> ch_codec ?c = None"
      by (simp add: channel_at_def new_channel_state_def split: option.split)
    then have known: "?reg \<or> dget (mb_channels b) k \<noteq> None" using fit(1) by blast
    obtain n where d: "run_with (effect_deadline h ef (sm_expires st)) Q E (charge_backend bytes records b) =
        Q ?d ((charge_backend bytes records b)\<lparr>mb_monotonic_reads := n\<rparr>)" for Q E
    proof -
      have same: "next_deadline h ef (sm_expires st) (charge_backend bytes records b) = ?d"
        by (simp add: next_deadline_def charge_backend_def split: retention_action.split)
      obtain n where "effect_deadline h ef (sm_expires st) (charge_backend bytes records b) =
          (Inr ?d, (charge_backend bytes records b)\<lparr>mb_monotonic_reads := n\<rparr>)"
        using effect_deadline_run [of h ef "sm_expires st" "charge_backend bytes records b"] same by auto
      then show thesis using that by (simp add: run_with_def)
    qed
    let ?u = "put_channel ?reg ?c' ((charge_backend bytes records b)\<lparr>mb_monotonic_reads := n\<rparr>)"
    have "mb_channels ?u = dset k ?c' (mb_channels b)"
      using known ch by (auto simp: put_channel_def charge_backend_def)
    then have "stream_at k' t (schedule_expiry ef (k, ?t) ?d ?u) =
        (if (k', t) = (k, ?t) then Some ?st else stream_at k' t b)" for k' t
      unfolding stream_at_index by (rule stream_at_stored) simp
    then have "stored h k i ef b (schedule_expiry ef (k, ?t) ?d ?u)"
      unfolding stored_def using fit(3,4) by auto
    then show ?thesis
      unfolding wp_apply_effect [OF fit(3) None fit(4)] wp_bind fit(2) option.case d
      by (simp add: wp Let_def)
  qed
qed

section \<open>Committing\<close>

text \<open>
  A commit is rejected after it retired what was due, or resolves to no change, or stores a
  fitting effect, or retires a sealed generation.
\<close>

definition retired :: "msg_host \<Rightarrow> msg_transition \<Rightarrow> memory_backend \<Rightarrow> memory_backend \<Rightarrow> bool" where
  "retired h tn b b' \<longleftrightarrow>
     (let k = tn_channel tn; t = mh_thread_key h (tn_identity tn) in
      \<exists>st reason. stream_at k t b = Some st \<and> tn_cleanup_generation tn = Some (sm_generation st) \<and>
        sealed_state st \<and> stream_at k t b' = None \<and>
        dget (tombstones_of (channel_at k b') t) (sm_generation st) = Some reason \<and>
        (\<forall>k' t'. (k', t') \<noteq> (k, t) \<longrightarrow> stream_at k' t' b' = stream_at k' t' b))"

definition commit_end ::
    "msg_host \<Rightarrow> msg_transition \<Rightarrow> memory_backend \<Rightarrow> state_snapshot \<Rightarrow> storage_effect \<Rightarrow> memory_backend \<Rightarrow> bool" where
  "commit_end h tn u sn ef b' \<longleftrightarrow>
     committed h tn u sn \<and> resolve_transition (mh_sha256 h) tn sn = Inr ef \<and>
     (idle ef \<and> b' = u \<or> fitting h tn ef u \<and> stored h (tn_channel tn) (tn_identity tn) ef u b' \<or>
      tn_kind tn = FINISH_CLEANUP \<and> retired h tn u b')"

lemma idle_outcome:
  assumes inv: "backend_inv h b" and idle: "idle ef" "ef_channel ef = None"
  shows "apply_effect h k i ef b = (Inr (), b)"
proof -
  let ?c = "channel_at k b" and ?t = "mh_thread_key h i"
  have capacity: "effect_capacity ?c ?t ef = (0, 0, 0)"
    using idle by (simp add: idle_def effect_capacity_def Let_def)
  have stream: "effect_stream ?c ?t ef = stream_at k ?t b"
    using idle by (simp add: idle_def effect_stream_def stream_at_def)
  have error: "effect_error ?c ef 0 0 b = None"
    using idle inv by (simp add: effect_error_def backend_inv_def)
  have charge: "charge_backend 0 0 b = b" by (simp add: charge_backend_def)
  have channel: "effect_channel ?c ef = ?c" using idle by (simp add: effect_channel_def)
  note unfold = apply_effect_def bind_def seq_def gets_def modify_def check_state_def check_def ret_def Let_def
  show ?thesis
  proof (cases "stream_at k ?t b")
    case None
    then show ?thesis
      using capacity stream error charge channel put_same_channel [OF inv] idle
      by (simp add: unfold streamless_error_def idle_def)
  next
    case (Some st)
    then have "dget (ch_streams ?c) ?t = Some st" by (simp add: stream_at_def)
    then have same: "put_stream ?t st ?c = ?c" by (simp add: put_stream_def dset_same)
    have "updated_stream i ef 0 0 st = st" using idle by (simp add: updated_stream_def idle_def charge_stream_def)
    then have "(updated_stream i ef 0 0 st)\<lparr>sm_expires := sm_expires st\<rparr> = st" by simp
    then show ?thesis
      using capacity stream error charge channel put_same_channel [OF inv] idle Some same
      by (simp add: unfold idle_def effect_deadline_def schedule_expiry_def)
  qed
qed

lemma finalize_outcome:
  assumes at: "located h b (tn_channel tn) (tn_identity tn) c st"
    and sealed: "sealed_state st" "tn_cleanup_generation tn = Some (sm_generation st)"
  shows "run_with (apply_effect h (tn_channel tn) (tn_identity tn)
    (finalize_stream tn (memory_stream (tn_channel tn) (tn_identity tn) st) (sm_generation st) reason))
    (\<lambda>_ b'. retired h tn b b') (\<lambda>_ _. False) b"
proof -
  let ?k = "tn_channel tn" and ?t = "mh_thread_key h (tn_identity tn)"
  have found: "dget (mb_channels b) ?k = Some c" "dget (ch_streams c) ?t = Some st" "backend_inv h b"
    using at by (simp_all add: located_def)
  have ch: "ch_channel c = ?k" using backend_inv_channel [OF found(3,1)] by (simp add: channel_ok_def)
  let ?b = "retire_generation c ?t st reason b"
  have channels: "channel_at k' ?b = (if k' = ?k then retired_channel ?t st reason c else channel_at k' b)" for k'
    by (simp add: channel_at_def retire_generation_def ch)
  have streams: "stream_at k' t' ?b = (if (k', t') = (?k, ?t) then None else stream_at k' t' b)" for k' t'
    using found by (simp add: stream_at_def channels)
  have "retired h tn b ?b"
    unfolding retired_def Let_def streams using sealed found by (simp add: channels)
  then show ?thesis unfolding finalize_run [OF at] .
qed

text \<open>Why a commit raised: the stored message cannot be signed, the resolution raised, or a quota.\<close>

definition commit_error :: "msg_host \<Rightarrow> msg_transition \<Rightarrow> memory_backend \<Rightarrow> msg_error \<Rightarrow> bool" where
  "commit_error h tn u e \<longleftrightarrow>
     (\<exists>st. stream_at (tn_channel tn) (mh_thread_key h (tn_identity tn)) u = Some st \<and>
        matching_message h (tn_identity tn) st (tn_message_id tn) = Inl e) \<or>
     (\<exists>sn. committed h tn u sn \<and> (resolve_transition (mh_sha256 h) tn sn = Inl e \<or>
        (\<exists>ef. resolve_transition (mh_sha256 h) tn sn = Inr ef \<and> \<not> (idle ef \<and> ef_channel ef = None))))"

text \<open>The rest of a commit, from the snapshot on.\<close>

lemma commit_tail:
  assumes inv: "backend_inv h u" "msg_host_ok h" and kind: "transition_ok tn"
  shows "run_with (bind (memory_snapshot h (tn_channel tn) (tn_identity tn) (selected_generation tn) (tn_message_id tn) True)
     (\<lambda>sn. bind (lift (resolve_transition (mh_sha256 h) tn sn)) (\<lambda>effect.
      seq (apply_effect h (tn_channel tn) (tn_identity tn) effect) (ret (ef_result effect)))))
     (\<lambda>result b'. \<exists>v sn ef. expires h u v \<and> commit_end h tn v sn ef b' \<and> result = ef_result ef)
     (\<lambda>e b'. expires h u b' \<and> commit_error h tn b' e) u"
proof -
  let ?u = "u\<lparr>mb_utc_reads := Suc (mb_utc_reads u)\<rparr>"
  have u: "expires h u ?u" "expires h u u" using inv by (simp_all add: expires_def)
  have "run_with (bind (lift (resolve_transition (mh_sha256 h) tn sn)) (\<lambda>effect.
        seq (apply_effect h (tn_channel tn) (tn_identity tn) effect) (ret (ef_result effect))))
        (\<lambda>result b'. \<exists>v sn ef. expires h u v \<and> commit_end h tn v sn ef b' \<and> result = ef_result ef)
        (\<lambda>e b'. expires h u b' \<and> commit_error h tn b' e) ?u"
    if snap: "snapshot_of h (tn_channel tn) (tn_identity tn) (selected_generation tn) (tn_message_id tn) u sn" for sn
  proof -
   have com: "committed h tn ?u sn"
      using snap inv by (simp add: committed_def snapshot_of_def Let_def snapshot_channel_def)
   show ?thesis
   proof (cases "resolve_transition (mh_sha256 h) tn sn")
    case (Inl e)
    then show ?thesis using u com by (auto simp: wp commit_error_def)
  next
    case (Inr ef)
    have "run_with (apply_effect h (tn_channel tn) (tn_identity tn) ef)
        (\<lambda>_ b'. commit_end h tn ?u sn ef b') (\<lambda>_ b'. b' = ?u \<and> \<not> (idle ef \<and> ef_channel ef = None)) ?u"
    proof (cases "idle ef \<and> ef_channel ef = None")
      case True
      moreover have "backend_inv h ?u" using inv by simp
      ultimately have "apply_effect h (tn_channel tn) (tn_identity tn) ef ?u = (Inr (), ?u)"
        using idle_outcome by blast
      then show ?thesis using True com Inr by (simp add: run_with_def commit_end_def)
    next
      case False
      have good: "backend_inv h ?u" using inv by simp
      show ?thesis
        using com kind Inr
      proof (cases rule: resolved_cases)
        case fitting
        from fitting_outcome [OF good fitting] show ?thesis
          by (rule wp_mono) (use fitting com Inr False in \<open>auto simp: commit_end_def\<close>)
      next
        case (final c st reason)
        then have "sealed_state st" using sealed_disposition_in [of reason] by (simp add: sealed_state_def)
        from finalize_outcome [OF final(1) this final(4)] show ?thesis
          unfolding final(5) by (rule wp_mono) (use final(3,5) com Inr in \<open>auto simp: commit_end_def\<close>)
      qed (use False in blast)
    qed
    then show ?thesis using Inr u(1) com by (auto simp: wp commit_error_def elim!: wp_mono)
   qed
  qed
  then show ?thesis
    unfolding wp_bind [of "memory_snapshot _ _ _ _ _ _"] by (intro memory_snapshot_wp) (use u in \<open>auto simp: commit_error_def [of _ _ u]\<close>)
qed

lemma commit_outcome:
  assumes inv: "msg_inv h b" and kind: "transition_ok tn" and run: "commit_transition h tn b = (out, b')"
  obtains (failed) e where "out = Inl e" "expires h b b'" "commit_error h tn b' e"
    | (finished) u sn ef where "out = Inr (ef_result ef)" "expires h b u" "commit_end h tn u sn ef b'"
proof -
  have good: "backend_inv h b" "msg_host_ok h" using inv by (simp_all add: msg_inv_def)
  let ?Q = "\<lambda>result b'. \<exists>v sn ef. expires h b v \<and> commit_end h tn v sn ef b' \<and> result = ef_result ef"
  let ?E = "\<lambda>e b'. expires h b b' \<and> commit_error h tn b' e"
  have tail: "run_with (bind (memory_snapshot h (tn_channel tn) (tn_identity tn) (selected_generation tn) (tn_message_id tn) True)
     (\<lambda>sn. bind (lift (resolve_transition (mh_sha256 h) tn sn)) (\<lambda>effect.
      seq (apply_effect h (tn_channel tn) (tn_identity tn) effect) (ret (ef_result effect))))) ?Q ?E u"
    if "expires h b u" for u
  proof -
    have u: "backend_inv h u" using that by (simp add: expires_def)
    show ?thesis
      by (rule wp_mono [OF commit_tail [OF u good(2) kind]]) (use that expires_trans in blast)+
  qed
  have middle: "run_with (seq (expire_if_due h (tn_channel tn) (mh_thread_key h (tn_identity tn)))
     (bind (memory_snapshot h (tn_channel tn) (tn_identity tn) (selected_generation tn) (tn_message_id tn) True)
     (\<lambda>sn. bind (lift (resolve_transition (mh_sha256 h) tn sn)) (\<lambda>effect.
      seq (apply_effect h (tn_channel tn) (tn_identity tn) effect) (ret (ef_result effect)))))) ?Q ?E u"
    if "expires h b u" for u
  proof -
    have u: "backend_inv h u" using that by (simp add: expires_def)
    show ?thesis
      unfolding wp_seq [of "expire_if_due _ _ _"]
      by (rule wp_mono [OF expire_if_due_expires [OF u]]) (use tail expires_trans [OF that] in simp_all)
  qed
  have "run_with (commit_transition h tn) ?Q ?E b"
  proof (cases "tn_kind tn \<in> {PREPARE_RUN, APPEND_MESSAGE, PUBLISH_MESSAGE}")
    case True
    show ?thesis
      unfolding commit_transition_def wp_seq [of "if_op _ _"] wp_if_op if_P [OF True]
      by (rule wp_mono [OF reclaim_expires [OF good(1)]]) (use middle in simp_all)
  next
    case False
    show ?thesis
      unfolding commit_transition_def wp_seq [of "if_op _ _"] wp_if_op if_not_P [OF False]
      by (rule middle) (use good in \<open>simp add: expires_def\<close>)
  qed
  then show thesis using run failed finished by (cases out) (auto simp: run_with_def)
qed

end
