(* ===== verification/Msg_Memory_Sample.thy ===== *)
theory Msg_Memory_Sample
  imports Msg_Memory_Outcome
begin

text \<open>
  A sample run of the messaging backend for the witnesses: a run is prepared, appends two
  messages and completes, its generation is deleted, and a second generation starts. The
  digest of the sample host is the identity and its thread key marks every character of the
  namespace, so it is injective.
\<close>

definition dotted :: "py_str \<Rightarrow> py_str" where
  "dotted s = concat (map (\<lambda>c. [CHR ''.'', c]) s)"

definition sample_key :: "run_identity \<Rightarrow> py_str" where
  "sample_key i = dotted (id_namespace i) @ CHR '','' # id_thread i"

definition msg_sample_host :: msg_host where
  "msg_sample_host = \<lparr>mh_monotonic = (\<lambda>n. int n * second), mh_utc = (\<lambda>n. int n * second),
     mh_sha256 = (\<lambda>bytes. bytes), mh_thread_key = sample_key\<rparr>"

lemma dotted_inj: "dotted a @ CHR '','' # t = dotted b @ CHR '','' # u \<longleftrightarrow> a = b \<and> t = u"
proof (induction a arbitrary: b)
  case Nil
  then show ?case by (cases b) (auto simp: dotted_def)
next
  case (Cons c a)
  show ?case
  proof (cases b)
    case Nil
    then show ?thesis by (auto simp: dotted_def)
  next
    case (Cons d b')
    then show ?thesis using Cons.IH [of b'] by (auto simp: dotted_def)
  qed
qed

lemma msg_sample_host_ok: "msg_host_ok msg_sample_host"
  by (simp add: msg_host_ok_def msg_sample_host_def sample_key_def dotted_inj)

definition sample_identity :: run_identity where
  "sample_identity = \<lparr>id_namespace = ''n'', id_thread = ''t'', id_run = ''r''\<rparr>"

definition sample_retention :: retention_policy where
  "sample_retention = \<lparr>terminal_ttl = Some minute\<rparr>"

definition msg_empty :: memory_backend where
  "msg_empty = new_backend default_messaging_limits sample_retention"

text \<open>A transition with every option at its default.\<close>

definition sample_transition :: "transition_kind \<Rightarrow> py_str \<Rightarrow> msg_transition" where
  "sample_transition kind tid = \<lparr>tn_kind = kind, tn_id = tid, tn_channel = ''c'', tn_identity = sample_identity,
     tn_settings = messaging_settings msg_empty, tn_reference = None, tn_codec = Some ''x'', tn_after = None,
     tn_cancellable = True, tn_recoverable = False, tn_request_digest = None, tn_message_id = None,
     tn_payload = None, tn_checkpoint = None, tn_closes = False, tn_opens = True, tn_final_status = None,
     tn_failure = None, tn_cleanup_generation = None, tn_cleanup_reason = None, tn_cleanup_token = None\<rparr>"

definition sample_prepare :: "py_str \<Rightarrow> msg_transition" where
  "sample_prepare = sample_transition PREPARE_RUN"

definition sample_reference :: run_reference where
  "sample_reference = \<lparr>rf_channel = ''c'', rf_identity = sample_identity, rf_generation = 1,
     rf_token = Some ''p1'', rf_fence = Some 1\<rparr>"

definition sample_append :: "py_str \<Rightarrow> py_bytes \<Rightarrow> msg_transition" where
  "sample_append i payload = (sample_transition APPEND_MESSAGE ''a'')
     \<lparr>tn_reference := Some sample_reference, tn_message_id := Some i, tn_payload := Some payload\<rparr>"

definition sample_publish :: "py_str \<Rightarrow> py_bytes \<Rightarrow> msg_transition" where
  "sample_publish i payload = (sample_transition PUBLISH_MESSAGE ''a'')
     \<lparr>tn_reference := Some sample_reference, tn_message_id := Some i, tn_payload := Some payload\<rparr>"

definition sample_request_cancel :: msg_transition where
  "sample_request_cancel = sample_transition REQUEST_CANCELLATION ''q''"

definition sample_finish :: msg_transition where
  "sample_finish = (sample_transition FINISH_RUN ''f'')
     \<lparr>tn_reference := Some sample_reference, tn_final_status := Some RUN_COMPLETED\<rparr>"

definition sample_delete :: msg_transition where
  "sample_delete = (sample_transition BEGIN_CLEANUP ''d'')\<lparr>tn_cleanup_reason := Some REASON_DELETED\<rparr>"

definition sample_deleted :: msg_transition where
  "sample_deleted = (sample_transition FINISH_CLEANUP ''e'')
     \<lparr>tn_cleanup_reason := Some REASON_DELETED, tn_cleanup_generation := Some 1\<rparr>"

definition sample_purge :: "int \<Rightarrow> generation_purge" where
  "sample_purge n = \<lparr>gp_channel = ''c'', gp_identity = sample_identity, gp_generation = 1, gp_maximum = n\<rparr>"

definition sample_query :: message_query where
  "sample_query = \<lparr>mq_channel = ''c'', mq_identity = sample_identity, mq_generation = 1, mq_after = 0,
     mq_through = None, mq_limit = 1, mq_stop_at_terminal = False\<rparr>"

abbreviation sample_commit :: "msg_transition \<Rightarrow> memory_backend \<Rightarrow> memory_backend" where
  "sample_commit tn b \<equiv> snd (commit_transition msg_sample_host tn b)"

definition msg_prepared :: memory_backend where "msg_prepared = sample_commit (sample_prepare ''p1'') msg_empty"
definition msg_first :: memory_backend where "msg_first = sample_commit (sample_append ''m1'' ''ab'') msg_prepared"
definition msg_second :: memory_backend where "msg_second = sample_commit (sample_append ''m2'' ''cde'') msg_first"
definition msg_cancelling :: memory_backend where "msg_cancelling = sample_commit sample_request_cancel msg_second"
definition msg_finished :: memory_backend where "msg_finished = sample_commit sample_finish msg_second"
definition msg_sealed :: memory_backend where "msg_sealed = sample_commit sample_delete msg_finished"
definition msg_deleted :: memory_backend where "msg_deleted = sample_commit sample_deleted msg_sealed"
definition msg_again :: memory_backend where "msg_again = sample_commit (sample_prepare ''p2'') msg_deleted"

lemmas msg_sample_defs = msg_prepared_def msg_first_def msg_second_def msg_cancelling_def msg_finished_def
  msg_sealed_def msg_deleted_def msg_again_def

lemma sample_transition_ok [simp]:
  "transition_ok (sample_prepare i)" "transition_ok (sample_append i p)" "transition_ok (sample_publish i p)"
  "transition_ok sample_request_cancel" "transition_ok sample_finish" "transition_ok sample_delete"
  "transition_ok sample_deleted"
  by (simp_all add: transition_ok_def sample_prepare_def sample_append_def sample_publish_def
      sample_request_cancel_def sample_finish_def sample_delete_def sample_deleted_def sample_transition_def)

lemma sample_tn_simps [simp]:
  "tn_channel (sample_prepare i) = ''c''" "tn_channel (sample_append j p) = ''c''" "tn_channel (sample_publish j p) = ''c''"
  "tn_channel sample_finish = ''c''" "tn_identity (sample_prepare i) = sample_identity"
  "tn_identity (sample_append j p) = sample_identity" "tn_identity (sample_publish j p) = sample_identity"
  "tn_identity sample_finish = sample_identity" "tn_kind (sample_prepare i) = PREPARE_RUN"
  "tn_kind (sample_append j p) = APPEND_MESSAGE" "tn_kind (sample_publish j p) = PUBLISH_MESSAGE"
  "tn_kind sample_finish = FINISH_RUN" "tn_reference (sample_append j p) = Some sample_reference"
  "tn_reference (sample_publish j p) = Some sample_reference" "tn_message_id (sample_append j p) = Some j"
  "tn_message_id (sample_publish j p) = Some j" "tn_payload (sample_append j p) = Some p"
  "tn_payload (sample_publish j p) = Some p" "tn_final_status sample_finish = Some RUN_COMPLETED"
  by (simp_all add: sample_prepare_def sample_append_def sample_publish_def sample_finish_def sample_transition_def)

lemma sample_host_simps [simp]:
  "mh_thread_key msg_sample_host = sample_key" "mh_sha256 msg_sample_host = (\<lambda>bytes. bytes)" "id_run sample_identity = ''r''"
  by (simp_all add: msg_sample_host_def sample_identity_def)

lemma msg_sample_init: "msg_init msg_sample_host msg_empty"
proof -
  have "messaging_limits_post_init default_messaging_limits = None" "retention_post_init sample_retention = None"
    by code_simp+
  then show ?thesis unfolding msg_init_def msg_empty_def using msg_sample_host_ok by blast
qed

lemma sample_commit_step: "transition_ok tn \<Longrightarrow> msg_step msg_sample_host b (sample_commit tn b)"
  by (rule msg_step.commit [OF _ surjective_pairing])

lemma msg_sample_steps:
  "msg_step msg_sample_host msg_empty msg_prepared" "msg_step msg_sample_host msg_prepared msg_first"
  "msg_step msg_sample_host msg_first msg_second" "msg_step msg_sample_host msg_second msg_cancelling"
  "msg_step msg_sample_host msg_second msg_finished" "msg_step msg_sample_host msg_finished msg_sealed"
  "msg_step msg_sample_host msg_sealed msg_deleted" "msg_step msg_sample_host msg_deleted msg_again"
  unfolding msg_sample_defs by (simp_all add: sample_commit_step)

lemma msg_sample_reached:
  "(msg_step msg_sample_host)\<^sup>*\<^sup>* msg_empty msg_prepared" "(msg_step msg_sample_host)\<^sup>*\<^sup>* msg_empty msg_first"
  "(msg_step msg_sample_host)\<^sup>*\<^sup>* msg_empty msg_second" "(msg_step msg_sample_host)\<^sup>*\<^sup>* msg_empty msg_cancelling"
  "(msg_step msg_sample_host)\<^sup>*\<^sup>* msg_empty msg_finished" "(msg_step msg_sample_host)\<^sup>*\<^sup>* msg_empty msg_sealed"
  "(msg_step msg_sample_host)\<^sup>*\<^sup>* msg_empty msg_deleted" "(msg_step msg_sample_host)\<^sup>*\<^sup>* msg_empty msg_again"
  using msg_sample_steps by (meson rtranclp.rtrancl_into_rtrancl rtranclp.rtrancl_refl)+

lemma msg_sample_inv:
  "msg_inv msg_sample_host msg_empty" "msg_inv msg_sample_host msg_prepared" "msg_inv msg_sample_host msg_first"
  "msg_inv msg_sample_host msg_second" "msg_inv msg_sample_host msg_cancelling" "msg_inv msg_sample_host msg_finished"
  "msg_inv msg_sample_host msg_sealed" "msg_inv msg_sample_host msg_deleted" "msg_inv msg_sample_host msg_again"
  using messages.inv_reachable [OF msg_sample_init] msg_sample_reached rtranclp.rtrancl_refl by blast+

abbreviation sample_stream :: "memory_backend \<Rightarrow> stream_state option" where
  "sample_stream b \<equiv> stream_at ''c'' (sample_key sample_identity) b"

end
