(* ===== verification/Msg_Read_Props.thy ===== *)
theory Msg_Read_Props
  imports Msg_Memory_Sample
begin

text \<open>
  Reading a generation page by page and purging a sealed one batch by batch: what a client
  that repeats the call gets, and when it is done.
\<close>

section \<open>Pages\<close>

text \<open>A reader that follows its cursor until a page is empty.\<close>

primrec read_all :: "msg_host \<Rightarrow> message_query \<Rightarrow> nat \<Rightarrow> message_envelope list msg_op" where
  "read_all h q 0 = ret []"
| "read_all h q (Suc n) = bind (read_committed h q) (\<lambda>page.
     if mp_messages page = [] then ret []
     else bind (read_all h (q\<lparr>mq_after := mq_after q + int (length (mp_messages page))\<rparr>) n)
       (\<lambda>rest. ret (mp_messages page @ rest)))"

lemma page_slice:
  "0 \<le> a \<Longrightarrow> a \<le> int (length xs) \<Longrightarrow> 1 \<le> l \<Longrightarrow>
     py_slice xs a (min (int (length xs)) (a + l)) = take (nat l) (drop (nat a) xs)"
  by (simp add: py_slice_def Let_def drop_take nat_diff_distrib [symmetric] min_def nat_add_distrib)

text \<open>A stream without a deadline is read without changing anything.\<close>

definition readable :: "msg_host \<Rightarrow> message_query \<Rightarrow> stream_state \<Rightarrow> memory_backend \<Rightarrow> bool" where
  "readable h q st b \<longleftrightarrow> stream_at (mq_channel q) (mh_thread_key h (mq_identity q)) b = Some st \<and>
     sm_generation st = mq_generation q \<and> sm_disposition st = STREAM_ACTIVE \<and> sm_expires st = None \<and>
     1 \<le> mq_limit q \<and> mq_limit q \<le> 1000 \<and> mq_through q = None \<and> \<not> mq_stop_at_terminal q"

lemma read_readable:
  assumes "readable h q st b" and "0 \<le> mq_after q" and "mq_after q \<le> int (length (sm_messages st))"
  shows "\<exists>page. read_committed h q b = (Inr page, b) \<and>
    mp_messages page = take (nat (mq_limit q)) (drop (nat (mq_after q)) (sm_messages st))"
proof -
  have "query_error q = None" using assms by (simp add: query_error_def readable_def)
  moreover have "expire_if_due h (mq_channel q) (mh_thread_key h (mq_identity q)) b = (Inr (), b)"
    using assms(1) by (simp add: expire_if_due_def bind_def gets_def ret_def readable_def)
  moreover have "readable_stream h (mq_channel q) (mq_identity q) (mq_generation q) b = Inr st"
    using assms(1) by (simp add: readable_stream_def readable_def)
  moreover have "page_through q (int (length (sm_messages st))) run = int (length (sm_messages st))" for run
    using assms(1) by (simp add: page_through_def readable_def Let_def split: option.split)
  ultimately show ?thesis
    using assms by (simp add: read_committed_def seq_def bind_def check_def try_gets_def lift_def ret_def page_of_def
        Let_def page_slice readable_def)
qed

lemma read_all_from:
  "readable h q st b \<Longrightarrow> 0 \<le> mq_after q \<Longrightarrow> mq_after q \<le> int (length (sm_messages st)) \<Longrightarrow>
     length (sm_messages st) - nat (mq_after q) < n \<Longrightarrow>
     read_all h q n b = (Inr (drop (nat (mq_after q)) (sm_messages st)), b)"
proof (induction n arbitrary: q)
  case (Suc n)
  obtain page where page: "read_committed h q b = (Inr page, b)"
    "mp_messages page = take (nat (mq_limit q)) (drop (nat (mq_after q)) (sm_messages st))"
    using read_readable [OF Suc.prems(1-3)] by blast
  let ?k = "length (mp_messages page)"
  let ?q = "q\<lparr>mq_after := mq_after q + int ?k\<rparr>"
  have limit: "0 < nat (mq_limit q)" using Suc.prems(1) by (simp add: readable_def)
  show ?case
  proof (cases "mp_messages page = []")
    case True
    then have "drop (nat (mq_after q)) (sm_messages st) = []" using page(2) limit by simp
    then show ?thesis using page(1) True by (simp add: bind_def ret_def)
  next
    case False
    have k: "?k = min (nat (mq_limit q)) (length (sm_messages st) - nat (mq_after q))" by (simp add: page(2))
    have "read_all h ?q n b = (Inr (drop (nat (mq_after ?q)) (sm_messages st)), b)"
    proof (rule Suc.IH)
      have "0 < ?k" using False by simp
      moreover have "?k \<le> length (sm_messages st) - nat (mq_after q)" using k by simp
      moreover have "nat (mq_after ?q) = nat (mq_after q) + ?k" using Suc.prems(2) by (simp add: nat_add_distrib)
      ultimately show "length (sm_messages st) - nat (mq_after ?q) < n" using Suc.prems(4) by linarith
      show "mq_after ?q \<le> int (length (sm_messages st))" using Suc.prems(2,3) k by simp
    qed (use Suc.prems in \<open>simp_all add: readable_def\<close>)
    moreover have "mp_messages page @ drop (nat (mq_after ?q)) (sm_messages st) = drop (nat (mq_after q)) (sm_messages st)"
    proof -
      have "nat (mq_after ?q) = ?k + nat (mq_after q)" using Suc.prems(2) by (simp add: nat_add_distrib)
      moreover have "mp_messages page = take ?k (drop (nat (mq_after q)) (sm_messages st))"
        by (simp add: page(2) k min_def)
      ultimately show ?thesis by (metis append_take_drop_id drop_drop)
    qed
    ultimately show ?thesis using page(1) False by (simp add: bind_def ret_def)
  qed
qed simp

text \<open>
  C23. Following the cursor from any position of an open generation that has no deadline gives
  every later message exactly once and in order, whatever the page limit, and changes nothing;
  the reader is done after at most one call per message and one more.
\<close>

theorem following_pages_reads_log:
  assumes "stream_at (mq_channel q) (mh_thread_key h (mq_identity q)) b = Some st"
    and "sm_generation st = mq_generation q" and "sm_disposition st = STREAM_ACTIVE" and "sm_expires st = None"
    and "1 \<le> mq_limit q" and "mq_limit q \<le> 1000" and "mq_through q = None" and "\<not> mq_stop_at_terminal q"
    and "0 \<le> mq_after q" and "mq_after q \<le> int (length (sm_messages st))"
    and "length (sm_messages st) - nat (mq_after q) < n"
  shows "read_all h q n b = (Inr (drop (nat (mq_after q)) (sm_messages st)), b)"
  by (rule read_all_from) (use assms in \<open>simp_all add: readable_def\<close>)

theorem following_pages_reads_log_witness:
  "\<exists>st. sample_stream msg_second = Some st \<and> length (sm_messages st) = 2 \<and>
     read_all msg_sample_host sample_query 3 msg_second = (Inr (sm_messages st), msg_second)"
proof -
  have "map_option (\<lambda>st. (sm_generation st, sm_disposition st, sm_expires st, length (sm_messages st)))
      (sample_stream msg_second) = Some (1, STREAM_ACTIVE, None, 2)" by code_simp
  then obtain st where st: "sample_stream msg_second = Some st" "sm_generation st = 1" "sm_disposition st = STREAM_ACTIVE"
    "sm_expires st = None" "length (sm_messages st) = 2" by auto
  show ?thesis
    using following_pages_reads_log [of sample_query msg_sample_host msg_second st 3] st
    by (simp add: sample_query_def)
qed

section \<open>Purging\<close>

lemma purge_messages_count:
  "purge_messages maximum st bytes removed = (st', bytes', removed') \<Longrightarrow> removed \<le> maximum \<Longrightarrow>
     removed' = removed + min (maximum - removed) (int (length (sm_messages st))) \<and>
     sm_messages st' = take (length (sm_messages st) - nat (removed' - removed)) (sm_messages st) \<and>
     sm_runs st' = sm_runs st"
proof (induction maximum st bytes removed rule: purge_messages.induct)
  case (1 maximum st bytes removed)
  show ?case
  proof (cases "sm_messages st = [] \<or> maximum \<le> removed")
    case True
    then show ?thesis using "1.prems" by (auto simp: purge_messages.simps)
  next
    case False
    have step: "purge_messages maximum (drop_message st) (bytes + last_message_bytes st) (removed + 1) = (st', bytes', removed')"
      using "1.prems"(1) False by (simp add: purge_messages.simps [of maximum st])
    note IH = "1.IH" [OF False step]
    obtain m where m: "length (sm_messages st) = Suc m" using False by (cases "sm_messages st") auto
    have "removed' = removed + min (maximum - removed) (int (length (sm_messages st)))"
      using IH False m by auto
    moreover have "sm_messages st' = take (length (sm_messages st) - nat (removed' - removed)) (sm_messages st)"
    proof -
      have "removed + 1 \<le> removed'" using IH False by auto
      then have "nat (removed' - removed) = Suc (nat (removed' - (removed + 1)))" by linarith
      then show ?thesis using IH False m by (simp add: butlast_conv_take)
    qed
    ultimately show ?thesis using IH False by simp
  qed
qed

lemma purge_runs_count:
  "purge_runs maximum st bytes removed = (st', bytes', removed') \<Longrightarrow> removed \<le> maximum \<Longrightarrow>
     removed' = removed + min (maximum - removed) (int (length (sm_runs st))) \<and>
     sm_messages st' = sm_messages st \<and> sm_runs st' = drop (nat (removed' - removed)) (sm_runs st)"
proof (induction maximum st bytes removed rule: purge_runs.induct)
  case (1 maximum st bytes removed)
  show ?case
  proof (cases "sm_runs st = [] \<or> maximum \<le> removed")
    case True
    then show ?thesis using "1.prems" by (auto simp: purge_runs.simps)
  next
    case False
    have step: "purge_runs maximum (drop_run st) (bytes + first_run_bytes st) (removed + 1) = (st', bytes', removed')"
      using "1.prems"(1) False by (simp add: purge_runs.simps [of maximum st])
    note IH = "1.IH" [OF False step]
    obtain r rs where runs: "sm_runs st = r # rs" using False by (cases "sm_runs st") auto
    have "removed + 1 \<le> removed'" using IH False by auto
    then have "nat (removed' - removed) = Suc (nat (removed' - (removed + 1)))" by linarith
    then show ?thesis using IH False runs by auto
  qed
qed

lemma purge_call:
  assumes "stream_at (gp_channel p) (mh_thread_key h (gp_identity p)) b = Some st"
    and "sm_generation st = gp_generation p" and "sm_disposition st \<in> {STREAM_DELETING, STREAM_EXPIRING}"
    and "1 \<le> gp_maximum p" and inv: "backend_inv h b"
  shows "\<exists>res b' st'. purge_generation h p b = (Inr res, b') \<and>
    stream_at (gp_channel p) (mh_thread_key h (gp_identity p)) b' = Some st' \<and>
    pr_removed res = min (gp_maximum p) (int (length (sm_messages st) + length (sm_runs st))) \<and>
    pr_complete res = (sm_messages st' = [] \<and> sm_runs st' = []) \<and>
    int (length (sm_messages st') + length (sm_runs st')) =
      int (length (sm_messages st) + length (sm_runs st)) - pr_removed res \<and>
    (\<exists>n. sm_messages st' = take n (sm_messages st)) \<and> (sm_runs st' \<noteq> sm_runs st \<longrightarrow> sm_messages st' = []) \<and>
    sm_generation st' = sm_generation st \<and> sm_disposition st' = sm_disposition st"
proof -
  let ?k = "gp_channel p" and ?t = "mh_thread_key h (gp_identity p)" and ?max = "gp_maximum p"
  obtain c where c: "dget (mb_channels b) ?k = Some c" "dget (ch_streams c) ?t = Some st"
    using stream_at_known [OF assms(1)] by blast
  obtain u b1 r1 where first: "purge_messages ?max st 0 0 = (u, b1, r1)" by (metis prod_cases3)
  obtain st' bytes removed where second: "purge_runs ?max u b1 r1 = (st', bytes, removed)" by (metis prod_cases3)
  have out: "purge_state ?max st = (st', bytes, removed)" using first second by (simp add: purge_state_def)
  have one: "r1 = min ?max (int (length (sm_messages st)))"
    "sm_messages u = take (length (sm_messages st) - nat r1) (sm_messages st)" "sm_runs u = sm_runs st"
    using purge_messages_count [OF first] assms(4) by simp_all
  have two: "removed = r1 + min (?max - r1) (int (length (sm_runs u)))" "sm_messages st' = sm_messages u"
    "sm_runs st' = drop (nat (removed - r1)) (sm_runs u)"
    using purge_runs_count [OF second] one(1) by simp_all
  have fixed: "sm_generation st' = sm_generation st \<and> sm_disposition st' = sm_disposition st"
  proof -
    have "sm_generation s' = sm_generation s \<and> sm_disposition s' = sm_disposition s"
      if "purge_messages m s x y = (s', x', y')" for m s x y s' x' y'
      using that by (induction m s x y rule: purge_messages.induct)
        (subst (asm) purge_messages.simps, auto split: if_splits)
    moreover have "sm_generation s' = sm_generation s \<and> sm_disposition s' = sm_disposition s"
      if "purge_runs m s x y = (s', x', y')" for m s x y s' x' y'
      using that by (induction m s x y rule: purge_runs.induct)
        (subst (asm) purge_runs.simps, auto split: if_splits)
    ultimately show ?thesis using first second by metis
  qed
  have total: "removed = min ?max (int (length (sm_messages st) + length (sm_runs st)))"
    using one two(1) by (simp add: min_def)
  have lengths: "int (length (sm_messages st') + length (sm_runs st')) =
      int (length (sm_messages st) + length (sm_runs st)) - removed"
  proof -
    have "0 \<le> r1" "r1 \<le> int (length (sm_messages st))" "0 \<le> removed - r1" "removed - r1 \<le> int (length (sm_runs st))"
      using one(1,3) two(1) assms(4) by simp_all
    moreover have "length (sm_messages st') = length (sm_messages st) - nat r1"
      "length (sm_runs st') = length (sm_runs st) - nat (removed - r1)"
      using one(2,3) two(2,3) by simp_all
    ultimately show ?thesis by linarith
  qed
  have order: "sm_runs st' \<noteq> sm_runs st \<longrightarrow> sm_messages st' = []"
  proof (cases "?max \<le> int (length (sm_messages st))")
    case True
    then have "r1 = ?max" "removed = r1" using one(1) two(1) by simp_all
    then show ?thesis using two(3) one(3) by simp
  next
    case False
    then have "r1 = int (length (sm_messages st))" using one(1) by simp
    then show ?thesis using two(2) one(2) by simp
  qed
  let ?b = "put_channel True (put_stream ?t st' c) (charge_backend (- bytes) (- removed) b)"
  have "purge_generation h p b = (Inr \<lparr>pr_removed = removed, pr_complete = (sm_messages st' = [] \<and> sm_runs st' = [])\<rparr>, ?b)"
    using assms c out by (simp add: purge_generation_def seq_def bind_def check_def gets_def modify_def ret_def)
  moreover have "stream_at ?k ?t ?b = Some st'"
  proof -
    have "ch_channel c = ?k" using backend_inv_channel [OF inv c(1)] by (simp add: channel_ok_def)
    then show ?thesis by (simp add: put_channel_def charge_backend_def stream_at_def channel_at_def)
  qed
  ultimately show ?thesis using total lengths one(2) two(2) fixed order by auto
qed

text \<open>A client that repeats the call.\<close>

primrec purge_rounds :: "msg_host \<Rightarrow> generation_purge \<Rightarrow> nat \<Rightarrow> memory_backend \<Rightarrow> memory_backend" where
  "purge_rounds h p 0 b = b"
| "purge_rounds h p (Suc n) b = purge_rounds h p n (snd (purge_generation h p b))"

lemma purge_rounds_empty:
  "backend_inv h b \<Longrightarrow> stream_at (gp_channel p) (mh_thread_key h (gp_identity p)) b = Some st \<Longrightarrow>
     sm_generation st = gp_generation p \<Longrightarrow> sm_disposition st \<in> {STREAM_DELETING, STREAM_EXPIRING} \<Longrightarrow>
     1 \<le> gp_maximum p \<Longrightarrow> int (length (sm_messages st) + length (sm_runs st)) \<le> int n * gp_maximum p \<Longrightarrow>
     \<exists>st'. backend_inv h (purge_rounds h p n b) \<and>
       stream_at (gp_channel p) (mh_thread_key h (gp_identity p)) (purge_rounds h p n b) = Some st' \<and>
       sm_messages st' = [] \<and> sm_runs st' = [] \<and> sm_generation st' = sm_generation st \<and>
       sm_disposition st' = sm_disposition st"
proof (induction n arbitrary: b st)
  case 0
  then have "length (sm_messages st) = 0 \<and> length (sm_runs st) = 0" by linarith
  then show ?case using 0 by simp
next
  case (Suc n)
  obtain res b' st' where call: "purge_generation h p b = (Inr res, b')"
    "stream_at (gp_channel p) (mh_thread_key h (gp_identity p)) b' = Some st'"
    "pr_removed res = min (gp_maximum p) (int (length (sm_messages st) + length (sm_runs st)))"
    "int (length (sm_messages st') + length (sm_runs st')) =
      int (length (sm_messages st) + length (sm_runs st)) - pr_removed res"
    "sm_generation st' = sm_generation st" "sm_disposition st' = sm_disposition st"
    using purge_call [OF Suc.prems(2-5,1)] by metis
  have "backend_inv h b'" using keeps_outcome [OF purge_keeps [OF Suc.prems(1)] call(1)] by simp
  moreover have "int (length (sm_messages st') + length (sm_runs st')) \<le> int n * gp_maximum p"
    using call(3,4) Suc.prems(5,6) by (simp add: algebra_simps min_def split: if_splits)
  ultimately show ?case using Suc.IH [of b' st'] call Suc.prems(3-5) by simp
qed

text \<open>
  C24. One purge of a sealed generation removes exactly as many records as it may, newest
  messages first and runs only after the last message, and reports completion exactly when
  nothing is left. Repeating the call empties the generation: after \<open>n\<close> calls with
  \<open>n * maximum\<close> at least the number of records, it is empty and the next call says so.
\<close>

theorem purge_finishes:
  assumes "msg_init h b0" and "(msg_step h)\<^sup>*\<^sup>* b0 b"
    and "stream_at (gp_channel p) (mh_thread_key h (gp_identity p)) b = Some st"
    and "sm_generation st = gp_generation p" and "sm_disposition st \<in> {STREAM_DELETING, STREAM_EXPIRING}"
    and "1 \<le> gp_maximum p" and "int (length (sm_messages st) + length (sm_runs st)) \<le> int n * gp_maximum p"
  shows "(\<exists>res b' st'. purge_generation h p b = (Inr res, b') \<and>
      stream_at (gp_channel p) (mh_thread_key h (gp_identity p)) b' = Some st' \<and>
      pr_removed res = min (gp_maximum p) (int (length (sm_messages st) + length (sm_runs st))) \<and>
      pr_complete res = (sm_messages st' = [] \<and> sm_runs st' = []) \<and>
      (\<exists>m. sm_messages st' = take m (sm_messages st)) \<and> (sm_runs st' \<noteq> sm_runs st \<longrightarrow> sm_messages st' = [])) \<and>
    (\<exists>st' res. stream_at (gp_channel p) (mh_thread_key h (gp_identity p)) (purge_rounds h p n b) = Some st' \<and>
      sm_messages st' = [] \<and> sm_runs st' = [] \<and>
      fst (purge_generation h p (purge_rounds h p n b)) = Inr res \<and> pr_removed res = 0 \<and> pr_complete res)"
proof -
  have inv: "backend_inv h b" using messages.inv_reachable [OF assms(1,2)] by (simp add: msg_inv_def)
  obtain st' where gone: "backend_inv h (purge_rounds h p n b)"
    "stream_at (gp_channel p) (mh_thread_key h (gp_identity p)) (purge_rounds h p n b) = Some st'"
    "sm_messages st' = []" "sm_runs st' = []" "sm_generation st' = sm_generation st" "sm_disposition st' = sm_disposition st"
    using purge_rounds_empty [OF inv assms(3-7)] by metis
  have "\<exists>res. fst (purge_generation h p (purge_rounds h p n b)) = Inr res \<and> pr_removed res = 0 \<and> pr_complete res"
    using purge_call [OF gone(2) _ _ assms(6) gone(1)] gone(3-6) assms(4-6) by fastforce
  then show ?thesis using purge_call [OF assms(3-6) inv] gone by blast
qed

theorem purge_finishes_witness:
  "\<exists>st'. sample_stream (purge_rounds msg_sample_host (sample_purge 2) 2 msg_sealed) = Some st' \<and>
     sm_messages st' = [] \<and> sm_runs st' = []"
proof -
  have "map_option (\<lambda>st. (sm_generation st, sm_disposition st, length (sm_messages st), length (sm_runs st)))
      (sample_stream msg_sealed) = Some (1, STREAM_DELETING, 2, 1)" by code_simp
  then obtain st where st: "sample_stream msg_sealed = Some st" "sm_generation st = 1" "sm_disposition st = STREAM_DELETING"
    "length (sm_messages st) = 2" "length (sm_runs st) = 1" by auto
  show ?thesis
    using purge_finishes [OF msg_sample_init msg_sample_reached(6), of "sample_purge 2" st 2] st
    by (auto simp: sample_purge_def)
qed

end
