(* ===== verification/Msg_Memory_Props.thy ===== *)
theory Msg_Memory_Props
  imports Msg_Memory_Sample
begin

text \<open>
  What the in-memory messaging backend promises over whole runs of calls, each property
  followed by its witness on the sample run.
\<close>

section \<open>Facts about reachable states\<close>

lemma reachable_inv: "msg_init h b0 \<Longrightarrow> (msg_step h)\<^sup>*\<^sup>* b0 b \<Longrightarrow> msg_inv h b"
  by (rule messages.inv_reachable)

lemma later_steps:
  assumes "(msg_step h)\<^sup>*\<^sup>* b b'" and "msg_inv h b"
  shows "msg_inv h b' \<and> later b b'"
  using assms
proof (induction rule: rtranclp_induct)
  case (step y z)
  then show ?case using msg_step_keeps [of h y z] later_trans [of b y z] by (auto simp: msg_inv_def)
qed simp

lemma inv_stream: "msg_inv h b \<Longrightarrow> stream_at k t b = Some st \<Longrightarrow> stream_ok h t st"
  using stream_at_known backend_inv_channel channel_ok_stream unfolding msg_inv_def by blast

text \<open>A generation is still the stored one, or it was retired.\<close>

lemma later_stream:
  assumes "later b b'" and "stream_at k t b = Some st"
  shows "dget (tombstones_of (channel_at k b') t) (sm_generation st) \<noteq> None \<or>
    (\<exists>st'. stream_at k t b' = Some st' \<and> same_generation st st')"
proof -
  obtain c where c: "dget (mb_channels b) k = Some c" "dget (ch_streams c) t = Some st"
    using stream_at_known [OF assms(2)] by blast
  then obtain c' where "dget (mb_channels b') k = Some c'"
    "dget (tombstones_of c' t) (sm_generation st) \<noteq> None \<or>
       (\<exists>st'. dget (ch_streams c') t = Some st' \<and> same_generation st st')"
    using assms(1) unfolding later_def by blast
  then show ?thesis by auto
qed

lemma live_same:
  assumes "later b b'" and "msg_inv h b'" and "stream_at k t b = Some st"
    and "stream_at k t b' = Some st'" and "sm_generation st' = sm_generation st"
  shows "same_generation st st'"
proof -
  obtain c where c: "dget (mb_channels b') k = Some c" "dget (ch_streams c) t = Some st'"
    using stream_at_known [OF assms(4)] by blast
  have "channel_ok h k c" using assms(2) c(1) backend_inv_channel by (auto simp: msg_inv_def)
  then have "dget (tombstones_of (channel_at k b') t) (sm_generation st) = None"
    using c assms(5) by (force simp: channel_ok_def)
  then show ?thesis using later_stream [OF assms(1,3)] assms(4) by auto
qed

section \<open>The log\<close>

text \<open>
  C13. In every reachable state the messages of a generation are numbered 1, 2, 3, ... without
  gaps, no message identifier occurs twice, and the index by identifier holds exactly the
  messages of the log.
\<close>

theorem messages_gapless:
  assumes "msg_init h b0" and "(msg_step h)\<^sup>*\<^sup>* b0 b" and "stream_at k t b = Some st"
  shows "map me_seq (sm_messages st) = map (\<lambda>n. int n + 1) [0..<length (sm_messages st)] \<and>
    distinct (map me_message_id (sm_messages st)) \<and>
    (\<forall>i m. dget (sm_by_id st) i = Some m \<longleftrightarrow> m \<in> set (sm_messages st) \<and> me_message_id m = i)"
proof -
  have "log_ok st" using inv_stream [OF reachable_inv [OF assms(1,2)] assms(3)] by (simp add: stream_ok_def)
  then show ?thesis by (auto simp: log_ok_def intro!: nth_equalityI)
qed

theorem messages_gapless_witness:
  "\<exists>st. sample_stream msg_second = Some st \<and> map me_seq (sm_messages st) = [1, 2] \<and>
     distinct (map me_message_id (sm_messages st))"
proof -
  have "map_option (\<lambda>st. length (sm_messages st)) (sample_stream msg_second) = Some 2" by code_simp
  then obtain st where st: "sample_stream msg_second = Some st" "length (sm_messages st) = 2" by auto
  show ?thesis
    using messages_gapless [OF msg_sample_init msg_sample_reached(3) st(1)] st
    by (simp add: upt_rec)
qed

text \<open>
  C14. A message that was committed is never changed, moved or dropped from its generation:
  in every later state the generation is retired, sealed for deletion, or its log begins with
  the log it had.
\<close>

theorem committed_messages_kept:
  assumes "msg_init h b0" and "(msg_step h)\<^sup>*\<^sup>* b0 b" and "(msg_step h)\<^sup>*\<^sup>* b b'" and "stream_at k t b = Some st"
  shows "dget (tombstones_of (channel_at k b') t) (sm_generation st) \<noteq> None \<or>
    (\<exists>st'. stream_at k t b' = Some st' \<and> sm_generation st' = sm_generation st \<and>
       (sm_disposition st' = STREAM_ACTIVE \<longrightarrow> (\<exists>ms. sm_messages st' = sm_messages st @ ms)))"
proof -
  have "later b b'" using later_steps [OF assms(3) reachable_inv [OF assms(1,2)]] by blast
  from later_stream [OF this assms(4)] show ?thesis by (auto simp: same_generation_def)
qed

theorem committed_messages_kept_witness:
  "\<exists>st st'. sample_stream msg_first = Some st \<and> sample_stream msg_second = Some st' \<and>
     (\<exists>ms. sm_messages st' = sm_messages st @ ms) \<and> sm_messages st \<noteq> []"
proof -
  have "map_option (\<lambda>st. sm_messages st = []) (sample_stream msg_first) = Some False"
    "map_option sm_disposition (sample_stream msg_second) = Some STREAM_ACTIVE"
    "dget (tombstones_of (channel_at ''c'' msg_second) (sample_key sample_identity)) 1 = None"
    "map_option sm_generation (sample_stream msg_first) = Some 1"
    by code_simp+
  moreover obtain st where st: "sample_stream msg_first = Some st" using calculation(1) by auto
  moreover have "(msg_step msg_sample_host)\<^sup>*\<^sup>* msg_first msg_second" using msg_sample_steps(3) by blast
  ultimately show ?thesis
    using committed_messages_kept [OF msg_sample_init msg_sample_reached(2) _ st] by fastforce
qed

section \<open>Runs\<close>

text \<open>
  C15. As long as its generation is open, a known run is kept: it never changes its identity,
  its request digest or its start, its end never moves back, a run in a terminal status never
  changes again, and a run that was asked to cancel never completes or runs on as before.
\<close>

theorem runs_only_progress:
  assumes "msg_init h b0" and "(msg_step h)\<^sup>*\<^sup>* b0 b" and "(msg_step h)\<^sup>*\<^sup>* b b'"
    and "stream_at k t b = Some st" and "dget (sm_runs st) x = Some r"
    and "stream_at k t b' = Some st'" and "sm_generation st' = sm_generation st" and "sm_disposition st' = STREAM_ACTIVE"
  shows "\<exists>r'. dget (sm_runs st') x = Some r' \<and> rr_identity r' = rr_identity r \<and> rr_digest r' = rr_digest r \<and>
    rr_start r' = rr_start r \<and> rr_end r \<le> rr_end r' \<and> (is_final_run_status (rr_status r) \<longrightarrow> r' = r) \<and>
    (rr_status r = RUN_CANCEL_REQUESTED \<longrightarrow> rr_status r' \<notin> {RUN_RUNNING, RUN_COMPLETED})"
proof -
  have inv: "msg_inv h b'" "later b b'" using later_steps [OF assms(3) reachable_inv [OF assms(1,2)]] by blast+
  have "same_generation st st'" by (rule live_same [OF inv(2,1) assms(4,6,7)])
  then show ?thesis using assms(5,8) unfolding same_generation_def run_later_def by blast
qed

theorem runs_only_progress_witness:
  "\<exists>st r st' r'. sample_stream msg_finished = Some st \<and> dget (sm_runs st) ''r'' = Some r \<and>
     rr_status r = RUN_COMPLETED \<and> sample_stream msg_finished = Some st' \<and> dget (sm_runs st') ''r'' = Some r' \<and> r' = r"
proof -
  have "map_option (\<lambda>st. (sm_disposition st, map_option rr_status (dget (sm_runs st) ''r'')))
      (sample_stream msg_finished) = Some (STREAM_ACTIVE, Some RUN_COMPLETED)" by code_simp
  then obtain st r where st: "sample_stream msg_finished = Some st" "dget (sm_runs st) ''r'' = Some r"
    "rr_status r = RUN_COMPLETED" "sm_disposition st = STREAM_ACTIVE" by auto
  show ?thesis
    using runs_only_progress [OF msg_sample_init msg_sample_reached(5) rtranclp.rtrancl_refl st(1,2,1) refl st(4)] st
    by auto
qed

text \<open>
  C16. At most one run of a generation is not terminal. It is the run that the generation
  records as active, and it holds an ownership token; terminal runs hold none.
\<close>

theorem single_producer:
  assumes "msg_init h b0" and "(msg_step h)\<^sup>*\<^sup>* b0 b" and "stream_at k t b = Some st"
  shows "(\<forall>x r. dget (sm_runs st) x = Some r \<longrightarrow>
       (rr_token r = None \<longleftrightarrow> is_final_run_status (rr_status r)) \<and>
       (\<not> is_final_run_status (rr_status r) \<longleftrightarrow> sm_active st = Some (rr_identity r))) \<and>
    (\<forall>active. sm_active st = Some active \<longrightarrow> dget (sm_runs st) (id_run active) \<noteq> None)"
proof -
  have runs: "runs_ok h t st"
    using inv_stream [OF reachable_inv [OF assms(1,2)] assms(3)] by (simp add: stream_ok_def)
  have "\<not> is_final_run_status (rr_status r)"
    if r: "dget (sm_runs st) x = Some r" "sm_active st = Some (rr_identity r)" for x r
  proof -
    have "id_run (rr_identity r) = x" using runs r by (simp add: runs_ok_def run_ok_def)
    then obtain q where "dget (sm_runs st) x = Some q" "\<not> is_final_run_status (rr_status q)"
      using runs r(2) unfolding runs_ok_def by blast
    then show ?thesis using r(1) by simp
  qed
  then show ?thesis using runs unfolding runs_ok_def run_ok_def by blast
qed

theorem single_producer_witness:
  "\<exists>st r. sample_stream msg_second = Some st \<and> dget (sm_runs st) ''r'' = Some r \<and>
     sm_active st = Some (rr_identity r) \<and> rr_token r \<noteq> None"
proof -
  have "map_option (\<lambda>st. map_option rr_status (dget (sm_runs st) ''r'')) (sample_stream msg_second) =
      Some (Some RUN_RUNNING)" by code_simp
  then obtain st r where st: "sample_stream msg_second = Some st" "dget (sm_runs st) ''r'' = Some r"
    "rr_status r = RUN_RUNNING" by auto
  have "\<not> is_final_run_status (rr_status r)" using st(3) by simp
  then show ?thesis using single_producer [OF msg_sample_init msg_sample_reached(3) st(1)] st by blast
qed

section \<open>Superseded generations\<close>

definition producer_kinds :: "transition_kind set" where
  "producer_kinds = {APPEND_MESSAGE, PUBLISH_MESSAGE, BEGIN_SETTLEMENT, FINISH_RUN}"

lemma producer_target:
  assumes "tn_kind tn \<in> producer_kinds" and "resolve_transition sha tn sn = Inr ef"
  shows "sn_target sn \<noteq> None"
proof -
  consider "resolve_append_message sha tn sn = Inr ef" | "resolve_begin_settlement tn sn = Inr ef"
    | "resolve_finish_run tn sn = Inr ef"
    using assms by (auto simp: producer_kinds_def resolve_transition_def require_Inr)
  then show ?thesis
  proof cases
    case 1
    then show ?thesis by (cases rule: resolve_append_cases) simp_all
  next
    case 2
    then show ?thesis by (cases rule: resolve_begin_settlement_cases) (simp add: owned_evidence_def)
  next
    case 3
    then show ?thesis by (cases rule: resolve_finish_run_cases) (simp add: owned_evidence_def)
  qed
qed

text \<open>A transition that found its run found it in the generation of its reference.\<close>

lemma committed_live:
  assumes "committed h tn u sn" and "sn_target sn \<noteq> None" and "selected_generation tn = Some g"
  shows "\<exists>st. stream_at (tn_channel tn) (mh_thread_key h (tn_identity tn)) u = Some st \<and> sm_generation st = g"
proof -
  obtain stream where stream: "sn_stream sn = Some stream"
    using assms(1,2) snapshot_none unfolding committed_def by (cases "sn_stream sn") fastforce+
  have snap: "msg_host_ok h" "backend_inv h u"
    "snapshot_of h (tn_channel tn) (tn_identity tn) (selected_generation tn) (tn_message_id tn) u sn"
    using assms(1) by (simp_all add: committed_def)
  obtain c st where "located h u (tn_channel tn) (tn_identity tn) c st"
    "selected_generation tn = None \<or> selected_generation tn = Some (sm_generation st)"
    using snapshot_stream [OF snap stream] by metis
  moreover from this have "sm_generation st = g" using assms(3) by simp
  ultimately show ?thesis by (auto simp: located_def)
qed

text \<open>
  C17. Once a thread has moved on to a later generation, every producer that still holds a
  reference to an earlier one is refused: in all later states its appends, publications,
  settlements and completions raise.
\<close>

theorem superseded_generation_refused:
  assumes "msg_init h b0" and "(msg_step h)\<^sup>*\<^sup>* b0 b"
    and "rf_generation reference < latest_generation b (tn_channel tn, mh_thread_key h (tn_identity tn))"
    and "(msg_step h)\<^sup>*\<^sup>* b b'" and "tn_kind tn \<in> producer_kinds" and "tn_reference tn = Some reference"
  shows "\<exists>e. fst (commit_transition h tn b') = Inl e"
proof -
  let ?p = "(tn_channel tn, mh_thread_key h (tn_identity tn))"
  have inv: "msg_inv h b" by (rule reachable_inv [OF assms(1,2)])
  have dead: "\<not> generation_live b' (?p, rf_generation reference)"
    by (rule messages.superseded_refused [OF inv _ assms(4)]) (use assms(3) in simp)
  have kind: "transition_ok tn" using assms(5) by (auto simp: producer_kinds_def transition_ok_def)
  have inv': "msg_inv h b'" using later_steps [OF assms(4) inv] by blast
  obtain out b'' where run: "commit_transition h tn b' = (out, b'')" by fastforce
  from inv' kind run show ?thesis
  proof (cases rule: commit_outcome)
    case (finished u sn ef)
    have com: "committed h tn u sn" and ef: "resolve_transition (mh_sha256 h) tn sn = Inr ef"
      using finished(3) by (simp_all add: commit_end_def)
    have "selected_generation tn = Some (rf_generation reference)"
      using assms(5,6) by (auto simp: selected_generation_def producer_kinds_def)
    then obtain st where "stream_at (tn_channel tn) (mh_thread_key h (tn_identity tn)) u = Some st"
      "sm_generation st = rf_generation reference"
      using committed_live [OF com producer_target [OF assms(5) ef]] by blast
    then have "generation_live b' (?p, rf_generation reference)"
      using finished(2) by (simp add: expires_def expired_only_def generation_live_def)
    then show ?thesis using dead by contradiction
  qed (simp add: run)
qed

theorem superseded_generation_refused_witness:
  "\<exists>e. fst (commit_transition msg_sample_host (sample_append ''m3'' ''z'') msg_again) = Inl e"
proof -
  have "rf_generation sample_reference < latest_generation msg_again (''c'', sample_key sample_identity)" by code_simp
  then show ?thesis
    using superseded_generation_refused [OF msg_sample_init msg_sample_reached(8) _ rtranclp.rtrancl_refl,
        of sample_reference "sample_append ''m3'' ''z''"]
    by (simp add: producer_kinds_def)
qed

section \<open>What a call leaves alone\<close>

text \<open>
  C18. A commit that raises stores nothing: no stream is created or changed, retired
  generations stay retired, and a stream that is gone was retired because a deadline of its own
  had passed on the monotonic clock.
\<close>

theorem rejected_commit_stores_nothing:
  assumes "msg_init h b0" and "(msg_step h)\<^sup>*\<^sup>* b0 b" and "transition_ok tn"
    and "commit_transition h tn b = (Inl e, b')"
  shows "(stream_at k t b' = Some st \<longrightarrow> stream_at k t b = Some st) \<and>
    (stream_at k t b = Some st \<longrightarrow> stream_at k t b' = Some st \<or>
       (\<exists>d n. sm_expires st = Some d \<and> n < mb_monotonic_reads b' \<and> d \<le> mh_monotonic h n \<and>
          dget (tombstones_of (channel_at k b') t) (sm_generation st) = Some REASON_EXPIRED)) \<and>
    (dget (tombstones_of (channel_at k b) t) g = Some reason \<longrightarrow>
       dget (tombstones_of (channel_at k b') t) g = Some reason)"
proof -
  have "expires h b b'"
    using reachable_inv [OF assms(1,2)] assms(3,4) by (cases rule: commit_outcome) simp_all
  then show ?thesis unfolding expires_def expired_only_def by blast
qed

theorem rejected_commit_stores_nothing_witness:
  "\<exists>e b' st. commit_transition msg_sample_host (sample_append ''m1'' ''zz'') msg_second = (Inl e, b') \<and>
     sample_stream msg_second = Some st \<and> sample_stream b' = Some st"
proof -
  have "(case fst (commit_transition msg_sample_host (sample_append ''m1'' ''zz'') msg_second) of
      Inl (MessageIdConflict i m) \<Rightarrow> True | _ \<Rightarrow> False)"
    "map_option sm_expires (sample_stream msg_second) = Some None" by code_simp+
  then obtain e b' st where run: "commit_transition msg_sample_host (sample_append ''m1'' ''zz'') msg_second = (Inl e, b')"
    and st: "sample_stream msg_second = Some st" "sm_expires st = None"
    by (cases "commit_transition msg_sample_host (sample_append ''m1'' ''zz'') msg_second")
      (auto split: sum.splits)
  show ?thesis
    using rejected_commit_stores_nothing [OF msg_sample_init msg_sample_reached(3) _ run, where st = st] run st
    by (metis option.distinct(1) sample_transition_ok(2))
qed

text \<open>
  A commit touches one thread: on any other thread no stream is created or changed, and a
  stream without a deadline, in particular one with a live producer, stays exactly as it is.
\<close>

theorem commit_isolated:
  assumes "msg_init h b0" and "(msg_step h)\<^sup>*\<^sup>* b0 b" and "transition_ok tn"
    and "commit_transition h tn b = (out, b')" and "(k, t) \<noteq> (tn_channel tn, mh_thread_key h (tn_identity tn))"
  shows "(stream_at k t b' = Some st \<longrightarrow> stream_at k t b = Some st) \<and>
    (stream_at k t b = Some st \<and> (sm_expires st = None \<or> sm_active st \<noteq> None) \<longrightarrow> stream_at k t b' = Some st)"
proof -
  have inv: "msg_inv h b" by (rule reachable_inv [OF assms(1,2)])
  obtain u where u: "expires h b u" "stream_at k t b' = stream_at k t u"
    using inv assms(3,4)
  proof (cases rule: commit_outcome)
    case (finished u sn ef)
    then have "stream_at k t b' = stream_at k t u"
      using assms(5) unfolding commit_end_def stored_def retired_def Let_def by blast
    then show ?thesis using that finished(2) by blast
  qed blast
  have "sm_expires st = None" if "stream_at k t b = Some st" "sm_active st \<noteq> None"
    using inv_stream [OF inv that(1)] that(2) by (auto simp: stream_ok_def shape_ok_def)
  then have "stream_at k t b = Some st \<and> (sm_expires st = None \<or> sm_active st \<noteq> None) \<longrightarrow> stream_at k t u = Some st"
    using u(1) expired_only_kept by (auto simp: expires_def)
  moreover have "stream_at k t u = Some st \<longrightarrow> stream_at k t b = Some st"
    using u(1) unfolding expires_def expired_only_def by blast
  ultimately show ?thesis by (simp add: u(2))
qed

theorem commit_isolated_witness:
  "\<exists>st. sample_stream msg_second = Some st \<and>
     sample_stream (sample_commit ((sample_prepare ''p9'')\<lparr>tn_channel := ''d''\<rparr>) msg_second) = Some st"
proof -
  have "map_option sm_active (sample_stream msg_second) = Some (Some sample_identity)" by code_simp
  then obtain st where st: "sample_stream msg_second = Some st" "sm_active st \<noteq> None" by auto
  have "transition_ok ((sample_prepare ''p9'')\<lparr>tn_channel := ''d''\<rparr>)"
    by (simp add: transition_ok_def sample_prepare_def sample_transition_def)
  from commit_isolated [OF msg_sample_init msg_sample_reached(3) this surjective_pairing,
      of "''c''" "sample_key sample_identity" st] st
  show ?thesis by simp
qed

section \<open>Quotas\<close>

text \<open>
  C19. The two counters that the quotas are checked against are exact: the bytes are those of
  all retained payloads and checkpoints, the records are the channels, the threads ever used,
  the live generations with their messages and runs, and the retired generations. Neither ever
  exceeds its limit.
\<close>

theorem quotas_exact:
  assumes "msg_init h b0" and "(msg_step h)\<^sup>*\<^sup>* b0 b"
  shows "mb_total_bytes b = dsum (\<lambda>c. dsum (\<lambda>st. sum_list (map (message_weight st) (sm_messages st)) +
        dsum run_weight (sm_runs st)) (ch_streams c)) (mb_channels b) \<and>
    mb_total_records b = dsum (\<lambda>c. 1 + int (card (channel_threads c)) +
        dsum (\<lambda>st. 1 + int (length (sm_messages st)) + int (length (sm_runs st))) (ch_streams c) +
        dsum (\<lambda>d. int (length d)) (ch_tombstones c)) (mb_channels b) \<and>
    mb_total_bytes b \<le> max_total_bytes (mb_limits b) \<and> mb_total_records b \<le> max_total_records (mb_limits b)"
proof -
  have inv: "backend_inv h b" using reachable_inv [OF assms] by (simp add: msg_inv_def)
  have wf: "wf_dict (mb_channels b)" using inv by (simp add: backend_inv_def)
  have channel: "channel_bytes c = dsum (\<lambda>st. sum_list (map (message_weight st) (sm_messages st)) +
        dsum run_weight (sm_runs st)) (ch_streams c) \<and>
      channel_records c = 1 + int (card (channel_threads c)) +
        dsum (\<lambda>st. 1 + int (length (sm_messages st)) + int (length (sm_runs st))) (ch_streams c) +
        dsum (\<lambda>d. int (length d)) (ch_tombstones c)" if c: "c \<in> set (dvals (mb_channels b))" for c
  proof -
    obtain k where "dget (mb_channels b) k = Some c" using c in_dvals_iff [OF wf] by blast
    then have ok: "channel_ok h k c" using backend_inv_channel [OF inv] by blast
    have "counts_ok st" if "st \<in> set (dvals (ch_streams c))" for st
      using ok that in_dvals_iff [of "ch_streams c" st] by (auto simp: channel_ok_def stream_ok_def)
    then have "dsum sm_retained_bytes (ch_streams c) = dsum (\<lambda>st. sum_list (map (message_weight st) (sm_messages st)) +
        dsum run_weight (sm_runs st)) (ch_streams c)"
      "dsum sm_retained_records (ch_streams c) = dsum (\<lambda>st. 1 + int (length (sm_messages st)) + int (length (sm_runs st))) (ch_streams c)"
      by (auto intro!: dsum_cong simp: counts_ok_def)
    then show ?thesis using ok by (simp add: channel_bytes_def channel_records_def channel_ok_def)
  qed
  have "mb_total_bytes b = dsum channel_bytes (mb_channels b)" "mb_total_records b = dsum channel_records (mb_channels b)"
    "mb_total_bytes b \<le> max_total_bytes (mb_limits b)" "mb_total_records b \<le> max_total_records (mb_limits b)"
    using inv by (simp_all add: backend_inv_def)
  moreover have "dsum channel_bytes (mb_channels b) = dsum (\<lambda>c. dsum (\<lambda>st. sum_list (map (message_weight st) (sm_messages st)) +
        dsum run_weight (sm_runs st)) (ch_streams c)) (mb_channels b)"
    by (rule dsum_cong) (use channel in blast)
  moreover have "dsum channel_records (mb_channels b) = dsum (\<lambda>c. 1 + int (card (channel_threads c)) +
        dsum (\<lambda>st. 1 + int (length (sm_messages st)) + int (length (sm_runs st))) (ch_streams c) +
        dsum (\<lambda>d. int (length d)) (ch_tombstones c)) (mb_channels b)"
    by (rule dsum_cong) (use channel in blast)
  ultimately show ?thesis by metis
qed

theorem quotas_exact_witness:
  "mb_total_bytes msg_second = 5 \<and> mb_total_records msg_second = 6 \<and> mb_total_records msg_second \<le> max_total_records (mb_limits msg_second)"
proof -
  have "mb_total_bytes msg_second = 5 \<and> mb_total_records msg_second = 6" by code_simp
  then show ?thesis using quotas_exact [OF msg_sample_init msg_sample_reached(3)] by blast
qed

section \<open>Retired generations\<close>

text \<open>
  Once a generation was retired, reading it fails in every later state, and always with
  the error of the reason it was retired for.
\<close>

theorem retired_stays_unavailable:
  assumes "msg_init h b0" and "(msg_step h)\<^sup>*\<^sup>* b0 b" and "(msg_step h)\<^sup>*\<^sup>* b b'"
    and "dget (tombstones_of (channel_at (mq_channel q) b) (mh_thread_key h (mq_identity q))) (mq_generation q) = Some reason"
    and "query_error q = None"
  shows "fst (read_committed h q b') = Inl (tombstone_error (mq_channel q) (mq_identity q) (mq_generation q) reason)"
proof -
  let ?k = "mq_channel q" and ?t = "mh_thread_key h (mq_identity q)" and ?g = "mq_generation q"
  have inv: "msg_inv h b'" "later b b'" using later_steps [OF assms(3) reachable_inv [OF assms(1,2)]] by blast+
  obtain c where c: "dget (mb_channels b) ?k = Some c"
    using assms(4) by (cases "dget (mb_channels b) ?k") (simp_all add: channel_at_def tombstones_of_def new_channel_state_def)
  then obtain c' where c': "dget (mb_channels b') ?k = Some c'"
    "\<forall>t g reason. dget (tombstones_of c t) g = Some reason \<longrightarrow> dget (tombstones_of c' t) g = Some reason"
    using inv(2) unfolding later_def by blast
  have "dget (tombstones_of c ?t) ?g = Some reason" using assms(4) channel_at_known [OF c] by simp
  then have kept: "dget (tombstones_of (channel_at ?k b') ?t) ?g = Some reason" using c' by simp
  have refused: "readable_stream h ?k (mq_identity q) ?g u = Inl (tombstone_error ?k (mq_identity q) ?g reason)"
    if u: "expires h b' u" for u
  proof -
    have tomb: "dget (tombstones_of (channel_at ?k u) ?t) ?g = Some reason" and good: "backend_inv h u"
      using u kept unfolding expires_def expired_only_def by blast+
    obtain c where c: "dget (mb_channels u) ?k = Some c"
      using tomb by (cases "dget (mb_channels u) ?k") (simp_all add: channel_at_def tombstones_of_def new_channel_state_def)
    have "sm_generation st \<noteq> ?g" if "stream_at ?k ?t u = Some st" for st
      using that c tomb backend_inv_channel [OF good c] by (force simp: channel_ok_def)
    then show ?thesis
      using tomb c by (auto simp: readable_stream_def generation_unavailable_def tombstone_reason_def Let_def split: option.split)
  qed
  have "run_with (read_committed h q) (\<lambda>_ _. False)
      (\<lambda>e _. e = tombstone_error ?k (mq_identity q) ?g reason) b'"
    unfolding read_committed_def assms(5) wp_seq wp_check option.case
    by (rule wp_mono [OF expire_if_due_expires]) (use inv(1) refused in \<open>simp_all add: msg_inv_def wp\<close>)
  then show ?thesis by (simp add: run_with_def split: prod.splits sum.splits)
qed

theorem retired_stays_unavailable_witness:
  "fst (read_committed msg_sample_host sample_query msg_again) = Inl (StreamDeleted ''c'' sample_identity 1)"
proof -
  have "dget (tombstones_of (channel_at ''c'' msg_deleted) (sample_key sample_identity)) 1 = Some REASON_DELETED"
    "query_error sample_query = None" by code_simp+
  then show ?thesis
    using retired_stays_unavailable [OF msg_sample_init msg_sample_reached(7) r_into_rtranclp [of "msg_step msg_sample_host"], OF msg_sample_steps(8)]
    by (simp add: sample_query_def msg_sample_host_def tombstone_error_def)
qed

section \<open>Settling a run\<close>

text \<open>The stream that a fitting effect on a known generation leaves.\<close>

lemma stored_located:
  assumes "located h u k i c st" and "stored h k i ef u b'"
    and "case ef_stream ef of None \<Rightarrow> True | Some s \<Rightarrow> ss_generation s = sm_generation st"
  shows "\<exists>bytes records. stream_at k (mh_thread_key h i) b' =
    Some ((updated_stream i ef bytes records st)\<lparr>sm_expires := next_deadline h ef (sm_expires st) u\<rparr>)"
proof -
  have "effect_stream (channel_at k u) (mh_thread_key h i) ef = Some st"
    using assms(1,3) by (auto simp: located_def effect_stream_def split: option.splits)
  then show ?thesis using assms(2) unfolding stored_def by auto
qed

lemma committed_end_stored:
  "commit_end h tn u sn ef b' \<Longrightarrow> \<not> idle ef \<Longrightarrow> tn_kind tn \<noteq> FINISH_CLEANUP \<Longrightarrow>
     stored h (tn_channel tn) (tn_identity tn) ef u b'"
  by (auto simp: commit_end_def)

lemma located_before:
  "expires h b u \<Longrightarrow> located h u k i c st \<Longrightarrow> stream_at k (mh_thread_key h i) b = Some st"
  by (simp add: expires_def expired_only_def located_def)

text \<open>
  C20. A completion that succeeds settles the run: the run becomes terminal with the requested
  status, except that a run that was asked to cancel and claims to have completed is recorded
  as failed. It gives up its ownership, its end is the end of the log, which is unchanged, no
  run is active any more, and the retention window starts exactly when the policy has one.
\<close>

theorem finish_settles:
  assumes "msg_init h b0" and "(msg_step h)\<^sup>*\<^sup>* b0 b" and "tn_kind tn = FINISH_RUN"
    and "commit_transition h tn b = (Inr res, b')"
  shows "\<exists>st r st' r' requested n.
    stream_at (tn_channel tn) (mh_thread_key h (tn_identity tn)) b = Some st \<and>
    dget (sm_runs st) (id_run (tn_identity tn)) = Some r \<and> \<not> is_final_run_status (rr_status r) \<and>
    stream_at (tn_channel tn) (mh_thread_key h (tn_identity tn)) b' = Some st' \<and>
    dget (sm_runs st') (id_run (tn_identity tn)) = Some r' \<and> tn_final_status tn = Some requested \<and>
    is_final_run_status (rr_status r') \<and> rs_status res = Some (rr_status r') \<and>
    rr_status r' = (if rr_status r = RUN_CANCEL_REQUESTED \<and> requested = RUN_COMPLETED then RUN_FAILED else requested) \<and>
    rr_token r' = None \<and> rr_end r' = int (length (sm_messages st')) \<and> sm_messages st' = sm_messages st \<and>
    sm_active st' = None \<and>
    sm_expires st' = map_option (\<lambda>ttl. mh_monotonic h n + ttl) (terminal_ttl (mb_retention b))"
proof -
  let ?i = "tn_identity tn" and ?k = "tn_channel tn"
  have inv: "msg_inv h b" by (rule reachable_inv [OF assms(1,2)])
  have kind: "transition_ok tn" using assms(3) by (simp add: transition_ok_def)
  obtain u sn ef where run: "res = ef_result ef" "expires h b u" "commit_end h tn u sn ef b'"
    using inv kind assms(4) by (cases rule: commit_outcome) auto
  then have com: "committed h tn u sn" and resolved: "resolve_finish_run tn sn = Inr ef"
    using assms(3) by (auto simp: commit_end_def resolve_transition_def require_Inr)
  obtain run stream reference requested status failure where owned: "owned_evidence tn sn run stream reference"
    "tn_final_status tn = Some requested" "is_final_run_status status"
    "(status, failure) = settled_status run requested (tn_failure tn)"
    and ef: "ef = (effect_of ((result_of (tn_kind tn))\<lparr>rs_status := Some status\<rparr>))
       \<lparr>ef_stream := Some (leave_active tn stream), ef_runs := [finished_run run stream status failure],
        ef_lease := LEASE_RELEASE, ef_lease_run := Some (id_run (tn_identity tn)),
        ef_retention := RETENTION_START\<rparr>"
    using resolve_finish_run_cases [OF resolved] by metis
  have target: "sn_target sn = Some run" "sn_stream sn = Some stream" "\<not> is_final_run_status (sr_status run)"
    using owned(1) by (simp_all add: owned_evidence_def)
  obtain c st r where at: "located h u ?k ?i c st" "sn_stream sn = Some (memory_stream ?k ?i st)"
    "dget (sm_runs st) (id_run ?i) = Some r" "run = stored_memory_run r (sm_generation st)" "rr_identity r = ?i"
    using committed_target [OF com target(1)] by metis
  have stream: "stream = memory_stream ?k ?i st" using at(2) target(2) by simp
  have live: "\<not> is_final_run_status (rr_status r)" using target(3) at(4) by simp
  have "run_ok h (mh_thread_key h ?i) st (id_run ?i) r" using stream_ok_run [OF located_ok [OF at(1)] at(3)] .
  then have active: "sm_active st = Some ?i" using live at(5) by (simp add: run_ok_def)
  have gen: "case ef_stream ef of None \<Rightarrow> True | Some s \<Rightarrow> ss_generation s = sm_generation st"
    by (simp add: ef leave_active_def stream)
  have "\<not> idle ef" by (simp add: ef idle_def)
  then obtain bytes records where stored: "stream_at ?k (mh_thread_key h ?i) b' =
      Some ((updated_stream ?i ef bytes records st)\<lparr>sm_expires := next_deadline h ef (sm_expires st) u\<rparr>)"
    using stored_located [OF at(1) committed_end_stored [OF run(3)] gen] assms(3) by auto
  let ?st = "(updated_stream ?i ef bytes records st)\<lparr>sm_expires := next_deadline h ef (sm_expires st) u\<rparr>"
  let ?r = "overwrite_run ?i (finished_run run stream status failure)"
  have updated: "sm_runs ?st = dset (id_run ?i) ?r (sm_runs st)" "sm_messages ?st = sm_messages st" "sm_active ?st = None"
    using at(3,4,5) active
    by (simp_all add: ef updated_stream_def apply_run_def apply_stream_def charge_stream_def Let_def stream
        finished_run_def leave_active_def)
  have status: "status = (if rr_status r = RUN_CANCEL_REQUESTED \<and> requested = RUN_COMPLETED then RUN_FAILED else requested)"
    using owned(4) at(4) by (auto simp: settled_status_def split: if_splits)
  have expires: "sm_expires ?st = map_option (\<lambda>ttl. mh_monotonic h (mb_monotonic_reads u) + ttl) (terminal_ttl (mb_retention b))"
    using run(2) by (simp add: ef next_deadline_def expires_def expired_only_def)
  have "dget (sm_runs ?st) (id_run ?i) = Some ?r" by (simp add: updated(1))
  moreover have "rr_status ?r = status" "rr_token ?r = None" "rr_end ?r = int (length (sm_messages ?st))"
    using updated(2) by (simp_all add: finished_run_def stream)
  moreover have "rs_status res = Some status" by (simp add: run(1) ef result_of_def)
  ultimately show ?thesis
    using located_before [OF run(2) at(1)] at(3) live stored owned(2,3) status updated(2,3) expires
    by (intro exI [of _ st] exI [of _ r] exI [of _ ?st] exI [of _ ?r] exI [of _ requested]
        exI [of _ "mb_monotonic_reads u"]) simp
qed

theorem finish_settles_witness:
  "\<exists>st' r'. sample_stream (sample_commit sample_finish msg_cancelling) = Some st' \<and>
     dget (sm_runs st') ''r'' = Some r' \<and> rr_status r' = RUN_FAILED \<and> sm_expires st' \<noteq> None"
proof -
  have "(case fst (commit_transition msg_sample_host sample_finish msg_cancelling) of Inr _ \<Rightarrow> True | _ \<Rightarrow> False)"
    "map_option (\<lambda>st. map_option rr_status (dget (sm_runs st) ''r'')) (sample_stream msg_cancelling) =
       Some (Some RUN_CANCEL_REQUESTED)" "mb_retention msg_cancelling = sample_retention" by code_simp+
  then obtain res b' st r where run: "commit_transition msg_sample_host sample_finish msg_cancelling = (Inr res, b')"
    and st: "sample_stream msg_cancelling = Some st" "dget (sm_runs st) ''r'' = Some r" "rr_status r = RUN_CANCEL_REQUESTED"
    and ttl: "terminal_ttl (mb_retention msg_cancelling) = Some minute"
    by (cases "commit_transition msg_sample_host sample_finish msg_cancelling")
      (auto simp: sample_retention_def split: sum.splits)
  show ?thesis
    using finish_settles [OF msg_sample_init msg_sample_reached(4) sample_tn_simps(12) run] st ttl
    by (auto simp: run)
qed

end
