(* ===== verification/Msg_Append_Props.thy ===== *)
theory Msg_Append_Props
  imports Msg_Memory_Props
begin

text \<open>
  What appending, publishing and preparing give: a message is committed once under its
  identifier, and a run is started once for its request.
\<close>

section \<open>The outcome of an append\<close>

text \<open>The envelope that a stream keeps for the identifier of a transition has its digest.\<close>

definition keeps_commit :: "msg_host \<Rightarrow> msg_transition \<Rightarrow> message_envelope \<Rightarrow> stream_state \<Rightarrow> bool" where
  "keeps_commit h tn m st \<longleftrightarrow> tn_message_id tn = Some (me_message_id m) \<and> m \<in> set (sm_messages st) \<and>
     (\<exists>codec payload cp. tn_codec tn = Some codec \<and> tn_payload tn = Some payload \<and>
        dget (sm_signatures st) (me_message_id m) = Some (id_run (me_identity m), me_codec m, me_payload m, cp) \<and>
        mh_sha256 h (signature_bytes (me_identity m) (me_codec m) (me_payload m) cp) =
          mh_sha256 h (signature_bytes (tn_identity tn) codec payload (tn_checkpoint tn)))"

lemma signature_bytes_run: "id_run i = id_run j \<Longrightarrow> signature_bytes i codec payload cp = signature_bytes j codec payload cp"
  by (simp add: signature_bytes_def signature_values_def)

lemma message_signature_Inr:
  "message_signature sha i codec payload cp = Inr s \<Longrightarrow> s = sha (signature_bytes i codec payload cp)"
  by (simp add: message_signature_def require_Inr)

lemma matching_message_Some:
  assumes "log_ok st" and "matching_message h i st (Some x) = Inr (Some ev)"
  shows "ev_envelope ev \<in> set (sm_messages st) \<and> me_message_id (ev_envelope ev) = x \<and>
    (\<exists>cp. dget (sm_signatures st) x = Some (id_run (me_identity (ev_envelope ev)), me_codec (ev_envelope ev),
        me_payload (ev_envelope ev), cp) \<and>
      ev_signature ev = mh_sha256 h (signature_bytes (me_identity (ev_envelope ev)) (me_codec (ev_envelope ev))
        (me_payload (ev_envelope ev)) cp))"
proof -
  obtain m where m: "dget (sm_by_id st) x = Some m"
    using assms(2) by (auto simp: matching_message_def split: option.splits)
  then have known: "m \<in> set (sm_messages st)" "me_message_id m = x" using assms(1) by (simp_all add: log_ok_def)
  then obtain cp where cp: "dget (sm_signatures st) x = Some (id_run (me_identity m), me_codec m, me_payload m, cp)"
    using assms(1) by (auto simp: log_ok_def)
  then obtain s where s: "message_signature (mh_sha256 h)
      \<lparr>id_namespace = id_namespace i, id_thread = id_thread i, id_run = id_run (me_identity m)\<rparr>
      (me_codec m) (me_payload m) cp = Inr s"
    "ev = \<lparr>ev_envelope = m, ev_signature = s, ev_checkpoint = cp\<rparr>"
    using assms(2) m by (auto simp: matching_message_def attempt_Inr)
  have "s = mh_sha256 h (signature_bytes (me_identity m) (me_codec m) (me_payload m) cp)"
    by (subst message_signature_Inr [OF s(1)], subst signature_bytes_run [of _ "me_identity m"]) simp_all
  then show ?thesis using known cp s(2) by simp
qed

text \<open>An effect that changes nothing leaves the stream it found.\<close>

lemma idle_end:
  assumes "commit_end h tn u sn ef b'" and "idle ef" and "tn_kind tn \<noteq> FINISH_CLEANUP"
    and "located h u (tn_channel tn) (tn_identity tn) c st"
  shows "stream_at (tn_channel tn) (mh_thread_key h (tn_identity tn)) b' = Some st"
proof (cases "b' = u")
  case True
  then show ?thesis using assms(4) by (auto simp: located_def)
next
  case False
  then have "stored h (tn_channel tn) (tn_identity tn) ef u b'" using assms(1,3) by (auto simp: commit_end_def)
  moreover have "effect_stream (channel_at (tn_channel tn) u) (mh_thread_key h (tn_identity tn)) ef = Some st"
    using assms(2,4) by (simp add: effect_stream_def idle_def located_def)
  moreover have "effect_capacity (channel_at (tn_channel tn) u) (mh_thread_key h (tn_identity tn)) ef = (bytes, records, g)
      \<Longrightarrow> bytes = 0 \<and> g = 0" for bytes records g
    using assms(2) by (auto simp: effect_capacity_def Let_def idle_def)
  ultimately show ?thesis using assms(2)
    by (auto simp: stored_def updated_stream_def idle_def next_deadline_def charge_stream_def)
qed

text \<open>What every append found.\<close>

lemma resolve_append_found:
  assumes "resolve_append_message sha tn sn = Inr ef"
  obtains run stream codec x payload reference signature where "sn_target sn = Some run" "sn_stream sn = Some stream"
    "ss_disposition stream = STREAM_ACTIVE" "tn_codec tn = Some codec" "tn_message_id tn = Some x"
    "tn_payload tn = Some payload" "tn_reference tn = Some reference" "rf_generation reference = ss_generation stream"
    "message_channel_error codec sn = None"
    "message_signature sha (tn_identity tn) codec payload (tn_checkpoint tn) = Inr signature"
proof -
  obtain run stream reference codec x payload signature where
    *: "(if tn_kind tn = PUBLISH_MESSAGE then publication_reference tn sn else owned_run tn sn) = Inr (run, stream, reference)"
    "tn_codec tn = Some codec" "tn_message_id tn = Some x" "tn_payload tn = Some payload" "message_channel_error codec sn = None"
    "message_signature sha (tn_identity tn) codec payload (tn_checkpoint tn) = Inr signature"
    using assms unfolding resolve_append_message_def by (auto simp: attempt_Inr require_Inr Let_def required_Inr)
  then have "sn_target sn = Some run" "sn_stream sn = Some stream" "ss_disposition stream = STREAM_ACTIVE"
    "tn_reference tn = Some reference" "rf_generation reference = ss_generation stream"
    by (auto simp: owned_evidence_def split: if_splits dest!: owned_run_Inr publication_reference_Inr)
  then show thesis using that * by blast
qed

text \<open>The stream before and after, and what a new message adds.\<close>

definition appended :: "msg_transition \<Rightarrow> message_envelope \<Rightarrow> stream_state \<Rightarrow> stream_state \<Rightarrow> bool" where
  "appended tn m st st' \<longleftrightarrow>
     me_message_id m \<notin> me_message_id ` set (sm_messages st) \<and> sm_messages st' = sm_messages st @ [m] \<and>
     me_channel m = tn_channel tn \<and> me_identity m = tn_identity tn \<and> me_seq m = int (length (sm_messages st')) \<and>
     tn_codec tn = Some (me_codec m) \<and> tn_payload tn = Some (me_payload m) \<and>
     dget (sm_signatures st') (me_message_id m) =
       Some (id_run (tn_identity tn), me_codec m, me_payload m, tn_checkpoint tn)"

lemma append_outcome:
  assumes inv: "msg_inv h b" and kind: "tn_kind tn \<in> {APPEND_MESSAGE, PUBLISH_MESSAGE}"
    and run: "commit_transition h tn b = (Inr res, b')"
  obtains st st' m r where
    "stream_at (tn_channel tn) (mh_thread_key h (tn_identity tn)) b = Some st"
    "stream_at (tn_channel tn) (mh_thread_key h (tn_identity tn)) b' = Some st'"
    "sm_disposition st = STREAM_ACTIVE" "sm_disposition st' = STREAM_ACTIVE" "sm_generation st' = sm_generation st"
    "dget (sm_runs st) (id_run (tn_identity tn)) = Some r" "dget (sm_runs st') (id_run (tn_identity tn)) \<noteq> None"
    "rs_envelope res = Some m" "keeps_commit h tn m st'" "st' = st \<or> appended tn m st st'"
    "map_option rf_generation (tn_reference tn) = Some (sm_generation st)"
proof -
  let ?k = "tn_channel tn" and ?i = "tn_identity tn"
  have ok: "transition_ok tn" using kind by (auto simp: transition_ok_def)
  obtain u sn ef where gone: "res = ef_result ef" "expires h b u" "commit_end h tn u sn ef b'"
    using inv ok run by (cases rule: commit_outcome) auto
  have com: "committed h tn u sn" and resolved: "resolve_append_message (mh_sha256 h) tn sn = Inr ef"
    using kind gone(3) by (auto simp: commit_end_def resolve_transition_def require_Inr)
  have clean: "tn_kind tn \<noteq> FINISH_CLEANUP" using kind by auto
  obtain found stream codec x payload reference where at: "sn_target sn = Some found" "sn_stream sn = Some stream"
    "ss_disposition stream = STREAM_ACTIVE" "tn_codec tn = Some codec" "tn_message_id tn = Some x" "tn_payload tn = Some payload" "tn_reference tn = Some reference" "rf_generation reference = ss_generation stream"
    using resolve_append_found [OF resolved] by metis
  obtain c st where loc: "located h u ?k ?i c st" "stream = memory_stream ?k ?i st"
    "map_option (\<lambda>r. stored_memory_run r (sm_generation st)) (dget (sm_runs st) (id_run ?i)) = Some found"
    "matching_message h ?i st (Some x) = Inr (sn_message sn)"
    using committed_stream [OF com at(2)] at(1,5) by metis
  obtain r where r: "dget (sm_runs st) (id_run ?i) = Some r" "found = stored_memory_run r (sm_generation st)"
    using loc(3) by auto
  have identity: "rr_identity r = ?i" using known_identity [OF loc(1) r(1)] .
  have active: "sm_disposition st = STREAM_ACTIVE" using at(3) loc(2) by simp
  have log: "log_ok st" using located_ok [OF loc(1)] by (simp add: stream_ok_def)
  have generation: "map_option rf_generation (tn_reference tn) = Some (sm_generation st)"
    using at(7,8) loc(2) by simp
  note before = located_before [OF gone(2) loc(1)]
  from resolved show thesis
  proof (cases rule: resolve_append_cases)
    case (known run existing signature)
    have after: "stream_at ?k (mh_thread_key h ?i) b' = Some st"
      by (rule idle_end [OF gone(3) _ clean loc(1)]) (simp add: known(5))
    have sig: "signature = mh_sha256 h (signature_bytes ?i codec payload (tn_checkpoint tn))"
      using message_signature_Inr [OF known(3)] at(4,6) by simp
    have "matching_message h ?i st (Some x) = Inr (Some existing)" using loc(4) known(2) by simp
    from matching_message_Some [OF log this]
    have "keeps_commit h tn (ev_envelope existing) st"
      using at(4-6) known(4) sig unfolding keeps_commit_def by auto
    then show thesis using that [OF before after active active refl r(1)] r(1) gone(1) known(5) generation by simp
  next
    case (new run stream' reference codec_id message_id payload' signature)
    let ?m = "\<lparr>me_channel = ?k, me_identity = ?i, me_seq = ss_latest stream + 1, me_message_id = x, me_codec = codec,
      me_payload = payload, me_created_at = sn_observed_at sn\<rparr>"
    have same: "run = found" "stream' = stream" "codec_id = codec" "message_id = x" "payload' = payload"
      using new(1,2,4-6) at by simp_all
    note ef = new(19) [unfolded same append_new_def Let_def]
    have gen: "case ef_stream ef of None \<Rightarrow> True | Some s \<Rightarrow> ss_generation s = sm_generation st"
      by (simp add: ef loc(2))
    have "\<not> idle ef" by (simp add: ef idle_def)
    then obtain bytes records where after: "stream_at ?k (mh_thread_key h ?i) b' =
        Some ((updated_stream ?i ef bytes records st)\<lparr>sm_expires := next_deadline h ef (sm_expires st) u\<rparr>)"
      using stored_located [OF loc(1) committed_end_stored [OF gone(3) _ clean] gen] by auto
    let ?st = "(updated_stream ?i ef bytes records st)\<lparr>sm_expires := next_deadline h ef (sm_expires st) u\<rparr>"
    have fresh: "dget (sm_by_id st) x = None"
    proof (rule ccontr)
      assume "dget (sm_by_id st) x \<noteq> None"
      then obtain m where m: "dget (sm_by_id st) x = Some m" by auto
      then have "m \<in> set (sm_messages st) \<and> me_message_id m = x" using log by (simp add: log_ok_def)
      then obtain s where "dget (sm_signatures st) x = Some s" using log by (auto simp: log_ok_def)
      then show False using m loc(4) new(7) by (cases s) (auto simp: matching_message_def attempt_Inr)
    qed
    then have missing: "x \<notin> me_message_id ` set (sm_messages st)" using log by (auto simp: log_ok_def)
    have updated: "sm_messages ?st = sm_messages st @ [?m]" "sm_disposition ?st = STREAM_ACTIVE"
      "sm_generation ?st = sm_generation st" "dget (sm_runs ?st) (id_run ?i) \<noteq> None"
      "dget (sm_signatures ?st) x = Some (id_run ?i, codec, payload, tn_checkpoint tn)"
      using fresh active loc(2) r identity
      by (simp_all add: ef updated_stream_def apply_message_def apply_run_def apply_stream_def charge_stream_def Let_def)
    have "appended tn ?m st ?st"
      using missing updated at(4,6) loc(2) by (simp add: appended_def)
    moreover have "keeps_commit h tn ?m ?st"
      using updated at(4-6) by (simp add: keeps_commit_def)
    moreover have "rs_envelope res = Some ?m" by (simp add: gone(1) ef)
    ultimately show thesis using that [OF before after active updated(2,3) r(1) updated(4)] generation by blast
  qed
qed

text \<open>
  C25. An append or a publication that succeeds commits its message exactly once: either the
  message is the next one of the log, with the identifier, the codec, the payload and the
  checkpoint of the request, and nothing else is added; or the identifier was committed before,
  nothing changes, and the known message is returned, whose digest is that of the request.
\<close>

theorem append_commits:
  assumes "msg_init h b0" and "(msg_step h)\<^sup>*\<^sup>* b0 b" and "tn_kind tn \<in> {APPEND_MESSAGE, PUBLISH_MESSAGE}"
    and "commit_transition h tn b = (Inr res, b')"
  shows "\<exists>st st' m. stream_at (tn_channel tn) (mh_thread_key h (tn_identity tn)) b = Some st \<and>
    stream_at (tn_channel tn) (mh_thread_key h (tn_identity tn)) b' = Some st' \<and>
    sm_generation st' = sm_generation st \<and> rs_envelope res = Some m \<and> keeps_commit h tn m st' \<and>
    (st' = st \<or> appended tn m st st')"
  by (rule append_outcome [OF reachable_inv [OF assms(1,2)] assms(3,4)]) (intro exI conjI; assumption)

theorem append_commits_witness:
  "\<exists>st st' m. sample_stream msg_first = Some st \<and> sample_stream msg_second = Some st' \<and>
     appended (sample_append ''m2'' ''cde'') m st st' \<and> me_payload m = ''cde'' \<and> me_seq m = 2"
proof -
  have "(case fst (commit_transition msg_sample_host (sample_append ''m2'' ''cde'') msg_first) of Inr _ \<Rightarrow> True | _ \<Rightarrow> False)"
    "map_option (\<lambda>st. length (sm_messages st)) (sample_stream msg_second) = Some 2"
    "map_option (\<lambda>st. length (sm_messages st)) (sample_stream msg_first) = Some 1" by code_simp+
  then obtain res st st' where run: "commit_transition msg_sample_host (sample_append ''m2'' ''cde'') msg_first = (Inr res, msg_second)"
    and at: "sample_stream msg_second = Some st'" "sample_stream msg_first = Some st" "length (sm_messages st') = 2"
      "length (sm_messages st) = 1"
    by (cases "commit_transition msg_sample_host (sample_append ''m2'' ''cde'') msg_first")
      (auto simp: msg_second_def split: sum.splits)
  obtain m where "st' = st \<or> appended (sample_append ''m2'' ''cde'') m st st'"
    using append_commits [OF msg_sample_init msg_sample_reached(2) _ run] at by auto
  then have "appended (sample_append ''m2'' ''cde'') m st st'" using at by auto
  then show ?thesis using at by (auto simp: appended_def)
qed

section \<open>Publishing again\<close>

text \<open>The tests of a publication that do not depend on the snapshot were passed before.\<close>

lemma publication_again:
  assumes "resolve_append_message sha tn sn = Inr ef" and "tn_kind tn = PUBLISH_MESSAGE"
    and "sn_target sn' = Some run" and "sn_stream sn' = Some stream" and "ss_disposition stream = STREAM_ACTIVE"
    and "tn_reference tn = Some reference" and "rf_generation reference = ss_generation stream"
    and "sn_channel sn' = Some channel" and "tn_codec tn = Some (sc_codec channel)"
    and "sn_message sn' = Some ev"
    and "message_signature sha (tn_identity tn) (sc_codec channel) (the (tn_payload tn)) (tn_checkpoint tn) =
      Inr (ev_signature ev)"
  shows "resolve_append_message sha tn sn' = Inr (effect_of ((result_of PUBLISH_MESSAGE)
    \<lparr>rs_envelope := Some (ev_envelope ev), rs_status := Some (sr_status run)\<rparr>))"
proof -
  obtain a b c where "publication_reference tn sn = Inr (a, b, c)"
    using assms(1,2) by (auto simp: resolve_append_message_def attempt_Inr)
  from publication_reference_Inr [OF this] have "tn_checkpoint tn = None" "\<not> tn_closes tn" by blast+
  then have again: "publication_reference tn sn' = Inr (run, stream, reference)"
    using assms(3-7) by (simp add: publication_reference_def required_target_run_def required_stream_def attempt_def)
  obtain x payload where texts: "required_text ''codec_id'' (tn_codec tn) = Inr (sc_codec channel)"
    "required_text ''message_id'' (tn_message_id tn) = Inr x" "required_payload tn = Inr payload"
    "checkpoint_error (tn_checkpoint tn) x = None"
    "quota (max_message_payload_bytes (bs_limits (tn_settings tn)) < int (length payload))
        ''message_payload_bytes'' (max_message_payload_bytes (bs_limits (tn_settings tn))) = None"
    "checkpoint_quota (tn_checkpoint tn) (bs_limits (tn_settings tn)) = None"
    using assms(1,9) unfolding resolve_append_message_def
    by (auto simp: attempt_Inr require_Inr Let_def required_Inr)
  then have "tn_payload tn = Some payload" by (simp add: required_Inr)
  then have signature: "message_signature sha (tn_identity tn) (sc_codec channel) payload (tn_checkpoint tn) = Inr (ev_signature ev)"
    using assms(11) by simp
  have channel: "message_channel_error (sc_codec channel) sn' = None"
    using assms(8) by (simp add: message_channel_error_def)
  show ?thesis
    unfolding resolve_append_message_def if_P [OF assms(2)] again texts attempt_simps prod.case Let_def require_simps
      channel signature assms(10) option.case by (simp add: assms(2))
qed

text \<open>A commit whose message the stream keeps finds it there.\<close>

lemma matching_kept:
  assumes "log_ok st" and "keeps_commit h tn m st" and "required_identity (tn_identity tn) = None"
    and "tn_codec tn = Some codec" and "tn_payload tn = Some payload"
  shows "\<exists>ev. matching_message h (tn_identity tn) st (tn_message_id tn) = Inr (Some ev) \<and> ev_envelope ev = m \<and>
    ev_signature ev = mh_sha256 h (signature_bytes (tn_identity tn) codec payload (tn_checkpoint tn))"
proof -
  let ?x = "me_message_id m"
  let ?j = "\<lparr>id_namespace = id_namespace (tn_identity tn), id_thread = id_thread (tn_identity tn), id_run = id_run (me_identity m)\<rparr>"
  obtain cp where kept: "tn_message_id tn = Some ?x" "m \<in> set (sm_messages st)"
    "dget (sm_signatures st) ?x = Some (id_run (me_identity m), me_codec m, me_payload m, cp)"
    "mh_sha256 h (signature_bytes (me_identity m) (me_codec m) (me_payload m) cp) =
       mh_sha256 h (signature_bytes (tn_identity tn) codec payload (tn_checkpoint tn))"
    using assms(2,4,5) by (auto simp: keeps_commit_def)
  have known: "dget (sm_by_id st) ?x = Some m" "signable m" using assms(1) kept(2) by (simp_all add: log_ok_def)
  have "signature_bytes ?j (me_codec m) (me_payload m) cp = signature_bytes (me_identity m) (me_codec m) (me_payload m) cp"
    by (rule signature_bytes_run) simp
  moreover have "required_identity ?j = None"
    using assms(3) known(2) by (auto simp: required_identity_def signable_def split: option.splits)
  ultimately have "message_signature (mh_sha256 h) ?j (me_codec m) (me_payload m) cp =
      Inr (mh_sha256 h (signature_bytes (tn_identity tn) codec payload (tn_checkpoint tn)))"
    using kept(4) known(2) by (simp add: message_signature_def signable_def)
  then show ?thesis using kept(1,3) known(1) by (simp add: matching_message_def)
qed

text \<open>
  The publication that succeeded can be resolved again on any later open state of its
  generation.
\<close>

lemma publication_known:
  assumes first: "committed h tn u sn" "resolve_append_message (mh_sha256 h) tn sn = Inr ef" "tn_kind tn = PUBLISH_MESSAGE"
    and identity: "required_identity (tn_identity tn) = None"
    and now: "committed h tn b sn'" "stream_at (tn_channel tn) (mh_thread_key h (tn_identity tn)) b = Some st"
      "sm_disposition st = STREAM_ACTIVE" "map_option rf_generation (tn_reference tn) = Some (sm_generation st)"
    and kept: "keeps_commit h tn m st" "dget (sm_runs st) (id_run (tn_identity tn)) = Some r"
      "ch_codec (channel_at (tn_channel tn) b) = ch_codec (channel_at (tn_channel tn) u)"
  shows "\<exists>result. resolve_append_message (mh_sha256 h) tn sn' = Inr (effect_of result)"
proof -
  let ?k = "tn_channel tn" and ?i = "tn_identity tn"
  obtain codec payload signature where found: "tn_codec tn = Some codec" "tn_payload tn = Some payload"
    "message_channel_error codec sn = None" "message_signature (mh_sha256 h) ?i codec payload (tn_checkpoint tn) = Inr signature"
    using resolve_append_found [OF first(2)] by metis
  obtain reference where reference: "tn_reference tn = Some reference" "rf_generation reference = sm_generation st"
    using now(4) by auto
  obtain channel where "sn_channel sn = Some channel" "sc_codec channel = codec"
    using found(3) by (auto simp: message_channel_error_def split: option.splits if_splits)
  moreover have "sn_channel sn = snapshot_channel u (channel_at ?k u) ?k" "sn_channel sn' = snapshot_channel b (channel_at ?k b) ?k"
    using first(1) now(1) by (simp_all add: committed_def snapshot_of_def Let_def)
  ultimately obtain channel' where channel: "sn_channel sn' = Some channel'" "sc_codec channel' = codec"
    using kept(3) by (auto simp: snapshot_channel_def)
  have inv: "backend_inv h b" using now(1) by (simp add: committed_def)
  obtain c where c: "dget (mb_channels b) ?k = Some c" "dget (ch_streams c) (mh_thread_key h ?i) = Some st"
    using stream_at_known [OF now(2)] by blast
  then have log: "log_ok st" using backend_inv_channel [OF inv] channel_ok_stream unfolding stream_ok_def by blast
  obtain ev where ev: "matching_message h ?i st (tn_message_id tn) = Inr (Some ev)"
    "ev_signature ev = mh_sha256 h (signature_bytes ?i codec payload (tn_checkpoint tn))"
    using matching_kept [OF log kept(1) identity found(1,2)] by blast
  have "selected_generation tn = Some (sm_generation st)"
    using first(3) reference by (simp add: selected_generation_def)
  then have "selected_stream (dget (ch_streams (channel_at ?k b)) (mh_thread_key h ?i)) (selected_generation tn) = Some st"
    using c by (simp add: selected_stream_def)
  then have sn': "sn_stream sn' = Some (memory_stream ?k ?i st)"
    "sn_target sn' = Some (stored_memory_run r (sm_generation st))" "sn_message sn' = Some ev"
    using now(1) ev(1) kept(2) by (simp_all add: committed_def snapshot_of_def Let_def)
  have "message_signature (mh_sha256 h) ?i (sc_codec channel') (the (tn_payload tn)) (tn_checkpoint tn) = Inr (ev_signature ev)"
    using found(2,4) channel(2) ev(2) message_signature_Inr [OF found(4)] by simp
  then show ?thesis
    using publication_again [OF first(2,3) sn'(2,1) _ reference(1) _ channel(1) _ sn'(3)] now(3) reference(2) channel(2) found(1)
    by auto
qed

text \<open>
  A publication may be repeated: as long as its generation is open, and even when its run
  has ended meanwhile, the same publication succeeds again with the message it committed first
  and changes nothing.
\<close>

theorem publish_repeats:
  assumes "msg_init h b0" and "(msg_step h)\<^sup>*\<^sup>* b0 b" and "tn_kind tn = PUBLISH_MESSAGE"
    and "commit_transition h tn b = (Inr res, b1)" and "(msg_step h)\<^sup>*\<^sup>* b1 b2"
    and "commit_transition h tn b2 = (out, b3)"
    and "stream_at (tn_channel tn) (mh_thread_key h (tn_identity tn)) b3 = Some st" and "sm_disposition st = STREAM_ACTIVE"
    and "map_option rf_generation (tn_reference tn) = Some (sm_generation st)"
  shows "\<exists>res'. out = Inr res' \<and> rs_envelope res' = rs_envelope res \<and> rs_envelope res \<noteq> None \<and>
    stream_at (tn_channel tn) (mh_thread_key h (tn_identity tn)) b2 = Some st"
proof -
  let ?k = "tn_channel tn" and ?i = "tn_identity tn"
  let ?t = "mh_thread_key h ?i"
  have kind: "tn_kind tn \<in> {APPEND_MESSAGE, PUBLISH_MESSAGE}" "transition_ok tn" using assms(3) by (simp_all add: transition_ok_def)
  have step: "msg_step h b b1" "msg_step h b2 b3"
    by (rule msg_step.commit [OF kind(2) assms(4)], rule msg_step.commit [OF kind(2) assms(6)])
  have inv: "msg_inv h b" by (rule reachable_inv [OF assms(1,2)])
  have one: "msg_inv h b1" "later b b1" using later_steps [OF r_into_rtranclp [of "msg_step h", OF step(1)] inv] by blast+
  have two: "msg_inv h b2" "later b1 b2" using later_steps [OF assms(5) one(1)] by blast+
  have three: "msg_inv h b3" "later b2 b3" using later_steps [OF r_into_rtranclp [of "msg_step h", OF step(2)] two(1)] by blast+
  obtain st0 st1 m r0 where o1: "stream_at ?k ?t b = Some st0" "stream_at ?k ?t b1 = Some st1"
    "sm_disposition st0 = STREAM_ACTIVE" "sm_disposition st1 = STREAM_ACTIVE" "sm_generation st1 = sm_generation st0"
    "dget (sm_runs st0) (id_run ?i) = Some r0" "dget (sm_runs st1) (id_run ?i) \<noteq> None"
    "rs_envelope res = Some m" "keeps_commit h tn m st1" "st1 = st0 \<or> appended tn m st0 st1"
    "map_option rf_generation (tn_reference tn) = Some (sm_generation st0)"
    by (rule append_outcome [OF inv kind(1) assms(4)])
  have gen: "sm_generation st1 = sm_generation st" using o1(5,11) assms(9) by simp
  note st1 = o1(1,2,4) gen o1(7-9)
  have same: "same_generation st1 s" if "later b1 c" "msg_inv h c" "stream_at ?k ?t c = Some s" "sm_generation s = sm_generation st" for c s
    using live_same [OF that(1,2) st1(2) that(3)] that(4) st1(4) by simp
  have keep: "keeps_commit h tn m s" "m \<in> set (sm_messages s)" "dget (sm_runs s) (id_run ?i) \<noteq> None"
    if "same_generation st1 s" "sm_disposition s = STREAM_ACTIVE" for s
    using that st1(5,7) unfolding same_generation_def keeps_commit_def by fastforce+
  have now: "same_generation st1 st" by (rule same [OF later_trans [OF two(2) three(2)] three(1) assms(7) refl])
  have log: "log_ok st" using inv_stream [OF three(1) assms(7)] by (simp add: stream_ok_def)
  from two(1) kind(2) assms(6) show ?thesis
  proof (cases rule: commit_outcome)
    case (failed e)
    obtain u sn ef where first: "expires h b u" "committed h tn u sn" "resolve_transition (mh_sha256 h) tn sn = Inr ef"
      using inv kind(2) assms(4) by (cases rule: commit_outcome) (auto simp: commit_end_def)
    then have append: "resolve_append_message (mh_sha256 h) tn sn = Inr ef" "validate_transition_identity tn = None"
      using assms(3) by (simp_all add: resolve_transition_def require_Inr)
    then have identity: "required_identity ?i = None"
      by (auto simp: validate_transition_identity_def split: option.splits)
    obtain codec payload where found: "tn_codec tn = Some codec" "tn_payload tn = Some payload"
      using resolve_append_found [OF append(1)] by metis
    have matching: "matching_message h ?i st (tn_message_id tn) \<noteq> Inl e"
      using matching_kept [OF log keep(1) [OF now assms(8)] identity found] by auto
    obtain c0 where c0: "dget (mb_channels b) ?k = Some c0" using stream_at_known [OF st1(1)] by blast
    have "later b b3" using one(2) two(2) three(2) later_trans by blast
    then obtain c3 where "dget (mb_channels b3) ?k = Some c3" "ch_codec c3 = ch_codec c0" using c0 unfolding later_def by blast
    then have codec: "ch_codec (channel_at ?k b3) = ch_codec (channel_at ?k u)"
      using first(1) c0 by (simp add: expires_def expired_only_def)
    obtain r where r: "dget (sm_runs st) (id_run ?i) = Some r" using keep(3) [OF now assms(8)] by auto
    have "\<exists>result. resolve_append_message (mh_sha256 h) tn sn' = Inr (effect_of result)" if "committed h tn b3 sn'" for sn'
      by (rule publication_known [OF first(2) append(1) assms(3) identity that assms(7,8,9) keep(1) [OF now assms(8)] r codec])
    then have "\<exists>result. resolve_transition (mh_sha256 h) tn sn' = Inr (effect_of result)" if "committed h tn b3 sn'" for sn'
      using that assms(3) append(2) by (simp add: resolve_transition_def)
    then have False using failed(3) matching assms(7) unfolding commit_error_def by fastforce
    then show ?thesis by blast
  next
    case (finished u sn ef)
    have run: "commit_transition h tn b2 = (Inr (ef_result ef), b3)" using assms(6) finished(1) by simp
    obtain st2 st3 m' r2 where o2: "stream_at ?k ?t b2 = Some st2" "stream_at ?k ?t b3 = Some st3"
      "sm_disposition st2 = STREAM_ACTIVE" "sm_disposition st3 = STREAM_ACTIVE" "sm_generation st3 = sm_generation st2"
      "dget (sm_runs st2) (id_run ?i) = Some r2" "dget (sm_runs st3) (id_run ?i) \<noteq> None"
      "rs_envelope (ef_result ef) = Some m'" "keeps_commit h tn m' st3" "st3 = st2 \<or> appended tn m' st2 st3"
      "map_option rf_generation (tn_reference tn) = Some (sm_generation st2)"
      by (rule append_outcome [OF two(1) kind(1) run])
    have "st3 = st" using o2(2) assms(7) by simp
    then have st2: "stream_at ?k ?t b2 = Some st2" "sm_disposition st2 = STREAM_ACTIVE" "sm_generation st2 = sm_generation st"
      "rs_envelope (ef_result ef) = Some m'" "keeps_commit h tn m' st" "st = st2 \<or> appended tn m' st2 st"
      using o2(1,3,5,8-10) by simp_all
    have known: "m \<in> set (sm_messages st2)" by (rule keep(2) [OF same [OF two(2,1) st2(1,3)] st2(2)])
    have "me_message_id m' = me_message_id m" using st2(5) st1(7) by (simp add: keeps_commit_def)
    moreover from this have "st = st2" using st2(6) known by (auto simp: appended_def)
    ultimately have "m' = m"
      using log known st2(5) unfolding log_ok_def keeps_commit_def by (metis option.inject)
    then show ?thesis using finished(1) st2(1,4) st1(6) \<open>st = st2\<close> by simp
  qed
qed

definition msg_published :: memory_backend where "msg_published = sample_commit (sample_publish ''m3'' ''z'') msg_second"
definition msg_closed :: memory_backend where "msg_closed = sample_commit sample_finish msg_published"

theorem publish_repeats_witness:
  "\<exists>res'. fst (commit_transition msg_sample_host (sample_publish ''m3'' ''z'') msg_closed) = Inr res' \<and>
     map_option me_seq (rs_envelope res') = Some 3 \<and>
     map_option (\<lambda>st. map_option rr_status (dget (sm_runs st) ''r'')) (sample_stream msg_closed) = Some (Some RUN_COMPLETED)"
proof -
  let ?tn = "sample_publish ''m3'' ''z''"
  have facts: "(case fst (commit_transition msg_sample_host ?tn msg_second) of Inr res \<Rightarrow> map_option me_seq (rs_envelope res) | _ \<Rightarrow> None) = Some 3"
    "map_option (\<lambda>st. (sm_disposition st, sm_generation st)) (sample_stream (sample_commit ?tn msg_closed)) = Some (STREAM_ACTIVE, 1)"
    "map_option (\<lambda>st. map_option rr_status (dget (sm_runs st) ''r'')) (sample_stream msg_closed) = Some (Some RUN_COMPLETED)"
    by code_simp+
  obtain out b1 where first: "commit_transition msg_sample_host ?tn msg_second = (out, b1)" by fastforce
  then have "b1 = msg_published" by (simp add: msg_published_def)
  moreover obtain res where res: "out = Inr res" "map_option me_seq (rs_envelope res) = Some 3"
    using facts(1) first by (cases out) simp_all
  ultimately have run: "commit_transition msg_sample_host ?tn msg_second = (Inr res, msg_published)" using first by simp
  have "msg_step msg_sample_host msg_published msg_closed" unfolding msg_closed_def by (rule sample_commit_step) simp
  note steps = r_into_rtranclp [of "msg_step msg_sample_host", OF this]
  obtain st where st: "sample_stream (sample_commit ?tn msg_closed) = Some st" "sm_disposition st = STREAM_ACTIVE" "sm_generation st = 1"
    using facts(2) by auto
  obtain res' where "fst (commit_transition msg_sample_host ?tn msg_closed) = Inr res'" "rs_envelope res' = rs_envelope res"
    using publish_repeats [OF msg_sample_init msg_sample_reached(3) sample_tn_simps(11) run steps surjective_pairing, of st] st
    by (auto simp: sample_reference_def)
  then show ?thesis using res(2) facts(3) by simp
qed

section \<open>Preparing a run\<close>

lemma prepare_started:
  assumes com: "committed h tn u sn" "tn_kind tn = PREPARE_RUN" "transition_ok tn"
    and start: "prepared_stream tn sn = Inr stream" "sn_target sn = None" "start_run tn sn stream cursor channel = Inr ef"
    and kept: "stored h (tn_channel tn) (tn_identity tn) ef u b'"
  obtains st st' where "stream_at (tn_channel tn) (mh_thread_key h (tn_identity tn)) b' = Some st'"
    "ss_generation stream = sm_generation st'" "ss_latest stream = int (length (sm_messages st'))"
    "sm_disposition st' = STREAM_ACTIVE" "sm_active st' = Some (tn_identity tn)" "sm_expires st' = None"
    "sm_generation st' = sm_generation st" "sm_messages st' = sm_messages st" "dget (sm_runs st) (id_run (tn_identity tn)) = None"
    "sm_active st = None" "sm_runs st' = dset (id_run (tn_identity tn)) (overwrite_run (tn_identity tn) (created_run tn stream)) (sm_runs st)"
    "stream_at (tn_channel tn) (mh_thread_key h (tn_identity tn)) u = Some st \<or>
       st = new_stream_state (sm_generation st) \<and> stream_at (tn_channel tn) (mh_thread_key h (tn_identity tn)) u = None \<and>
       (\<forall>g. dget (tombstones_of (channel_at (tn_channel tn) u) (mh_thread_key h (tn_identity tn))) g \<noteq> None \<longrightarrow> g < sm_generation st)"
proof -
  let ?i = "tn_identity tn" and ?k = "tn_channel tn"
  let ?t = "mh_thread_key h ?i"
  have inv: "backend_inv h u" using com(1) by (simp add: committed_def)
  have taken: "snapshot_of h ?k ?i None (tn_message_id tn) u sn"
    using com by (simp add: committed_def selected_generation_def transition_ok_def)
  have "sn_active sn = None"
    using start_run_cases [OF start(3)] committed_active [OF com(1)] by (cases "sn_active sn") auto
  then have ef: "ef_message ef = None" "ef_retention ef = RETENTION_CLEAR" "ef_runs ef = [created_run tn stream]"
    "ef_stream ef = Some (stream\<lparr>ss_next_fence := ss_next_fence stream + 1,
      ss_active_run := Some (id_run ?i), ss_retention_expired := False\<rparr>)"
    using start_run_cases [OF start(3)] by simp_all
  obtain st where st: "effect_stream (channel_at ?k u) ?t ef = Some st" "ss_generation stream = sm_generation st"
    "ss_latest stream = int (length (sm_messages st))" "ss_disposition stream = STREAM_ACTIVE"
    "dget (sm_runs st) (id_run ?i) = None" "sm_active st = None"
    "stream_at ?k ?t u = Some st \<or> st = new_stream_state (sm_generation st) \<and> stream_at ?k ?t u = None \<and>
       (\<forall>g. dget (tombstones_of (channel_at ?k u) ?t) g \<noteq> None \<longrightarrow> g < sm_generation st)"
  proof (cases "sn_stream sn")
    case (Some found)
    obtain c st where at: "located h u ?k ?i c st" "found = memory_stream ?k ?i st"
      "sn_target sn = map_option (\<lambda>r. stored_memory_run r (sm_generation st)) (dget (sm_runs st) (id_run ?i))"
      "sn_active sn = map_option (\<lambda>r. stored_memory_run r (sm_generation st)) (active_record ?i True st)"
      using committed_stream [OF com(1) Some] by metis
    have "sm_disposition st \<in> {STREAM_ACTIVE, STREAM_DELETING, STREAM_EXPIRING}"
      using located_ok [OF at(1)] by (simp add: stream_ok_def shape_ok_def)
    then have found: "stream = memory_stream ?k ?i st" "sm_disposition st = STREAM_ACTIVE"
      using prepared_stream_Inr [OF start(1)] Some at(2) by auto
    have free: "dget (sm_runs st) (id_run ?i) = None" "sm_active st = None"
      using located_free [OF at(1)] at(3,4) start(2) \<open>sn_active sn = None\<close> by simp_all
    show ?thesis
      by (rule that [of st]) (use at(1) found free ef(4) in \<open>auto simp: effect_stream_def located_def\<close>)
  next
    case None
    let ?st = "new_stream_state (fresh_generation sn)"
    have new: "stream = new_stream tn (fresh_generation sn)" using prepared_stream_Inr [OF start(1)] None by simp
    have absent: "dget (ch_streams (channel_at ?k u)) ?t = None" using snapshot_none [OF taken None] by simp
    have "\<forall>g. dget (tombstones_of (channel_at ?k u) ?t) g \<noteq> None \<longrightarrow> g < fresh_generation sn"
      using fresh_above [OF taken None inv] by blast
    then show ?thesis
      by (intro that [of ?st]) (use new absent ef(4) in
        \<open>auto simp: effect_stream_def new_stream_def new_stream_state_def stream_at_def\<close>)
  qed
  obtain bytes records where after: "stream_at ?k ?t b' =
      Some ((updated_stream ?i ef bytes records st)\<lparr>sm_expires := next_deadline h ef (sm_expires st) u\<rparr>)"
    using kept st(1) unfolding stored_def by auto
  have "\<lparr>id_namespace = id_namespace ?i, id_thread = id_thread ?i, id_run = id_run ?i\<rparr> = ?i" by simp
  then show thesis
    by (intro that [OF after]) (use st(2-6) ef st(7) in
      \<open>simp_all add: updated_stream_def apply_run_def apply_stream_def charge_stream_def Let_def next_deadline_def created_run_def\<close>)
qed

text \<open>
  C26. A preparation that succeeds either attaches or starts, never both. It attaches, without
  an ownership token and without changing the stream, exactly to a known run with the same
  request digest. Otherwise it starts the run: the run is running, it is the active run and
  holds the new token and fence, the retention window is off, and it continues the open
  generation, which had no active run, or starts a generation above all earlier ones.
\<close>

theorem prepare_starts_or_attaches:
  assumes "msg_init h b0" and "(msg_step h)\<^sup>*\<^sup>* b0 b" and "tn_kind tn = PREPARE_RUN" and "tn_reference tn = None"
    and "commit_transition h tn b = (Inr res, b')"
  shows "\<exists>reference st' r. rs_reference res = Some reference \<and>
    stream_at (tn_channel tn) (mh_thread_key h (tn_identity tn)) b' = Some st' \<and> sm_disposition st' = STREAM_ACTIVE \<and>
    rf_generation reference = sm_generation st' \<and>
    dget (sm_runs st') (id_run (tn_identity tn)) = Some r \<and> rr_digest r = tn_request_digest tn \<and>
    (if rs_is_owner res = Some True
     then rf_token reference = Some (tn_id tn) \<and> rr_status r = RUN_RUNNING \<and> rr_token r = Some (tn_id tn) \<and>
       rf_fence reference = Some (rr_fence r) \<and> rr_start r = int (length (sm_messages st')) \<and>
       sm_active st' = Some (tn_identity tn) \<and> sm_expires st' = None \<and>
       ((\<exists>st. stream_at (tn_channel tn) (mh_thread_key h (tn_identity tn)) b = Some st \<and>
           sm_generation st' = sm_generation st \<and> sm_messages st' = sm_messages st \<and> sm_active st = None \<and>
           dget (sm_runs st) (id_run (tn_identity tn)) = None) \<or>
        sm_messages st' = [] \<and> length (sm_runs st') = 1 \<and>
        (\<forall>g. dget (tombstones_of (channel_at (tn_channel tn) b) (mh_thread_key h (tn_identity tn))) g \<noteq> None \<longrightarrow> g < sm_generation st') \<and>
        (\<forall>st. stream_at (tn_channel tn) (mh_thread_key h (tn_identity tn)) b = Some st \<longrightarrow> sm_generation st < sm_generation st'))
     else rs_is_owner res = Some False \<and> rf_token reference = None \<and>
       stream_at (tn_channel tn) (mh_thread_key h (tn_identity tn)) b = Some st')"
proof -
  let ?i = "tn_identity tn" and ?k = "tn_channel tn"
  let ?t = "mh_thread_key h ?i"
  have inv: "msg_inv h b" by (rule reachable_inv [OF assms(1,2)])
  have ok: "transition_ok tn" "tn_kind tn \<noteq> FINISH_CLEANUP" using assms(3,4) by (simp_all add: transition_ok_def)
  obtain u sn ef where gone: "res = ef_result ef" "expires h b u" "commit_end h tn u sn ef b'"
    using inv ok(1) assms(5) by (cases rule: commit_outcome) auto
  have com: "committed h tn u sn" and resolved: "resolve_prepare_run tn sn = Inr ef"
    using assms(3) gone(3) by (auto simp: commit_end_def resolve_transition_def require_Inr)
  have expired: "stream_at ?k ?t u = Some s \<Longrightarrow> stream_at ?k ?t b = Some s"
    "stream_at ?k ?t u = None \<Longrightarrow> stream_at ?k ?t b = Some s \<Longrightarrow>
       dget (tombstones_of (channel_at ?k u) ?t) (sm_generation s) \<noteq> None"
    "dget (tombstones_of (channel_at ?k b) ?t) g \<noteq> None \<Longrightarrow> dget (tombstones_of (channel_at ?k u) ?t) g \<noteq> None" for s g
    using gone(2) unfolding expires_def expired_only_def by fastforce+
  have leased: "sr_lease_active run \<longleftrightarrow> \<not> is_final_run_status (sr_status run)" if "sn_target sn = Some run" for run
    by (rule committed_target [OF com that]) simp
  from resolved show ?thesis
  proof (cases rule: resolve_prepare_cases)
    case (attach stream cursor channel run)
    obtain c st r where at: "located h u ?k ?i c st" "sn_stream sn = Some (memory_stream ?k ?i st)"
      "dget (sm_runs st) (id_run ?i) = Some r" "run = stored_memory_run r (sm_generation st)"
      using committed_target [OF com attach(2)] by metis
    have "sm_disposition st \<in> {STREAM_ACTIVE, STREAM_DELETING, STREAM_EXPIRING}"
      using located_ok [OF at(1)] by (simp add: stream_ok_def shape_ok_def)
    then have stream: "stream = memory_stream ?k ?i st" "sm_disposition st = STREAM_ACTIVE"
      using prepared_stream_Inr [OF attach(1)] at(2) by auto
    have after: "stream_at ?k ?t b' = Some st"
      by (rule idle_end [OF gone(3) _ ok(2) at(1)]) (simp add: attach(6))
    have "rr_digest r = tn_request_digest tn" using attach(5) at(4) by (simp add: stored_memory_run_def)
    then show ?thesis
      using after stream at(3) located_before [OF gone(2) at(1)]
      by (simp add: gone(1) attach(6) attachment_result_def result_of_def)
  next
    case (start stream cursor channel)
    have "\<not> idle ef" using start_run_cases [OF start(4)] by (simp add: idle_def)
    then have kept: "stored h ?k ?i ef u b'" using committed_end_stored [OF gone(3) _ ok(2)] by blast
    obtain st st' where new: "stream_at ?k ?t b' = Some st'" "ss_generation stream = sm_generation st'"
      "ss_latest stream = int (length (sm_messages st'))"
      "sm_disposition st' = STREAM_ACTIVE" "sm_active st' = Some ?i" "sm_expires st' = None"
      "sm_generation st' = sm_generation st" "sm_messages st' = sm_messages st" "dget (sm_runs st) (id_run ?i) = None"
      "sm_active st = None" "sm_runs st' = dset (id_run ?i) (overwrite_run ?i (created_run tn stream)) (sm_runs st)"
      "stream_at ?k ?t u = Some st \<or> st = new_stream_state (sm_generation st) \<and> stream_at ?k ?t u = None \<and>
        (\<forall>g. dget (tombstones_of (channel_at ?k u) ?t) g \<noteq> None \<longrightarrow> g < sm_generation st)"
      by (rule prepare_started [OF com assms(3) ok(1) start(1,2,4) kept])
    let ?r = "overwrite_run ?i (created_run tn stream)"
    have origin: "stream_at ?k ?t b = Some st \<or> sm_messages st' = [] \<and> length (sm_runs st') = 1 \<and>
        (\<forall>g. dget (tombstones_of (channel_at ?k b) ?t) g \<noteq> None \<longrightarrow> g < sm_generation st') \<and>
        (\<forall>s. stream_at ?k ?t b = Some s \<longrightarrow> sm_generation s < sm_generation st')"
      using new(12)
    proof
      assume fresh: "st = new_stream_state (sm_generation st) \<and> stream_at ?k ?t u = None \<and>
        (\<forall>g. dget (tombstones_of (channel_at ?k u) ?t) g \<noteq> None \<longrightarrow> g < sm_generation st)"
      have "sm_messages (new_stream_state g) = []" "sm_runs (new_stream_state g) = []" for g
        by (simp_all add: new_stream_state_def)
      then have "sm_messages st = []" "sm_runs st = []" using fresh by metis+
      then show ?thesis using fresh new(7,8,11) expired(2,3) by auto
    qed (use expired(1) in blast)
    have "dget (sm_runs st') (id_run ?i) = Some ?r" by (simp add: new(11))
    moreover have "rr_digest ?r = tn_request_digest tn" "rr_status ?r = RUN_RUNNING" "rr_token ?r = Some (tn_id tn)"
      "rr_fence ?r = ss_next_fence stream" "rr_start ?r = int (length (sm_messages st'))"
      by (simp_all add: overwrite_run_def created_run_def new(3))
    moreover have "rs_reference res = Some (owner_reference tn stream)" "rs_is_owner res = Some True"
      using start_run_cases [OF start(4)] gone(1) by simp_all
    ultimately show ?thesis
      using new origin by (intro exI [of _ "owner_reference tn stream"] exI [of _ st'] exI [of _ ?r]) (auto simp: owner_reference_def)
  next
    case (lost stream cursor channel run message)
    then show ?thesis using leased by blast
  next
    case (recovered stream cursor channel run)
    then show ?thesis using leased by blast
  qed
qed

theorem prepare_starts_or_attaches_witness:
  "\<exists>st r. sample_stream msg_prepared = Some st \<and> sm_active st = Some sample_identity \<and>
     dget (sm_runs st) ''r'' = Some r \<and> rr_token r = Some ''p1'' \<and>
     sample_stream (sample_commit (sample_prepare ''p9'') msg_prepared) = sample_stream msg_prepared"
proof -
  have owners: "(case fst (commit_transition msg_sample_host (sample_prepare ''p1'') msg_empty) of Inr res \<Rightarrow> rs_is_owner res | _ \<Rightarrow> None) = Some True"
    "(case fst (commit_transition msg_sample_host (sample_prepare ''p9'') msg_prepared) of Inr res \<Rightarrow> rs_is_owner res | _ \<Rightarrow> None) = Some False"
    by code_simp+
  have tn: "tn_reference (sample_prepare i) = None" "tn_id (sample_prepare i) = i" for i
    by (simp_all add: sample_prepare_def sample_transition_def)
  obtain out where one: "commit_transition msg_sample_host (sample_prepare ''p1'') msg_empty = (out, msg_prepared)"
    by (metis msg_prepared_def surjective_pairing)
  then obtain res where first: "commit_transition msg_sample_host (sample_prepare ''p1'') msg_empty = (Inr res, msg_prepared)"
    "rs_is_owner res = Some True"
    using owners(1) by (cases out) simp_all
  obtain out' b where two: "commit_transition msg_sample_host (sample_prepare ''p9'') msg_prepared = (out', b)" by fastforce
  then obtain res' where second: "commit_transition msg_sample_host (sample_prepare ''p9'') msg_prepared = (Inr res', b)"
    "rs_is_owner res' = Some False"
    using owners(2) by (cases out') simp_all
  have "sample_stream b = sample_stream msg_prepared"
    using prepare_starts_or_attaches [OF msg_sample_init msg_sample_reached(1) sample_tn_simps(9) tn(1) second(1)] second(2) by auto
  moreover have "\<exists>st r. sample_stream msg_prepared = Some st \<and> sm_active st = Some sample_identity \<and>
     dget (sm_runs st) ''r'' = Some r \<and> rr_token r = Some ''p1''"
    using prepare_starts_or_attaches [OF msg_sample_init rtranclp.rtrancl_refl sample_tn_simps(9) tn(1) first(1)] first(2)
    by (auto simp: tn)
  ultimately show ?thesis by (simp add: second(1))
qed

end
