(* ===== verification/Sbx_State.thy ===== *)
theory Sbx_State
  imports State_Error Py_Bytes
begin

text \<open>
  Sandbox ownership (\<open>lifecycle/state.py\<close>, \<open>lifecycle/availability.py\<close>,
  \<open>lifecycle/_purpose.py\<close>): which owner holds which remote sandbox, the pool of warm
  sandboxes, the sandboxes to destroy, and the drain of a sandbox before it is paused. Each
  method of \<open>InMemoryOpenSandboxState\<close> is one definition. No method awaits between its
  first test and its last change, except that acquiring an owner and reading its binding wait
  for the owner's lock; these are split where they wait. Slot numbers are list positions.
\<close>

section \<open>Errors\<close>

datatype sandbox_purpose = COMMANDS | WORKSPACES

datatype availability_phase =
  PHASE_RUNNING | PHASE_DRAINING | PHASE_PAUSING | PHASE_PAUSED | PHASE_RESUMING | PHASE_UNCERTAIN

text \<open>Why an ownership error was raised.\<close>

datatype ownership_loss =
    OwnerClaimLost py_str
  | AvailabilityNotCurrent
  | BindingNotRunning
  | HoldersNotIdle
  | AvailabilityNotDraining
  | PhaseNotReachable availability_phase availability_phase
  | WarmSlotLost nat
  | WarmSlotChanged nat
  | CleanupClaimLost py_str

text \<open>
  \<open>SandboxValueError\<close> is Python's \<open>ValueError\<close>; \<open>UnexpectedOpenSandboxStateError\<close> wraps an
  exception that is no \<open>OpenSandboxError\<close>.
\<close>

datatype sandbox_error =
    OpenSandboxStateError py_str
  | OpenSandboxStateConfigurationError py_str
  | OpenSandboxStateOwnershipError ownership_loss
  | OpenSandboxPurposeError "(sandbox_purpose \<times> sandbox_purpose) option"
  | SandboxValueError py_str
  | UnexpectedOpenSandboxStateError py_str sandbox_error

section \<open>Purposes\<close>

definition purpose_text :: "sandbox_purpose \<Rightarrow> py_str" where
  "purpose_text p = (case p of COMMANDS \<Rightarrow> ''commands'' | WORKSPACES \<Rightarrow> ''workspaces'')"

definition validate_purpose :: "py_str option \<Rightarrow> sandbox_error + sandbox_purpose" where
  "validate_purpose value =
     (if value = Some ''commands'' then Inr COMMANDS
      else if value = Some ''workspaces'' then Inr WORKSPACES
      else Inl (OpenSandboxPurposeError None))"

definition require_purpose :: "py_str option \<Rightarrow> sandbox_purpose \<Rightarrow> sandbox_error option" where
  "require_purpose actual expected =
     (case validate_purpose actual of
        Inl e \<Rightarrow> Some e
      | Inr observed \<Rightarrow>
          if observed \<noteq> expected then Some (OpenSandboxPurposeError (Some (expected, observed))) else None)"

definition purpose_metadata_key :: py_str where
  "purpose_metadata_key = ''tinkerfin.ai/purpose''"

definition require_remote_purpose :: "(py_str, py_str) dict option \<Rightarrow> sandbox_purpose \<Rightarrow> sandbox_error option" where
  "require_remote_purpose metadata expected =
     require_purpose (case metadata of None \<Rightarrow> None | Some d \<Rightarrow> dget d purpose_metadata_key) expected"

section \<open>Bindings, claims and availability\<close>

record sandbox_binding =
  bi_sandbox :: py_str
  bi_generation :: int
  bi_purpose :: sandbox_purpose

definition require_binding_purpose :: "sandbox_binding option \<Rightarrow> sandbox_purpose \<Rightarrow> sandbox_error option" where
  "require_binding_purpose binding expected =
     (case binding of None \<Rightarrow> None
      | Some b \<Rightarrow> require_purpose (Some (purpose_text (bi_purpose b))) expected)"

record owner_claim =
  oc_key :: py_str
  oc_digest :: py_str
  oc_token :: py_str
  oc_generation :: int
  oc_binding :: "sandbox_binding option"

record warm_claim =
  wc_slot :: nat
  wc_token :: py_str
  wc_generation :: int

record ready_warm_claim = warm_claim +
  wc_sandbox :: py_str

record cleanup_claim =
  lc_sandbox :: py_str
  lc_token :: py_str
  lc_generation :: int

record availability =
  av_digest :: py_str
  av_sandbox :: py_str
  av_binding :: int
  av_sequence :: int
  av_phase :: availability_phase
  av_connection :: int

record holder_update =
  hu_holder :: py_str
  hu_digest :: py_str
  hu_sandbox :: py_str
  hu_binding :: int
  hu_acknowledged :: "int option"
  hu_availability :: availability

text \<open>The table of permitted phases and the step it allows.\<close>

definition phase_transitions :: "availability_phase \<Rightarrow> availability_phase list" where
  "phase_transitions p = (case p of
     PHASE_RUNNING \<Rightarrow> [PHASE_DRAINING, PHASE_RESUMING]
   | PHASE_DRAINING \<Rightarrow> [PHASE_RUNNING, PHASE_PAUSED, PHASE_PAUSING]
   | PHASE_PAUSING \<Rightarrow> [PHASE_PAUSED, PHASE_RUNNING, PHASE_UNCERTAIN]
   | PHASE_PAUSED \<Rightarrow> [PHASE_RESUMING, PHASE_DRAINING]
   | PHASE_RESUMING \<Rightarrow> [PHASE_RUNNING, PHASE_PAUSED, PHASE_UNCERTAIN]
   | PHASE_UNCERTAIN \<Rightarrow> [])"

definition next_availability :: "availability \<Rightarrow> availability_phase \<Rightarrow> bool \<Rightarrow> sandbox_error + availability" where
  "next_availability expected phase refresh =
     (if phase \<notin> set (phase_transitions (av_phase expected)) then
        Inl (OpenSandboxStateOwnershipError (PhaseNotReachable (av_phase expected) phase))
      else if refresh \<and> phase \<noteq> PHASE_RUNNING then
        Inl (SandboxValueError ''refresh_connection requires the running phase'')
      else Inr (expected\<lparr>av_phase := phase, av_sequence := av_sequence expected + 1,
        av_connection := av_connection expected + of_bool refresh\<rparr>))"

definition validate_holder_id :: "py_str \<Rightarrow> sandbox_error option" where
  "validate_holder_id holder_id =
     (if holder_id = [] \<or> 36 < length holder_id
      then Some (SandboxValueError ''holder_id must contain between 1 and 36 characters'') else None)"

section \<open>The state\<close>

text \<open>
  The lock of an owner is held exactly while the owner has an active token: acquiring sets the
  token and releasing clears it, with no \<open>await\<close> in between.
\<close>

record owner_record =
  or_generation :: int
  or_binding :: "sandbox_binding option"
  or_token :: "py_str option"
  or_availability :: "availability option"

definition new_owner_record :: owner_record where
  "new_owner_record = \<lparr>or_generation = 0, or_binding = None, or_token = None, or_availability = None\<rparr>"

record warm_slot =
  ws_slot :: nat
  ws_generation :: int
  ws_sandbox :: "py_str option"
  ws_token :: "py_str option"

definition new_warm_slot :: "nat \<Rightarrow> warm_slot" where
  "new_warm_slot i = \<lparr>ws_slot = i, ws_generation = 0, ws_sandbox = None, ws_token = None\<rparr>"

record cleanup_record =
  lr_generation :: int
  lr_token :: "py_str option"

definition new_cleanup_record :: cleanup_record where
  "new_cleanup_record = \<lparr>lr_generation = 0, lr_token = None\<rparr>"

record sandbox_state =
  sb_namespace :: py_str
  sb_records :: "(py_str, owner_record) dict"
  sb_slots :: "warm_slot list"
  sb_pool_size :: "int option"
  sb_cleanup :: "(py_str, cleanup_record) dict"
  sb_holders :: "(py_str \<times> py_str, holder_update) dict"
  sb_started :: bool
  sb_closed :: bool
  sb_tokens :: nat

definition new_sandbox_state :: "py_str \<Rightarrow> sandbox_state" where
  "new_sandbox_state namespace = \<lparr>sb_namespace = namespace, sb_records = [], sb_slots = [],
     sb_pool_size = None, sb_cleanup = [], sb_holders = [], sb_started = False, sb_closed = False,
     sb_tokens = 0\<rparr>"

text \<open>The digest SHA-256 and the successive values of \<open>uuid4().hex\<close>.\<close>

record sandbox_host =
  sh_sha256 :: "py_bytes \<Rightarrow> py_bytes"
  sh_token :: "nat \<Rightarrow> py_str"

type_synonym 'a sandbox_op = "(sandbox_state, sandbox_error, 'a) op"

definition owner_digest :: "sandbox_host \<Rightarrow> py_str \<Rightarrow> py_str \<Rightarrow> py_str" where
  "owner_digest h namespace owner_key =
     py_rstrip_char (CHR ''='') (urlsafe_b64encode (sh_sha256 h (utf8 (namespace @ CHR 0x00 # owner_key))))"

definition fresh_token :: "sandbox_host \<Rightarrow> py_str sandbox_op" where
  "fresh_token h = bind (gets sb_tokens) (\<lambda>n. seq (modify (\<lambda>s. s\<lparr>sb_tokens := Suc n\<rparr>)) (ret (sh_token h n)))"

definition put_record :: "py_str \<Rightarrow> owner_record \<Rightarrow> sandbox_state \<Rightarrow> sandbox_state" where
  "put_record digest r s = s\<lparr>sb_records := dset digest r (sb_records s)\<rparr>"

definition put_slot :: "nat \<Rightarrow> warm_slot \<Rightarrow> sandbox_state \<Rightarrow> sandbox_state" where
  "put_slot i slot s = s\<lparr>sb_slots := (sb_slots s)[i := slot]\<rparr>"

definition put_cleanup :: "py_str \<Rightarrow> cleanup_record \<Rightarrow> sandbox_state \<Rightarrow> sandbox_state" where
  "put_cleanup sandbox_id r s = s\<lparr>sb_cleanup := dset sandbox_id r (sb_cleanup s)\<rparr>"

text \<open>\<open>dict.setdefault\<close> with a new cleanup record.\<close>

definition default_cleanup :: "py_str \<Rightarrow> sandbox_state \<Rightarrow> sandbox_state" where
  "default_cleanup sandbox_id s =
     (if dget (sb_cleanup s) sandbox_id = None then put_cleanup sandbox_id new_cleanup_record s else s)"

section \<open>Opening and closing\<close>

definition start_state :: "int \<Rightarrow> unit sandbox_op" where
  "start_state pool =
     seq (check (if pool < 0 then Some (SandboxValueError ''warm_pool_size must not be negative'') else None))
     (seq (check_state (\<lambda>s. if sb_closed s then Some (OpenSandboxStateError ''OpenSandbox state is closed'') else None))
     (bind (gets (\<lambda>s. (sb_started s, sb_pool_size s))) (\<lambda>(started, pool_size).
        if started then
          check (if pool_size \<noteq> Some pool then Some (OpenSandboxStateConfigurationError
            ''OpenSandbox State is already started with a different warm_pool_size'') else None)
        else modify (\<lambda>s. s\<lparr>sb_slots := map new_warm_slot [0..<nat pool], sb_pool_size := Some pool, sb_started := True\<rparr>))))"

definition ensure_state_open :: "sandbox_state \<Rightarrow> sandbox_error option" where
  "ensure_state_open s =
     (if \<not> sb_started s then Some (OpenSandboxStateError ''OpenSandbox state has not been started'')
      else if sb_closed s then Some (OpenSandboxStateError ''OpenSandbox state is closed'')
      else None)"

definition close_state :: "unit sandbox_op" where
  "close_state = modify (\<lambda>s. s\<lparr>sb_closed := True\<rparr>)"

section \<open>Owners\<close>

text \<open>\<open>_record\<close>: the digest of an owner, whose record exists afterwards.\<close>

definition find_record :: "sandbox_host \<Rightarrow> py_str \<Rightarrow> py_str sandbox_op" where
  "find_record h owner_key =
     seq (check_state ensure_state_open)
     (bind (gets (\<lambda>s. owner_digest h (sb_namespace s) owner_key)) (\<lambda>digest.
      seq (modify (\<lambda>s. if dget (sb_records s) digest = None then put_record digest new_owner_record s else s))
        (ret digest)))"

text \<open>
  What \<open>acquire_owner\<close> does once \<open>_record\<close> gave the digest: \<open>None\<close> means that it still waits
  for the lock.
\<close>

definition lock_owner :: "sandbox_host \<Rightarrow> py_str \<Rightarrow> py_str \<Rightarrow> owner_claim option sandbox_op" where
  "lock_owner h owner_key digest =
     bind (gets (\<lambda>s. dget (sb_records s) digest)) (\<lambda>found.
     case found of None \<Rightarrow> ret None
     | Some record \<Rightarrow>
         if or_token record \<noteq> None then ret None
         else seq (check_state ensure_state_open)
           (bind (fresh_token h) (\<lambda>token.
            seq (modify (put_record digest (record\<lparr>or_generation := or_generation record + 1, or_token := Some token\<rparr>)))
              (ret (Some \<lparr>oc_key = owner_key, oc_digest = digest, oc_token = token,
                 oc_generation = or_generation record + 1, oc_binding = or_binding record\<rparr>)))))"

definition acquire_owner :: "sandbox_host \<Rightarrow> py_str \<Rightarrow> owner_claim option sandbox_op" where
  "acquire_owner h owner_key = bind (find_record h owner_key) (lock_owner h owner_key)"

definition claimed_record :: "owner_claim \<Rightarrow> sandbox_state \<Rightarrow> sandbox_error + owner_record" where
  "claimed_record claim s =
     require (ensure_state_open s)
       (case dget (sb_records s) (oc_digest claim) of
          None \<Rightarrow> Inl (OpenSandboxStateOwnershipError (OwnerClaimLost (oc_key claim)))
        | Some record \<Rightarrow>
            if or_token record \<noteq> Some (oc_token claim) \<or> or_generation record \<noteq> oc_generation claim
            then Inl (OpenSandboxStateOwnershipError (OwnerClaimLost (oc_key claim)))
            else Inr record)"

text \<open>\<open>_commit_binding\<close>, from the record to the changed record and the binding.\<close>

definition commit_binding ::
    "owner_record \<Rightarrow> owner_claim \<Rightarrow> py_str \<Rightarrow> sandbox_purpose \<Rightarrow> sandbox_error + (owner_record \<times> sandbox_binding)" where
  "commit_binding record claim sandbox_id purpose =
     require (require_binding_purpose (or_binding record) purpose)
       (let binding = \<lparr>bi_sandbox = sandbox_id, bi_generation = oc_generation claim, bi_purpose = purpose\<rparr>
        in if or_binding record = Some binding \<and> or_availability record \<noteq> None then Inr (record, binding)
           else Inr (record\<lparr>or_binding := Some binding,
             or_availability := Some \<lparr>av_digest = oc_digest claim, av_sandbox = sandbox_id,
               av_binding = oc_generation claim, av_sequence = 0, av_phase = PHASE_RUNNING, av_connection = 0\<rparr>\<rparr>, binding))"

definition bind_owner :: "owner_claim \<Rightarrow> py_str \<Rightarrow> sandbox_purpose \<Rightarrow> sandbox_binding sandbox_op" where
  "bind_owner claim sandbox_id purpose =
     bind (try_gets (claimed_record claim)) (\<lambda>record.
     bind (lift (commit_binding record claim sandbox_id purpose)) (\<lambda>(record', binding).
     seq (modify (put_record (oc_digest claim) record')) (ret binding)))"

definition catch_ownership :: "sandbox_error + 'a \<Rightarrow> sandbox_error + bool" where
  "catch_ownership r = (case r of Inl (OpenSandboxStateOwnershipError _) \<Rightarrow> Inr False | Inl e \<Rightarrow> Inl e | Inr _ \<Rightarrow> Inr True)"

definition renew_owner :: "owner_claim \<Rightarrow> bool sandbox_op" where
  "renew_owner claim = try_gets (\<lambda>s. catch_ownership (claimed_record claim s))"

text \<open>\<open>read_binding\<close> once \<open>_record\<close> gave the digest: it waits until nobody holds the lock.\<close>

definition read_unlocked :: "py_str \<Rightarrow> sandbox_binding option option sandbox_op" where
  "read_unlocked digest =
     gets (\<lambda>s. case dget (sb_records s) digest of None \<Rightarrow> None
       | Some record \<Rightarrow> if or_token record \<noteq> None then None else Some (or_binding record))"

definition read_binding :: "sandbox_host \<Rightarrow> py_str \<Rightarrow> sandbox_binding option option sandbox_op" where
  "read_binding h owner_key = bind (find_record h owner_key) read_unlocked"

definition unbind_owner :: "owner_claim \<Rightarrow> unit sandbox_op" where
  "unbind_owner claim =
     bind (try_gets (claimed_record claim)) (\<lambda>record.
     modify (\<lambda>s. put_record (oc_digest claim) (record\<lparr>or_binding := None, or_availability := None\<rparr>)
       (s\<lparr>sb_holders := filter (\<lambda>(key, holder). hu_digest holder \<noteq> oc_digest claim) (sb_holders s)\<rparr>)))"

definition release_owner :: "owner_claim \<Rightarrow> unit sandbox_op" where
  "release_owner claim =
     modify (\<lambda>s. case dget (sb_records s) (oc_digest claim) of None \<Rightarrow> s
       | Some record \<Rightarrow>
           if or_token record \<noteq> Some (oc_token claim) then s
           else put_record (oc_digest claim) (record\<lparr>or_token := None\<rparr>) s)"

section \<open>Holders and availability\<close>

definition holder_matches :: "holder_update \<Rightarrow> availability \<Rightarrow> bool" where
  "holder_matches holder a \<longleftrightarrow> hu_digest holder = av_digest a \<and> hu_sandbox holder = av_sandbox a \<and>
     hu_binding holder = av_binding a"

definition expected_availability :: "owner_claim \<Rightarrow> availability \<Rightarrow> sandbox_state \<Rightarrow> sandbox_error + owner_record" where
  "expected_availability claim expected s =
     attempt (claimed_record claim s) (\<lambda>record.
       if or_availability record \<noteq> Some expected
       then Inl (OpenSandboxStateOwnershipError AvailabilityNotCurrent) else Inr record)"

definition register_holder :: "owner_claim \<Rightarrow> py_str \<Rightarrow> availability sandbox_op" where
  "register_holder claim holder_id =
     seq (check (validate_holder_id holder_id))
     (bind (try_gets (claimed_record claim)) (\<lambda>record.
      case or_availability record of
        None \<Rightarrow> fail (OpenSandboxStateOwnershipError BindingNotRunning)
      | Some a \<Rightarrow>
          if av_phase a \<noteq> PHASE_RUNNING then fail (OpenSandboxStateOwnershipError BindingNotRunning)
          else seq (modify (\<lambda>s. s\<lparr>sb_holders := dset (holder_id, oc_digest claim)
              \<lparr>hu_holder = holder_id, hu_digest = oc_digest claim, hu_sandbox = av_sandbox a,
               hu_binding = av_binding a, hu_acknowledged = None, hu_availability = a\<rparr> (sb_holders s)\<rparr>))
            (ret a)))"

definition read_availability :: "sandbox_host \<Rightarrow> py_str \<Rightarrow> availability option sandbox_op" where
  "read_availability h owner_key =
     seq (check_state ensure_state_open)
       (gets (\<lambda>s. case dget (sb_records s) (owner_digest h (sb_namespace s) owner_key) of
          None \<Rightarrow> None | Some record \<Rightarrow> or_availability record))"

definition get_holder_updates :: "py_str \<Rightarrow> holder_update list sandbox_op" where
  "get_holder_updates holder_id =
     seq (check_state ensure_state_open)
       (gets (\<lambda>s. sort_key hu_digest (concat (map (\<lambda>((registered, digest), holder).
          if registered \<noteq> holder_id then []
          else case dget (sb_records s) digest of None \<Rightarrow> []
            | Some record \<Rightarrow> (case or_availability record of None \<Rightarrow> []
                | Some a \<Rightarrow> [holder\<lparr>hu_availability := a\<rparr>])) (sb_holders s)))))"

definition all_holders_idle :: "availability \<Rightarrow> sandbox_state \<Rightarrow> bool" where
  "all_holders_idle a s \<longleftrightarrow>
     list_all (\<lambda>holder. holder_matches holder a \<longrightarrow> hu_acknowledged holder = Some (av_sequence a)) (dvals (sb_holders s))"

definition change_availability ::
    "owner_claim \<Rightarrow> availability \<Rightarrow> availability_phase \<Rightarrow> bool \<Rightarrow> availability sandbox_op" where
  "change_availability claim expected phase refresh =
     bind (try_gets (expected_availability claim expected)) (\<lambda>record.
     bind (lift (next_availability expected phase refresh)) (\<lambda>updated.
     seq (check_state (\<lambda>s. if phase = PHASE_PAUSING \<and> \<not> all_holders_idle expected s
            then Some (OpenSandboxStateOwnershipError HoldersNotIdle) else None))
     (seq (modify (put_record (oc_digest claim) (record\<lparr>or_availability := Some updated\<rparr>)))
       (ret updated))))"

definition acknowledge_idle :: "py_str \<Rightarrow> availability \<Rightarrow> bool sandbox_op" where
  "acknowledge_idle holder_id a =
     seq (check_state ensure_state_open)
     (bind (gets (\<lambda>s. (dget (sb_records s) (av_digest a), dget (sb_holders s) (holder_id, av_digest a))))
       (\<lambda>(found, holder).
      case (found, holder) of
        (Some record, Some holder) \<Rightarrow>
          if av_phase a \<noteq> PHASE_DRAINING \<or> or_availability record \<noteq> Some a \<or> \<not> holder_matches holder a
          then ret False
          else seq (modify (\<lambda>s. s\<lparr>sb_holders := dset (holder_id, av_digest a)
              (holder\<lparr>hu_acknowledged := Some (av_sequence a)\<rparr>) (sb_holders s)\<rparr>)) (ret True)
      | _ \<Rightarrow> ret False))"

definition holders_are_idle :: "owner_claim \<Rightarrow> availability \<Rightarrow> bool sandbox_op" where
  "holders_are_idle claim a =
     bind (try_gets (expected_availability claim a)) (\<lambda>record.
     seq (check (if av_phase a \<noteq> PHASE_DRAINING
          then Some (OpenSandboxStateOwnershipError AvailabilityNotDraining) else None))
       (gets (all_holders_idle a)))"

definition unregister_holder :: "py_str \<Rightarrow> availability \<Rightarrow> unit sandbox_op" where
  "unregister_holder holder_id a =
     seq (check_state ensure_state_open)
       (modify (\<lambda>s. case dget (sb_holders s) (holder_id, av_digest a) of None \<Rightarrow> s
          | Some holder \<Rightarrow>
              if holder_matches holder a
              then s\<lparr>sb_holders := ddel (holder_id, av_digest a) (sb_holders s)\<rparr> else s))"

section \<open>Warm slots\<close>

text \<open>The position of the first slot with a property.\<close>

fun first_slot :: "(warm_slot \<Rightarrow> bool) \<Rightarrow> warm_slot list \<Rightarrow> nat option" where
  "first_slot P [] = None"
| "first_slot P (slot # slots) = (if P slot then Some 0 else map_option Suc (first_slot P slots))"

definition empty_slot :: "warm_slot \<Rightarrow> bool" where
  "empty_slot slot \<longleftrightarrow> ws_sandbox slot = None \<and> ws_token slot = None"

definition ready_slot :: "warm_slot \<Rightarrow> bool" where
  "ready_slot slot \<longleftrightarrow> ws_sandbox slot \<noteq> None \<and> ws_token slot = None"

text \<open>A slot is claimed under its next generation and a new token.\<close>

definition claim_slot :: "sandbox_host \<Rightarrow> nat \<Rightarrow> warm_claim sandbox_op" where
  "claim_slot h i =
     bind (gets (\<lambda>s. sb_slots s ! i)) (\<lambda>slot.
     bind (fresh_token h) (\<lambda>token.
     seq (modify (put_slot i (slot\<lparr>ws_generation := ws_generation slot + 1, ws_token := Some token\<rparr>)))
       (ret \<lparr>wc_slot = ws_slot slot, wc_token = token, wc_generation = ws_generation slot + 1\<rparr>)))"

definition claim_warm_slot :: "sandbox_host \<Rightarrow> warm_claim option sandbox_op" where
  "claim_warm_slot h =
     seq (check_state ensure_state_open)
     (bind (gets (\<lambda>s. first_slot empty_slot (sb_slots s))) (\<lambda>found.
      case found of None \<Rightarrow> ret None | Some i \<Rightarrow> bind (claim_slot h i) (\<lambda>claim. ret (Some claim))))"

definition claim_ready_warm_slot :: "sandbox_host \<Rightarrow> nat list \<Rightarrow> ready_warm_claim option sandbox_op" where
  "claim_ready_warm_slot h exclude_slots =
     seq (check_state ensure_state_open)
     (bind (gets (\<lambda>s. (first_slot (\<lambda>slot. ready_slot slot \<and> ws_slot slot \<notin> set exclude_slots) (sb_slots s), sb_slots s)))
       (\<lambda>(found, slots).
      case found of None \<Rightarrow> ret None
      | Some i \<Rightarrow> bind (claim_slot h i) (\<lambda>claim.
          ret (Some (warm_claim.extend claim (ready_warm_claim.fields (the (ws_sandbox (slots ! i)))))))))"

definition claimed_warm_slot :: "'a warm_claim_scheme \<Rightarrow> sandbox_state \<Rightarrow> sandbox_error + warm_slot" where
  "claimed_warm_slot claim s =
     require (ensure_state_open s)
       (if length (sb_slots s) \<le> wc_slot claim then Inl (OpenSandboxStateOwnershipError (WarmSlotLost (wc_slot claim)))
        else let slot = sb_slots s ! wc_slot claim in
          if ws_token slot \<noteq> Some (wc_token claim) \<or> ws_generation slot \<noteq> wc_generation claim
          then Inl (OpenSandboxStateOwnershipError (WarmSlotLost (wc_slot claim))) else Inr slot)"

definition discard_ready_warm_slot :: "ready_warm_claim \<Rightarrow> unit sandbox_op" where
  "discard_ready_warm_slot claim =
     bind (try_gets (claimed_warm_slot claim)) (\<lambda>slot.
     seq (check (if ws_sandbox slot \<noteq> Some (wc_sandbox claim)
          then Some (OpenSandboxStateOwnershipError (WarmSlotChanged (wc_slot claim))) else None))
     (seq (modify (put_slot (wc_slot claim) (slot\<lparr>ws_sandbox := None, ws_token := None\<rparr>)))
       (modify (default_cleanup (wc_sandbox claim)))))"

definition warm_pool_ready :: "bool sandbox_op" where
  "warm_pool_ready = seq (check_state ensure_state_open) (gets (\<lambda>s. list_all (\<lambda>slot. ws_sandbox slot \<noteq> None) (sb_slots s)))"

definition publish_warm :: "'a warm_claim_scheme \<Rightarrow> py_str \<Rightarrow> unit sandbox_op" where
  "publish_warm claim sandbox_id =
     bind (try_gets (claimed_warm_slot claim)) (\<lambda>slot.
     modify (put_slot (wc_slot claim) (slot\<lparr>ws_sandbox := Some sandbox_id, ws_token := None\<rparr>)))"

definition renew_warm :: "'a warm_claim_scheme \<Rightarrow> bool sandbox_op" where
  "renew_warm claim = try_gets (\<lambda>s. catch_ownership (claimed_warm_slot claim s))"

definition release_warm :: "'a warm_claim_scheme \<Rightarrow> unit sandbox_op" where
  "release_warm claim =
     modify (\<lambda>s. if length (sb_slots s) \<le> wc_slot claim then s
       else let slot = sb_slots s ! wc_slot claim in
         if ws_token slot = Some (wc_token claim) then put_slot (wc_slot claim) (slot\<lparr>ws_token := None\<rparr>) s else s)"

definition consume_warm :: "owner_claim \<Rightarrow> sandbox_binding option sandbox_op" where
  "consume_warm claim =
     bind (try_gets (claimed_record claim)) (\<lambda>record.
     seq (check (require_binding_purpose (or_binding record) COMMANDS))
     (bind (gets (\<lambda>s. (first_slot ready_slot (sb_slots s), sb_slots s))) (\<lambda>(found, slots).
      case found of None \<Rightarrow> ret None
      | Some i \<Rightarrow>
          bind (lift (commit_binding record claim (the (ws_sandbox (slots ! i))) COMMANDS)) (\<lambda>(record', binding).
          seq (modify (put_record (oc_digest claim) record'))
          (seq (modify (put_slot i ((slots ! i)\<lparr>ws_sandbox := None\<rparr>)))
            (ret (Some binding)))))))"

section \<open>Cleanup\<close>

definition enqueue_cleanup :: "py_str \<Rightarrow> unit sandbox_op" where
  "enqueue_cleanup sandbox_id = seq (check_state ensure_state_open) (modify (default_cleanup sandbox_id))"

fun first_cleanup :: "(py_str, cleanup_record) dict \<Rightarrow> (py_str \<times> cleanup_record) option" where
  "first_cleanup [] = None"
| "first_cleanup ((sandbox_id, r) # rest) = (if lr_token r = None then Some (sandbox_id, r) else first_cleanup rest)"

definition claim_cleanup :: "sandbox_host \<Rightarrow> cleanup_claim option sandbox_op" where
  "claim_cleanup h =
     seq (check_state ensure_state_open)
     (bind (gets (\<lambda>s. first_cleanup (sb_cleanup s))) (\<lambda>found.
      case found of None \<Rightarrow> ret None
      | Some (sandbox_id, r) \<Rightarrow>
          bind (fresh_token h) (\<lambda>token.
          seq (modify (put_cleanup sandbox_id \<lparr>lr_generation = lr_generation r + 1, lr_token = Some token\<rparr>))
            (ret (Some \<lparr>lc_sandbox = sandbox_id, lc_token = token, lc_generation = lr_generation r + 1\<rparr>)))))"

definition claimed_cleanup :: "cleanup_claim \<Rightarrow> sandbox_state \<Rightarrow> sandbox_error + cleanup_record" where
  "claimed_cleanup claim s =
     require (ensure_state_open s)
       (case dget (sb_cleanup s) (lc_sandbox claim) of
          None \<Rightarrow> Inl (OpenSandboxStateOwnershipError (CleanupClaimLost (lc_sandbox claim)))
        | Some r \<Rightarrow>
            if lr_token r \<noteq> Some (lc_token claim) \<or> lr_generation r \<noteq> lc_generation claim
            then Inl (OpenSandboxStateOwnershipError (CleanupClaimLost (lc_sandbox claim))) else Inr r)"

definition renew_cleanup :: "cleanup_claim \<Rightarrow> bool sandbox_op" where
  "renew_cleanup claim = try_gets (\<lambda>s. catch_ownership (claimed_cleanup claim s))"

definition complete_cleanup :: "cleanup_claim \<Rightarrow> unit sandbox_op" where
  "complete_cleanup claim =
     bind (try_gets (claimed_cleanup claim)) (\<lambda>_.
     modify (\<lambda>s. s\<lparr>sb_cleanup := ddel (lc_sandbox claim) (sb_cleanup s)\<rparr>))"

definition release_cleanup :: "cleanup_claim \<Rightarrow> unit sandbox_op" where
  "release_cleanup claim =
     modify (\<lambda>s. case dget (sb_cleanup s) (lc_sandbox claim) of None \<Rightarrow> s
       | Some r \<Rightarrow> if lr_token r = Some (lc_token claim)
           then put_cleanup (lc_sandbox claim) (r\<lparr>lr_token := None\<rparr>) s else s)"

text \<open>Every remote sandbox that the state still answers for.\<close>

definition bound_sandboxes :: "sandbox_state \<Rightarrow> py_str list" where
  "bound_sandboxes s = concat (map (\<lambda>r. case or_binding r of None \<Rightarrow> [] | Some b \<Rightarrow> [bi_sandbox b]) (dvals (sb_records s)))"

definition warm_sandboxes :: "sandbox_state \<Rightarrow> py_str list" where
  "warm_sandboxes s = concat (map (\<lambda>slot. case ws_sandbox slot of None \<Rightarrow> [] | Some x \<Rightarrow> [x]) (sb_slots s))"

definition kept_sandboxes :: "sandbox_state \<Rightarrow> py_str list" where
  "kept_sandboxes s = bound_sandboxes s @ warm_sandboxes s @ dkeys (sb_cleanup s)"

definition shutdown_sandbox_ids :: "py_str list sandbox_op" where
  "shutdown_sandbox_ids = seq (check_state ensure_state_open) (gets (\<lambda>s. sort (remdups (kept_sandboxes s))))"

end
