(* ===== verification/Sbx_Boundary.thy ===== *)
theory Sbx_Boundary
  imports Sbx_State
begin

text \<open>
  The calls of the \<open>OpenSandboxState\<close> protocol as data, their effect on the in-memory state,
  and \<open>_OpenSandboxStateBoundary\<close>, which forwards every call and translates what it raises.
  A caller that waits for the lock of an owner resumes with a call of its own.
\<close>

datatype sandbox_call =
    Start int
  | AcquireOwner py_str
  | ResumeAcquire py_str
  | RenewOwner owner_claim
  | BindOwner owner_claim py_str sandbox_purpose
  | UnbindOwner owner_claim
  | ReadBinding py_str
  | ResumeRead py_str
  | ReleaseOwner owner_claim
  | RegisterHolder owner_claim py_str
  | ReadAvailability py_str
  | GetHolderUpdates py_str
  | ChangeAvailability owner_claim availability availability_phase bool
  | AcknowledgeIdle py_str availability
  | HoldersAreIdle owner_claim availability
  | UnregisterHolder py_str availability
  | ClaimWarmSlot
  | ClaimReadyWarmSlot "nat list"
  | DiscardReadyWarmSlot ready_warm_claim
  | WarmPoolReady
  | PublishWarm warm_claim py_str
  | RenewWarm warm_claim
  | ReleaseWarm warm_claim
  | ConsumeWarm owner_claim
  | EnqueueCleanup py_str
  | ClaimCleanup
  | RenewCleanup cleanup_claim
  | CompleteCleanup cleanup_claim
  | ReleaseCleanup cleanup_claim
  | ShutdownSandboxIds
  | Close

datatype sandbox_reply =
    NoReply
  | Waiting
  | Flag bool
  | OwnerReply owner_claim
  | BindingReply "sandbox_binding option"
  | AvailabilityReply "availability option"
  | HoldersReply "holder_update list"
  | WarmReply "warm_claim option"
  | ReadyReply "ready_warm_claim option"
  | CleanupReply "cleanup_claim option"
  | IdsReply "py_str list"

definition reply_with :: "('a \<Rightarrow> sandbox_reply) \<Rightarrow> 'a sandbox_op \<Rightarrow> sandbox_reply sandbox_op" where
  "reply_with f m = bind m (\<lambda>a. ret (f a))"

definition or_waiting :: "('a \<Rightarrow> sandbox_reply) \<Rightarrow> 'a option \<Rightarrow> sandbox_reply" where
  "or_waiting f x = (case x of None \<Rightarrow> Waiting | Some a \<Rightarrow> f a)"

text \<open>A waiting call goes on with the digest that \<open>_record\<close> gave it.\<close>

definition resume_with :: "sandbox_host \<Rightarrow> py_str \<Rightarrow> (py_str \<Rightarrow> 'a sandbox_op) \<Rightarrow> 'a sandbox_op" where
  "resume_with h owner_key m = bind (gets (\<lambda>s. owner_digest h (sb_namespace s) owner_key)) m"

fun perform :: "sandbox_host \<Rightarrow> sandbox_call \<Rightarrow> sandbox_reply sandbox_op" where
  "perform h (Start n) = reply_with (\<lambda>_. NoReply) (start_state n)"
| "perform h (AcquireOwner k) = reply_with (or_waiting OwnerReply) (acquire_owner h k)"
| "perform h (ResumeAcquire k) = reply_with (or_waiting OwnerReply) (resume_with h k (lock_owner h k))"
| "perform h (RenewOwner c) = reply_with Flag (renew_owner c)"
| "perform h (BindOwner c x p) = reply_with (\<lambda>b. BindingReply (Some b)) (bind_owner c x p)"
| "perform h (UnbindOwner c) = reply_with (\<lambda>_. NoReply) (unbind_owner c)"
| "perform h (ReadBinding k) = reply_with (or_waiting BindingReply) (read_binding h k)"
| "perform h (ResumeRead k) = reply_with (or_waiting BindingReply) (resume_with h k read_unlocked)"
| "perform h (ReleaseOwner c) = reply_with (\<lambda>_. NoReply) (release_owner c)"
| "perform h (RegisterHolder c i) = reply_with (\<lambda>a. AvailabilityReply (Some a)) (register_holder c i)"
| "perform h (ReadAvailability k) = reply_with AvailabilityReply (read_availability h k)"
| "perform h (GetHolderUpdates i) = reply_with HoldersReply (get_holder_updates i)"
| "perform h (ChangeAvailability c a p r) = reply_with (\<lambda>a. AvailabilityReply (Some a)) (change_availability c a p r)"
| "perform h (AcknowledgeIdle i a) = reply_with Flag (acknowledge_idle i a)"
| "perform h (HoldersAreIdle c a) = reply_with Flag (holders_are_idle c a)"
| "perform h (UnregisterHolder i a) = reply_with (\<lambda>_. NoReply) (unregister_holder i a)"
| "perform h ClaimWarmSlot = reply_with WarmReply (claim_warm_slot h)"
| "perform h (ClaimReadyWarmSlot e) = reply_with ReadyReply (claim_ready_warm_slot h e)"
| "perform h (DiscardReadyWarmSlot c) = reply_with (\<lambda>_. NoReply) (discard_ready_warm_slot c)"
| "perform h WarmPoolReady = reply_with Flag warm_pool_ready"
| "perform h (PublishWarm c x) = reply_with (\<lambda>_. NoReply) (publish_warm c x)"
| "perform h (RenewWarm c) = reply_with Flag (renew_warm c)"
| "perform h (ReleaseWarm c) = reply_with (\<lambda>_. NoReply) (release_warm c)"
| "perform h (ConsumeWarm c) = reply_with BindingReply (consume_warm c)"
| "perform h (EnqueueCleanup x) = reply_with (\<lambda>_. NoReply) (enqueue_cleanup x)"
| "perform h ClaimCleanup = reply_with CleanupReply (claim_cleanup h)"
| "perform h (RenewCleanup c) = reply_with Flag (renew_cleanup c)"
| "perform h (CompleteCleanup c) = reply_with (\<lambda>_. NoReply) (complete_cleanup c)"
| "perform h (ReleaseCleanup c) = reply_with (\<lambda>_. NoReply) (release_cleanup c)"
| "perform h ShutdownSandboxIds = reply_with IdsReply shutdown_sandbox_ids"
| "perform h Close = reply_with (\<lambda>_. NoReply) close_state"

section \<open>The boundary\<close>

definition is_opensandbox_error :: "sandbox_error \<Rightarrow> bool" where
  "is_opensandbox_error e = (case e of SandboxValueError _ \<Rightarrow> False | _ \<Rightarrow> True)"

definition call_state :: "py_str \<Rightarrow> 'a sandbox_op \<Rightarrow> 'a sandbox_op" where
  "call_state operation m = (\<lambda>s. case m s of
      (Inl e, s') \<Rightarrow> (Inl (if is_opensandbox_error e then e else UnexpectedOpenSandboxStateError operation e), s')
    | (Inr a, s') \<Rightarrow> (Inr a, s'))"

text \<open>The name under which each method of the boundary reports.\<close>

fun operation_name :: "sandbox_call \<Rightarrow> py_str" where
  "operation_name (Start _) = ''start''"
| "operation_name (AcquireOwner _) = ''acquire_owner''"
| "operation_name (ResumeAcquire _) = ''acquire_owner''"
| "operation_name (RenewOwner _) = ''renew_owner''"
| "operation_name (BindOwner _ _ _) = ''bind_owner''"
| "operation_name (UnbindOwner _) = ''unbind_owner''"
| "operation_name (ReadBinding _) = ''read_binding''"
| "operation_name (ResumeRead _) = ''read_binding''"
| "operation_name (ReleaseOwner _) = ''release_owner''"
| "operation_name (RegisterHolder _ _) = ''register_holder''"
| "operation_name (ReadAvailability _) = ''read_availability''"
| "operation_name (GetHolderUpdates _) = ''get_holder_updates''"
| "operation_name (ChangeAvailability _ _ _ _) = ''change_availability''"
| "operation_name (AcknowledgeIdle _ _) = ''acknowledge_idle''"
| "operation_name (HoldersAreIdle _ _) = ''holders_are_idle''"
| "operation_name (UnregisterHolder _ _) = ''unregister_holder''"
| "operation_name ClaimWarmSlot = ''claim_warm_slot''"
| "operation_name (ClaimReadyWarmSlot _) = ''claim_ready_warm_slot''"
| "operation_name (DiscardReadyWarmSlot _) = ''discard_ready_warm_slot''"
| "operation_name WarmPoolReady = ''warm_pool_ready''"
| "operation_name (PublishWarm _ _) = ''publish_warm''"
| "operation_name (RenewWarm _) = ''renew_warm''"
| "operation_name (ReleaseWarm _) = ''release_warm''"
| "operation_name (ConsumeWarm _) = ''consume_warm''"
| "operation_name (EnqueueCleanup _) = ''enqueue_cleanup''"
| "operation_name ClaimCleanup = ''claim_cleanup''"
| "operation_name (RenewCleanup _) = ''renew_cleanup''"
| "operation_name (CompleteCleanup _) = ''complete_cleanup''"
| "operation_name (ReleaseCleanup _) = ''release_cleanup''"
| "operation_name ShutdownSandboxIds = ''shutdown_sandbox_ids''"
| "operation_name Close = ''close''"

definition state_boundary :: "sandbox_host \<Rightarrow> sandbox_call \<Rightarrow> sandbox_reply sandbox_op" where
  "state_boundary h c = call_state (operation_name c) (perform h c)"

end
