(* ===== verification/Sbx_Inv.thy ===== *)
theory Sbx_Inv
  imports Sbx_Boundary
begin

text \<open>
  The invariant of the sandbox state and how its claims are held: a claim is held by the token
  and the generation that its resource records, and what a resource records is only ever
  kept, cleared, or replaced by a token that was never issued before.
\<close>

section \<open>Resources and who holds them\<close>

datatype sandbox_resource = OwnerResource py_str | SlotResource nat | CleanupResource py_str

definition with_token :: "py_str option \<Rightarrow> int \<Rightarrow> (py_str \<times> int) option" where
  "with_token token generation = map_option (\<lambda>t. (t, generation)) token"

primrec holding :: "sandbox_state \<Rightarrow> sandbox_resource \<Rightarrow> (py_str \<times> int) option" where
  "holding s (OwnerResource d) = (case dget (sb_records s) d of None \<Rightarrow> None
     | Some r \<Rightarrow> with_token (or_token r) (or_generation r))"
| "holding s (SlotResource i) = (if length (sb_slots s) \<le> i then None
     else with_token (ws_token (sb_slots s ! i)) (ws_generation (sb_slots s ! i)))"
| "holding s (CleanupResource x) = (case dget (sb_cleanup s) x of None \<Rightarrow> None
     | Some r \<Rightarrow> with_token (lr_token r) (lr_generation r))"

lemma with_token_simps [simp]:
  "with_token None g = None" "with_token (Some t) g = Some (t, g)"
  "with_token held g = None \<longleftrightarrow> held = None" "with_token held g = Some p \<longleftrightarrow> held = Some (fst p) \<and> g = snd p"
  by (auto simp: with_token_def)

definition issued :: "sandbox_host \<Rightarrow> sandbox_state \<Rightarrow> py_str \<Rightarrow> bool" where
  "issued h s t \<longleftrightarrow> (\<exists>n < sb_tokens s. t = sh_token h n)"

lemma claimed_record_Inr:
  "claimed_record c s = Inr r \<longleftrightarrow> ensure_state_open s = None \<and> dget (sb_records s) (oc_digest c) = Some r \<and>
     or_token r = Some (oc_token c) \<and> or_generation r = oc_generation c"
  by (auto simp: claimed_record_def require_Inr split: option.splits if_splits)

lemma claimed_warm_slot_Inr:
  "claimed_warm_slot c s = Inr slot \<longleftrightarrow> ensure_state_open s = None \<and> wc_slot c < length (sb_slots s) \<and>
     slot = sb_slots s ! wc_slot c \<and> ws_token slot = Some (wc_token c) \<and> ws_generation slot = wc_generation c"
  by (auto simp: claimed_warm_slot_def require_Inr Let_def split: if_splits)

lemma claimed_cleanup_Inr:
  "claimed_cleanup c s = Inr r \<longleftrightarrow> ensure_state_open s = None \<and> dget (sb_cleanup s) (lc_sandbox c) = Some r \<and>
     lr_token r = Some (lc_token c) \<and> lr_generation r = lc_generation c"
  by (auto simp: claimed_cleanup_def require_Inr split: option.splits if_splits)

lemmas claimed_Inr = claimed_record_Inr claimed_warm_slot_Inr claimed_cleanup_Inr

lemma claimed_holding:
  "(\<exists>r. claimed_record c s = Inr r) \<longleftrightarrow>
     ensure_state_open s = None \<and> holding s (OwnerResource (oc_digest c)) = Some (oc_token c, oc_generation c)"
  "(\<exists>slot. claimed_warm_slot w s = Inr slot) \<longleftrightarrow>
     ensure_state_open s = None \<and> holding s (SlotResource (wc_slot w)) = Some (wc_token w, wc_generation w)"
  "(\<exists>r. claimed_cleanup l s = Inr r) \<longleftrightarrow>
     ensure_state_open s = None \<and> holding s (CleanupResource (lc_sandbox l)) = Some (lc_token l, lc_generation l)"
  by (auto simp: claimed_Inr split: option.splits)

lemma ensure_state_open_None: "ensure_state_open s = None \<longleftrightarrow> sb_started s \<and> \<not> sb_closed s"
  by (simp add: ensure_state_open_def)

section \<open>The invariant\<close>

definition drained :: "((py_str \<times> py_str), holder_update) dict \<Rightarrow> availability \<Rightarrow> bool" where
  "drained holders a \<longleftrightarrow> (\<forall>k hu. dget holders k = Some hu \<longrightarrow> holder_matches hu a \<longrightarrow>
     hu_acknowledged hu = Some (av_sequence a - 1))"

definition record_ok :: "sandbox_host \<Rightarrow> sandbox_state \<Rightarrow> py_str \<Rightarrow> owner_record \<Rightarrow> bool" where
  "record_ok h s d r \<longleftrightarrow> 0 \<le> or_generation r \<and> (\<forall>t. or_token r = Some t \<longrightarrow> issued h s t) \<and>
     (case or_availability r of None \<Rightarrow> or_binding r = None
      | Some a \<Rightarrow> av_digest a = d \<and> 0 \<le> av_sequence a \<and> 0 \<le> av_connection a \<and>
          (\<exists>b. or_binding r = Some b \<and> av_sandbox a = bi_sandbox b \<and> av_binding a = bi_generation b \<and>
             bi_generation b \<le> or_generation r) \<and>
          (av_phase a = PHASE_PAUSING \<longrightarrow> drained (sb_holders s) a))"

definition slot_ok :: "sandbox_host \<Rightarrow> sandbox_state \<Rightarrow> nat \<Rightarrow> warm_slot \<Rightarrow> bool" where
  "slot_ok h s i slot \<longleftrightarrow> ws_slot slot = i \<and> 0 \<le> ws_generation slot \<and> (\<forall>t. ws_token slot = Some t \<longrightarrow> issued h s t)"

definition cleanup_ok :: "sandbox_host \<Rightarrow> sandbox_state \<Rightarrow> cleanup_record \<Rightarrow> bool" where
  "cleanup_ok h s r \<longleftrightarrow> 0 \<le> lr_generation r \<and> (\<forall>t. lr_token r = Some t \<longrightarrow> issued h s t)"

definition holders_ok :: "((py_str \<times> py_str), holder_update) dict \<Rightarrow> bool" where
  "holders_ok holders \<longleftrightarrow> wf_dict holders \<and>
     (\<forall>i d hu. dget holders (i, d) = Some hu \<longrightarrow> hu_holder hu = i \<and> hu_digest hu = d)"

definition sandbox_inv :: "sandbox_host \<Rightarrow> sandbox_state \<Rightarrow> bool" where
  "sandbox_inv h s \<longleftrightarrow> inj (sh_token h) \<and> wf_dict (sb_records s) \<and> wf_dict (sb_cleanup s) \<and> holders_ok (sb_holders s) \<and>
     (\<forall>d r. dget (sb_records s) d = Some r \<longrightarrow> record_ok h s d r) \<and>
     (\<forall>i < length (sb_slots s). slot_ok h s i (sb_slots s ! i)) \<and>
     (\<forall>x r. dget (sb_cleanup s) x = Some r \<longrightarrow> cleanup_ok h s r) \<and>
     (\<not> sb_started s \<longrightarrow> sb_tokens s = 0 \<and> sb_slots s = [])"

text \<open>What every step keeps, whether it succeeds or raises.\<close>

definition advances :: "sandbox_host \<Rightarrow> sandbox_state \<Rightarrow> sandbox_state \<Rightarrow> bool" where
  "advances h s s' \<longleftrightarrow> sb_tokens s \<le> sb_tokens s' \<and> (sb_started s \<longrightarrow> sb_started s') \<and> (sb_closed s \<longrightarrow> sb_closed s') \<and>
     (\<forall>x. holding s' x = holding s x \<or> holding s' x = None \<or> (\<exists>t g. holding s' x = Some (t, g) \<and> \<not> issued h s t))"

abbreviation sound :: "sandbox_host \<Rightarrow> sandbox_state \<Rightarrow> sandbox_state \<Rightarrow> bool" where
  "sound h s s' \<equiv> sandbox_inv h s' \<and> advances h s s'"

lemma advances_refl [simp]: "advances h s s"
  by (simp add: advances_def)

lemma issued_mono: "sb_tokens s \<le> sb_tokens s' \<Longrightarrow> issued h s t \<Longrightarrow> issued h s' t"
  unfolding issued_def by (elim exE conjE, rule exI, rule conjI, erule (1) order_less_le_trans)

lemma advances_trans: "advances h a b \<Longrightarrow> advances h b c \<Longrightarrow> advances h a c"
  unfolding advances_def using issued_mono [of a b h] by (metis order_trans)

lemma sound_trans: "advances h a b \<Longrightarrow> sound h b c \<Longrightarrow> sound h a c"
  using advances_trans by blast

lemma issued_cong [simp]: "issued h (s\<lparr>sb_holders := x\<rparr>) t = issued h s t" "issued h (put_record d r s) t = issued h s t"
  "issued h (put_slot i w s) t = issued h s t" "issued h (put_cleanup z l s) t = issued h s t"
  "issued h (s\<lparr>sb_cleanup := y\<rparr>) t = issued h s t" "issued h (s\<lparr>sb_closed := b\<rparr>) t = issued h s t"
  by (simp_all add: issued_def put_record_def put_slot_def put_cleanup_def)

lemma put_fields [simp]:
  "sb_tokens (put_record d r s) = sb_tokens s" "sb_tokens (put_slot i w s) = sb_tokens s" "sb_tokens (put_cleanup z l s) = sb_tokens s"
  "sb_started (put_record d r s) = sb_started s" "sb_started (put_slot i w s) = sb_started s" "sb_started (put_cleanup z l s) = sb_started s"
  "sb_closed (put_record d r s) = sb_closed s" "sb_closed (put_slot i w s) = sb_closed s" "sb_closed (put_cleanup z l s) = sb_closed s"
  "sb_records (put_slot i w s) = sb_records s" "sb_records (put_cleanup z l s) = sb_records s"
  "sb_slots (put_record d r s) = sb_slots s" "sb_slots (put_cleanup z l s) = sb_slots s" "sb_slots (put_slot i w s) = (sb_slots s)[i := w]"
  "sb_cleanup (put_record d r s) = sb_cleanup s" "sb_cleanup (put_slot i w s) = sb_cleanup s"
  "sb_holders (put_record d r s) = sb_holders s" "sb_holders (put_slot i w s) = sb_holders s" "sb_holders (put_cleanup z l s) = sb_holders s"
  "dget (sb_records (put_record d r s)) d' = (if d' = d then Some r else dget (sb_records s) d')"
  "dget (sb_cleanup (put_cleanup z l s)) z' = (if z' = z then Some l else dget (sb_cleanup s) z')"
  "wf_dict (sb_records s) \<Longrightarrow> wf_dict (sb_records (put_record d r s))"
  "wf_dict (sb_cleanup s) \<Longrightarrow> wf_dict (sb_cleanup (put_cleanup z l s))"
  by (simp_all add: put_record_def put_slot_def put_cleanup_def)

lemma ok_cong:
  "issued h s' = issued h s \<Longrightarrow> sb_holders s' = sb_holders s \<Longrightarrow> record_ok h s' = record_ok h s"
  "issued h s' = issued h s \<Longrightarrow> slot_ok h s' = slot_ok h s"
  "issued h s' = issued h s \<Longrightarrow> cleanup_ok h s' = cleanup_ok h s"
  by (simp_all add: record_ok_def slot_ok_def cleanup_ok_def fun_eq_iff split: option.split)

lemma ok_mono:
  assumes "sb_tokens s \<le> sb_tokens s'" and "sb_holders s' = sb_holders s"
  shows "record_ok h s d r \<Longrightarrow> record_ok h s' d r" "slot_ok h s i w \<Longrightarrow> slot_ok h s' i w" "cleanup_ok h s l \<Longrightarrow> cleanup_ok h s' l"
  using issued_mono [OF assms(1), of h] assms(2)
  by (auto simp: record_ok_def slot_ok_def cleanup_ok_def split: option.splits)

section \<open>The elementary changes\<close>

text \<open>A resource may keep its holder, lose it, or get one with a token not issued before.\<close>

definition holder_change :: "sandbox_host \<Rightarrow> sandbox_state \<Rightarrow> (py_str \<times> int) option \<Rightarrow> (py_str \<times> int) option \<Rightarrow> bool" where
  "holder_change h s old new \<longleftrightarrow> new = old \<or> new = None \<or> (\<exists>t g. new = Some (t, g) \<and> \<not> issued h s t)"

lemma advances_at:
  assumes "sb_tokens s \<le> sb_tokens s'" and "sb_started s \<longrightarrow> sb_started s'" and "sb_closed s \<longrightarrow> sb_closed s'"
    and "\<And>y. y \<noteq> x \<Longrightarrow> holding s' y = holding s y" and "holder_change h s (holding s x) (holding s' x)"
  shows "advances h s s'"
  using assms unfolding advances_def holder_change_def by metis

abbreviation bumped :: "nat \<Rightarrow> sandbox_state \<Rightarrow> sandbox_state" where
  "bumped n s \<equiv> s\<lparr>sb_tokens := n\<rparr>"

lemma holding_bumped [simp]: "holding (bumped n s) x = holding s x"
  by (cases x) simp_all

lemma bumped_same [simp]: "bumped (sb_tokens s) s = s"
  by simp

lemma fresh_issued:
  assumes "sandbox_inv h s"
  shows "\<not> issued h s (sh_token h (sb_tokens s))" "issued h (bumped (Suc (sb_tokens s)) s) (sh_token h (sb_tokens s))"
  using assms by (auto simp: sandbox_inv_def issued_def dest: injD)

lemma sandbox_inv_at:
  assumes "sandbox_inv h s"
  shows "dget (sb_records s) d = Some r \<Longrightarrow> record_ok h s d r" "i < length (sb_slots s) \<Longrightarrow> slot_ok h s i (sb_slots s ! i)"
    "dget (sb_cleanup s) x = Some l \<Longrightarrow> cleanup_ok h s l"
  using assms by (simp_all add: sandbox_inv_def)

lemma bumped_inv:
  assumes "sandbox_inv h s" and "sb_started s" and "sb_tokens s \<le> n"
  shows "sandbox_inv h (bumped n s)"
proof -
  note mono = ok_mono [of s "bumped n s" h]
  show ?thesis using assms mono by (simp add: sandbox_inv_def)
qed

lemma put_record_sound:
  assumes "sandbox_inv h s" and "sb_started s" and "sb_tokens s \<le> n" and "record_ok h (bumped n s) d r"
    and "holder_change h s (holding s (OwnerResource d)) (with_token (or_token r) (or_generation r))"
  shows "sound h s (put_record d r (bumped n s))"
proof
  let ?s = "bumped n s"
  have inv: "sandbox_inv h ?s" by (rule bumped_inv [OF assms(1-3)])
  have same: "issued h (put_record d r ?s) = issued h ?s" by (simp add: fun_eq_iff)
  show "sandbox_inv h (put_record d r ?s)"
    using inv assms(2,4) by (simp add: sandbox_inv_def ok_cong [OF same])
  have other: "holding (put_record d r ?s) y = holding s y" if "y \<noteq> OwnerResource d" for y
    using that by (cases y) auto
  show "advances h s (put_record d r ?s)"
    by (rule advances_at [where x = "OwnerResource d"]) (use assms(3,5) in \<open>simp_all add: other\<close>)
qed

lemma put_slot_sound:
  assumes "sandbox_inv h s" and "sb_started s" and "sb_tokens s \<le> n" and "slot_ok h (bumped n s) i slot"
    and "i < length (sb_slots s)"
    and "holder_change h s (holding s (SlotResource i)) (with_token (ws_token slot) (ws_generation slot))"
  shows "sound h s (put_slot i slot (bumped n s))"
proof
  let ?s = "bumped n s"
  have inv: "sandbox_inv h ?s" by (rule bumped_inv [OF assms(1-3)])
  have same: "issued h (put_slot i slot ?s) = issued h ?s" by (simp add: fun_eq_iff)
  show "sandbox_inv h (put_slot i slot ?s)"
    using inv assms(2,4,5) by (simp add: sandbox_inv_def ok_cong [OF same] nth_list_update)
  have other: "holding (put_slot i slot ?s) y = holding s y" if "y \<noteq> SlotResource i" for y
    using that by (cases y) auto
  show "advances h s (put_slot i slot ?s)"
    by (rule advances_at [where x = "SlotResource i"]) (use assms(3,5,6) in \<open>simp_all add: other\<close>)
qed

lemma put_cleanup_sound:
  assumes "sandbox_inv h s" and "sb_started s" and "sb_tokens s \<le> n" and "cleanup_ok h (bumped n s) l"
    and "holder_change h s (holding s (CleanupResource z)) (with_token (lr_token l) (lr_generation l))"
  shows "sound h s (put_cleanup z l (bumped n s))"
proof
  let ?s = "bumped n s"
  have inv: "sandbox_inv h ?s" by (rule bumped_inv [OF assms(1-3)])
  have same: "issued h (put_cleanup z l ?s) = issued h ?s" by (simp add: fun_eq_iff)
  show "sandbox_inv h (put_cleanup z l ?s)"
    using inv assms(2,4) by (simp add: sandbox_inv_def ok_cong [OF same])
  have other: "holding (put_cleanup z l ?s) y = holding s y" if "y \<noteq> CleanupResource z" for y
    using that by (cases y) auto
  show "advances h s (put_cleanup z l ?s)"
    by (rule advances_at [where x = "CleanupResource z"]) (use assms(3,5) in \<open>simp_all add: other\<close>)
qed

lemma drop_cleanup_sound:
  assumes "sandbox_inv h s"
  shows "sound h s (s\<lparr>sb_cleanup := ddel z (sb_cleanup s)\<rparr>)"
proof
  let ?s = "s\<lparr>sb_cleanup := ddel z (sb_cleanup s)\<rparr>"
  have same: "issued h ?s = issued h s" by (simp add: fun_eq_iff)
  show "sandbox_inv h ?s"
    using assms by (simp add: sandbox_inv_def ok_cong [OF same])
  have other: "holding ?s y = holding s y" if "y \<noteq> CleanupResource z" for y
    using that by (cases y) auto
  show "advances h s ?s"
    by (rule advances_at [where x = "CleanupResource z"]) (simp_all add: other holder_change_def)
qed

lemma put_holders_sound:
  assumes "sandbox_inv h s" and "holders_ok H"
    and "\<And>d r a. dget (sb_records s) d = Some r \<Longrightarrow> or_availability r = Some a \<Longrightarrow> av_digest a = d \<Longrightarrow>
      av_phase a = PHASE_PAUSING \<Longrightarrow> drained (sb_holders s) a \<Longrightarrow> drained H a"
  shows "sound h s (s\<lparr>sb_holders := H\<rparr>)"
proof
  let ?s = "s\<lparr>sb_holders := H\<rparr>"
  have same: "issued h ?s = issued h s" by (simp add: fun_eq_iff)
  have "record_ok h ?s d r" if "dget (sb_records s) d = Some r" for d r
    using sandbox_inv_at(1) [OF assms(1) that] assms(3) [OF that] by (auto simp: record_ok_def same split: option.splits)
  then show "sandbox_inv h ?s"
    using assms(1,2) by (simp add: sandbox_inv_def ok_cong(2,3) [OF same])
  have "holding ?s y = holding s y" for y by (cases y) simp_all
  then show "advances h s ?s" by (simp add: advances_def)
qed

lemma default_cleanup_sound:
  assumes "sandbox_inv h s" and "sb_started s"
  shows "sound h s (default_cleanup z s)"
  using put_cleanup_sound [OF assms order_refl, of new_cleanup_record z] assms(1)
  by (auto simp: default_cleanup_def new_cleanup_record_def cleanup_ok_def holder_change_def)

end
