(* ===== verification/Sbx_Steps.thy ===== *)
theory Sbx_Steps
  imports Sbx_Inv
begin

text \<open>Every call keeps the invariant, whether it succeeds or raises.\<close>

definition sound_call :: "sandbox_host \<Rightarrow> 'a sandbox_op \<Rightarrow> sandbox_state \<Rightarrow> bool" where
  "sound_call h m s \<longleftrightarrow> run_with m (\<lambda>_ s'. sound h s s') (\<lambda>_ s'. sound h s s') s"

lemma sound_reply [simp]: "sound_call h (reply_with f m) s = sound_call h m s"
  by (simp add: sound_call_def reply_with_def wp)

lemma sound_same: "sandbox_inv h s \<Longrightarrow> sound h s s"
  by simp

text \<open>Calls that only read.\<close>

lemma reading_calls:
  assumes "sandbox_inv h s"
  shows "sound_call h (renew_owner c) s" "sound_call h (read_unlocked d) s" "sound_call h (read_availability h k) s"
    "sound_call h (get_holder_updates i) s" "sound_call h (holders_are_idle c a) s" "sound_call h warm_pool_ready s"
    "sound_call h (renew_warm w) s" "sound_call h (renew_cleanup l) s" "sound_call h shutdown_sandbox_ids s"
  using assms
  by (simp_all add: sound_call_def renew_owner_def read_unlocked_def read_availability_def get_holder_updates_def
      holders_are_idle_def warm_pool_ready_def renew_warm_def renew_cleanup_def shutdown_sandbox_ids_def wp split: option.split sum.split)

lemma start_sound: "sandbox_inv h s \<Longrightarrow> sound_call h (start_state n) s"
proof -
  assume inv: "sandbox_inv h s"
  let ?s = "s\<lparr>sb_slots := map new_warm_slot [0..<nat n], sb_pool_size := Some n, sb_started := True\<rparr>"
  have "sound h s ?s" if "\<not> sb_started s"
  proof
    have same: "issued h ?s = issued h s" by (simp add: issued_def fun_eq_iff)
    have zero: "sb_tokens s = 0" "sb_slots s = []" using inv that by (simp_all add: sandbox_inv_def)
    show "sandbox_inv h ?s"
      using inv by (simp add: sandbox_inv_def ok_cong [OF same]) (simp add: slot_ok_def new_warm_slot_def)
    have "holding ?s x = holding s x" for x
      using zero by (cases x) (simp_all add: new_warm_slot_def)
    then show "advances h s ?s" by (simp add: advances_def)
  qed
  then show ?thesis
    using inv by (simp add: sound_call_def start_state_def wp split: option.split prod.split)
qed

lemma close_sound: "sandbox_inv h s \<Longrightarrow> sound_call h close_state s"
proof -
  assume inv: "sandbox_inv h s"
  let ?s = "s\<lparr>sb_closed := True\<rparr>"
  have same: "issued h ?s = issued h s" by (simp add: fun_eq_iff)
  have "sandbox_inv h ?s" using inv by (simp add: sandbox_inv_def ok_cong [OF same])
  moreover have "holding ?s x = holding s x" for x by (cases x) simp_all
  ultimately show ?thesis by (simp add: sound_call_def close_state_def wp advances_def)
qed

section \<open>Owners\<close>

lemma find_record_wp:
  assumes "sandbox_inv h s"
    and "\<And>e. ensure_state_open s = Some e \<Longrightarrow> E e s"
    and "\<And>d s'. sound h s s' \<Longrightarrow> sb_started s \<Longrightarrow> ensure_state_open s' = None \<Longrightarrow> Q d s'"
  shows "run_with (find_record h k) Q E s"
proof -
  let ?d = "owner_digest h (sb_namespace s) k"
  have new: "sound h s (put_record ?d new_owner_record s)" if "sb_started s"
    using put_record_sound [OF assms(1) that order_refl, of ?d new_owner_record]
    by (simp add: new_owner_record_def record_ok_def holder_change_def)
  show ?thesis
    using assms new by (auto simp: find_record_def wp ensure_state_open_None ensure_state_open_def split: option.split)
qed

lemma lock_owner_sound: "sandbox_inv h s \<Longrightarrow> sound_call h (lock_owner h k d) s"
proof -
  assume inv: "sandbox_inv h s"
  let ?n = "Suc (sb_tokens s)"
  have "sound h s (put_record d (r\<lparr>or_generation := or_generation r + 1, or_token := Some (sh_token h (sb_tokens s))\<rparr>) (bumped ?n s))"
    if r: "dget (sb_records s) d = Some r" "sb_started s" for r
  proof (rule put_record_sound [OF inv r(2)])
    have "record_ok h s d r" using sandbox_inv_at(1) [OF inv r(1)] .
    then show "record_ok h (bumped ?n s) d (r\<lparr>or_generation := or_generation r + 1, or_token := Some (sh_token h (sb_tokens s))\<rparr>)"
      using fresh_issued [OF inv] by (auto simp: record_ok_def split: option.splits)
  qed (use fresh_issued [OF inv] in \<open>simp_all add: holder_change_def\<close>)
  then show ?thesis
    using inv by (auto simp: sound_call_def lock_owner_def fresh_token_def wp ensure_state_open_None split: option.split)
qed

lemma acquire_sound:
  assumes "sandbox_inv h s"
  shows "sound_call h (acquire_owner h k) s"
proof -
  have "run_with (lock_owner h k d) (\<lambda>_ s'. sound h s s') (\<lambda>_ s'. sound h s s') t" if "sound h s t" for d t
    by (rule wp_mono [OF lock_owner_sound [of h t k d, unfolded sound_call_def]]) (use that advances_trans in blast)+
  then show ?thesis
    unfolding sound_call_def acquire_owner_def wp_bind by (intro find_record_wp) (use assms in simp_all)
qed

lemma read_binding_sound:
  assumes "sandbox_inv h s"
  shows "sound_call h (read_binding h k) s"
  unfolding sound_call_def read_binding_def wp_bind
  by (intro find_record_wp) (use assms in \<open>simp_all add: read_unlocked_def wp\<close>)

text \<open>A current claim changes the binding of its record and keeps the fence.\<close>

lemma claimed_record_sound:
  assumes inv: "sandbox_inv h s" and claimed: "claimed_record c s = Inr r"
    and "or_token r' = or_token r" and "or_generation r' = or_generation r"
    and "record_ok h s (oc_digest c) r \<Longrightarrow> record_ok h s (oc_digest c) r'"
  shows "sound h s (put_record (oc_digest c) r' s)"
proof -
  have r: "dget (sb_records s) (oc_digest c) = Some r" "sb_started s"
    using claimed by (simp_all add: claimed_record_Inr ensure_state_open_None)
  show ?thesis
    using put_record_sound [OF inv r(2) order_refl, of "oc_digest c" r'] assms(3-5) sandbox_inv_at(1) [OF inv r(1)] r(1)
    by (simp add: holder_change_def)
qed

lemma commit_binding_ok:
  assumes "commit_binding r c x p = Inr (r', b)" and "or_generation r = oc_generation c"
  shows "or_token r' = or_token r \<and> or_generation r' = or_generation r \<and> (record_ok h s (oc_digest c) r \<longrightarrow> record_ok h s (oc_digest c) r')"
  using assms by (auto simp: commit_binding_def require_Inr Let_def record_ok_def split: if_splits)

lemma bind_sound:
  assumes inv: "sandbox_inv h s"
  shows "sound_call h (bind_owner c x p) s"
proof -
  have "sound h s (put_record (oc_digest c) r' s)"
    if r: "claimed_record c s = Inr r" "commit_binding r c x p = Inr (r', b)" for r r' b
    using claimed_record_sound [OF inv r(1), of r'] commit_binding_ok [OF r(2)] r(1) by (simp add: claimed_record_Inr)
  then show ?thesis
    using inv by (auto simp: sound_call_def bind_owner_def wp split: sum.split prod.split)
qed

lemma unbind_sound:
  assumes inv: "sandbox_inv h s"
  shows "sound_call h (unbind_owner c) s"
proof -
  let ?H = "filter (\<lambda>(key, holder). hu_digest holder \<noteq> oc_digest c) (sb_holders s)"
  have holders: "holders_ok (sb_holders s)" using inv by (simp add: sandbox_inv_def)
  have kept: "dget ?H k = Some hu \<Longrightarrow> dget (sb_holders s) k = Some hu" for k hu
  proof -
    assume "dget ?H k = Some hu"
    then have "(k, hu) \<in> set (sb_holders s)" by (auto dest: map_of_SomeD)
    then show ?thesis using holders dget_iff [of "sb_holders s" k hu] by (simp add: holders_ok_def)
  qed
  have "wf_dict ?H" using holders by (auto simp: holders_ok_def wf_dict_def distinct_map inj_on_def)
  then have ok: "holders_ok ?H" using holders kept unfolding holders_ok_def by blast
  have one: "sound h s (s\<lparr>sb_holders := ?H\<rparr>)"
    by (rule put_holders_sound [OF inv ok]) (use kept in \<open>unfold drained_def, blast\<close>)
  have "sound h (s\<lparr>sb_holders := ?H\<rparr>) (put_record (oc_digest c) (r\<lparr>or_binding := None, or_availability := None\<rparr>) (s\<lparr>sb_holders := ?H\<rparr>))"
    if r: "claimed_record c s = Inr r" for r
  proof -
    have "claimed_record c (s\<lparr>sb_holders := ?H\<rparr>) = Inr r" using r by (simp add: claimed_record_Inr ensure_state_open_None)
    then show ?thesis using claimed_record_sound [OF conjunct1 [OF one]] by (simp add: record_ok_def)
  qed
  then show ?thesis
    using inv one advances_trans [of h s "s\<lparr>sb_holders := ?H\<rparr>"]
    by (auto simp: sound_call_def unbind_owner_def wp split: sum.split)
qed

lemma release_sound:
  assumes inv: "sandbox_inv h s"
  shows "sound_call h (release_owner c) s"
proof -
  have "sound h s (put_record (oc_digest c) (r\<lparr>or_token := None\<rparr>) s)"
    if r: "dget (sb_records s) (oc_digest c) = Some r" "or_token r = Some (oc_token c)" for r
  proof -
    have ok: "record_ok h s (oc_digest c) r" using sandbox_inv_at(1) [OF inv r(1)] .
    then have "issued h s (oc_token c)" using r(2) by (simp add: record_ok_def)
    then have "sb_started s" using inv by (auto simp: sandbox_inv_def issued_def)
    then show ?thesis
      using put_record_sound [OF inv _ order_refl, of "oc_digest c" "r\<lparr>or_token := None\<rparr>"] ok
      by (simp add: record_ok_def holder_change_def split: option.splits)
  qed
  then show ?thesis using inv by (auto simp: sound_call_def release_owner_def wp split: option.split)
qed

section \<open>Holders and availability\<close>

lemma register_sound:
  assumes inv: "sandbox_inv h s"
  shows "sound_call h (register_holder c i) s"
proof -
  have "sound h s (s\<lparr>sb_holders := dset (i, oc_digest c) \<lparr>hu_holder = i, hu_digest = oc_digest c,
      hu_sandbox = av_sandbox a, hu_binding = av_binding a, hu_acknowledged = None, hu_availability = a\<rparr> (sb_holders s)\<rparr>)"
    if r: "claimed_record c s = Inr r" "or_availability r = Some a" "av_phase a = PHASE_RUNNING" for r a
  proof (rule put_holders_sound [OF inv])
    let ?hu = "\<lparr>hu_holder = i, hu_digest = oc_digest c,
      hu_sandbox = av_sandbox a, hu_binding = av_binding a, hu_acknowledged = None, hu_availability = a\<rparr>"
    show "holders_ok (dset (i, oc_digest c) ?hu (sb_holders s))"
      using inv by (auto simp: sandbox_inv_def holders_ok_def)
    fix d r' a' assume *: "dget (sb_records s) d = Some r'" "or_availability r' = Some a'" "av_digest a' = d"
      "av_phase a' = PHASE_PAUSING" "drained (sb_holders s) a'"
    have "d \<noteq> oc_digest c" using r * by (auto simp: claimed_record_Inr)
    then have "\<not> holder_matches ?hu a'" using *(3) by (simp add: holder_matches_def)
    then show "drained (dset (i, oc_digest c) ?hu (sb_holders s)) a'"
      using *(5) by (auto simp: drained_def)
  qed
  then show ?thesis
    using inv by (auto simp: sound_call_def register_holder_def wp split: sum.split option.split)
qed

lemma all_holders_idle_drained:
  assumes "holders_ok (sb_holders s)" and "all_holders_idle a s" and "holder_matches hu b = holder_matches hu a" 
    and "dget (sb_holders s) k = Some hu" and "holder_matches hu b"
  shows "hu_acknowledged hu = Some (av_sequence a)"
proof -
  have "hu \<in> set (dvals (sb_holders s))" using dget_in [OF assms(4)] by force
  then show ?thesis using assms(2,3,5) by (auto simp: all_holders_idle_def list_all_iff)
qed

lemma next_availability_Inr:
  "next_availability a p f = Inr b \<longleftrightarrow> p \<in> set (phase_transitions (av_phase a)) \<and> (f \<longrightarrow> p = PHASE_RUNNING) \<and>
     b = a\<lparr>av_phase := p, av_sequence := av_sequence a + 1, av_connection := av_connection a + of_bool f\<rparr>"
  by (auto simp: next_availability_def)

lemma expected_availability_Inr:
  "expected_availability c a s = Inr r \<longleftrightarrow> claimed_record c s = Inr r \<and> or_availability r = Some a"
  by (auto simp: expected_availability_def attempt_Inr)

lemma change_sound:
  assumes inv: "sandbox_inv h s"
  shows "sound_call h (change_availability c a p f) s"
proof -
  have "sound h s (put_record (oc_digest c) (r\<lparr>or_availability := Some b\<rparr>) s)"
    if r: "claimed_record c s = Inr r" "or_availability r = Some a" "next_availability a p f = Inr b"
      and idle: "p = PHASE_PAUSING \<longrightarrow> all_holders_idle a s" for r b
  proof (rule claimed_record_sound [OF inv r(1)])
    have b: "b = a\<lparr>av_phase := p, av_sequence := av_sequence a + 1, av_connection := av_connection a + of_bool f\<rparr>"
      using r(3) by (simp add: next_availability_Inr)
    have "drained (sb_holders s) b" if "p = PHASE_PAUSING"
    proof -
      have same: "holder_matches hu b = holder_matches hu a" for hu by (simp add: b holder_matches_def)
      have "holders_ok (sb_holders s)" using inv by (simp add: sandbox_inv_def)
      then show ?thesis
        using all_holders_idle_drained [OF _ _ same] idle that unfolding drained_def b by simp
    qed
    then show "record_ok h s (oc_digest c) r \<Longrightarrow> record_ok h s (oc_digest c) (r\<lparr>or_availability := Some b\<rparr>)"
      using r(2) by (auto simp: record_ok_def b)
  qed simp_all
  then show ?thesis
    using inv by (auto simp: sound_call_def change_availability_def wp expected_availability_Inr split: sum.split)
qed

lemma acknowledge_sound:
  assumes inv: "sandbox_inv h s"
  shows "sound_call h (acknowledge_idle i a) s"
proof -
  have "sound h s (s\<lparr>sb_holders := dset (i, av_digest a) (hu\<lparr>hu_acknowledged := Some (av_sequence a)\<rparr>) (sb_holders s)\<rparr>)"
    if r: "dget (sb_records s) (av_digest a) = Some r" "or_availability r = Some a" "av_phase a = PHASE_DRAINING"
      and hu: "dget (sb_holders s) (i, av_digest a) = Some hu" for r hu
  proof (rule put_holders_sound [OF inv])
    have digest: "hu_digest hu = av_digest a" using inv hu by (simp add: sandbox_inv_def holders_ok_def)
    show "holders_ok (dset (i, av_digest a) (hu\<lparr>hu_acknowledged := Some (av_sequence a)\<rparr>) (sb_holders s))"
      using inv hu by (auto simp: sandbox_inv_def holders_ok_def)
    fix d r' a' assume *: "dget (sb_records s) d = Some r'" "or_availability r' = Some a'" "av_digest a' = d"
      "av_phase a' = PHASE_PAUSING" "drained (sb_holders s) a'"
    have "d \<noteq> av_digest a" using r * by auto
    then have "\<not> holder_matches (hu\<lparr>hu_acknowledged := Some (av_sequence a)\<rparr>) a'"
      using *(3) digest by (simp add: holder_matches_def)
    then show "drained (dset (i, av_digest a) (hu\<lparr>hu_acknowledged := Some (av_sequence a)\<rparr>) (sb_holders s)) a'"
      using *(5) by (auto simp: drained_def)
  qed
  then show ?thesis
    using inv by (auto simp: sound_call_def acknowledge_idle_def wp split: option.split prod.split)
qed

lemma unregister_sound:
  assumes inv: "sandbox_inv h s"
  shows "sound_call h (unregister_holder i a) s"
proof -
  have "sound h s (s\<lparr>sb_holders := ddel (i, av_digest a) (sb_holders s)\<rparr>)"
    by (rule put_holders_sound [OF inv]) (use inv in \<open>auto simp: sandbox_inv_def holders_ok_def drained_def\<close>)
  then show ?thesis using inv by (auto simp: sound_call_def unregister_holder_def wp split: option.split)
qed

section \<open>Warm slots\<close>

lemma first_slot_Some: "first_slot P slots = Some i \<Longrightarrow> i < length slots \<and> P (slots ! i)"
  by (induction slots arbitrary: i) (auto split: if_splits)

lemma first_slot_None: "first_slot P slots = None \<longleftrightarrow> (\<forall>slot \<in> set slots. \<not> P slot)"
  by (induction slots) auto

lemma claim_slot_wp:
  assumes inv: "sandbox_inv h s" and "sb_started s" and "i < length (sb_slots s)"
    and "\<And>c s'. sound h s s' \<Longrightarrow> Q c s'"
  shows "run_with (claim_slot h i) Q E s"
proof -
  let ?slot = "sb_slots s ! i"
  have "sound h s (put_slot i (?slot\<lparr>ws_generation := ws_generation ?slot + 1, ws_token := Some (sh_token h (sb_tokens s))\<rparr>)
      (bumped (Suc (sb_tokens s)) s))"
    by (rule put_slot_sound [OF inv assms(2) _ _ assms(3)])
      (use sandbox_inv_at(2) [OF inv assms(3)] fresh_issued [OF inv] in \<open>auto simp: slot_ok_def holder_change_def\<close>)
  then show ?thesis using assms(4) by (simp add: claim_slot_def fresh_token_def wp)
qed

lemma claim_warm_sound:
  assumes inv: "sandbox_inv h s"
  shows "sound_call h (claim_warm_slot h) s" "sound_call h (claim_ready_warm_slot h e) s"
  using inv first_slot_Some [of _ "sb_slots s"]
  by (auto simp: sound_call_def claim_warm_slot_def claim_ready_warm_slot_def wp ensure_state_open_None intro!: claim_slot_wp
      split: option.split prod.split)

text \<open>A slot may change its content and lose its claim.\<close>

lemma slot_content_sound:
  assumes inv: "sandbox_inv h s" and "sb_started s" and "i < length (sb_slots s)"
    and "ws_slot slot = ws_slot (sb_slots s ! i)" and "ws_generation slot = ws_generation (sb_slots s ! i)"
    and "ws_token slot = None \<or> ws_token slot = ws_token (sb_slots s ! i)"
  shows "sound h s (put_slot i slot s)"
proof -
  have "sound h s (put_slot i slot (bumped (sb_tokens s) s))"
    by (rule put_slot_sound [OF inv assms(2) order_refl _ assms(3)])
      (use sandbox_inv_at(2) [OF inv assms(3)] assms(3-6) in \<open>auto simp: slot_ok_def holder_change_def\<close>)
  then show ?thesis by simp
qed

lemma discard_sound:
  assumes inv: "sandbox_inv h s"
  shows "sound_call h (discard_ready_warm_slot c) s"
proof -
  have "sound h s (default_cleanup (wc_sandbox c) (put_slot (wc_slot c) (slot\<lparr>ws_sandbox := None, ws_token := None\<rparr>) s))"
    if c: "claimed_warm_slot c s = Inr slot" for slot
  proof -
    have one: "sound h s (put_slot (wc_slot c) (slot\<lparr>ws_sandbox := None, ws_token := None\<rparr>) s)"
      by (rule slot_content_sound [OF inv]) (use c in \<open>simp_all add: claimed_warm_slot_Inr ensure_state_open_None\<close>)
    show ?thesis
      by (rule sound_trans [OF conjunct2 [OF one] default_cleanup_sound [OF conjunct1 [OF one]]])
        (use c in \<open>simp add: claimed_warm_slot_Inr ensure_state_open_None\<close>)
  qed
  then show ?thesis
    using inv by (auto simp: sound_call_def discard_ready_warm_slot_def wp split: sum.split option.split)
qed

lemma publish_sound:
  assumes inv: "sandbox_inv h s"
  shows "sound_call h (publish_warm c x) s"
proof -
  have "sound h s (put_slot (wc_slot c) (slot\<lparr>ws_sandbox := Some x, ws_token := None\<rparr>) s)"
    if "claimed_warm_slot c s = Inr slot" for slot
    by (rule slot_content_sound [OF inv]) (use that in \<open>simp_all add: claimed_warm_slot_Inr ensure_state_open_None\<close>)
  then show ?thesis using inv by (auto simp: sound_call_def publish_warm_def wp split: sum.split)
qed

lemma release_warm_sound:
  assumes inv: "sandbox_inv h s"
  shows "sound_call h (release_warm c) s"
proof -
  have "sound h s (put_slot (wc_slot c) ((sb_slots s ! wc_slot c)\<lparr>ws_token := None\<rparr>) s)" if "wc_slot c < length (sb_slots s)"
    by (rule slot_content_sound [OF inv _ that]) (use inv that in \<open>auto simp: sandbox_inv_def\<close>)
  then show ?thesis using inv by (simp add: sound_call_def release_warm_def wp Let_def)
qed

lemma consume_sound:
  assumes inv: "sandbox_inv h s"
  shows "sound_call h (consume_warm c) s"
proof -
  have "sound h s (put_slot i ((sb_slots s ! i)\<lparr>ws_sandbox := None\<rparr>) (put_record (oc_digest c) r' s))"
    if r: "claimed_record c s = Inr r" "commit_binding r c x COMMANDS = Inr (r', b)" "i < length (sb_slots s)" for r r' b x i
  proof -
    have one: "sound h s (put_record (oc_digest c) r' s)"
      using claimed_record_sound [OF inv r(1), of r'] commit_binding_ok [OF r(2)] r(1) by (simp add: claimed_record_Inr)
    have "sb_started s" using r(1) by (simp add: claimed_record_Inr ensure_state_open_None)
    then have "sound h (put_record (oc_digest c) r' s) (put_slot i ((sb_slots s ! i)\<lparr>ws_sandbox := None\<rparr>) (put_record (oc_digest c) r' s))"
      by (intro slot_content_sound) (use one r(3) in simp_all)
    then show ?thesis using sound_trans one by blast
  qed
  then show ?thesis
    using inv first_slot_Some [of ready_slot "sb_slots s"]
    by (auto simp: sound_call_def consume_warm_def wp split: sum.split option.split prod.split)
qed

section \<open>Cleanup\<close>

lemma enqueue_sound: "sandbox_inv h s \<Longrightarrow> sound_call h (enqueue_cleanup x) s"
  using default_cleanup_sound [of h s x]
  by (auto simp: sound_call_def enqueue_cleanup_def wp ensure_state_open_None split: option.split)

lemma first_cleanup_Some: "first_cleanup d = Some (x, r) \<Longrightarrow> (x, r) \<in> set d \<and> lr_token r = None"
  by (induction d rule: first_cleanup.induct) (auto split: if_splits)

lemma claim_cleanup_sound:
  assumes inv: "sandbox_inv h s"
  shows "sound_call h (claim_cleanup h) s"
proof -
  have "sound h s (put_cleanup x \<lparr>lr_generation = lr_generation r + 1, lr_token = Some (sh_token h (sb_tokens s))\<rparr> (bumped (Suc (sb_tokens s)) s))"
    if found: "first_cleanup (sb_cleanup s) = Some (x, r)" "sb_started s" for x r
  proof -
    have "dget (sb_cleanup s) x = Some r"
      using first_cleanup_Some [OF found(1)] dget_iff [of "sb_cleanup s"] inv by (simp add: sandbox_inv_def)
    then have "cleanup_ok h s r" using sandbox_inv_at(3) [OF inv] by blast
    then show ?thesis
      by (intro put_cleanup_sound [OF inv found(2)])
        (use fresh_issued [OF inv] in \<open>auto simp: cleanup_ok_def holder_change_def\<close>)
  qed
  then show ?thesis
    using inv by (auto simp: sound_call_def claim_cleanup_def fresh_token_def wp ensure_state_open_None split: option.split prod.split)
qed

lemma complete_sound: "sandbox_inv h s \<Longrightarrow> sound_call h (complete_cleanup c) s"
  using drop_cleanup_sound [of h s "lc_sandbox c"] by (auto simp: sound_call_def complete_cleanup_def wp split: sum.split)

lemma release_cleanup_sound:
  assumes inv: "sandbox_inv h s"
  shows "sound_call h (release_cleanup c) s"
proof -
  have "sound h s (put_cleanup (lc_sandbox c) (r\<lparr>lr_token := None\<rparr>) s)"
    if r: "dget (sb_cleanup s) (lc_sandbox c) = Some r" "lr_token r = Some (lc_token c)" for r
  proof -
    have ok: "cleanup_ok h s r" using sandbox_inv_at(3) [OF inv r(1)] .
    then have "sb_started s" using inv r(2) by (auto simp: sandbox_inv_def issued_def cleanup_ok_def)
    then show ?thesis
      using put_cleanup_sound [OF inv _ order_refl, of "r\<lparr>lr_token := None\<rparr>" "lc_sandbox c"] ok
      by (simp add: cleanup_ok_def holder_change_def)
  qed
  then show ?thesis using inv by (auto simp: sound_call_def release_cleanup_def wp split: option.split)
qed

section \<open>Steps\<close>

lemmas call_sound = start_sound acquire_sound lock_owner_sound reading_calls bind_sound unbind_sound read_binding_sound
  release_sound register_sound change_sound acknowledge_sound unregister_sound claim_warm_sound discard_sound
  publish_sound release_warm_sound consume_sound enqueue_sound claim_cleanup_sound complete_sound release_cleanup_sound
  close_sound

lemma resume_sound [simp]: "sound_call h (resume_with h' k m) s = sound_call h (m (owner_digest h' (sb_namespace s) k)) s"
  by (simp add: sound_call_def resume_with_def wp)

lemma perform_sound: "sandbox_inv h s \<Longrightarrow> sound_call h (perform h c) s"
  by (cases c) (simp_all add: call_sound)

definition sandbox_step :: "sandbox_host \<Rightarrow> sandbox_state \<Rightarrow> sandbox_state \<Rightarrow> bool" where
  "sandbox_step h s s' \<longleftrightarrow> (\<exists>c. snd (perform h c s) = s')"

definition sandbox_init :: "sandbox_host \<Rightarrow> sandbox_state \<Rightarrow> bool" where
  "sandbox_init h s \<longleftrightarrow> inj (sh_token h) \<and> (\<exists>namespace. s = new_sandbox_state namespace)"

lemma perform_result: "sandbox_inv h s \<Longrightarrow> perform h c s = (out, s') \<Longrightarrow> sound h s s'"
  using perform_sound [of h s c] by (cases out) (simp_all add: sound_call_def run_with_def)

lemma step_sound: "sandbox_inv h s \<Longrightarrow> sandbox_step h s s' \<Longrightarrow> sound h s s'"
  using perform_result by (metis prod.collapse sandbox_step_def)

lemma init_inv: "sandbox_init h s \<Longrightarrow> sandbox_inv h s"
  by (auto simp: sandbox_init_def sandbox_inv_def new_sandbox_state_def holders_ok_def)

text \<open>
  Holders of resources form a fenced resource by token: the contract is stated once and proved
  for owners, warm slots and cleanups together.
\<close>

locale held_resource = invariant_system init step inv
  for init :: "'s \<Rightarrow> bool" and step :: "'s \<Rightarrow> 's \<Rightarrow> bool" and inv :: "'s \<Rightarrow> bool" +
  fixes holds :: "'s \<Rightarrow> 'k \<Rightarrow> 'c option" and known :: "'s \<Rightarrow> 'c \<Rightarrow> bool"
  assumes held_step: "inv s \<Longrightarrow> step s s' \<Longrightarrow> holds s' x = Some c \<Longrightarrow> known s c \<Longrightarrow> holds s x = Some c"
    and known_step: "inv s \<Longrightarrow> step s s' \<Longrightarrow> known s c \<Longrightarrow> known s' c"
begin

lemma lost_stays_lost: "step\<^sup>*\<^sup>* s s' \<Longrightarrow> inv s \<Longrightarrow> known s c \<Longrightarrow> holds s x \<noteq> Some c \<Longrightarrow> holds s' x \<noteq> Some c"
proof -
  assume run: "step\<^sup>*\<^sup>* s s'" and inv: "inv s" and lost: "known s c" "holds s x \<noteq> Some c"
  have "known s' c \<and> holds s' x \<noteq> Some c"
    using stable_steps [of "\<lambda>s. known s c \<and> holds s x \<noteq> Some c", OF _ run inv] held_step known_step lost by blast
  then show ?thesis by blast
qed

end

interpretation sandboxes: held_resource "sandbox_init h" "sandbox_step h" "sandbox_inv h" holding "\<lambda>s c. issued h s (fst c)" for h
proof unfold_locales
  show "sandbox_inv h s" if "sandbox_init h s" for s using that by (rule init_inv)
  show "sandbox_inv h s'" if "sandbox_inv h s" "sandbox_step h s s'" for s s' using step_sound [OF that] by blast
  show "holding s x = Some c" if "sandbox_inv h s" "sandbox_step h s s'" "holding s' x = Some c" "issued h s (fst c)" for s s' x c
    using step_sound [OF that(1,2)] that(3,4) unfolding advances_def by (metis fst_conv option.distinct(1) option.inject)
  show "issued h s' (fst c)" if "sandbox_inv h s" "sandbox_step h s s'" "issued h s (fst c)" for s s' and c :: "py_str \<times> int"
    using step_sound [OF that(1,2)] that(3) issued_mono unfolding advances_def by blast
qed

end
