(* ===== verification/Sbx_Props.thy ===== *)
theory Sbx_Props
  imports Sbx_Steps
begin

text \<open>What the sandbox state promises, each property followed by its witness.\<close>

section \<open>A sample run\<close>

definition sandbox_sample_host :: sandbox_host where
  "sandbox_sample_host = \<lparr>sh_sha256 = (\<lambda>bytes. bytes), sh_token = (\<lambda>n. replicate n (CHR ''t''))\<rparr>"

abbreviation sandbox_after :: "sandbox_call \<Rightarrow> sandbox_state \<Rightarrow> sandbox_state" where
  "sandbox_after c s \<equiv> snd (perform sandbox_sample_host c s)"

definition sample_owner :: owner_claim where
  "sample_owner = \<lparr>oc_key = ''o'', oc_digest = owner_digest sandbox_sample_host ''n'' ''o'', oc_token = [],
     oc_generation = 1, oc_binding = None\<rparr>"

definition sample_slot :: warm_claim where
  "sample_slot = \<lparr>wc_slot = 0, wc_token = ''t'', wc_generation = 1\<rparr>"

definition sbx_empty :: sandbox_state where "sbx_empty = new_sandbox_state ''n''"
definition sbx_open :: sandbox_state where "sbx_open = sandbox_after (Start 2) sbx_empty"
definition sbx_owned :: sandbox_state where "sbx_owned = sandbox_after (AcquireOwner ''o'') sbx_open"
definition sbx_filling :: sandbox_state where "sbx_filling = sandbox_after ClaimWarmSlot sbx_owned"
definition sbx_warm :: sandbox_state where "sbx_warm = sandbox_after (PublishWarm sample_slot ''x'') sbx_filling"
definition sbx_bound :: sandbox_state where "sbx_bound = sandbox_after (ConsumeWarm sample_owner) sbx_warm"
definition sbx_released :: sandbox_state where "sbx_released = sandbox_after (ReleaseOwner sample_owner) sbx_bound"
definition sbx_next :: sandbox_state where "sbx_next = sandbox_after (AcquireOwner ''o'') sbx_released"

lemmas sbx_defs = sbx_open_def sbx_owned_def sbx_filling_def sbx_warm_def sbx_bound_def sbx_released_def sbx_next_def

lemma sbx_init: "sandbox_init sandbox_sample_host sbx_empty"
proof -
  have "inj (\<lambda>n. replicate n (CHR ''t''))" by (rule injI) (metis length_replicate)
  then show ?thesis by (auto simp: sandbox_init_def sandbox_sample_host_def sbx_empty_def)
qed

lemma sbx_step: "sandbox_step sandbox_sample_host s (sandbox_after c s)"
  by (auto simp: sandbox_step_def)

lemma sbx_reached:
  "(sandbox_step sandbox_sample_host)\<^sup>*\<^sup>* sbx_empty sbx_open" "(sandbox_step sandbox_sample_host)\<^sup>*\<^sup>* sbx_empty sbx_owned"
  "(sandbox_step sandbox_sample_host)\<^sup>*\<^sup>* sbx_empty sbx_filling" "(sandbox_step sandbox_sample_host)\<^sup>*\<^sup>* sbx_empty sbx_warm"
  "(sandbox_step sandbox_sample_host)\<^sup>*\<^sup>* sbx_empty sbx_bound" "(sandbox_step sandbox_sample_host)\<^sup>*\<^sup>* sbx_empty sbx_released"
  unfolding sbx_defs by (meson sbx_step rtranclp.rtrancl_into_rtrancl rtranclp.rtrancl_refl)+

lemma sandbox_reachable: "sandbox_init h s0 \<Longrightarrow> (sandbox_step h)\<^sup>*\<^sup>* s0 s \<Longrightarrow> sandbox_inv h s"
  by (rule sandboxes.inv_reachable)

section \<open>Claims\<close>

text \<open>The claim that a reply grants: its resource, token and generation.\<close>

fun granted_claim :: "sandbox_reply \<Rightarrow> (sandbox_resource \<times> py_str \<times> int) option" where
  "granted_claim (OwnerReply c) = Some (OwnerResource (oc_digest c), oc_token c, oc_generation c)"
| "granted_claim (WarmReply (Some w)) = Some (SlotResource (wc_slot w), wc_token w, wc_generation w)"
| "granted_claim (ReadyReply (Some w)) = Some (SlotResource (wc_slot w), wc_token w, wc_generation w)"
| "granted_claim (CleanupReply (Some l)) = Some (CleanupResource (lc_sandbox l), lc_token l, lc_generation l)"
| "granted_claim _ = None"

lemma wp_reply_with: "run_with (reply_with f m) Q E = run_with m (\<lambda>a. Q (f a)) E"
  by (simp add: reply_with_def wp)

lemma wp_true: "run_with m (\<lambda>_ _. True) (\<lambda>_ _. True) s"
  by (simp add: run_with_def split: prod.split sum.split)

definition exclusive :: "sandbox_host \<Rightarrow> sandbox_state \<Rightarrow> sandbox_reply \<Rightarrow> sandbox_state \<Rightarrow> bool" where
  "exclusive h s reply s' \<longleftrightarrow> (\<forall>x p. granted_claim reply = Some (x, p) \<longrightarrow>
     holding s x = None \<and> holding s' x = Some p \<and> \<not> issued h s (fst p) \<and> (\<forall>y. y \<noteq> x \<longrightarrow> holding s' y = holding s y))"

lemma holding_put_record: "y \<noteq> OwnerResource d \<Longrightarrow> holding (put_record d r s) y = holding s y"
  by (cases y) simp_all

lemma holding_put_slot: "y \<noteq> SlotResource i \<Longrightarrow> holding (put_slot i slot s) y = holding s y"
  by (cases y) simp_all

lemma holding_put_cleanup: "y \<noteq> CleanupResource x \<Longrightarrow> holding (put_cleanup x r s) y = holding s y"
  by (cases y) simp_all

lemma lock_owner_exclusive:
  assumes "\<not> issued h s (sh_token h (sb_tokens t))" and "\<And>y. holding t y = holding s y"
  shows "run_with (lock_owner h k d) (\<lambda>c. exclusive h s (or_waiting OwnerReply c)) (\<lambda>_ _. True) t"
  using assms
  by (auto simp: lock_owner_def fresh_token_def wp exclusive_def or_waiting_def holding_put_record
      simp flip: assms(2) split: option.split)

lemma find_record_exclusive:
  assumes "sandbox_inv h s"
  shows "run_with (acquire_owner h k) (\<lambda>c. exclusive h s (or_waiting OwnerReply c)) (\<lambda>_ _. True) s"
proof -
  let ?d = "owner_digest h (sb_namespace s) k"
  have fresh: "\<not> issued h s (sh_token h (sb_tokens s))" using fresh_issued [OF assms] by blast
  have "holding (put_record ?d new_owner_record s) y = holding s y" if "dget (sb_records s) ?d = None" for y
    using that by (cases y) (simp_all add: new_owner_record_def)
  then show ?thesis
    using lock_owner_exclusive [of h s "put_record ?d new_owner_record s" k ?d] lock_owner_exclusive [of h s s k ?d] fresh
    by (simp add: acquire_owner_def find_record_def wp split: option.split)
qed

lemma claim_slot_exclusive:
  assumes inv: "sandbox_inv h s" and "i < length (sb_slots s)" "ws_token (sb_slots s ! i) = None"
    and "\<And>w. granted_claim (f w) = Some (SlotResource (wc_slot w), wc_token w, wc_generation w)"
  shows "run_with (claim_slot h i) (\<lambda>w. exclusive h s (f w)) (\<lambda>_ _. True) s"
proof -
  have "ws_slot (sb_slots s ! i) = i" using sandbox_inv_at(2) [OF inv assms(2)] by (simp add: slot_ok_def)
  then show ?thesis
    using fresh_issued(1) [OF inv] assms(2-4) by (auto simp: claim_slot_def fresh_token_def wp exclusive_def holding_put_slot)
qed

lemma claim_cleanup_exclusive:
  assumes inv: "sandbox_inv h s"
  shows "run_with (claim_cleanup h) (\<lambda>c. exclusive h s (CleanupReply c)) (\<lambda>_ _. True) s"
proof -
  have "dget (sb_cleanup s) x = Some r \<and> lr_token r = None" if "first_cleanup (sb_cleanup s) = Some (x, r)" for x r
    using first_cleanup_Some [OF that] dget_iff [of "sb_cleanup s" x r] inv by (simp add: sandbox_inv_def)
  then show ?thesis
    using fresh_issued(1) [OF inv]
    by (auto simp: claim_cleanup_def fresh_token_def wp exclusive_def holding_put_cleanup split: option.split prod.split)
qed

lemma exclusive_trivial: "granted_claim reply = None \<Longrightarrow> exclusive h s reply = (\<lambda>_. True)"
  by (simp add: exclusive_def fun_eq_iff)

lemma perform_exclusive:
  assumes inv: "sandbox_inv h s"
  shows "run_with (perform h c) (exclusive h s) (\<lambda>_ _. True) s"
proof -
  have slots: "ws_token (sb_slots s ! i) = None \<and> i < length (sb_slots s)"
    if "first_slot P (sb_slots s) = Some i" "\<And>w. P w \<Longrightarrow> ws_token w = None" for P i
    using first_slot_Some [OF that(1)] that(2) by blast
  have warm: "run_with (claim_warm_slot h) (\<lambda>w. exclusive h s (WarmReply w)) (\<lambda>_ _. True) s"
    using slots [of empty_slot] claim_slot_exclusive [OF inv, of _ "\<lambda>w. WarmReply (Some w)"]
    by (auto simp: claim_warm_slot_def wp empty_slot_def exclusive_trivial split: option.split)
  have ready: "run_with (claim_ready_warm_slot h e) (\<lambda>w. exclusive h s (ReadyReply w)) (\<lambda>_ _. True) s" for e
    using slots [of "\<lambda>slot. ready_slot slot \<and> ws_slot slot \<notin> set e"]
      claim_slot_exclusive [OF inv, of _ "\<lambda>w. ReadyReply (Some (warm_claim.extend w (ready_warm_claim.fields x)))" for x]
    by (auto simp: claim_ready_warm_slot_def wp ready_slot_def exclusive_trivial warm_claim.defs split: option.split prod.split)
  have resume: "run_with (resume_with h k (lock_owner h k)) (\<lambda>c. exclusive h s (or_waiting OwnerReply c)) (\<lambda>_ _. True) s" for k
    using lock_owner_exclusive [of h s s k] fresh_issued(1) [OF inv] by (simp add: resume_with_def wp)
  have reads: "exclusive h s (or_waiting BindingReply b) = (\<lambda>_. True)" for b
    by (simp add: exclusive_def or_waiting_def fun_eq_iff split: option.split)
  show ?thesis
    by (cases c) (simp_all add: wp_reply_with wp_true exclusive_trivial reads warm ready resume
        find_record_exclusive [OF inv] claim_cleanup_exclusive [OF inv])
qed

text \<open>
  C27. Owners, warm slots and cleanups are each claimed by at most one caller: a claim is only
  granted for a resource that nobody holds, under a token that was never issued before, and
  granting it changes the holder of no other resource.
\<close>

theorem grants_are_exclusive:
  assumes "sandbox_init h s0" and "(sandbox_step h)\<^sup>*\<^sup>* s0 s"
    and "perform h c s = (Inr reply, s')" and "granted_claim reply = Some (x, token, generation)"
  shows "holding s x = None \<and> holding s' x = Some (token, generation) \<and> \<not> issued h s token \<and>
    (\<forall>y. y \<noteq> x \<longrightarrow> holding s' y = holding s y)"
  using run_with_result(1) [OF assms(3) perform_exclusive [OF sandbox_reachable [OF assms(1,2)]]] assms(4)
  by (simp add: exclusive_def)

theorem grants_are_exclusive_witness:
  "holding sbx_open (OwnerResource (oc_digest sample_owner)) = None \<and>
     holding sbx_owned (OwnerResource (oc_digest sample_owner)) = Some ([], 1)"
proof -
  have "fst (perform sandbox_sample_host (AcquireOwner ''o'') sbx_open) = Inr (OwnerReply sample_owner)" by code_simp
  then have run: "perform sandbox_sample_host (AcquireOwner ''o'') sbx_open = (Inr (OwnerReply sample_owner), sbx_owned)"
    by (simp add: prod_eq_iff sbx_owned_def)
  have "oc_token sample_owner = []" "oc_generation sample_owner = 1" by (simp_all add: sample_owner_def)
  then show ?thesis
    using grants_are_exclusive [OF sbx_init sbx_reached(1) run] by simp
qed

text \<open>
  C28. A claim that lost its fence never gets it back: once an owner, warm-slot or cleanup claim
  with an issued token is refused, because it was released, completed or superseded or because
  the state was closed, it is refused in every later state. Cleanup records are removed and
  created again with the same generations; it is the token that keeps old claims out.
\<close>

theorem lost_claims_stay_lost:
  assumes "sandbox_init h s0" and "(sandbox_step h)\<^sup>*\<^sup>* s0 s" and "(sandbox_step h)\<^sup>*\<^sup>* s s'"
  shows "(issued h s (oc_token c) \<and> claimed_record c s = Inl e \<longrightarrow> (\<exists>e'. claimed_record c s' = Inl e')) \<and>
    (issued h s (wc_token w) \<and> claimed_warm_slot w s = Inl e \<longrightarrow> (\<exists>e'. claimed_warm_slot w s' = Inl e')) \<and>
    (issued h s (lc_token l) \<and> claimed_cleanup l s = Inl e \<longrightarrow> (\<exists>e'. claimed_cleanup l s' = Inl e'))"
proof -
  have inv: "sandbox_inv h s" by (rule sandbox_reachable [OF assms(1,2)])
  have open_back: "ensure_state_open s = None" if "ensure_state_open s' = None" "issued h s t" for t
  proof -
    have "sb_started s" using inv that(2) by (auto simp: sandbox_inv_def issued_def)
    moreover have "\<not> sb_closed s"
      using sandboxes.stable_steps [where P = sb_closed, OF _ assms(3) inv] step_sound that(1)
      by (auto simp: ensure_state_open_None advances_def)
    ultimately show ?thesis by (simp add: ensure_state_open_None)
  qed
  have kept: "holding s x = Some (t, g)" if "holding s' x = Some (t, g)" "issued h s t" for x t g
    using sandboxes.lost_stays_lost [OF assms(3) inv, of "(t, g)" x] that by auto
  have refused: "(\<exists>e. r = Inl e) \<longleftrightarrow> (\<nexists>v. r = Inr v)" for r :: "sandbox_error + 'x" by (cases r) auto
  show ?thesis
  proof (intro conjI impI; elim conjE)
    assume "issued h s (oc_token c)" "claimed_record c s = Inl e"
    then show "\<exists>e'. claimed_record c s' = Inl e'"
      using open_back kept claimed_holding(1) [of c] unfolding refused by (metis sum.distinct(1))
  next
    assume "issued h s (wc_token w)" "claimed_warm_slot w s = Inl e"
    then show "\<exists>e'. claimed_warm_slot w s' = Inl e'"
      using open_back kept claimed_holding(2) [of w] unfolding refused by (metis sum.distinct(1))
  next
    assume "issued h s (lc_token l)" "claimed_cleanup l s = Inl e"
    then show "\<exists>e'. claimed_cleanup l s' = Inl e'"
      using open_back kept claimed_holding(3) [of l] unfolding refused by (metis sum.distinct(1))
  qed
qed

theorem lost_claims_stay_lost_witness: "\<exists>e. claimed_record sample_owner sbx_next = Inl e"
proof -
  have "claimed_record sample_owner sbx_released = Inl (OpenSandboxStateOwnershipError (OwnerClaimLost ''o''))"
    "sb_tokens sbx_released = 2" by code_simp+
  moreover have "issued sandbox_sample_host sbx_released (oc_token sample_owner)"
    unfolding issued_def calculation(2) by (rule exI [of _ 0]) (simp add: sample_owner_def sandbox_sample_host_def)
  moreover have "(sandbox_step sandbox_sample_host)\<^sup>*\<^sup>* sbx_released sbx_next"
    unfolding sbx_next_def by (rule r_into_rtranclp) (rule sbx_step)
  ultimately show ?thesis
    using lost_claims_stay_lost [OF sbx_init sbx_reached(6), of sbx_next sample_owner] by blast
qed

section \<open>No sandbox is forgotten\<close>

lemma in_bound: "wf_dict (sb_records s) \<Longrightarrow> x \<in> set (bound_sandboxes s) \<longleftrightarrow>
    (\<exists>d r b. dget (sb_records s) d = Some r \<and> or_binding r = Some b \<and> bi_sandbox b = x)"
proof -
  assume wf: "wf_dict (sb_records s)"
  have "x \<in> set (bound_sandboxes s) \<longleftrightarrow> (\<exists>r \<in> set (dvals (sb_records s)). \<exists>b. or_binding r = Some b \<and> bi_sandbox b = x)"
    by (force simp: bound_sandboxes_def split: option.splits)
  then show ?thesis using in_dvals_iff [OF wf] by blast
qed

lemma in_warm: "x \<in> set (warm_sandboxes s) \<longleftrightarrow> (\<exists>i < length (sb_slots s). ws_sandbox (sb_slots s ! i) = Some x)"
  by (force simp: warm_sandboxes_def in_set_conv_nth split: option.splits)

lemma in_cleanup: "x \<in> set (dkeys (sb_cleanup s)) \<longleftrightarrow> dget (sb_cleanup s) x \<noteq> None"
  using dget_None_notin [of "sb_cleanup s" x] by simp

text \<open>Where a sandbox is kept.\<close>

definition kept_at :: "sandbox_state \<Rightarrow> py_str \<Rightarrow> bool" where
  "kept_at s x \<longleftrightarrow> (\<exists>d r b. dget (sb_records s) d = Some r \<and> or_binding r = Some b \<and> bi_sandbox b = x) \<or>
     (\<exists>i < length (sb_slots s). ws_sandbox (sb_slots s ! i) = Some x) \<or> dget (sb_cleanup s) x \<noteq> None"

lemma kept_iff: "sandbox_inv h s \<Longrightarrow> x \<in> set (kept_sandboxes s) \<longleftrightarrow> kept_at s x"
  using in_bound [of s x]
  unfolding kept_sandboxes_def kept_at_def set_append Un_iff in_warm in_cleanup by (simp add: sandbox_inv_def)

text \<open>Which calls may drop a sandbox.\<close>

definition may_drop :: "sandbox_state \<Rightarrow> sandbox_call \<Rightarrow> py_str \<Rightarrow> bool" where
  "may_drop s c x \<longleftrightarrow>
     (\<exists>claim r b. (c = UnbindOwner claim \<or> c = ConsumeWarm claim \<or> (\<exists>y p. c = BindOwner claim y p)) \<and>
        claimed_record claim s = Inr r \<and> or_binding r = Some b \<and> bi_sandbox b = x) \<or>
     (\<exists>w y slot. c = PublishWarm w y \<and> claimed_warm_slot w s = Inr slot \<and> ws_sandbox slot = Some x) \<or>
     (\<exists>l r. c = CompleteCleanup l \<and> claimed_cleanup l s = Inr r \<and> lc_sandbox l = x)"

lemma kept_put_record:
  "kept_at s x \<Longrightarrow> (\<And>r. dget (sb_records s) d = Some r \<Longrightarrow> or_binding r' = or_binding r) \<Longrightarrow> kept_at (put_record d r' s) x"
  unfolding kept_at_def by (simp, metis)

lemma kept_replaced:
  "kept_at s x \<Longrightarrow> (\<And>r b. dget (sb_records s) d = Some r \<Longrightarrow> or_binding r = Some b \<Longrightarrow> bi_sandbox b \<noteq> x) \<Longrightarrow> kept_at (put_record d r' s) x"
  unfolding kept_at_def by (simp, metis)

lemma kept_put_slot:
  "kept_at s x \<Longrightarrow> i < length (sb_slots s) \<Longrightarrow> (ws_sandbox (sb_slots s ! i) = Some x \<Longrightarrow> ws_sandbox slot = Some x) \<Longrightarrow>
     kept_at (put_slot i slot s) x"
  unfolding kept_at_def by (simp add: nth_list_update, metis)

lemma kept_put_cleanup: "kept_at s x \<Longrightarrow> kept_at (put_cleanup z l s) x" "kept_at (put_cleanup x l s) x"
  by (auto simp: kept_at_def)

lemma kept_default_cleanup: "kept_at s x \<Longrightarrow> kept_at (default_cleanup z s) x" "kept_at (default_cleanup x s) x"
  using kept_put_cleanup by (auto simp: default_cleanup_def kept_at_def)

lemma kept_bumped [simp]: "kept_at (bumped n s) = kept_at s" "kept_at (s\<lparr>sb_holders := H\<rparr>) = kept_at s" "kept_at (s\<lparr>sb_closed := b\<rparr>) = kept_at s"
  by (simp_all add: kept_at_def fun_eq_iff)

definition keeps_sandbox :: "py_str \<Rightarrow> 'a sandbox_op \<Rightarrow> sandbox_state \<Rightarrow> bool" where
  "keeps_sandbox x m s \<longleftrightarrow> run_with m (\<lambda>_ s'. kept_at s' x) (\<lambda>_ s'. kept_at s' x) s"

lemma keeps_reply [simp]: "keeps_sandbox x (reply_with f m) s = keeps_sandbox x m s"
  by (simp add: keeps_sandbox_def reply_with_def wp)

lemma reading_keeps:
  assumes "kept_at s x"
  shows "keeps_sandbox x (renew_owner c) s" "keeps_sandbox x (read_unlocked d) s" "keeps_sandbox x (read_availability h k) s"
    "keeps_sandbox x (get_holder_updates i) s" "keeps_sandbox x (holders_are_idle c a) s" "keeps_sandbox x warm_pool_ready s"
    "keeps_sandbox x (renew_warm w) s" "keeps_sandbox x (renew_cleanup l) s" "keeps_sandbox x shutdown_sandbox_ids s"
    "keeps_sandbox x close_state s" "keeps_sandbox x (register_holder c i) s" "keeps_sandbox x (acknowledge_idle i a) s"
    "keeps_sandbox x (unregister_holder i a) s" "keeps_sandbox x (enqueue_cleanup y) s"
  using assms
  by (simp_all add: keeps_sandbox_def renew_owner_def read_unlocked_def read_availability_def get_holder_updates_def
      holders_are_idle_def warm_pool_ready_def renew_warm_def renew_cleanup_def shutdown_sandbox_ids_def close_state_def
      register_holder_def acknowledge_idle_def unregister_holder_def enqueue_cleanup_def kept_default_cleanup wp
      split: option.split sum.split prod.split)

lemma start_keeps: "sandbox_inv h s \<Longrightarrow> kept_at s x \<Longrightarrow> keeps_sandbox x (start_state n) s"
proof -
  assume inv: "sandbox_inv h s" and kept: "kept_at s x"
  have "kept_at (s\<lparr>sb_slots := map new_warm_slot [0..<nat n], sb_pool_size := Some n, sb_started := True\<rparr>) x" if "\<not> sb_started s"
  proof -
    have "sb_slots s = []" using inv that by (simp add: sandbox_inv_def)
    then have "(\<exists>d r b. dget (sb_records s) d = Some r \<and> or_binding r = Some b \<and> bi_sandbox b = x) \<or> dget (sb_cleanup s) x \<noteq> None"
      using kept by (simp add: kept_at_def)
    then show ?thesis unfolding kept_at_def by simp blast
  qed
  then show ?thesis
    using kept by (simp add: keeps_sandbox_def start_state_def wp split: option.split prod.split)
qed

lemma lock_keeps: "kept_at s x \<Longrightarrow> keeps_sandbox x (lock_owner h k d) s"
  by (auto simp: keeps_sandbox_def lock_owner_def fresh_token_def wp intro!: kept_put_record split: option.split)

lemma find_keeps:
  assumes "kept_at s x" and "\<And>d s'. kept_at s' x \<Longrightarrow> keeps_sandbox x (m d) s'"
  shows "keeps_sandbox x (bind (find_record h k) m) s"
proof -
  let ?d = "owner_digest h (sb_namespace s) k"
  have "kept_at (put_record ?d new_owner_record s) x" if "dget (sb_records s) ?d = None"
    using kept_put_record [OF assms(1), of ?d new_owner_record] that by simp
  then show ?thesis
    using assms by (simp add: keeps_sandbox_def find_record_def wp split: option.split)
qed

lemma owner_keeps:
  assumes "kept_at s x"
  shows "keeps_sandbox x (acquire_owner h k) s" "keeps_sandbox x (read_binding h k) s"
    "keeps_sandbox x (resume_with h k (lock_owner h k)) s" "keeps_sandbox x (resume_with h k read_unlocked) s"
    "keeps_sandbox x (release_owner c) s" "keeps_sandbox x (change_availability c a p f) s"
proof -
  show "keeps_sandbox x (acquire_owner h k) s" "keeps_sandbox x (read_binding h k) s"
    unfolding acquire_owner_def read_binding_def using find_keeps [OF assms] lock_keeps reading_keeps(2) by blast+
  show "keeps_sandbox x (resume_with h k (lock_owner h k)) s" "keeps_sandbox x (resume_with h k read_unlocked) s"
    using lock_keeps [OF assms, of h k] reading_keeps(2) [OF assms] by (simp_all add: keeps_sandbox_def resume_with_def wp)
  show "keeps_sandbox x (release_owner c) s" "keeps_sandbox x (change_availability c a p f) s"
    using assms by (auto simp: keeps_sandbox_def release_owner_def change_availability_def wp expected_availability_Inr claimed_record_Inr
        intro!: kept_put_record split: option.split sum.split)
qed

lemma claimed_record_replaced:
  assumes "kept_at s x" and "claimed_record claim s = Inr r" and "\<And>b. or_binding r = Some b \<Longrightarrow> bi_sandbox b \<noteq> x"
  shows "kept_at (put_record (oc_digest claim) r' s) x"
  by (rule kept_replaced [OF assms(1)]) (use assms(2,3) in \<open>simp add: claimed_record_Inr\<close>)

lemma binding_keeps:
  assumes "kept_at s x"
  shows "\<not> may_drop s (BindOwner claim y p) x \<Longrightarrow> keeps_sandbox x (bind_owner claim y p) s"
    "\<not> may_drop s (UnbindOwner claim) x \<Longrightarrow> keeps_sandbox x (unbind_owner claim) s"
proof -
  assume drop: "\<not> may_drop s (BindOwner claim y p) x"
  then have "bi_sandbox b \<noteq> x" if "claimed_record claim s = Inr r" "or_binding r = Some b" for r b
    using that by (auto simp: may_drop_def)
  then show "keeps_sandbox x (bind_owner claim y p) s"
    using assms claimed_record_replaced [OF assms]
    by (auto simp: keeps_sandbox_def bind_owner_def wp split: sum.split prod.split)
next
  assume drop: "\<not> may_drop s (UnbindOwner claim) x"
  have same: "claimed_record claim (s\<lparr>sb_holders := H\<rparr>) = claimed_record claim s" for H
    by (simp add: claimed_record_def ensure_state_open_def)
  have other: "bi_sandbox b \<noteq> x" if "claimed_record claim s = Inr r" "or_binding r = Some b" for r b
    using that drop by (auto simp: may_drop_def)
  have "kept_at (put_record (oc_digest claim) r' (s\<lparr>sb_holders := H\<rparr>)) x" if "claimed_record claim s = Inr r" for r r' H
    by (rule claimed_record_replaced [where r = r]) (use assms that other same in auto)
  then show "keeps_sandbox x (unbind_owner claim) s"
    using assms by (auto simp: keeps_sandbox_def unbind_owner_def wp split: sum.split)
qed

lemma warm_keeps:
  assumes kept: "kept_at s x"
  shows "keeps_sandbox x (claim_warm_slot h) s" "keeps_sandbox x (claim_ready_warm_slot h e) s"
    "keeps_sandbox x (release_warm w) s" "keeps_sandbox x (discard_ready_warm_slot c) s"
    "\<not> may_drop s (PublishWarm w y) x \<Longrightarrow> keeps_sandbox x (publish_warm w y) s"
proof -
  have claim: "run_with (claim_slot h i) (\<lambda>_ s'. kept_at s' x) E s" if "i < length (sb_slots s)" for i and E :: "sandbox_error \<Rightarrow> sandbox_state \<Rightarrow> bool"
    using that kept_put_slot [of "bumped (Suc (sb_tokens s)) s" x i] kept by (simp add: claim_slot_def fresh_token_def wp)
  show "keeps_sandbox x (claim_warm_slot h) s" "keeps_sandbox x (claim_ready_warm_slot h e) s"
    using kept claim first_slot_Some [of _ "sb_slots s"]
    by (auto simp: keeps_sandbox_def claim_warm_slot_def claim_ready_warm_slot_def wp split: option.split prod.split)
  show "keeps_sandbox x (release_warm w) s"
    using kept kept_put_slot [OF kept] by (simp add: keeps_sandbox_def release_warm_def wp Let_def)
  have "kept_at (default_cleanup (wc_sandbox c) (put_slot (wc_slot c) (slot\<lparr>ws_sandbox := None, ws_token := None\<rparr>) s)) x"
    if c: "claimed_warm_slot c s = Inr slot" "ws_sandbox slot = Some (wc_sandbox c)" for slot
  proof (cases "wc_sandbox c = x")
    case True
    then show ?thesis by (simp add: default_cleanup_def kept_at_def)
  next
    case False
    then have "kept_at (put_slot (wc_slot c) (slot\<lparr>ws_sandbox := None, ws_token := None\<rparr>) s) x"
      by (intro kept_put_slot [OF kept]) (use c in \<open>auto simp: claimed_warm_slot_Inr\<close>)
    then show ?thesis by (rule kept_default_cleanup)
  qed
  then show "keeps_sandbox x (discard_ready_warm_slot c) s"
    using kept by (auto simp: keeps_sandbox_def discard_ready_warm_slot_def wp split: sum.split option.split)
  assume drop: "\<not> may_drop s (PublishWarm w y) x"
  have "kept_at (put_slot (wc_slot w) (slot\<lparr>ws_sandbox := Some y, ws_token := None\<rparr>) s) x"
    if "claimed_warm_slot w s = Inr slot" for slot
    by (rule kept_put_slot [OF kept]) (use that drop in \<open>auto simp: claimed_warm_slot_Inr may_drop_def\<close>)
  then show "keeps_sandbox x (publish_warm w y) s"
    using kept by (auto simp: keeps_sandbox_def publish_warm_def wp split: sum.split)
qed

lemma consume_keeps:
  assumes kept: "kept_at s x" and drop: "\<not> may_drop s (ConsumeWarm claim) x"
  shows "keeps_sandbox x (consume_warm claim) s"
proof -
  have "kept_at (put_slot i ((sb_slots s ! i)\<lparr>ws_sandbox := None\<rparr>) (put_record (oc_digest claim) r' s)) x"
    if r: "claimed_record claim s = Inr r" "first_slot ready_slot (sb_slots s) = Some i"
      "commit_binding r claim (the (ws_sandbox (sb_slots s ! i))) COMMANDS = Inr (r', b)" for r r' b i
  proof (cases "ws_sandbox (sb_slots s ! i) = Some x")
    case True
    have "or_binding r' = Some b \<and> bi_sandbox b = x"
      using r(3) True by (auto simp: commit_binding_def require_Inr Let_def split: if_splits)
    then show ?thesis by (auto simp: kept_at_def)
  next
    case False
    have "kept_at (put_record (oc_digest claim) r' s) x"
      by (rule claimed_record_replaced [OF kept r(1)]) (use drop r(1) in \<open>auto simp: may_drop_def\<close>)
    then show ?thesis
      by (rule kept_put_slot) (use False first_slot_Some [OF r(2)] in simp_all)
  qed
  then show ?thesis
    using kept by (auto simp: keeps_sandbox_def consume_warm_def wp split: sum.split option.split prod.split)
qed

lemma cleanup_keeps:
  assumes kept: "kept_at s x"
  shows "keeps_sandbox x (claim_cleanup h) s" "keeps_sandbox x (release_cleanup l) s"
    "\<not> may_drop s (CompleteCleanup l) x \<Longrightarrow> keeps_sandbox x (complete_cleanup l) s"
proof -
  show "keeps_sandbox x (claim_cleanup h) s" "keeps_sandbox x (release_cleanup l) s"
    using kept by (auto simp: keeps_sandbox_def claim_cleanup_def release_cleanup_def fresh_token_def wp kept_put_cleanup
        split: option.split prod.split)
  assume drop: "\<not> may_drop s (CompleteCleanup l) x"
  have "kept_at (s\<lparr>sb_cleanup := ddel (lc_sandbox l) (sb_cleanup s)\<rparr>) x" if "claimed_cleanup l s = Inr r" for r
    using kept drop that by (auto simp: kept_at_def may_drop_def)
  then show "keeps_sandbox x (complete_cleanup l) s"
    using kept by (auto simp: keeps_sandbox_def complete_cleanup_def wp split: sum.split)
qed

lemma perform_keeps:
  assumes "sandbox_inv h s" and kept: "kept_at s x" and "\<not> may_drop s c x"
  shows "keeps_sandbox x (perform h c) s"
  using assms(3)
  by (cases c) (simp_all add: reading_keeps [OF kept] start_keeps [OF assms(1) kept] owner_keeps [OF kept] binding_keeps [OF kept]
      warm_keeps [OF kept] consume_keeps [OF kept] cleanup_keeps [OF kept])

text \<open>
  C29. No remote sandbox is forgotten: a sandbox that the state answers for at shutdown, because
  it is bound, warm or waits for its destruction, stays so through every call, failed calls
  included, except that a current claim replaces or removes the binding to it, publishes over it
  in its own slot, or completes its destruction.
\<close>

theorem sandboxes_not_forgotten:
  assumes "sandbox_init h s0" and "(sandbox_step h)\<^sup>*\<^sup>* s0 s" and "perform h c s = (out, s')"
    and "x \<in> set (kept_sandboxes s)" and "\<not> may_drop s c x"
  shows "x \<in> set (kept_sandboxes s')"
proof -
  have inv: "sandbox_inv h s" by (rule sandbox_reachable [OF assms(1,2)])
  have inv': "sandbox_inv h s'" using perform_result [OF inv assms(3)] by blast
  have "keeps_sandbox x (perform h c) s"
    by (rule perform_keeps [OF inv _ assms(5)]) (use assms(4) kept_iff [OF inv] in simp)
  then have "kept_at s' x" using assms(3) by (cases out) (simp_all add: keeps_sandbox_def run_with_def)
  then show ?thesis using kept_iff [OF inv'] by simp
qed

theorem sandboxes_not_forgotten_witness: "''x'' \<in> set (kept_sandboxes sbx_bound)"
proof -
  have "''x'' \<in> set (kept_sandboxes sbx_warm)" by code_simp
  moreover have "\<not> may_drop sbx_warm (ConsumeWarm sample_owner) ''x''"
  proof -
    have "map_option or_binding (dget (sb_records sbx_warm) (oc_digest sample_owner)) = Some None" by code_simp
    then show ?thesis by (auto simp: may_drop_def claimed_record_Inr)
  qed
  ultimately show ?thesis
    using sandboxes_not_forgotten [OF sbx_init sbx_reached(4) surjective_pairing, of "''x''" "ConsumeWarm sample_owner"]
    by (simp add: sbx_bound_def)
qed

end
