(* ===== verification/Sbx_Drain_Props.thy ===== *)
theory Sbx_Drain_Props
  imports Sbx_Props
begin

text \<open>
  The hand-over of a warm sandbox to its owner, the abstract machine that the calls about an owner
  refine, and the protocol by which a sandbox is drained before it is paused.
\<close>

section \<open>Handing over a warm sandbox\<close>

lemma commit_binding_Inr:
  "commit_binding r c x p = Inr (r', b) \<Longrightarrow> b = \<lparr>bi_sandbox = x, bi_generation = oc_generation c, bi_purpose = p\<rparr> \<and>
     or_binding r' = Some b \<and> or_token r' = or_token r \<and> or_generation r' = or_generation r \<and>
     (or_binding r \<noteq> Some b \<longrightarrow> or_availability r' = Some \<lparr>av_digest = oc_digest c, av_sandbox = x,
        av_binding = oc_generation c, av_sequence = 0, av_phase = PHASE_RUNNING, av_connection = 0\<rparr>)"
  by (auto simp: commit_binding_def require_Inr Let_def split: if_splits)

lemma require_binding_purpose_None:
  "require_binding_purpose binding p = None \<longleftrightarrow> (\<forall>b. binding = Some b \<longrightarrow> bi_purpose b = p)"
proof (cases binding)
  case (Some b)
  then show ?thesis
    by (cases "bi_purpose b"; cases p)
      (simp_all add: require_binding_purpose_def require_purpose_def validate_purpose_def purpose_text_def)
qed (simp add: require_binding_purpose_def)

text \<open>The three ways a sandbox is asked for under a current claim.\<close>

lemma consume_warm_eq:
  assumes "claimed_record claim s = Inr r"
  shows "require_binding_purpose (or_binding r) COMMANDS = Some e \<Longrightarrow> consume_warm claim s = (Inl e, s)"
    and "require_binding_purpose (or_binding r) COMMANDS = None \<Longrightarrow> first_slot ready_slot (sb_slots s) = None \<Longrightarrow>
      consume_warm claim s = (Inr None, s)"
    and "require_binding_purpose (or_binding r) COMMANDS = None \<Longrightarrow> first_slot ready_slot (sb_slots s) = Some i \<Longrightarrow>
      ws_sandbox (sb_slots s ! i) = Some x \<Longrightarrow> commit_binding r claim x COMMANDS = Inr (r', b) \<Longrightarrow>
      consume_warm claim s = (Inr (Some b), put_slot i ((sb_slots s ! i)\<lparr>ws_sandbox := None\<rparr>) (put_record (oc_digest claim) r' s))"
  by (simp_all add: consume_warm_def bind_def seq_def try_gets_def lift_def check_def gets_def modify_def ret_def assms)

lemma first_slot_least: "first_slot P slots = Some i \<Longrightarrow> j < i \<Longrightarrow> \<not> P (slots ! j)"
proof (induction slots arbitrary: i j)
  case (Cons slot slots)
  then show ?case by (cases j) (auto split: if_splits)
qed simp

text \<open>
  C30. Consuming a warm sandbox is atomic. Either the owner gets the first published sandbox
  that nobody is verifying: the slot is emptied, the binding is for commands under the claim's
  generation, it is running and unpaused, and no other owner, slot or cleanup changes. Or there is
  no such sandbox and nothing changes. An owner that is bound for workspaces is refused, and
  nothing changes.
\<close>

theorem consume_warm_hands_over:
  assumes "consume_warm claim s = (out, s')" and "claimed_record claim s = Inr r"
  shows "case out of
      Inl e \<Rightarrow> s' = s \<and> (\<exists>b. or_binding r = Some b \<and> bi_purpose b = WORKSPACES)
    | Inr None \<Rightarrow> s' = s \<and> (\<forall>slot \<in> set (sb_slots s). \<not> ready_slot slot)
    | Inr (Some b) \<Rightarrow> \<exists>i r'. i < length (sb_slots s) \<and> ready_slot (sb_slots s ! i) \<and> (\<forall>j < i. \<not> ready_slot (sb_slots s ! j)) \<and>
        ws_sandbox (sb_slots s ! i) = Some (bi_sandbox b) \<and>
        sb_slots s' = (sb_slots s)[i := (sb_slots s ! i)\<lparr>ws_sandbox := None\<rparr>] \<and>
        bi_purpose b = COMMANDS \<and> bi_generation b = oc_generation claim \<and>
        claimed_record claim s' = Inr r' \<and> or_binding r' = Some b \<and>
        (or_binding r \<noteq> Some b \<longrightarrow> (\<exists>a. or_availability r' = Some a \<and> av_phase a = PHASE_RUNNING \<and> av_sequence a = 0)) \<and>
        (\<forall>d. d \<noteq> oc_digest claim \<longrightarrow> dget (sb_records s') d = dget (sb_records s) d) \<and>
        sb_cleanup s' = sb_cleanup s \<and> sb_holders s' = sb_holders s"
proof (cases "require_binding_purpose (or_binding r) COMMANDS")
  case (Some e)
  then have "\<exists>b. or_binding r = Some b \<and> bi_purpose b = WORKSPACES"
    using require_binding_purpose_None [of "or_binding r" COMMANDS] sandbox_purpose.exhaust by auto
  moreover have "out = Inl e \<and> s' = s"
    using consume_warm_eq(1) [OF assms(2) Some] assms(1) by simp
  ultimately show ?thesis by simp
next
  case None
  show ?thesis
  proof (cases "first_slot ready_slot (sb_slots s)")
    case none: None
    then have "out = Inr None" "s' = s" using consume_warm_eq(2) [OF assms(2) None none] assms(1) by simp_all
    then show ?thesis using first_slot_None [of ready_slot] none by simp
  next
    case (Some i)
    let ?slot = "sb_slots s ! i"
    have i: "i < length (sb_slots s)" "ready_slot ?slot" using first_slot_Some [OF Some] by blast+
    then obtain x where x: "ws_sandbox ?slot = Some x" by (auto simp: ready_slot_def)
    obtain r' b where commit: "commit_binding r claim x COMMANDS = Inr (r', b)"
      using None by (cases "commit_binding r claim x COMMANDS") (auto simp: commit_binding_def Let_def split: if_splits)
    have out: "out = Inr (Some b)" "s' = put_slot i (?slot\<lparr>ws_sandbox := None\<rparr>) (put_record (oc_digest claim) r' s)"
      using consume_warm_eq(3) [OF assms(2) None Some x commit] assms(1) by simp_all
    note b = commit_binding_Inr [OF commit]
    have "claimed_record claim s' = Inr r'"
      using b assms(2) by (simp add: claimed_record_Inr out(2) ensure_state_open_None)
    then show ?thesis
      using i x b first_slot_least [OF Some] unfolding out(1) sum.case option.case
      by (intro exI [of _ i] exI [of _ r']) (auto simp: out(2))
  qed
qed

theorem consume_warm_hands_over_witness:
  "\<exists>b. fst (consume_warm sample_owner sbx_warm) = Inr (Some b) \<and> bi_sandbox b = ''x'' \<and> bi_purpose b = COMMANDS"
proof -
  obtain out s' where run: "consume_warm sample_owner sbx_warm = (out, s')" by fastforce
  have vals: "(case fst (consume_warm sample_owner sbx_warm) of Inr (Some b) \<Rightarrow> bi_sandbox b | _ \<Rightarrow> []) = ''x''"
    "(case claimed_record sample_owner sbx_warm of Inr r \<Rightarrow> or_token r | _ \<Rightarrow> None) = Some []" by code_simp+
  obtain r where r: "claimed_record sample_owner sbx_warm = Inr r"
    using vals(2) by (auto split: sum.splits)
  obtain b where "out = Inr (Some b)" "bi_sandbox b = ''x''"
    using vals(1) run by (auto split: sum.splits option.splits)
  then show ?thesis using consume_warm_hands_over [OF run r] by (auto simp: run)
qed

section \<open>An owner as an abstract machine\<close>

text \<open>
  The protocol of one owner, whatever the calls of others in between. A step is labelled with a
  call and its outcome. Each rule demands what the call must prove (that it holds the current
  claim, or that nobody does) and fixes what the owner's record becomes; a call that is refused
  changes nothing, and a call that is about another owner, a slot, a cleanup or a holder does not
  change this owner.
\<close>

inductive phase_follows :: "availability_phase \<Rightarrow> availability_phase \<Rightarrow> bool" where
  drains: "p = PHASE_RUNNING \<or> p = PHASE_PAUSED \<Longrightarrow> phase_follows p PHASE_DRAINING"
| pausing: "phase_follows PHASE_DRAINING PHASE_PAUSING"
| pauses: "p = PHASE_DRAINING \<or> p = PHASE_PAUSING \<or> p = PHASE_RESUMING \<Longrightarrow> phase_follows p PHASE_PAUSED"
| resuming: "p = PHASE_RUNNING \<or> p = PHASE_PAUSED \<Longrightarrow> phase_follows p PHASE_RESUMING"
| runs: "p = PHASE_DRAINING \<or> p = PHASE_PAUSING \<or> p = PHASE_RESUMING \<Longrightarrow> phase_follows p PHASE_RUNNING"
| unknown: "p = PHASE_PAUSING \<or> p = PHASE_RESUMING \<Longrightarrow> phase_follows p PHASE_UNCERTAIN"

definition holds_claim :: "owner_record \<Rightarrow> owner_claim \<Rightarrow> bool" where
  "holds_claim r c \<longleftrightarrow> or_token r = Some (oc_token c) \<and> or_generation r = oc_generation c"

definition binding_under :: "owner_claim \<Rightarrow> py_str \<Rightarrow> sandbox_purpose \<Rightarrow> sandbox_binding" where
  "binding_under c x p = \<lparr>bi_sandbox = x, bi_generation = oc_generation c, bi_purpose = p\<rparr>"

definition first_availability :: "owner_claim \<Rightarrow> py_str \<Rightarrow> availability" where
  "first_availability c x = \<lparr>av_digest = oc_digest c, av_sandbox = x, av_binding = oc_generation c,
     av_sequence = 0, av_phase = PHASE_RUNNING, av_connection = 0\<rparr>"

text \<open>The calls that may bind a sandbox, and the owner that a call may change.\<close>

inductive binds :: "sandbox_call \<Rightarrow> owner_claim \<Rightarrow> py_str \<Rightarrow> sandbox_purpose \<Rightarrow> bool" where
  directly: "binds (BindOwner c x p) c x p"
| from_pool: "binds (ConsumeWarm c) c x COMMANDS"

fun changed_owner :: "(py_str \<Rightarrow> py_str) \<Rightarrow> sandbox_call \<Rightarrow> py_str option" where
  "changed_owner digest (AcquireOwner k) = Some (digest k)"
| "changed_owner digest (ResumeAcquire k) = Some (digest k)"
| "changed_owner digest (ReleaseOwner c) = Some (oc_digest c)"
| "changed_owner digest (BindOwner c x p) = Some (oc_digest c)"
| "changed_owner digest (ConsumeWarm c) = Some (oc_digest c)"
| "changed_owner digest (UnbindOwner c) = Some (oc_digest c)"
| "changed_owner digest (ChangeAvailability c a p f) = Some (oc_digest c)"
| "changed_owner digest _ = None"

type_synonym call_label = "sandbox_call \<times> (sandbox_error + sandbox_reply)"

inductive owner_rule :: "py_str \<Rightarrow> owner_record \<Rightarrow> call_label \<Rightarrow> owner_record \<Rightarrow> bool" for d :: py_str where
  refused: "owner_rule d r (call, Inl e) r"
| waits: "call = AcquireOwner k \<or> call = ResumeAcquire k \<Longrightarrow> or_token r \<noteq> None \<Longrightarrow>
    owner_rule d r (call, Inr Waiting) r"
| never_asked: "owner_rule d new_owner_record (ResumeAcquire k, Inr Waiting) new_owner_record"
| acquired: "call = AcquireOwner k \<or> call = ResumeAcquire k \<Longrightarrow> or_token r = None \<Longrightarrow>
    owner_rule d r (call, Inr (OwnerReply \<lparr>oc_key = k, oc_digest = d, oc_token = t,
        oc_generation = or_generation r + 1, oc_binding = or_binding r\<rparr>))
      (r\<lparr>or_generation := or_generation r + 1, or_token := Some t\<rparr>)"
| released: "or_token r = Some (oc_token c) \<Longrightarrow>
    owner_rule d r (ReleaseOwner c, Inr NoReply) (r\<lparr>or_token := None\<rparr>)"
| lost_already: "or_token r \<noteq> Some (oc_token c) \<Longrightarrow> owner_rule d r (ReleaseOwner c, Inr NoReply) r"
| bound: "binds call c x p \<Longrightarrow> holds_claim r c \<Longrightarrow> or_binding r \<noteq> Some (binding_under c x p) \<Longrightarrow>
    (\<forall>b. or_binding r = Some b \<longrightarrow> bi_purpose b = p) \<Longrightarrow>
    owner_rule d r (call, Inr (BindingReply (Some (binding_under c x p))))
      (r\<lparr>or_binding := Some (binding_under c x p), or_availability := Some (first_availability c x)\<rparr>)"
| bound_already: "binds call c x p \<Longrightarrow> holds_claim r c \<Longrightarrow> or_binding r = Some (binding_under c x p) \<Longrightarrow>
    owner_rule d r (call, Inr (BindingReply (Some (binding_under c x p)))) r"
| none_ready: "holds_claim r c \<Longrightarrow> owner_rule d r (ConsumeWarm c, Inr (BindingReply None)) r"
| unbound: "holds_claim r c \<Longrightarrow>
    owner_rule d r (UnbindOwner c, Inr NoReply) (r\<lparr>or_binding := None, or_availability := None\<rparr>)"
| changed: "holds_claim r c \<Longrightarrow> or_availability r = Some a \<Longrightarrow> phase_follows (av_phase a) p \<Longrightarrow> f \<longrightarrow> p = PHASE_RUNNING \<Longrightarrow>
    b = a\<lparr>av_phase := p, av_sequence := av_sequence a + 1, av_connection := av_connection a + of_bool f\<rparr> \<Longrightarrow>
    owner_rule d r (ChangeAvailability c a p f, Inr (AvailabilityReply (Some b))) (r\<lparr>or_availability := Some b\<rparr>)"

definition owner_spec :: "(py_str \<Rightarrow> py_str) \<Rightarrow> py_str \<Rightarrow> owner_record \<Rightarrow> call_label \<Rightarrow> owner_record \<Rightarrow> bool" where
  "owner_spec digest d r l r' \<longleftrightarrow> (if changed_owner digest (fst l) = Some d then owner_rule d r l r' else r' = r)"

text \<open>Runs of labelled steps, of the state and of the machine.\<close>

fun labelled_run :: "('s \<Rightarrow> 'l \<Rightarrow> 's \<Rightarrow> bool) \<Rightarrow> 's \<Rightarrow> 'l list \<Rightarrow> 's \<Rightarrow> bool" where
  "labelled_run step s [] s' \<longleftrightarrow> s' = s"
| "labelled_run step s (l # ls) s' \<longleftrightarrow> (\<exists>t. step s l t \<and> labelled_run step t ls s')"

definition call_step :: "sandbox_host \<Rightarrow> sandbox_state \<Rightarrow> call_label \<Rightarrow> sandbox_state \<Rightarrow> bool" where
  "call_step h s l s' \<longleftrightarrow> perform h (fst l) s = (snd l, s')"

text \<open>An owner nobody asked for yet is as good as one with an empty record.\<close>

definition owner_view :: "sandbox_state \<Rightarrow> py_str \<Rightarrow> owner_record" where
  "owner_view s d = (case dget (sb_records s) d of None \<Rightarrow> new_owner_record | Some r \<Rightarrow> r)"

lemma view_put_record [simp]: "owner_view (put_record d r s) = (owner_view s)(d := r)"
  by (simp add: owner_view_def fun_eq_iff)

lemma view_record: "dget (sb_records s) d = Some r \<Longrightarrow> owner_view s d = r"
  by (simp add: owner_view_def)

lemma view_fields [simp]:
  "owner_view (put_slot i w s) = owner_view s" "owner_view (put_cleanup z l s) = owner_view s"
  "owner_view (default_cleanup z s) = owner_view s" "owner_view (bumped n s) = owner_view s"
  "owner_view (s\<lparr>sb_holders := H\<rparr>) = owner_view s" "owner_view (s\<lparr>sb_cleanup := C\<rparr>) = owner_view s"
  "owner_view (s\<lparr>sb_closed := x\<rparr>) = owner_view s"
  "owner_view (s\<lparr>sb_slots := ws, sb_pool_size := p, sb_started := x\<rparr>) = owner_view s"
  by (simp_all add: owner_view_def default_cleanup_def fun_eq_iff)

lemma namespace_fields [simp]:
  "sb_namespace (put_record d r s) = sb_namespace s" "sb_namespace (put_slot i w s) = sb_namespace s"
  "sb_namespace (put_cleanup z l s) = sb_namespace s" "sb_namespace (default_cleanup z s) = sb_namespace s"
  by (simp_all add: put_record_def put_slot_def put_cleanup_def default_cleanup_def)

text \<open>Calls that change no owner at all.\<close>

definition unseen :: "sandbox_state \<Rightarrow> sandbox_state \<Rightarrow> bool" where
  "unseen s s' \<longleftrightarrow> sb_namespace s' = sb_namespace s \<and> owner_view s' = owner_view s"

definition quiet_call :: "'a sandbox_op \<Rightarrow> sandbox_state \<Rightarrow> bool" where
  "quiet_call m s \<longleftrightarrow> run_with m (\<lambda>_ s'. unseen s s') (\<lambda>_ s'. unseen s s') s"

lemma quiet_reply [simp]: "quiet_call (reply_with f m) s = quiet_call m s"
  by (simp add: quiet_call_def reply_with_def wp)

lemma quiet_calls:
  "quiet_call (start_state n) s" "quiet_call (renew_owner c) s" "quiet_call (read_unlocked d) s"
  "quiet_call (read_availability h k) s" "quiet_call (get_holder_updates i) s" "quiet_call (holders_are_idle c a) s"
  "quiet_call warm_pool_ready s" "quiet_call (renew_warm w) s" "quiet_call (renew_cleanup l) s"
  "quiet_call shutdown_sandbox_ids s" "quiet_call close_state s" "quiet_call (register_holder c i) s"
  "quiet_call (acknowledge_idle i a) s" "quiet_call (unregister_holder i a) s" "quiet_call (enqueue_cleanup x) s"
  "quiet_call (claim_warm_slot h) s" "quiet_call (claim_ready_warm_slot h e) s" "quiet_call (release_warm w) s"
  "quiet_call (discard_ready_warm_slot rc) s" "quiet_call (publish_warm w x) s" "quiet_call (claim_cleanup h) s"
  "quiet_call (release_cleanup l) s" "quiet_call (complete_cleanup l) s"
  by (auto simp: quiet_call_def unseen_def start_state_def renew_owner_def read_unlocked_def read_availability_def
      get_holder_updates_def holders_are_idle_def warm_pool_ready_def renew_warm_def renew_cleanup_def
      shutdown_sandbox_ids_def close_state_def register_holder_def acknowledge_idle_def unregister_holder_def
      enqueue_cleanup_def claim_warm_slot_def claim_ready_warm_slot_def claim_slot_def fresh_token_def release_warm_def
      discard_ready_warm_slot_def publish_warm_def claim_cleanup_def release_cleanup_def complete_cleanup_def wp Let_def
      split: option.split sum.split prod.split)

lemma find_record_unseen:
  assumes "\<And>e. unseen s s \<Longrightarrow> E e s"
    and "\<And>s'. unseen s s' \<Longrightarrow> \<exists>r. dget (sb_records s') (owner_digest h (sb_namespace s) k) = Some r \<Longrightarrow>
      Q (owner_digest h (sb_namespace s) k) s'"
  shows "run_with (find_record h k) Q E s"
proof -
  have "unseen s (put_record d new_owner_record s)" if "dget (sb_records s) d = None" for d
    using that by (simp add: unseen_def fun_eq_iff) (simp add: owner_view_def)
  then show ?thesis using assms by (auto simp: find_record_def wp unseen_def split: option.split)
qed

lemma read_binding_quiet: "quiet_call (read_binding h k) s" "quiet_call (resume_with h k read_unlocked) s"
proof -
  show "quiet_call (read_binding h k) s"
    unfolding quiet_call_def read_binding_def wp_bind
    by (rule find_record_unseen) (auto simp: read_unlocked_def wp)
  show "quiet_call (resume_with h k read_unlocked) s"
    using quiet_calls(3) by (simp add: quiet_call_def resume_with_def wp)
qed

text \<open>The steps of a call, for every owner.\<close>

definition owner_steps :: "sandbox_host \<Rightarrow> sandbox_state \<Rightarrow> call_label \<Rightarrow> sandbox_state \<Rightarrow> bool" where
  "owner_steps h s l s' \<longleftrightarrow> sb_namespace s' = sb_namespace s \<and>
     (\<forall>d. owner_spec (owner_digest h (sb_namespace s)) d (owner_view s d) l (owner_view s' d))"

definition simulated :: "sandbox_host \<Rightarrow> sandbox_call \<Rightarrow> sandbox_state \<Rightarrow> bool" where
  "simulated h c s \<longleftrightarrow> run_with (perform h c) (\<lambda>reply. owner_steps h s (c, Inr reply)) (\<lambda>e. owner_steps h s (c, Inl e)) s"

lemma steps_unseen:
  "unseen s s' \<Longrightarrow> (\<exists>e. snd l = Inl e) \<or> (\<forall>d. changed_owner (owner_digest h (sb_namespace s)) (fst l) \<noteq> Some d) \<Longrightarrow>
     owner_steps h s l s'"
  by (cases l) (auto simp: owner_steps_def unseen_def owner_spec_def intro: refused)

lemma quiet_simulated:
  "quiet_call (perform h c) s \<Longrightarrow> \<forall>d. changed_owner (owner_digest h (sb_namespace s)) c \<noteq> Some d \<Longrightarrow> simulated h c s"
  unfolding simulated_def quiet_call_def by (erule wp_mono) (auto intro!: steps_unseen)

lemma steps_put:
  assumes "sb_namespace s' = sb_namespace s" and "owner_view s' = (owner_view s)(d := r')"
    and "changed_owner (owner_digest h (sb_namespace s)) c = Some d"
    and "owner_rule d (owner_view s d) (c, out) r'"
  shows "owner_steps h s (c, out) s'"
  using assms by (auto simp: owner_steps_def owner_spec_def)

lemma steps_same:
  assumes "unseen s s'" and "changed_owner (owner_digest h (sb_namespace s)) c = Some d"
    and "owner_rule d (owner_view s d) (c, out) (owner_view s d)"
  shows "owner_steps h s (c, out) s'"
  using assms by (intro steps_put) (auto simp: unseen_def)

lemma unseen_refl [simp]: "unseen s s"
  by (simp add: unseen_def)

lemma phase_transitions_follow: "q \<in> set (phase_transitions p) \<longleftrightarrow> phase_follows p q"
  by (cases p; cases q) (auto simp: phase_transitions_def phase_follows.simps)

lemma claimed_holds: "claimed_record c s = Inr r \<Longrightarrow> holds_claim (owner_view s (oc_digest c)) c \<and> owner_view s (oc_digest c) = r"
  by (simp add: claimed_record_Inr holds_claim_def view_record)

lemma commit_binding_cases:
  assumes "commit_binding r c x p = Inr (r', b)" and "or_binding r \<noteq> None \<longrightarrow> or_availability r \<noteq> None"
  shows "b = binding_under c x p" and
    "or_binding r = Some b \<and> r' = r \<or> or_binding r \<noteq> Some b \<and> (\<forall>b. or_binding r = Some b \<longrightarrow> bi_purpose b = p) \<and>
       r' = r\<lparr>or_binding := Some b, or_availability := Some (first_availability c x)\<rparr>"
  using assms
  by (auto simp: commit_binding_def require_Inr Let_def binding_under_def first_availability_def require_binding_purpose_None
      split: if_splits)

lemma commit_steps:
  assumes inv: "sandbox_inv h s" and claimed: "claimed_record c s = Inr r" and commit: "commit_binding r c x p = Inr (r', b)"
    and "binds call c x p" and "sb_namespace s' = sb_namespace s" and "owner_view s' = (owner_view s)(oc_digest c := r')"
  shows "owner_steps h s (call, Inr (BindingReply (Some b))) s'"
proof (rule steps_put [OF assms(5,6)])
  show "changed_owner (owner_digest h (sb_namespace s)) call = Some (oc_digest c)"
    using assms(4) by (cases rule: binds.cases) simp_all
  have "record_ok h s (oc_digest c) r"
    by (rule sandbox_inv_at(1) [OF inv]) (use claimed in \<open>simp add: claimed_record_Inr\<close>)
  then have "or_binding r \<noteq> None \<longrightarrow> or_availability r \<noteq> None" by (auto simp: record_ok_def split: option.splits)
  note committed = commit_binding_cases [OF commit this]
  have r: "holds_claim r c" "owner_view s (oc_digest c) = r" using claimed_holds [OF claimed] by auto
  show "owner_rule (oc_digest c) (owner_view s (oc_digest c)) (call, Inr (BindingReply (Some b))) r'"
    using committed owner_rule.bound [OF assms(4) r(1)] owner_rule.bound_already [OF assms(4) r(1)] unfolding r(2) by auto
qed

lemma lock_simulated:
  assumes "call = AcquireOwner k \<or> call = ResumeAcquire k" and "unseen s t"
    and "d = owner_digest h (sb_namespace s) k" and "dget (sb_records t) d \<noteq> None \<or> call = ResumeAcquire k"
  shows "run_with (lock_owner h k d) (\<lambda>c. owner_steps h s (call, Inr (or_waiting OwnerReply c))) (\<lambda>e. owner_steps h s (call, Inl e)) t"
proof -
  have view: "owner_view s = owner_view t" "sb_namespace t = sb_namespace s" using assms(2) by (simp_all add: unseen_def)
  have call: "changed_owner (owner_digest h (sb_namespace s)) call = Some d" using assms(1,3) by auto
  have failed: "owner_steps h s (call, Inl e) t" for e using steps_unseen [OF assms(2)] by simp
  have absent: "owner_steps h s (call, Inr Waiting) t" if "dget (sb_records t) d = None"
  proof (rule steps_same [OF assms(2) call])
    have "owner_view s d = new_owner_record" using that view by (simp add: owner_view_def)
    then show "owner_rule d (owner_view s d) (call, Inr Waiting) (owner_view s d)"
      using never_asked assms(4) that by simp
  qed
  have held: "owner_steps h s (call, Inr Waiting) t" if "dget (sb_records t) d = Some r" "or_token r \<noteq> None" for r
    by (rule steps_same [OF assms(2) call]) (use that view in \<open>simp add: view_record waits [OF assms(1)]\<close>)
  have free: "owner_steps h s (call, Inr (OwnerReply \<lparr>oc_key = k, oc_digest = d, oc_token = tok,
      oc_generation = or_generation r + 1, oc_binding = or_binding r\<rparr>))
      (put_record d (r\<lparr>or_generation := or_generation r + 1, or_token := Some tok\<rparr>) (bumped n t))"
    if "dget (sb_records t) d = Some r" "or_token r = None" for r tok n
    by (rule steps_put [where d = d, OF _ _ call])
      (use that view assms(3) in \<open>auto simp: view_record intro!: acquired [OF assms(1)]\<close>)
  show ?thesis
    using failed absent held free by (auto simp: lock_owner_def fresh_token_def or_waiting_def wp split: option.split)
qed

lemma acquire_simulated: "simulated h (AcquireOwner k) s" "simulated h (ResumeAcquire k) s"
proof -
  show "simulated h (AcquireOwner k) s"
    unfolding simulated_def perform.simps acquire_owner_def reply_with_def wp_bind wp_ret
    by (rule find_record_unseen) (auto intro: steps_unseen intro!: lock_simulated)
  show "simulated h (ResumeAcquire k) s"
    unfolding simulated_def perform.simps resume_with_def reply_with_def wp_bind wp_ret wp_gets
    by (rule lock_simulated) simp_all
qed

lemma failed_steps [simp]: "owner_steps h s (c, Inl e) s"
  by (simp add: steps_unseen)

lemma claimed_simulated:
  assumes inv: "sandbox_inv h s"
  shows "simulated h (BindOwner c x p) s" "simulated h (ConsumeWarm c) s" "simulated h (UnbindOwner c) s"
    "simulated h (ChangeAvailability c a q f) s" "simulated h (ReleaseOwner c) s"
proof -
  show "simulated h (BindOwner c x p) s"
    using commit_steps [OF inv _ _ directly]
    by (auto simp: simulated_def reply_with_def bind_owner_def wp split: sum.split prod.split)
  have none: "owner_steps h s (ConsumeWarm c, Inr (BindingReply None)) s" if "claimed_record c s = Inr r" for r
    by (rule steps_same [where d = "oc_digest c"]) (use claimed_holds [OF that] in \<open>auto intro: none_ready\<close>)
  show "simulated h (ConsumeWarm c) s"
    using commit_steps [OF inv _ _ from_pool] none
    by (auto simp: simulated_def reply_with_def consume_warm_def wp split: sum.split option.split prod.split)
  have dropped: "owner_steps h s (UnbindOwner c, Inr NoReply)
      (put_record (oc_digest c) (r\<lparr>or_binding := None, or_availability := None\<rparr>) (s\<lparr>sb_holders := H\<rparr>))"
    if "claimed_record c s = Inr r" for r H
    by (rule steps_put [where d = "oc_digest c"]) (use claimed_holds [OF that] owner_rule.unbound in auto)
  show "simulated h (UnbindOwner c) s"
    using dropped by (auto simp: simulated_def reply_with_def unbind_owner_def wp split: sum.split)
  have moved: "owner_steps h s (ChangeAvailability c a q f, Inr (AvailabilityReply (Some b)))
      (put_record (oc_digest c) (r\<lparr>or_availability := Some b\<rparr>) s)"
    if "claimed_record c s = Inr r" "or_availability r = Some a" "next_availability a q f = Inr b" for r b
    by (rule steps_put [where d = "oc_digest c"])
      (use claimed_holds [OF that(1)] that(2,3) in \<open>auto simp: next_availability_Inr phase_transitions_follow intro!: owner_rule.changed\<close>)
  show "simulated h (ChangeAvailability c a q f) s"
    using moved by (auto simp: simulated_def reply_with_def change_availability_def wp expected_availability_Inr
        split: sum.split option.split)
  have gone: "owner_steps h s (ReleaseOwner c, Inr NoReply) (put_record (oc_digest c) (r\<lparr>or_token := None\<rparr>) s)"
    if "dget (sb_records s) (oc_digest c) = Some r" "or_token r = Some (oc_token c)" for r
    by (rule steps_put [where d = "oc_digest c"]) (use that in \<open>auto simp: view_record intro: released\<close>)
  have kept: "owner_steps h s (ReleaseOwner c, Inr NoReply) s" if "or_token (owner_view s (oc_digest c)) \<noteq> Some (oc_token c)"
    by (rule steps_same [where d = "oc_digest c"]) (use that in \<open>simp_all add: lost_already\<close>)
  show "simulated h (ReleaseOwner c) s"
    using gone kept by (auto simp: simulated_def reply_with_def release_owner_def wp owner_view_def new_owner_record_def split: option.split)
qed

lemma perform_simulated: "sandbox_inv h s \<Longrightarrow> simulated h c s"
  by (cases c) (auto simp: claimed_simulated acquire_simulated quiet_calls read_binding_quiet intro!: quiet_simulated)

lemma perform_steps: "sandbox_inv h s \<Longrightarrow> perform h c s = (out, s') \<Longrightarrow> owner_steps h s (c, out) s'"
  using perform_simulated [of h s c] by (cases out) (simp_all add: simulated_def run_with_def)

text \<open>
  What a step of the machine shows: who changes the binding or the availability holds the current
  claim, and while a binding stays its availability stays or makes one step of the protocol.
\<close>

lemma machine_demands_claim:
  "owner_rule d r l r' \<Longrightarrow> or_binding r' \<noteq> or_binding r \<or> or_availability r' \<noteq> or_availability r \<Longrightarrow> \<exists>c. holds_claim r c \<and> holds_claim r' c"
  by (cases rule: owner_rule.cases) (auto simp: holds_claim_def)

lemma machine_keeps_binding:
  "owner_rule d r l r' \<Longrightarrow> or_binding r' = or_binding r \<Longrightarrow> or_binding r \<noteq> None \<Longrightarrow> or_availability r = Some a \<Longrightarrow>
     \<exists>b. or_availability r' = Some b \<and> (b = a \<or> phase_follows (av_phase a) (av_phase b) \<and> av_sequence b = av_sequence a + 1)"
  by (cases rule: owner_rule.cases) auto

text \<open>The labels of a list of calls.\<close>

fun labels_of :: "sandbox_host \<Rightarrow> sandbox_call list \<Rightarrow> sandbox_state \<Rightarrow> call_label list" where
  "labels_of h [] s = []"
| "labels_of h (c # cs) s = (c, fst (perform h c s)) # labels_of h cs (snd (perform h c s))"

lemma labels_run: "labelled_run (call_step h) s (labels_of h cs s) (fold (\<lambda>c s. snd (perform h c s)) cs s)"
proof (induction cs arbitrary: s)
  case (Cons c cs)
  then show ?case by (auto simp: call_step_def intro!: exI [of _ "snd (perform h c s)"])
qed simp

lemma labelled_run_append:
  "labelled_run step s (ls @ ls') s' \<longleftrightarrow> (\<exists>t. labelled_run step s ls t \<and> labelled_run step t ls' s')"
  by (induction ls arbitrary: s) auto

text \<open>A machine whose every labelled step is a step of its specification under the same label.\<close>

locale labelled_simulation =
  fixes inv :: "'s \<Rightarrow> bool" and step :: "'s \<Rightarrow> 'l \<Rightarrow> 's \<Rightarrow> bool"
    and abs_of :: "'s \<Rightarrow> 'a" and spec :: "'a \<Rightarrow> 'l \<Rightarrow> 'a \<Rightarrow> bool"
  assumes step_keeps: "inv s \<Longrightarrow> step s l s' \<Longrightarrow> inv s'"
    and step_simulates: "inv s \<Longrightarrow> step s l s' \<Longrightarrow> spec (abs_of s) l (abs_of s')"
begin

lemma run_simulates: "labelled_run step s ls s' \<Longrightarrow> inv s \<Longrightarrow> labelled_run spec (abs_of s) ls (abs_of s')"
proof (induction ls arbitrary: s)
  case (Cons l ls)
  then obtain t where "step s l t" "labelled_run step t ls s'" by auto
  then show ?case using Cons step_keeps step_simulates by (auto intro!: exI [of _ "abs_of t"])
qed simp

lemma run_keeps: "labelled_run step s ls s' \<Longrightarrow> inv s \<Longrightarrow> inv s'"
  by (induction ls arbitrary: s) (auto dest: step_keeps)

end

interpretation owner_machine: labelled_simulation "\<lambda>s. sandbox_inv h s \<and> sb_namespace s = ns" "call_step h"
  "\<lambda>s. owner_view s d" "owner_spec (owner_digest h ns) d" for h ns d
proof unfold_locales
  fix s l s' assume s: "sandbox_inv h s \<and> sb_namespace s = ns" "call_step h s l s'"
  then have "owner_steps h s l s'" using perform_steps [of h s "fst l" "snd l" s'] by (simp add: call_step_def)
  then show "sandbox_inv h s' \<and> sb_namespace s' = ns" "owner_spec (owner_digest h ns) d (owner_view s d) l (owner_view s' d)"
    using s perform_result [of h s "fst l" "snd l" s'] by (auto simp: owner_steps_def call_step_def)
qed

text \<open>
  C31. Whatever calls are made from a new state, their sequence with all outcomes is, for every
  owner, a run of the machine of that owner that starts without a claim and without a binding and
  ends at the owner's record. So the binding and the availability of an owner only change by a call
  that holds its current claim, binding the same sandbox again changes nothing, a new binding
  starts running at sequence 0, the phase follows the protocol with the sequence growing by one,
  and refused calls and calls about other owners leave the owner alone.
\<close>

theorem owners_refine_machine:
  assumes "sandbox_init h s0" and "labelled_run (call_step h) s0 calls s"
  shows "labelled_run (owner_spec (owner_digest h (sb_namespace s0)) d) new_owner_record calls (owner_view s d)"
proof -
  have "owner_view s0 d = new_owner_record"
    using assms(1) by (auto simp: sandbox_init_def new_sandbox_state_def owner_view_def)
  then show ?thesis using owner_machine.run_simulates [OF assms(2), of "sb_namespace s0" d] init_inv [OF assms(1)] by simp
qed

theorem owners_refine_machine_witness:
  "\<exists>calls. length calls = 5 \<and>
     labelled_run (owner_spec (owner_digest sandbox_sample_host ''n'') (oc_digest sample_owner)) new_owner_record calls
       \<lparr>or_generation = 1, or_binding = Some (binding_under sample_owner ''x'' COMMANDS), or_token = Some [],
        or_availability = Some (first_availability sample_owner ''x'')\<rparr>"
proof -
  let ?calls = "[Start 2, AcquireOwner ''o'', ClaimWarmSlot, PublishWarm sample_slot ''x'', ConsumeWarm sample_owner]"
  have run: "labelled_run (call_step sandbox_sample_host) sbx_empty (labels_of sandbox_sample_host ?calls sbx_empty) sbx_bound"
    using labels_run [of sandbox_sample_host sbx_empty ?calls] by (simp add: sbx_defs)
  have view: "owner_view sbx_bound (oc_digest sample_owner) = \<lparr>or_generation = 1,
      or_binding = Some (binding_under sample_owner ''x'' COMMANDS), or_token = Some [],
      or_availability = Some (first_availability sample_owner ''x'')\<rparr>" by code_simp
  have "sb_namespace sbx_empty = ''n''" by (simp add: sbx_empty_def new_sandbox_state_def)
  then show ?thesis
    using owners_refine_machine [OF sbx_init run, of "oc_digest sample_owner"] unfolding view
    by (intro exI [of _ "labels_of sandbox_sample_host ?calls sbx_empty"] conjI) simp_all
qed

section \<open>Draining before a pause\<close>

text \<open>
  How the entry of a holder of an owner comes about in one step: it was there before, it is
  registered anew for the owner's current availability and has acknowledged nothing, or it
  acknowledges the owner's current availability, which is draining. Unbinding removes it.
\<close>

definition entry_after :: "call_label \<Rightarrow> sandbox_state \<Rightarrow> py_str \<Rightarrow> py_str \<Rightarrow> holder_update \<Rightarrow> bool" where
  "entry_after l s i d hu \<longleftrightarrow>
     dget (sb_holders s) (i, d) = Some hu \<and> (\<forall>c. l = (UnbindOwner c, Inr NoReply) \<longrightarrow> oc_digest c \<noteq> d) \<or>
     (\<exists>c a. l = (RegisterHolder c i, Inr (AvailabilityReply (Some a))) \<and> or_availability (owner_view s d) = Some a \<and>
        hu_digest hu = d \<and> hu_sandbox hu = av_sandbox a \<and> hu_binding hu = av_binding a \<and> hu_acknowledged hu = None) \<or>
     (\<exists>a old. l = (AcknowledgeIdle i a, Inr (Flag True)) \<and> or_availability (owner_view s d) = Some a \<and>
        av_phase a = PHASE_DRAINING \<and> dget (sb_holders s) (i, d) = Some old \<and> holder_matches old a \<and>
        hu = old\<lparr>hu_acknowledged := Some (av_sequence a)\<rparr>)"

definition entries_from :: "sandbox_call \<Rightarrow> sandbox_state \<Rightarrow> bool" where
  "entries_from c s \<longleftrightarrow> (\<forall>h. run_with (perform h c)
     (\<lambda>reply s'. \<forall>i d hu. dget (sb_holders s') (i, d) = Some hu \<longrightarrow> entry_after (c, Inr reply) s i d hu)
     (\<lambda>_ s'. sb_holders s' = sb_holders s) s)"

definition same_holders :: "'a sandbox_op \<Rightarrow> sandbox_state \<Rightarrow> bool" where
  "same_holders m s \<longleftrightarrow> run_with m (\<lambda>_ s'. sb_holders s' = sb_holders s) (\<lambda>_ s'. sb_holders s' = sb_holders s) s"

lemma same_reply [simp]: "same_holders (reply_with f m) s = same_holders m s"
  by (simp add: same_holders_def reply_with_def wp)

lemma default_cleanup_holders [simp]: "sb_holders (default_cleanup z s) = sb_holders s"
  by (simp add: default_cleanup_def)

lemma owner_calls_same_holders:
  "same_holders (lock_owner h k d) s" "same_holders (acquire_owner h k) s" "same_holders (read_binding h k) s"
  "same_holders (resume_with h k (lock_owner h k)) s" "same_holders (resume_with h k read_unlocked) s"
  "same_holders (renew_owner c) s" "same_holders (bind_owner c x p) s" "same_holders (release_owner c) s"
  "same_holders (change_availability c a q f) s" "same_holders (consume_warm c) s"
  by (auto simp: same_holders_def acquire_owner_def find_record_def lock_owner_def fresh_token_def read_binding_def
      read_unlocked_def resume_with_def renew_owner_def bind_owner_def release_owner_def change_availability_def
      consume_warm_def wp split: option.split sum.split prod.split)

lemma other_calls_same_holders:
  "same_holders (start_state n) s" "same_holders (read_availability h k) s" "same_holders (get_holder_updates i) s"
  "same_holders (holders_are_idle c a) s" "same_holders warm_pool_ready s" "same_holders (renew_warm w) s"
  "same_holders (renew_cleanup l) s" "same_holders shutdown_sandbox_ids s" "same_holders close_state s"
  "same_holders (enqueue_cleanup x) s" "same_holders (claim_warm_slot h) s" "same_holders (claim_ready_warm_slot h e) s"
  "same_holders (release_warm w) s" "same_holders (discard_ready_warm_slot rc) s" "same_holders (publish_warm w x) s"
  "same_holders (claim_cleanup h) s" "same_holders (release_cleanup l) s" "same_holders (complete_cleanup l) s"
  by (auto simp: same_holders_def start_state_def read_availability_def get_holder_updates_def holders_are_idle_def
      warm_pool_ready_def renew_warm_def renew_cleanup_def shutdown_sandbox_ids_def close_state_def enqueue_cleanup_def
      claim_warm_slot_def claim_ready_warm_slot_def claim_slot_def fresh_token_def release_warm_def
      discard_ready_warm_slot_def publish_warm_def claim_cleanup_def release_cleanup_def complete_cleanup_def wp Let_def
      split: option.split sum.split prod.split)

lemma same_entries: "(\<And>h. same_holders (perform h c) s) \<Longrightarrow> \<forall>cl. c \<noteq> UnbindOwner cl \<Longrightarrow> entries_from c s"
  unfolding entries_from_def same_holders_def
  by (intro allI) (rule wp_mono, assumption, auto simp: entry_after_def)

lemma holder_calls_entries:
  assumes inv: "sandbox_inv h s"
  shows "entries_from (RegisterHolder c i) s" "entries_from (AcknowledgeIdle i a) s" "entries_from (UnregisterHolder i a) s"
    "entries_from (UnbindOwner c) s"
proof -
  have ok: "holders_ok (sb_holders s)" using inv by (simp add: sandbox_inv_def)
  show "entries_from (RegisterHolder c i) s"
    by (auto simp: entries_from_def entry_after_def reply_with_def register_holder_def wp claimed_record_Inr view_record
        split: option.split sum.split)
  show "entries_from (AcknowledgeIdle i a) s"
    by (auto simp: entries_from_def entry_after_def reply_with_def acknowledge_idle_def wp view_record
        split: option.split prod.split)
  show "entries_from (UnregisterHolder i a) s"
    by (auto simp: entries_from_def entry_after_def reply_with_def unregister_holder_def wp split: option.split)
  let ?H = "filter (\<lambda>(key, holder). hu_digest holder \<noteq> oc_digest c) (sb_holders s)"
  have "dget (sb_holders s) (j, d) = Some hu \<and> oc_digest c \<noteq> d" if "dget ?H (j, d) = Some hu" for j d hu
  proof -
    have "((j, d), hu) \<in> set (sb_holders s)" "hu_digest hu \<noteq> oc_digest c" using that by (auto dest: map_of_SomeD)
    then show ?thesis using ok dget_iff [of "sb_holders s" "(j, d)" hu] by (auto simp: holders_ok_def)
  qed
  then show "entries_from (UnbindOwner c) s"
    by (auto simp: entries_from_def entry_after_def reply_with_def unbind_owner_def wp split: sum.split)
qed

lemma perform_entries: "sandbox_inv h s \<Longrightarrow> entries_from c s"
  by (cases c) (auto simp: holder_calls_entries owner_calls_same_holders other_calls_same_holders intro!: same_entries)

lemma step_entries:
  assumes "sandbox_inv h s" and "perform h c s = (out, s')" and "dget (sb_holders s') (i, d) = Some hu"
  shows "entry_after (c, out) s i d hu"
proof -
  have "run_with (perform h c)
     (\<lambda>reply s'. \<forall>i d hu. dget (sb_holders s') (i, d) = Some hu \<longrightarrow> entry_after (c, Inr reply) s i d hu)
     (\<lambda>_ s'. sb_holders s' = sb_holders s) s" using perform_entries [OF assms(1)] by (simp add: entries_from_def)
  then show ?thesis using assms(2,3) by (cases out) (auto simp: run_with_def entry_after_def)
qed

text \<open>
  The steps of a state in which one owner is never moved from one sandbox to another under one and
  the same claim. Moving it under a later claim, or after unbinding it, is allowed.
\<close>

definition swaps_sandbox :: "py_str \<Rightarrow> sandbox_state \<Rightarrow> sandbox_state \<Rightarrow> bool" where
  "swaps_sandbox d s s' \<longleftrightarrow> (\<exists>b b'. or_binding (owner_view s d) = Some b \<and> or_binding (owner_view s' d) = Some b' \<and>
     b' \<noteq> b \<and> bi_generation b' = bi_generation b)"

definition steady_step :: "sandbox_host \<Rightarrow> py_str \<Rightarrow> sandbox_state \<Rightarrow> sandbox_state \<Rightarrow> bool" where
  "steady_step h d s s' \<longleftrightarrow> sandbox_step h s s' \<and> \<not> swaps_sandbox d s s'"

text \<open>
  Then every entry of a holder is for an earlier generation of the binding, or it is for the
  binding itself and acknowledges nothing that lies ahead.
\<close>

definition entries_current :: "sandbox_state \<Rightarrow> py_str \<Rightarrow> bool" where
  "entries_current s d \<longleftrightarrow> (\<forall>i hu. dget (sb_holders s) (i, d) = Some hu \<longrightarrow>
     (\<exists>b a. or_binding (owner_view s d) = Some b \<and> or_availability (owner_view s d) = Some a \<and>
        (hu_binding hu < bi_generation b \<or>
         hu_binding hu = bi_generation b \<and> hu_sandbox hu = bi_sandbox b \<and> (\<forall>n. hu_acknowledged hu = Some n \<longrightarrow> n \<le> av_sequence a))))"

lemma view_ok:
  assumes "sandbox_inv h s" and "or_availability (owner_view s d) = Some a"
  shows "record_ok h s d (owner_view s d)" "av_digest a = d"
    "\<exists>b. or_binding (owner_view s d) = Some b \<and> av_sandbox a = bi_sandbox b \<and> av_binding a = bi_generation b \<and>
       bi_generation b \<le> or_generation (owner_view s d)"
proof -
  obtain r where "dget (sb_records s) d = Some r"
    using assms(2) by (auto simp: owner_view_def new_owner_record_def split: option.splits)
  then show "record_ok h s d (owner_view s d)" using sandbox_inv_at(1) [OF assms(1)] by (simp add: view_record)
  then show "av_digest a = d" "\<exists>b. or_binding (owner_view s d) = Some b \<and> av_sandbox a = bi_sandbox b \<and> av_binding a = bi_generation b \<and>
       bi_generation b \<le> or_generation (owner_view s d)"
    using assms(2) by (auto simp: record_ok_def)
qed

lemma rule_effect:
  assumes "owner_rule d r l r'"
  shows "or_binding r' = or_binding r \<and> (\<forall>a. or_availability r = Some a \<longrightarrow> (\<exists>b. or_availability r' = Some b \<and> av_sequence a \<le> av_sequence b)) \<or>
     (\<exists>c x p. holds_claim r c \<and> or_binding r' = Some (binding_under c x p) \<and> or_availability r' = Some (first_availability c x) \<and>
        or_binding r' \<noteq> or_binding r) \<or>
     (\<exists>c. l = (UnbindOwner c, Inr NoReply))"
  using assms
proof (cases rule: owner_rule.cases)
  case (bound call c x p)
  show ?thesis by (rule disjI2, rule disjI1, intro exI [of _ c] exI [of _ x] exI [of _ p]) (use bound in auto)
qed auto

lemma spec_effect:
  assumes "owner_spec digest d r l r'"
  obtains (kept) "or_binding r' = or_binding r" "\<forall>a. or_availability r = Some a \<longrightarrow> (\<exists>b. or_availability r' = Some b \<and> av_sequence a \<le> av_sequence b)"
  | (bound) c x p where "holds_claim r c" "or_binding r' = Some (binding_under c x p)" "or_availability r' = Some (first_availability c x)"
      "or_binding r' \<noteq> or_binding r"
  | (unbound) c where "l = (UnbindOwner c, Inr NoReply)" "oc_digest c = d"
proof (cases "changed_owner digest (fst l) = Some d")
  case True
  then have "owner_rule d r l r'" using assms by (simp add: owner_spec_def)
  then show ?thesis using rule_effect [of d r l r'] True kept bound unbound by auto
next
  case False
  then show ?thesis using assms kept by (simp add: owner_spec_def)
qed

lemma steady_entries:
  assumes inv: "sandbox_inv h s" and current: "entries_current s d" and run: "perform h c s = (out, s')"
    and steady: "\<not> swaps_sandbox d s s'"
  shows "entries_current s' d"
  unfolding entries_current_def
proof (intro allI impI)
  fix i hu assume hu: "dget (sb_holders s') (i, d) = Some hu"
  have steps: "owner_steps h s (c, out) s'" by (rule perform_steps [OF inv run])
  then have spec: "owner_spec (owner_digest h (sb_namespace s)) d (owner_view s d) (c, out) (owner_view s' d)"
    by (simp add: owner_steps_def)
  let ?goal = "\<exists>b a. or_binding (owner_view s' d) = Some b \<and> or_availability (owner_view s' d) = Some a \<and>
    (hu_binding hu < bi_generation b \<or>
     hu_binding hu = bi_generation b \<and> hu_sandbox hu = bi_sandbox b \<and> (\<forall>n. hu_acknowledged hu = Some n \<longrightarrow> n \<le> av_sequence a))"
  from step_entries [OF inv run hu] consider
      (old) "dget (sb_holders s) (i, d) = Some hu" "\<forall>cl. (c, out) = (UnbindOwner cl, Inr NoReply) \<longrightarrow> oc_digest cl \<noteq> d"
    | (registered) cl a where "c = RegisterHolder cl i" "or_availability (owner_view s d) = Some a" "hu_sandbox hu = av_sandbox a"
        "hu_binding hu = av_binding a" "hu_acknowledged hu = None"
    | (acknowledged) a old where "c = AcknowledgeIdle i a" "or_availability (owner_view s d) = Some a" "holder_matches old a"
        "hu = old\<lparr>hu_acknowledged := Some (av_sequence a)\<rparr>"
    unfolding entry_after_def by blast
  then show ?goal
  proof cases
    case old
    then obtain b a where before: "or_binding (owner_view s d) = Some b" "or_availability (owner_view s d) = Some a"
      "hu_binding hu < bi_generation b \<or>
       hu_binding hu = bi_generation b \<and> hu_sandbox hu = bi_sandbox b \<and> (\<forall>n. hu_acknowledged hu = Some n \<longrightarrow> n \<le> av_sequence a)"
      using current unfolding entries_current_def by blast
    from spec show ?thesis
    proof (cases rule: spec_effect)
      case kept
      then obtain a' where "or_availability (owner_view s' d) = Some a'" "av_sequence a \<le> av_sequence a'" using before(2) by blast
      then show ?thesis using kept(1) before(1,3) by (auto dest: order_trans)
    next
      case (bound cl x p)
      have "bi_generation b \<le> or_generation (owner_view s d)" using view_ok(3) [OF inv before(2)] before(1) by auto
      then have "bi_generation b \<le> bi_generation (binding_under cl x p)"
        using bound(1) by (simp add: holds_claim_def binding_under_def)
      moreover have "bi_generation (binding_under cl x p) \<noteq> bi_generation b"
        using steady before(1) bound(2,4) by (auto simp: swaps_sandbox_def)
      ultimately have "hu_binding hu < bi_generation (binding_under cl x p)" using before(3) by linarith
      then show ?thesis using bound(2,3) by simp
    next
      case (unbound cl)
      then show ?thesis using old(2) by simp
    qed
  next
    case registered
    have "owner_view s' d = owner_view s d" using spec by (simp add: owner_spec_def registered(1))
    then show ?thesis using view_ok(3) [OF inv registered(2)] registered by auto
  next
    case acknowledged
    have "owner_view s' d = owner_view s d" using spec by (simp add: owner_spec_def acknowledged(1))
    then show ?thesis using view_ok(3) [OF inv acknowledged(2)] acknowledged by (auto simp: holder_matches_def)
  qed
qed

lemma steady_reachable:
  assumes "sandbox_init h s0"
  shows "(steady_step h d)\<^sup>*\<^sup>* s0 s \<Longrightarrow> sandbox_inv h s \<and> entries_current s d"
proof (induction rule: rtranclp_induct)
  case base
  then show ?case using init_inv [OF assms] assms by (auto simp: sandbox_init_def new_sandbox_state_def entries_current_def)
next
  case (step s t)
  then obtain c out where run: "perform h c s = (out, t)" by (metis prod.collapse sandbox_step_def steady_step_def)
  then show ?case using step perform_result [OF _ run] steady_entries [OF _ _ run, of d] by (auto simp: steady_step_def)
qed

text \<open>An acknowledgement of a drain is made while the drain is the owner's availability.\<close>

definition acknowledged_in :: "call_label list \<Rightarrow> py_str \<Rightarrow> holder_update \<Rightarrow> availability \<Rightarrow> bool" where
  "acknowledged_in calls i holder a \<longleftrightarrow> (\<exists>b. (AcknowledgeIdle i b, Inr (Flag True)) \<in> set calls \<and>
     holder_matches holder b \<and> av_sequence b = av_sequence a \<and> av_phase b = PHASE_DRAINING)"

lemma acknowledged_between:
  assumes "labelled_run (call_step h) s calls s'" and "sandbox_inv h s"
    and "dget (sb_holders s') (i, d) = Some hu" and "hu_acknowledged hu = Some (av_sequence a)"
  shows "acknowledged_in calls i hu a \<or> dget (sb_holders s) (i, d) = Some hu"
  using assms
proof (induction calls arbitrary: s)
  case (Cons l calls)
  then obtain t where t: "call_step h s l t" "labelled_run (call_step h) t calls s'" by auto
  have run: "perform h (fst l) s = (snd l, t)" using t(1) by (simp add: call_step_def)
  then have "sandbox_inv h t" using perform_result Cons.prems(2) by blast
  then consider "acknowledged_in calls i hu a" | "dget (sb_holders t) (i, d) = Some hu"
    using Cons.IH [OF t(2) _ Cons.prems(3,4)] by blast
  then show ?case
  proof cases
    case 1
    then show ?thesis by (auto simp: acknowledged_in_def)
  next
    case 2
    have "dget (sb_holders s) (i, d) = Some hu \<or> (\<exists>b. l = (AcknowledgeIdle i b, Inr (Flag True)) \<and> holder_matches hu b \<and>
        av_sequence b = av_sequence a \<and> av_phase b = PHASE_DRAINING)"
      using step_entries [OF Cons.prems(2) run 2] Cons.prems(4) unfolding entry_after_def
      by (auto simp: holder_matches_def)
    then show ?thesis unfolding acknowledged_in_def by auto
  qed
qed simp

lemma change_result:
  assumes "sandbox_inv h s" and "perform h (ChangeAvailability c a p f) s = (Inr reply, s')"
  shows "or_availability (owner_view s (oc_digest c)) = Some a" and
    "\<exists>b. b = a\<lparr>av_phase := p, av_sequence := av_sequence a + 1, av_connection := av_connection a + of_bool f\<rparr> \<and>
       reply = AvailabilityReply (Some b) \<and> or_availability (owner_view s' (oc_digest c)) = Some b"
    and "dget (sb_holders s') k = Some hu \<Longrightarrow> dget (sb_holders s) k = Some hu"
proof -
  have "owner_steps h s (ChangeAvailability c a p f, Inr reply) s'" by (rule perform_steps [OF assms])
  then have rule: "owner_rule (oc_digest c) (owner_view s (oc_digest c)) (ChangeAvailability c a p f, Inr reply) (owner_view s' (oc_digest c))"
    by (simp add: owner_steps_def owner_spec_def)
  show "or_availability (owner_view s (oc_digest c)) = Some a" and
    "\<exists>b. b = a\<lparr>av_phase := p, av_sequence := av_sequence a + 1, av_connection := av_connection a + of_bool f\<rparr> \<and>
       reply = AvailabilityReply (Some b) \<and> or_availability (owner_view s' (oc_digest c)) = Some b"
    using rule by (cases rule: owner_rule.cases; auto elim: binds.cases)+
  assume "dget (sb_holders s') k = Some hu"
  then show "dget (sb_holders s) k = Some hu"
    using step_entries [OF assms, of "fst k" "snd k" hu] by (auto simp: entry_after_def)
qed

lemma register_holder_refused:
  assumes "or_availability (owner_view s (oc_digest c)) = Some a" and "av_phase a \<noteq> PHASE_RUNNING"
  shows "run_with (register_holder c i) (\<lambda>_ _. False) (\<lambda>_ s'. s' = s) s"
  using assms by (auto simp: register_holder_def wp claimed_record_Inr view_record split: option.split sum.split)

text \<open>
  C32. A sandbox is only paused once it is drained: when an owner that was never moved to another
  sandbox under one claim starts to drain, and any calls later a pause of that very drain is
  dispatched, then in between every holder that is registered for the binding has acknowledged
  this drain, that is the binding and the sequence it started with while it was draining; and from
  then on no further holder can register.
\<close>

theorem pausing_is_drained:
  assumes "sandbox_init h s0" and "(steady_step h (oc_digest c))\<^sup>*\<^sup>* s0 s"
    and "perform h (ChangeAvailability c a0 PHASE_DRAINING f) s = (Inr (AvailabilityReply (Some a)), t)"
    and "labelled_run (call_step h) t calls u"
    and "perform h (ChangeAvailability c' a PHASE_PAUSING f') u = (Inr reply, v)"
  shows "(\<forall>i holder. dget (sb_holders v) (i, av_digest a) = Some holder \<longrightarrow> holder_matches holder a \<longrightarrow>
      (\<exists>b. (AcknowledgeIdle i b, Inr (Flag True)) \<in> set calls \<and> holder_matches holder b \<and>
         av_sequence b = av_sequence a \<and> av_phase b = PHASE_DRAINING)) \<and>
    (\<forall>k i out w. oc_digest k = av_digest a \<longrightarrow> perform h (RegisterHolder k i) v = (out, w) \<longrightarrow> w = v \<and> (\<exists>e. out = Inl e))"
proof -
  let ?d = "oc_digest c"
  have s: "sandbox_inv h s" "entries_current s ?d" using steady_reachable [OF assms(1,2)] by auto
  note drain = change_result [OF s(1) assms(3)]
  have t: "sandbox_inv h t" by (rule conjunct1 [OF perform_result [OF s(1) assms(3)]])
  have u: "sandbox_inv h u" using owner_machine.run_keeps [OF assms(4), of "sb_namespace t"] t by simp
  note pause = change_result [OF u assms(5)]
  have v: "sandbox_inv h v" by (rule conjunct1 [OF perform_result [OF u assms(5)]])
  have a: "av_sequence a = av_sequence a0 + 1" "av_digest a = ?d" "av_digest a0 = ?d"
    "av_sandbox a = av_sandbox a0" "av_binding a = av_binding a0"
    using drain(2) view_ok(2) [OF s(1) drain(1)] by auto
  have digest: "oc_digest c' = av_digest a" using view_ok(2) [OF u pause(1)] by simp
  obtain b where b: "or_availability (owner_view v (av_digest a)) = Some b" "av_phase b = PHASE_PAUSING" "av_sequence b = av_sequence a + 1"
    "holder_matches hu b = holder_matches hu a" for hu
    using pause(2) digest by (auto simp: holder_matches_def)
  have "drained (sb_holders v) b" using view_ok(1) [OF v b(1)] b(1,2) by (simp add: record_ok_def)
  then have acked: "hu_acknowledged hu = Some (av_sequence a)" if "dget (sb_holders v) (i, av_digest a) = Some hu" "holder_matches hu a" for i hu
    using that b(3,4) unfolding drained_def by fastforce
  have fresh: "hu_acknowledged hu \<noteq> Some (av_sequence a)" if "dget (sb_holders t) (i, ?d) = Some hu" "holder_matches hu a" for i hu
  proof -
    have "dget (sb_holders s) (i, ?d) = Some hu" by (rule drain(3) [OF that(1)])
    then show ?thesis using s(2) view_ok(3) [OF s(1) drain(1)] drain(1) that(2) a
      unfolding entries_current_def holder_matches_def by fastforce
  qed
  have "acknowledged_in calls i hu a" if "dget (sb_holders v) (i, av_digest a) = Some hu" "holder_matches hu a" for i hu
    using acknowledged_between [OF assms(4) t pause(3) [OF that(1)] acked [OF that]] fresh [of i hu] acked [OF that] that(2) a(2) by auto
  moreover have "w = v \<and> (\<exists>e. out = Inl e)" if "oc_digest k = av_digest a" "perform h (RegisterHolder k i) v = (out, w)" for k i out w
  proof -
    have "run_with (perform h (RegisterHolder k i)) (\<lambda>_ _. False) (\<lambda>_ s'. s' = v) v"
      using register_holder_refused [of v k b i] that(1) b(1,2) by (simp add: wp_reply_with)
    then show ?thesis using that(2) by (cases out) (simp_all add: run_with_def)
  qed
  ultimately show ?thesis unfolding acknowledged_in_def by blast
qed

definition sample_availability :: "int \<Rightarrow> availability_phase \<Rightarrow> availability" where
  "sample_availability sequence phase = \<lparr>av_digest = oc_digest sample_owner, av_sandbox = ''x'', av_binding = 1,
     av_sequence = sequence, av_phase = phase, av_connection = 0\<rparr>"

definition sbx_registered :: sandbox_state where
  "sbx_registered = sandbox_after (RegisterHolder sample_owner ''h'') sbx_bound"

abbreviation sample_drain :: sandbox_call where
  "sample_drain \<equiv> ChangeAvailability sample_owner (sample_availability 0 PHASE_RUNNING) PHASE_DRAINING False"

abbreviation sample_acknowledgement :: sandbox_call where
  "sample_acknowledgement \<equiv> AcknowledgeIdle ''h'' (sample_availability 1 PHASE_DRAINING)"

abbreviation sample_pause :: sandbox_call where
  "sample_pause \<equiv> ChangeAvailability sample_owner (sample_availability 1 PHASE_DRAINING) PHASE_PAUSING False"

lemma steady_after:
  "or_binding (owner_view s d) = None \<or> or_binding (owner_view (sandbox_after c s) d) = or_binding (owner_view s d) \<Longrightarrow>
     steady_step sandbox_sample_host d s (sandbox_after c s)"
  by (auto simp: steady_step_def swaps_sandbox_def sbx_step)

lemma sbx_registered_steady:
  "(steady_step sandbox_sample_host (oc_digest sample_owner))\<^sup>*\<^sup>* sbx_empty sbx_registered"
proof -
  have unbound: "or_binding (owner_view sbx_empty (oc_digest sample_owner)) = None"
    "or_binding (owner_view sbx_open (oc_digest sample_owner)) = None"
    "or_binding (owner_view sbx_owned (oc_digest sample_owner)) = None"
    "or_binding (owner_view sbx_filling (oc_digest sample_owner)) = None"
    "or_binding (owner_view sbx_warm (oc_digest sample_owner)) = None" by code_simp+
  have same: "or_binding (owner_view sbx_registered (oc_digest sample_owner)) = or_binding (owner_view sbx_bound (oc_digest sample_owner))"
    by code_simp
  have to_open: "steady_step sandbox_sample_host (oc_digest sample_owner) sbx_empty sbx_open"
    unfolding sbx_open_def by (rule steady_after) (simp add: unbound(1))
  have to_owned: "steady_step sandbox_sample_host (oc_digest sample_owner) sbx_open sbx_owned"
    unfolding sbx_owned_def by (rule steady_after) (simp add: unbound(2))
  have to_filling: "steady_step sandbox_sample_host (oc_digest sample_owner) sbx_owned sbx_filling"
    unfolding sbx_filling_def by (rule steady_after) (simp add: unbound(3))
  have to_warm: "steady_step sandbox_sample_host (oc_digest sample_owner) sbx_filling sbx_warm"
    unfolding sbx_warm_def by (rule steady_after) (simp add: unbound(4))
  have to_bound: "steady_step sandbox_sample_host (oc_digest sample_owner) sbx_warm sbx_bound"
    unfolding sbx_bound_def by (rule steady_after) (simp add: unbound(5))
  have to_registered: "steady_step sandbox_sample_host (oc_digest sample_owner) sbx_bound sbx_registered"
    unfolding sbx_registered_def by (rule steady_after, rule disjI2, rule same [unfolded sbx_registered_def])
  show ?thesis by (meson to_open to_owned to_filling to_warm to_bound to_registered rtranclp.rtrancl_into_rtrancl rtranclp.rtrancl_refl)
qed

theorem pausing_is_drained_witness:
  "\<exists>holder b. dget (sb_holders (sandbox_after sample_pause (sandbox_after sample_acknowledgement (sandbox_after sample_drain sbx_registered))))
       (''h'', oc_digest sample_owner) = Some holder \<and>
     (AcknowledgeIdle ''h'' b, Inr (Flag True)) \<in>
       set (labels_of sandbox_sample_host [sample_acknowledgement] (sandbox_after sample_drain sbx_registered)) \<and>
     holder_matches holder b \<and> av_sequence b = 1"
proof -
  let ?h = sandbox_sample_host and ?a = "sample_availability 1 PHASE_DRAINING" and ?key = "(''h'', oc_digest sample_owner)"
  let ?t = "sandbox_after sample_drain sbx_registered"
  let ?u = "sandbox_after sample_acknowledgement ?t"
  let ?v = "sandbox_after sample_pause ?u"
  have "fst (perform ?h sample_drain sbx_registered) = Inr (AvailabilityReply (Some ?a))" by code_simp
  then have drain: "perform ?h sample_drain sbx_registered = (Inr (AvailabilityReply (Some ?a)), ?t)"
    by (metis prod.collapse)
  have run: "labelled_run (call_step ?h) ?t (labels_of ?h [sample_acknowledgement] ?t) ?u"
    using labels_run [of ?h ?t "[sample_acknowledgement]"] by simp
  have "fst (perform ?h sample_pause ?u) = Inr (AvailabilityReply (Some (sample_availability 2 PHASE_PAUSING)))" by code_simp
  then have pause: "perform ?h sample_pause ?u = (Inr (AvailabilityReply (Some (sample_availability 2 PHASE_PAUSING))), ?v)"
    by (metis prod.collapse)
  have "(case dget (sb_holders ?v) ?key of None \<Rightarrow> False | Some holder \<Rightarrow> holder_matches holder ?a)" by code_simp
  then obtain holder where holder: "dget (sb_holders ?v) ?key = Some holder" "holder_matches holder ?a"
    by (auto split: option.splits)
  have a: "av_digest ?a = oc_digest sample_owner" "av_sequence ?a = 1" by (simp_all add: sample_availability_def)
  from conjunct1 [OF pausing_is_drained [OF sbx_init sbx_registered_steady drain run pause]] holder
  obtain b where b: "(AcknowledgeIdle ''h'' b, Inr (Flag True)) \<in> set (labels_of ?h [sample_acknowledgement] ?t)"
    "holder_matches holder b" "av_sequence b = 1" unfolding a by blast
  with holder(1) show ?thesis by blast
qed

text \<open>
  The condition on the claim is needed. Sequences are scoped to the generation of the binding,
  which is the generation of the claim: a claim that binds another sandbox and then the first one
  again starts over at sequence 0 under the same generation, and the acknowledgement of the first
  binding counts for the second.
\<close>

definition sbx_rebound :: sandbox_state where
  "sbx_rebound = sandbox_after (BindOwner sample_owner ''x'' COMMANDS) (sandbox_after (BindOwner sample_owner ''y'' COMMANDS)
     (sandbox_after (ChangeAvailability sample_owner (sample_availability 1 PHASE_DRAINING) PHASE_RUNNING False)
       (sandbox_after sample_acknowledgement (sandbox_after sample_drain sbx_registered))))"

lemma stale_acknowledgement_counts:
  "fst (perform sandbox_sample_host sample_pause (sandbox_after sample_drain sbx_rebound))
   = Inr (AvailabilityReply (Some (sample_availability 2 PHASE_PAUSING)))"
  by code_simp

section \<open>The boundary\<close>

text \<open>The boundary changes neither state nor results; every error that leaves it is an \<open>OpenSandboxError\<close>.\<close>

lemma boundary_translates_errors:
  "snd (state_boundary h c s) = snd (perform h c s) \<and>
   (case fst (perform h c s) of
      Inr reply \<Rightarrow> fst (state_boundary h c s) = Inr reply
    | Inl e \<Rightarrow> fst (state_boundary h c s) = Inl (if is_opensandbox_error e then e
        else UnexpectedOpenSandboxStateError (operation_name c) e)) \<and>
   (\<forall>e. fst (state_boundary h c s) = Inl e \<longrightarrow> is_opensandbox_error e)"
  by (auto simp: state_boundary_def call_state_def is_opensandbox_error_def split: prod.split sum.split sandbox_error.splits)

end
