(* ===== verification/Trc_Ledger.thy ===== *)
theory Trc_Ledger
  imports State_Error Contracts Py_Bytes Py_Time
begin

text \<open>
  The trace ledger (\<open>tinkerfin_tracing/_ledger.py\<close>): the one pure function through which every
  trace store changes a thread's log of facts. It takes a change and the state that the store
  read, and returns the storage effect or raises. The facts themselves are opaque but for what
  the ledger looks at: whose they are, when they happened, and whether they end a run. The
  graph of the timeline is a derived index that is not modelled; \<open>graph_node_mutations\<close>, which
  computes its changes, may refuse a batch, so its verdict is an argument.
\<close>

section \<open>Facts, events and keys\<close>

text \<open>\<open>TraceThreadKey\<close>: one generation of a thread.\<close>

record trace_key =
  xk_namespace :: py_str
  xk_thread :: py_str
  xk_generation :: py_str

text \<open>The phase of a \<open>RunFact\<close>; facts of other classes have none.\<close>

datatype run_phase =
    PH_STARTED | PH_PREPARING | PH_RUNNING | PH_INPUT | PH_RESUMED | PH_RESUME_CHECKPOINTED
  | PH_OBSERVER_FAILED | PH_TERMINAL | PH_CLOSED

record trace_fact =
  xf_identity :: run_identity
  xf_kind :: py_str
  xf_phase :: "run_phase option"
  xf_graph_namespace :: "py_str list"
  xf_parent_subagent :: "py_str option"
  xf_occurred_at :: time
  xf_content :: py_bytes

record trace_event =
  xe_id :: py_str
  xe_seq :: int
  xe_generation :: py_str
  xe_fact :: trace_fact
  xe_bytes :: int

text \<open>A fact with its canonical payload, before it is stored, and the stored record of an event.\<close>

record stored_fact =
  xd_id :: py_str
  xd_fact :: trace_fact
  xd_payload :: py_bytes
  xd_digest :: py_str

record stored_event =
  xr_id :: py_str
  xr_seq :: int
  xr_run :: py_str
  xr_kind :: py_str
  xr_occurred_at :: time
  xr_payload :: py_bytes
  xr_digest :: py_str
  xr_bytes :: int

text \<open>A checkpoint of a projection with its JSON state, and its stored record.\<close>

record projection_checkpoint =
  xp_key :: trace_key
  xp_projection :: py_str
  xp_run :: "py_str option"
  xp_seq :: int
  xp_state :: py_bytes

record stored_checkpoint =
  xq_key :: trace_key
  xq_projection :: py_str
  xq_run :: "py_str option"
  xq_seq :: int
  xq_state :: py_bytes
  xq_digest :: py_str

section \<open>Limits\<close>

record trace_limits =
  xl_event_bytes :: int
  xl_thread_events :: int
  xl_thread_bytes :: int
  xl_threads :: int
  xl_bytes :: int
  xl_reserve_events :: int
  xl_reserve_bytes :: int
  xl_checkpoints :: int

text \<open>The bounds of the fields and \<open>aggregate_limits_are_consistent\<close>.\<close>

definition consistent_limits :: "trace_limits \<Rightarrow> bool" where
  "consistent_limits l \<longleftrightarrow>
     1024 \<le> xl_event_bytes l \<and> 16 \<le> xl_thread_events l \<and> 65536 \<le> xl_thread_bytes l \<and> 1 \<le> xl_threads l \<and>
     65536 \<le> xl_bytes l \<and> 2 \<le> xl_reserve_events l \<and> 1024 \<le> xl_reserve_bytes l \<and> 1 \<le> xl_checkpoints l \<and>
     xl_thread_bytes l \<le> xl_bytes l \<and> xl_reserve_bytes l < xl_thread_bytes l \<and>
     xl_reserve_events l < xl_thread_events l \<and> xl_reserve_events l * xl_event_bytes l \<le> xl_reserve_bytes l"

section \<open>Errors\<close>

datatype trace_error =
    TraceStoreProtocolError py_str
  | TraceQuotaExceeded py_str
  | TraceRunConflict py_str
  | TraceThreadNotFound py_str
  | TraceProjectionCheckpointConflict py_str
  | TraceValueError py_str

section \<open>The state of the ledger\<close>

record ledger_writer =
  xw_run :: py_str
  xw_token :: py_str
  xw_fence :: int
  xw_lease :: time
  xw_active :: bool
  xw_terminal :: bool
  xw_closed :: bool
  xw_committed :: int
  xw_events :: int
  xw_bytes :: int

record ledger_thread =
  xt_key :: trace_key
  xt_next :: int
  xt_bytes :: int

text \<open>\<open>StoreWriterSnapshot\<close>: the run and its committed events.\<close>

type_synonym writer_snapshot = "py_str \<times> int"

record ledger_state =
  xs_observed_at :: time
  xs_threads :: int
  xs_bytes :: int
  xs_reserved :: int
  xs_thread :: "ledger_thread option"
  xs_target :: "ledger_writer option"
  xs_writers :: int
  xs_thread_events :: int
  xs_thread_bytes :: int
  xs_active :: "writer_snapshot list"
  xs_checkpoint :: "stored_checkpoint option"

section \<open>Changes and effects\<close>

datatype change_kind = OPEN_WRITER | APPEND_EVENTS | RENEW_WRITER | CLOSE_WRITER | SAVE_CHECKPOINT | DELETE_GENERATION

record ledger_change =
  xg_kind :: change_kind
  xg_namespace :: py_str
  xg_limits :: trace_limits
  xg_lease :: duration
  xg_identity :: "run_identity option"
  xg_key :: "trace_key option"
  xg_run :: "py_str option"
  xg_token :: "py_str option"
  xg_fence :: "int option"
  xg_facts :: "stored_fact list"
  xg_mandatory :: bool
  xg_checkpoint :: "projection_checkpoint option"
  xg_payload :: "py_bytes option"
  xg_digest :: "py_str option"
  xg_expected :: "int option"
  xg_proven :: "trace_event list"
  xg_proven_renewal :: bool
  xg_enforce :: bool
  xg_persist :: bool

record commit_result =
  xo_kind :: change_kind
  xo_key :: "trace_key option"
  xo_run :: "py_str option"
  xo_token :: "py_str option"
  xo_fence :: "int option"
  xo_events :: "trace_event list"
  xo_checkpoint :: "projection_checkpoint option"

text \<open>A result with nothing but its kind.\<close>

definition plain_result :: "change_kind \<Rightarrow> commit_result" where
  "plain_result kind = \<lparr>xo_kind = kind, xo_key = None, xo_run = None, xo_token = None, xo_fence = None,
     xo_events = [], xo_checkpoint = None\<rparr>"

record ledger_effect =
  xx_result :: commit_result
  xx_thread :: "ledger_thread option"
  xx_remove_thread :: bool
  xx_writer :: "ledger_writer option"
  xx_remove_writer :: "py_str option"
  xx_events :: "stored_event list"
  xx_validated :: "trace_event list"
  xx_checkpoint :: "stored_checkpoint option"
  xx_delete :: bool
  xx_thread_delta :: int
  xx_bytes_delta :: int
  xx_reserved_delta :: int

definition plain_effect :: "commit_result \<Rightarrow> ledger_effect" where
  "plain_effect result = \<lparr>xx_result = result, xx_thread = None, xx_remove_thread = False, xx_writer = None,
     xx_remove_writer = None, xx_events = [], xx_validated = [], xx_checkpoint = None, xx_delete = False,
     xx_thread_delta = 0, xx_bytes_delta = 0, xx_reserved_delta = 0\<rparr>"

section \<open>The size of an event\<close>

text \<open>The number of decimal digits of a positive size, and the search of \<open>_event\<close> for its fixed point.\<close>

fun decimal_digits :: "int \<Rightarrow> int" where
  "decimal_digits n = (if n < 10 then 1 else 1 + decimal_digits (n div 10))"

declare decimal_digits.simps [simp del]

fun size_attempts :: "nat \<Rightarrow> int \<Rightarrow> int \<Rightarrow> trace_error + int" where
  "size_attempts 0 body_bytes n = Inl (TraceStoreProtocolError ''Trace event size did not converge'')"
| "size_attempts (Suc attempts) body_bytes n =
     (let encoded = body_bytes + decimal_digits n
      in if encoded = n then Inr n else size_attempts attempts body_bytes encoded)"

text \<open>The length of an event's JSON form, the digest of a payload and the successive values of \<open>uuid4().hex\<close>.\<close>

record trace_host =
  xh_json_size :: "trace_event \<Rightarrow> int"
  xh_digest :: "py_bytes \<Rightarrow> py_str"
  xh_generation :: "nat \<Rightarrow> py_str"

definition make_event :: "trace_host \<Rightarrow> py_str \<Rightarrow> int \<Rightarrow> py_str \<Rightarrow> trace_fact \<Rightarrow> trace_error + trace_event" where
  "make_event h event_id trace_seq generation semantic_fact =
     (let event = \<lparr>xe_id = event_id, xe_seq = trace_seq, xe_generation = generation, xe_fact = semantic_fact, xe_bytes = 1\<rparr>
      in attempt (size_attempts 4 (xh_json_size h event - 1) 1) (\<lambda>n. Inr (event\<lparr>xe_bytes := n\<rparr>)))"

section \<open>Checks of a change\<close>

text \<open>The threads and runs that a change and the state it meets name.\<close>

definition option_list :: "'a option \<Rightarrow> 'a list" where
  "option_list x = (case x of None \<Rightarrow> [] | Some a \<Rightarrow> [a])"

definition key_thread :: "trace_key \<Rightarrow> py_str \<times> py_str" where
  "key_thread key = (xk_namespace key, xk_thread key)"

definition named_threads :: "ledger_change \<Rightarrow> ledger_state \<Rightarrow> (py_str \<times> py_str) list" where
  "named_threads change state =
     map (\<lambda>i. (id_namespace i, id_thread i)) (option_list (xg_identity change)) @
     map key_thread (option_list (xg_key change)) @
     map (\<lambda>c. key_thread (xp_key c)) (option_list (xg_checkpoint change)) @
     map (\<lambda>t. key_thread (xt_key t)) (option_list (xs_thread state))"

definition named_runs :: "ledger_change \<Rightarrow> ledger_state \<Rightarrow> py_str list" where
  "named_runs change state =
     option_list (xg_run change) @ map id_run (option_list (xg_identity change)) @
     concat (map (\<lambda>c. option_list (xp_run c)) (option_list (xg_checkpoint change))) @
     map xw_run (option_list (xs_target state))"

text \<open>At most one distinct value.\<close>

definition agree :: "'a list \<Rightarrow> bool" where
  "agree xs \<longleftrightarrow> (case xs of [] \<Rightarrow> True | x # rest \<Rightarrow> list_all (\<lambda>y. y = x) rest)"

definition protocol_error :: "bool \<Rightarrow> py_str \<Rightarrow> trace_error option" where
  "protocol_error bad message = (if bad then Some (TraceStoreProtocolError message) else None)"

definition quota_error :: "bool \<Rightarrow> py_str \<Rightarrow> trace_error option" where
  "quota_error exceeded resource = (if exceeded then Some (TraceQuotaExceeded resource) else None)"

definition validate_change_scope :: "ledger_change \<Rightarrow> ledger_state \<Rightarrow> trace_error option" where
  "validate_change_scope change state =
     (let threads = named_threads change state;
          runs = named_runs change state;
          facts = map xd_fact (xg_facts change) @ map xe_fact (xg_proven change)
      in first_error [
        protocol_error (list_ex (\<lambda>(n, t). n \<noteq> xg_namespace change) threads \<or> \<not> agree (map snd threads))
          ''Trace Ledger thread identities conflict'',
        protocol_error (case (xg_checkpoint change, xg_key change) of
             (Some c, Some key) \<Rightarrow> xp_key c \<noteq> key | _ \<Rightarrow> False)
          ''Trace checkpoint generation identities conflict'',
        protocol_error (\<not> agree runs) ''Trace Ledger Run identities conflict'',
        protocol_error (list_ex (\<lambda>fact. threads = [] \<or> id_namespace (xf_identity fact) \<noteq> xg_namespace change \<or>
             id_thread (xf_identity fact) \<noteq> snd (hd threads) \<or> id_run (xf_identity fact) \<notin> set runs) facts)
          ''Trace writer can append facts only for its bound Run'',
        protocol_error (case xg_key change of None \<Rightarrow> False
             | Some key \<Rightarrow> list_ex (\<lambda>event. xe_generation event \<noteq> xk_generation key) (xg_proven change))
          ''Proven Trace events belong to another generation''])"

definition require_exact_thread :: "trace_key \<Rightarrow> ledger_state \<Rightarrow> trace_error + ledger_thread" where
  "require_exact_thread key state = (case xs_thread state of
       None \<Rightarrow> Inl (TraceThreadNotFound (xk_thread key))
     | Some thread \<Rightarrow> if xt_key thread \<noteq> key then Inl (TraceThreadNotFound (xk_thread key)) else Inr thread)"

text \<open>The lease of a writer whose lease is not enforced is \<open>datetime.max\<close>.\<close>

definition writer_lease_expiration :: "ledger_change \<Rightarrow> ledger_state \<Rightarrow> time" where
  "writer_lease_expiration change state =
     (if \<not> xg_enforce change then datetime_max else xs_observed_at state + xg_lease change)"

definition owned_writer ::
    "ledger_change \<Rightarrow> ledger_state \<Rightarrow> bool \<Rightarrow> trace_error + (ledger_thread \<times> ledger_writer)" where
  "owned_writer change state require_unexpired = (case (xg_key change, xg_run change) of
       (Some key, Some run_id) \<Rightarrow>
         attempt (require_exact_thread key state) (\<lambda>thread.
           case xs_target state of
             None \<Rightarrow> Inl (TraceStoreProtocolError ''Trace writer no longer owns its Run'')
           | Some writer \<Rightarrow>
               if xw_run writer \<noteq> run_id then Inl (TraceStoreProtocolError ''Trace writer no longer owns its Run'')
               else if \<not> xw_active writer \<or> Some (xw_token writer) \<noteq> xg_token change \<or> Some (xw_fence writer) \<noteq> xg_fence change \<or>
                 require_unexpired \<and> xw_lease writer \<le> xs_observed_at state
               then Inl (TraceStoreProtocolError ''Trace writer lease ownership was lost'')
               else Inr (thread, writer))
     | _ \<Rightarrow> Inl (TraceStoreProtocolError ''Owned writer change is incomplete''))"

section \<open>Opening a writer\<close>

text \<open>The thread the writer is opened in, and whether it is new. \<open>generation\<close> is a fresh identifier.\<close>

definition opened_thread ::
    "py_str \<Rightarrow> ledger_change \<Rightarrow> ledger_state \<Rightarrow> run_identity \<Rightarrow> trace_error + (ledger_thread \<times> bool)" where
  "opened_thread generation change state identity = (case xs_thread state of
       None \<Rightarrow> require (quota_error (xl_threads (xg_limits change) \<le> xs_threads state) ''tracer_threads'')
         (Inr (\<lparr>xt_key = \<lparr>xk_namespace = xg_namespace change, xk_thread = id_thread identity,
            xk_generation = generation\<rparr>, xt_next = 1, xt_bytes = 0\<rparr>, True))
     | Some thread \<Rightarrow>
         require (protocol_error (xk_namespace (xt_key thread) \<noteq> xg_namespace change) ''Trace namespace state is inconsistent'')
           (Inr (thread, False)))"

definition open_result :: "trace_key \<Rightarrow> run_identity \<Rightarrow> py_str \<Rightarrow> int \<Rightarrow> commit_result" where
  "open_result key identity token fence = (plain_result OPEN_WRITER)\<lparr>xo_key := Some key,
     xo_run := Some (id_run identity), xo_token := Some token, xo_fence := Some fence\<rparr>"

text \<open>An existing writer is renewed for its owner, or taken over once its lease has expired.\<close>

definition reopen_writer ::
    "ledger_change \<Rightarrow> ledger_state \<Rightarrow> run_identity \<Rightarrow> py_str \<Rightarrow> trace_key \<Rightarrow> ledger_writer \<Rightarrow> trace_error + ledger_effect" where
  "reopen_writer change state identity token key existing =
     (if xw_token existing = token \<and> xw_active existing \<and> \<not> xw_closed existing then
        Inr ((plain_effect (open_result key identity token (xw_fence existing)))
          \<lparr>xx_writer := Some (existing\<lparr>xw_lease := writer_lease_expiration change state, xw_active := True\<rparr>)\<rparr>)
      else if \<not> xw_active existing \<or> xw_closed existing then
        Inl (TraceRunConflict ''Trace Run identity already exists'')
      else if \<not> xg_enforce change \<or> xs_observed_at state < xw_lease existing then
        Inl (TraceRunConflict ''Trace Run writer is still active'')
      else Inr ((plain_effect (open_result key identity token (xw_fence existing + 1)))
          \<lparr>xx_writer := Some (existing\<lparr>xw_token := token, xw_fence := xw_fence existing + 1,
             xw_lease := writer_lease_expiration change state, xw_active := True\<rparr>)\<rparr>))"

definition new_writer :: "ledger_change \<Rightarrow> ledger_state \<Rightarrow> py_str \<Rightarrow> py_str \<Rightarrow> ledger_writer" where
  "new_writer change state run_id token = \<lparr>xw_run = run_id, xw_token = token, xw_fence = 1,
     xw_lease = writer_lease_expiration change state, xw_active = True, xw_terminal = False, xw_closed = False,
     xw_committed = 0, xw_events = xl_reserve_events (xg_limits change), xw_bytes = xl_reserve_bytes (xg_limits change)\<rparr>"

definition open_quota :: "ledger_change \<Rightarrow> ledger_state \<Rightarrow> ledger_thread \<Rightarrow> trace_error option" where
  "open_quota change state thread =
     (let limits = xg_limits change
      in first_error [
        quota_error (xl_thread_events limits < xt_next thread - 1 + xs_thread_events state + xl_reserve_events limits) ''thread_events'',
        quota_error (xl_thread_bytes limits < xt_bytes thread + xs_thread_bytes state + xl_reserve_bytes limits) ''thread_bytes'',
        quota_error (xl_bytes limits < xs_bytes state + xs_reserved state + xl_reserve_bytes limits) ''tracer_bytes''])"

definition resolve_open_writer :: "py_str \<Rightarrow> ledger_change \<Rightarrow> ledger_state \<Rightarrow> trace_error + ledger_effect" where
  "resolve_open_writer generation change state = (case (xg_identity change, xg_token change) of
       (Some identity, Some token) \<Rightarrow>
         attempt (opened_thread generation change state identity) (\<lambda>(thread, created).
           case xs_target state of
             Some existing \<Rightarrow> reopen_writer change state identity token (xt_key thread) existing
           | None \<Rightarrow> require (open_quota change state thread)
               (Inr ((plain_effect (open_result (xt_key thread) identity token 1))
                 \<lparr>xx_thread := (if created then Some thread else None),
                  xx_writer := Some (new_writer change state (id_run identity) token),
                  xx_thread_delta := of_bool created,
                  xx_reserved_delta := xl_reserve_bytes (xg_limits change)\<rparr>)))
     | _ \<Rightarrow> Inl (TraceStoreProtocolError ''Writer open change is incomplete''))"

section \<open>Appending events\<close>

text \<open>Evidence that the batch was stored by an earlier attempt: the events are returned as they are.\<close>

definition resolve_proven_append :: "ledger_change \<Rightarrow> ledger_state \<Rightarrow> trace_error + ledger_effect" where
  "resolve_proven_append change state = (case xg_key change of
       None \<Rightarrow> Inl (TraceStoreProtocolError ''Proven append has no generation'')
     | Some key \<Rightarrow> attempt (require_exact_thread key state) (\<lambda>thread.
         Inr ((plain_effect ((plain_result APPEND_EVENTS)\<lparr>xo_key := Some (xt_key thread), xo_run := xg_run change,
             xo_events := xg_proven change\<rparr>))
           \<lparr>xx_writer := (case xs_target state of None \<Rightarrow> None
              | Some writer \<Rightarrow>
                  if xw_active writer \<and> Some (xw_token writer) = xg_token change \<and> Some (xw_fence writer) = xg_fence change
                  then Some (writer\<lparr>xw_lease := writer_lease_expiration change state, xw_active := True\<rparr>)
                  else None)\<rparr>)))"

definition ends_run :: "trace_fact \<Rightarrow> bool" where
  "ends_run f \<longleftrightarrow> xf_phase f = Some PH_TERMINAL \<or> xf_phase f = Some PH_CLOSED"

definition batch_error :: "ledger_change \<Rightarrow> trace_error option" where
  "batch_error change =
     (let facts = map xd_fact (xg_facts change)
      in first_error [
        protocol_error (\<not> xg_mandatory change \<and> list_ex ends_run facts)
          ''Terminal and closed Run facts require a mandatory append'',
        protocol_error (xg_mandatory change \<noteq> list_all ends_run facts)
          ''mandatory append is reserved for terminal and closed Run facts'',
        protocol_error (list_ex (\<lambda>f. xf_phase f \<noteq> None \<and> (xf_graph_namespace f \<noteq> [] \<or> xf_parent_subagent f \<noteq> None)) facts)
          ''Run lifecycle facts require the root scope''])"

text \<open>\<open>tuple.index\<close> of a phase that occurs.\<close>

definition phase_index :: "run_phase \<Rightarrow> run_phase list \<Rightarrow> nat" where
  "phase_index p phases = length (takeWhile (\<lambda>q. q \<noteq> p) phases)"

text \<open>The flags for a terminal and a closed run after the batch.\<close>

definition end_flags :: "ledger_change \<Rightarrow> ledger_writer \<Rightarrow> trace_error + (bool \<times> bool)" where
  "end_flags change writer =
     (if xg_mandatory change then
        (let phases = concat (map (\<lambda>d. option_list (xf_phase (xd_fact d))) (xg_facts change));
             terminal = PH_TERMINAL \<in> set phases; closed = PH_CLOSED \<in> set phases
         in require (first_error [
              protocol_error (1 < count_list phases PH_TERMINAL \<or> 1 < count_list phases PH_CLOSED)
                ''Run terminal and closed facts must be exactly-once'',
              protocol_error (xw_terminal writer \<and> terminal) ''Run terminal fact is already committed'',
              protocol_error (xw_closed writer) ''Run closed fact is already committed'',
              protocol_error (closed \<and> \<not> (xw_terminal writer \<or>
                  terminal \<and> phase_index PH_TERMINAL phases < phase_index PH_CLOSED phases))
                ''Run closed fact requires a committed terminal fact''])
            (Inr (xw_terminal writer \<or> terminal, closed)))
      else require (protocol_error (xw_terminal writer \<or> xw_closed writer) ''Ordinary Trace facts cannot follow the Run terminal'')
        (Inr (xw_terminal writer, xw_closed writer)))"

text \<open>The events of the batch, numbered from the head of the thread.\<close>

fun number_facts ::
    "trace_host \<Rightarrow> trace_limits \<Rightarrow> trace_key \<Rightarrow> py_str \<Rightarrow> int \<Rightarrow> stored_fact list \<Rightarrow> trace_error + trace_event list" where
  "number_facts h limits key run_id next_seq [] = Inr []"
| "number_facts h limits key run_id next_seq (draft # drafts) =
     (let identity = xf_identity (xd_fact draft)
      in require (protocol_error (id_namespace identity \<noteq> xk_namespace key \<or> id_thread identity \<noteq> xk_thread key \<or>
             id_run identity \<noteq> run_id) ''Trace writer can append facts only for its bound Run'')
        (attempt (make_event h (xd_id draft) next_seq (xk_generation key) (xd_fact draft)) (\<lambda>event.
           require (quota_error (xl_event_bytes limits < xe_bytes event) ''event_bytes'')
             (attempt (number_facts h limits key run_id (next_seq + 1) drafts) (\<lambda>events. Inr (event # events))))))"

definition added_bytes :: "trace_event list \<Rightarrow> int" where
  "added_bytes events = sum_list (map xe_bytes events)"

definition append_quota ::
    "ledger_change \<Rightarrow> ledger_state \<Rightarrow> ledger_thread \<Rightarrow> ledger_writer \<Rightarrow> trace_event list \<Rightarrow> trace_error option" where
  "append_quota change state thread writer events =
     (let limits = xg_limits change; count = int (length events); size = added_bytes events
      in if xg_mandatory change then
        quota_error (xw_events writer < count \<or> xw_bytes writer < size) ''terminal_reserve''
      else first_error [
        quota_error (xl_thread_events limits < xt_next thread + count - 1 + xs_thread_events state) ''thread_events'',
        quota_error (xl_thread_bytes limits < xt_bytes thread + size + xs_thread_bytes state) ''thread_bytes'',
        quota_error (xl_bytes limits < xs_bytes state + size + xs_reserved state) ''tracer_bytes''])"

text \<open>What a batch leaves of the writer's reserve: ordinary batches use none of it, a closed run none is left.\<close>

definition charged_writer :: "ledger_change \<Rightarrow> ledger_state \<Rightarrow> ledger_writer \<Rightarrow> bool \<Rightarrow> bool \<Rightarrow> trace_event list \<Rightarrow> ledger_writer" where
  "charged_writer change state writer terminal closed events =
     writer\<lparr>xw_lease := writer_lease_expiration change state, xw_active := True, xw_terminal := terminal, xw_closed := closed,
       xw_committed := xw_committed writer + int (length events),
       xw_events := (if \<not> xg_mandatory change then xw_events writer else if closed then 0
         else xw_events writer - int (length events)),
       xw_bytes := (if \<not> xg_mandatory change then xw_bytes writer else if closed then 0
         else xw_bytes writer - added_bytes events)\<rparr>"

definition stored_of :: "trace_event \<Rightarrow> stored_fact \<Rightarrow> stored_event" where
  "stored_of event draft = \<lparr>xr_id = xe_id event, xr_seq = xe_seq event, xr_run = id_run (xf_identity (xe_fact event)),
     xr_kind = xf_kind (xe_fact event), xr_occurred_at = xf_occurred_at (xe_fact event),
     xr_payload = xd_payload draft, xr_digest = xd_digest draft, xr_bytes = xe_bytes event\<rparr>"

definition append_effect ::
    "ledger_change \<Rightarrow> ledger_thread \<Rightarrow> ledger_writer \<Rightarrow> ledger_writer \<Rightarrow> trace_event list \<Rightarrow> ledger_effect" where
  "append_effect change thread writer writer' events =
     (plain_effect ((plain_result APPEND_EVENTS)\<lparr>xo_key := Some (xt_key thread), xo_run := Some (xw_run writer), xo_events := events\<rparr>))
       \<lparr>xx_thread := Some (thread\<lparr>xt_next := xt_next thread + int (length events),
          xt_bytes := xt_bytes thread + added_bytes events\<rparr>),
        xx_writer := Some writer',
        xx_events := (if xg_persist change then map2 stored_of events (xg_facts change) else []),
        xx_validated := events, xx_bytes_delta := added_bytes events,
        xx_reserved_delta := xw_bytes writer' - xw_bytes writer\<rparr>"

definition resolve_append_events ::
    "trace_host \<Rightarrow> trace_error option \<Rightarrow> ledger_change \<Rightarrow> ledger_state \<Rightarrow> trace_error + ledger_effect" where
  "resolve_append_events h graph change state =
     (if xg_proven change \<noteq> [] then resolve_proven_append change state
      else if xg_facts change = [] then Inl (TraceStoreProtocolError ''Trace append requires at least one fact'')
      else attempt (owned_writer change state (xg_enforce change)) (\<lambda>(thread, writer).
        require (batch_error change)
        (attempt (end_flags change writer) (\<lambda>(terminal, closed).
         attempt (number_facts h (xg_limits change) (xt_key thread) (xw_run writer) (xt_next thread) (xg_facts change)) (\<lambda>events.
         require (append_quota change state thread writer events)
         (require graph
           (Inr (append_effect change thread writer (charged_writer change state writer terminal closed events) events))))))))"

section \<open>The other changes\<close>

definition resolve_renew_writer :: "ledger_change \<Rightarrow> ledger_state \<Rightarrow> trace_error + ledger_effect" where
  "resolve_renew_writer change state =
     attempt (owned_writer change state (xg_enforce change \<and> \<not> xg_proven_renewal change)) (\<lambda>(thread, writer).
       Inr ((plain_effect ((plain_result RENEW_WRITER)\<lparr>xo_key := Some (xt_key thread), xo_run := Some (xw_run writer)\<rparr>))
         \<lparr>xx_writer := Some (writer\<lparr>xw_lease := writer_lease_expiration change state\<rparr>)\<rparr>))"

definition close_effect :: "commit_result \<Rightarrow> py_str \<Rightarrow> ledger_state \<Rightarrow> ledger_thread \<Rightarrow> ledger_writer \<Rightarrow> ledger_effect" where
  "close_effect result run_id state thread writer =
     (if xw_committed writer = 0 then
        (let remove = xt_next thread = 1 \<and> xs_writers state = 1
         in (plain_effect result)\<lparr>xx_remove_thread := remove, xx_remove_writer := Some run_id,
              xx_thread_delta := (if remove then -1 else 0), xx_reserved_delta := - xw_bytes writer\<rparr>)
      else (plain_effect result)\<lparr>xx_writer := Some (writer\<lparr>xw_active := False, xw_events := 0, xw_bytes := 0\<rparr>),
             xx_reserved_delta := - xw_bytes writer\<rparr>)"

definition resolve_close_writer :: "ledger_change \<Rightarrow> ledger_state \<Rightarrow> trace_error + ledger_effect" where
  "resolve_close_writer change state = (case (xg_key change, xg_run change) of
       (Some key, Some run_id) \<Rightarrow>
         (let result = (plain_result CLOSE_WRITER)\<lparr>xo_key := Some key, xo_run := Some run_id\<rparr>
          in case (xs_thread state, xs_target state) of
            (Some thread, Some writer) \<Rightarrow>
              if xt_key thread \<noteq> key \<or> Some (xw_token writer) \<noteq> xg_token change \<or> Some (xw_fence writer) \<noteq> xg_fence change \<or>
                \<not> xw_active writer then Inr (plain_effect result)
              else Inr (close_effect result run_id state thread writer)
          | _ \<Rightarrow> Inr (plain_effect result))
     | _ \<Rightarrow> Inl (TraceStoreProtocolError ''Writer close change is incomplete''))"

definition checkpoint_effect :: "projection_checkpoint \<Rightarrow> stored_checkpoint option \<Rightarrow> ledger_effect" where
  "checkpoint_effect checkpoint stored =
     (plain_effect ((plain_result SAVE_CHECKPOINT)\<lparr>xo_key := Some (xp_key checkpoint), xo_checkpoint := Some checkpoint\<rparr>))
       \<lparr>xx_checkpoint := stored\<rparr>"

definition resolve_save_checkpoint :: "ledger_change \<Rightarrow> ledger_state \<Rightarrow> trace_error + ledger_effect" where
  "resolve_save_checkpoint change state = (case (xg_checkpoint change, xg_payload change, xg_digest change) of
       (Some checkpoint, Some payload, Some digest) \<Rightarrow>
         attempt (require_exact_thread (xp_key checkpoint) state) (\<lambda>thread.
           require (protocol_error (xt_next thread - 1 < xp_seq checkpoint)
               ''Projection checkpoint exceeds the committed Trace prefix'')
             (let current_seq = map_option xq_seq (xs_checkpoint state)
              in case xs_checkpoint state of
                Some current \<Rightarrow>
                  if xq_seq current = xp_seq checkpoint then
                    require (protocol_error (xq_digest current \<noteq> digest \<or> xq_state current \<noteq> payload)
                        ''Projection checkpoint idempotency evidence conflicts'')
                      (Inr (checkpoint_effect checkpoint None))
                  else if xg_expected change \<noteq> current_seq then
                    Inl (TraceProjectionCheckpointConflict ''Projection checkpoint compare-and-swap failed'')
                  else if xp_seq checkpoint \<le> xq_seq current then
                    Inl (TraceProjectionCheckpointConflict ''Projection checkpoint must advance its fixed prefix'')
                  else Inr (checkpoint_effect checkpoint (Some \<lparr>xq_key = xp_key checkpoint, xq_projection = xp_projection checkpoint,
                      xq_run = xp_run checkpoint, xq_seq = xp_seq checkpoint, xq_state = payload, xq_digest = digest\<rparr>))
              | None \<Rightarrow>
                  if xg_expected change \<noteq> None then
                    Inl (TraceProjectionCheckpointConflict ''Projection checkpoint compare-and-swap failed'')
                  else Inr (checkpoint_effect checkpoint (Some \<lparr>xq_key = xp_key checkpoint, xq_projection = xp_projection checkpoint,
                      xq_run = xp_run checkpoint, xq_seq = xp_seq checkpoint, xq_state = payload, xq_digest = digest\<rparr>))))
     | _ \<Rightarrow> Inl (TraceStoreProtocolError ''Projection checkpoint change is incomplete''))"

definition resolve_delete_generation :: "ledger_change \<Rightarrow> ledger_state \<Rightarrow> trace_error + ledger_effect" where
  "resolve_delete_generation change state = (case xg_key change of
       None \<Rightarrow> Inl (TraceStoreProtocolError ''Generation delete change is incomplete'')
     | Some key \<Rightarrow> attempt (require_exact_thread key state) (\<lambda>thread.
         if xs_active state \<noteq> [] then Inl (TraceRunConflict ''Active Trace writers prevent deletion'')
         else Inr ((plain_effect ((plain_result DELETE_GENERATION)\<lparr>xo_key := Some key\<rparr>))
           \<lparr>xx_delete := True, xx_thread_delta := -1, xx_bytes_delta := - xt_bytes thread,
            xx_reserved_delta := - xs_thread_bytes state\<rparr>)))"

definition resolve_ledger_change ::
    "trace_host \<Rightarrow> py_str \<Rightarrow> trace_error option \<Rightarrow> ledger_change \<Rightarrow> ledger_state \<Rightarrow> trace_error + ledger_effect" where
  "resolve_ledger_change h generation graph change state =
     require (validate_change_scope change state)
       (case xg_kind change of
          OPEN_WRITER \<Rightarrow> resolve_open_writer generation change state
        | APPEND_EVENTS \<Rightarrow> resolve_append_events h graph change state
        | RENEW_WRITER \<Rightarrow> resolve_renew_writer change state
        | CLOSE_WRITER \<Rightarrow> resolve_close_writer change state
        | SAVE_CHECKPOINT \<Rightarrow> resolve_save_checkpoint change state
        | DELETE_GENERATION \<Rightarrow> resolve_delete_generation change state)"

end
