(* ===== verification/Trc_Memory.thy ===== *)
theory Trc_Memory
  imports Trc_Ledger
begin

text \<open>
  The in-memory trace backend (\<open>_InMemoryTraceLedgerBackend\<close> of
  \<open>tinkerfin_tracing/durable_store.py\<close>), which reads the ledger's state, resolves a change and
  applies its effect under one condition variable, and the checks of \<open>DurableTraceStore\<close> on
  what a backend returns. The index of graph nodes is not modelled: applying a batch to it may
  raise, and it is the last thing that happens to a batch.
\<close>

section \<open>The state\<close>

text \<open>\<open>_MemoryStoredTraceEvent\<close>: a record with the validated event.\<close>

record memory_event = stored_event +
  xr_event :: trace_event

record memory_thread =
  xm_state :: ledger_thread
  xm_writers :: "(py_str, ledger_writer) dict"
  xm_events :: "memory_event list"
  xm_checkpoints :: "(py_str \<times> py_str option, stored_checkpoint list) dict"

definition new_memory_thread :: "ledger_thread \<Rightarrow> memory_thread" where
  "new_memory_thread thread = \<lparr>xm_state = thread, xm_writers = [], xm_events = [], xm_checkpoints = []\<rparr>"

text \<open>The threads, and how many generation identifiers were drawn.\<close>

record trace_backend =
  xb_threads :: "(py_str \<times> py_str, memory_thread) dict"
  xb_generations :: nat

definition new_trace_backend :: trace_backend where
  "new_trace_backend = \<lparr>xb_threads = [], xb_generations = 0\<rparr>"

text \<open>
  What a commit meets: the clock, and whether the graph index refuses the batch, when its
  changes are computed or when they are applied.
\<close>

record trace_world =
  xn_now :: time
  xn_reduce :: "trace_error option"
  xn_apply :: "trace_error option"

type_synonym 'a trace_op = "(trace_backend, trace_error, 'a) op"

definition put_thread :: "py_str \<times> py_str \<Rightarrow> memory_thread \<Rightarrow> trace_backend \<Rightarrow> trace_backend" where
  "put_thread k t b = b\<lparr>xb_threads := dset k t (xb_threads b)\<rparr>"

definition drop_thread :: "py_str \<times> py_str \<Rightarrow> trace_backend \<Rightarrow> trace_backend" where
  "drop_thread k b = b\<lparr>xb_threads := ddel k (xb_threads b)\<rparr>"

section \<open>Reading the state of the ledger\<close>

definition namespace_threads :: "py_str \<Rightarrow> trace_backend \<Rightarrow> memory_thread list" where
  "namespace_threads namespace b = map snd (filter (\<lambda>((stored_namespace, _), _). stored_namespace = namespace) (xb_threads b))"

text \<open>The reserves of the active writers of a thread.\<close>

definition active_reserve :: "(ledger_writer \<Rightarrow> int) \<Rightarrow> memory_thread \<Rightarrow> int" where
  "active_reserve f t = dsum (\<lambda>w. if xw_active w then f w else 0) (xm_writers t)"

definition active_writers :: "time \<Rightarrow> memory_thread \<Rightarrow> writer_snapshot list" where
  "active_writers now t = map (\<lambda>w. (xw_run w, xw_committed w))
     (filter (\<lambda>w. xw_active w \<and> now < xw_lease w) (sort_key xw_run (dvals (xm_writers t))))"

definition scope_checkpoints :: "py_str \<Rightarrow> py_str option \<Rightarrow> memory_thread \<Rightarrow> stored_checkpoint list" where
  "scope_checkpoints projection run_id t =
     (case dget (xm_checkpoints t) (projection, run_id) of None \<Rightarrow> [] | Some items \<Rightarrow> items)"

definition latest_checkpoint :: "(py_str \<times> py_str option) option \<Rightarrow> memory_thread \<Rightarrow> stored_checkpoint option" where
  "latest_checkpoint scope t = (case scope of None \<Rightarrow> None
     | Some (projection, run_id) \<Rightarrow>
         (case scope_checkpoints projection run_id t of [] \<Rightarrow> None | items \<Rightarrow> Some (last items)))"

definition backend_state ::
    "time \<Rightarrow> py_str \<Rightarrow> py_str \<Rightarrow> py_str option \<Rightarrow> (py_str \<times> py_str option) option \<Rightarrow> bool \<Rightarrow> trace_backend \<Rightarrow> ledger_state" where
  "backend_state now namespace thread_id run_id scope include_active b =
     (let threads = namespace_threads namespace b; found = dget (xb_threads b) (namespace, thread_id)
      in \<lparr>xs_observed_at = now, xs_threads = int (length threads),
        xs_bytes = sum_list (map (\<lambda>t. xt_bytes (xm_state t)) threads),
        xs_reserved = sum_list (map (active_reserve xw_bytes) threads),
        xs_thread = map_option xm_state found,
        xs_target = (case (run_id, found) of (Some r, Some t) \<Rightarrow> dget (xm_writers t) r | _ \<Rightarrow> None),
        xs_writers = (case found of None \<Rightarrow> 0 | Some t \<Rightarrow> int (length (xm_writers t))),
        xs_thread_events = (case found of None \<Rightarrow> 0 | Some t \<Rightarrow> active_reserve xw_events t),
        xs_thread_bytes = (case found of None \<Rightarrow> 0 | Some t \<Rightarrow> active_reserve xw_bytes t),
        xs_active = (case found of None \<Rightarrow> [] | Some t \<Rightarrow> if include_active then active_writers now t else []),
        xs_checkpoint = (case found of None \<Rightarrow> None | Some t \<Rightarrow> latest_checkpoint scope t)\<rparr>)"

text \<open>The thread and the run of a change.\<close>

definition change_target :: "ledger_change \<Rightarrow> trace_error + (py_str \<times> py_str option)" where
  "change_target change = (case xg_identity change of
       Some identity \<Rightarrow> Inr (id_thread identity, Some (id_run identity))
     | None \<Rightarrow> (case xg_key change of
         Some key \<Rightarrow> Inr (xk_thread key, xg_run change)
       | None \<Rightarrow> Inl (TraceStoreProtocolError ''Trace Ledger change has no thread identity'')))"

definition state_for_change :: "time \<Rightarrow> ledger_change \<Rightarrow> trace_backend \<Rightarrow> trace_error + ledger_state" where
  "state_for_change now change b =
     attempt (change_target change) (\<lambda>(thread_id, run_id).
       Inr (backend_state now (xg_namespace change) thread_id run_id
         (map_option (\<lambda>c. (xp_projection c, xp_run c)) (xg_checkpoint change)) (xg_kind change = DELETE_GENERATION) b))"

section \<open>Applying an effect\<close>

text \<open>\<open>del checkpoints[:-maximum]\<close> for a positive maximum.\<close>

definition keep_last :: "int \<Rightarrow> 'a list \<Rightarrow> 'a list" where
  "keep_last maximum items = drop (length items - nat maximum) items"

definition memory_stored_event :: "trace_event \<Rightarrow> stored_fact \<Rightarrow> memory_event" where
  "memory_stored_event event draft = stored_event.extend (stored_of event draft) (memory_event.fields event)"

text \<open>The thread after the effect on its head was applied.\<close>

definition headed_thread :: "ledger_effect \<Rightarrow> trace_backend \<Rightarrow> trace_backend" where
  "headed_thread effect b = (case xx_thread effect of None \<Rightarrow> b
     | Some head \<Rightarrow>
         let k = key_thread (xt_key head)
         in put_thread k (case dget (xb_threads b) k of None \<Rightarrow> new_memory_thread head
              | Some t \<Rightarrow> t\<lparr>xm_state := head\<rparr>) b)"

definition effect_writers :: "ledger_effect \<Rightarrow> (py_str, ledger_writer) dict \<Rightarrow> (py_str, ledger_writer) dict" where
  "effect_writers effect writers =
     (let rest = (case xx_remove_writer effect of None \<Rightarrow> writers | Some run_id \<Rightarrow> ddel run_id writers)
      in case xx_writer effect of None \<Rightarrow> rest | Some w \<Rightarrow> dset (xw_run w) w rest)"

definition effect_checkpoints ::
    "trace_limits \<Rightarrow> stored_checkpoint \<Rightarrow> memory_thread \<Rightarrow> memory_thread" where
  "effect_checkpoints limits stored t =
     t\<lparr>xm_checkpoints := dset (xq_projection stored, xq_run stored)
         (keep_last (xl_checkpoints limits) (scope_checkpoints (xq_projection stored) (xq_run stored) t @ [stored]))
         (xm_checkpoints t)\<rparr>"

definition effect_thread :: "ledger_change \<Rightarrow> ledger_effect \<Rightarrow> memory_thread \<Rightarrow> memory_thread" where
  "effect_thread change effect t =
     t\<lparr>xm_writers := effect_writers effect (xm_writers t),
       xm_events := xm_events t @ map2 memory_stored_event (xx_validated effect) (xg_facts change)\<rparr>"

text \<open>The thread that an effect is for.\<close>

definition effect_key :: "ledger_change \<Rightarrow> ledger_effect \<Rightarrow> trace_key option" where
  "effect_key change effect = (case xo_key (xx_result effect) of None \<Rightarrow> xg_key change | Some key \<Rightarrow> Some key)"

definition apply_ledger_effect :: "trace_error option \<Rightarrow> ledger_change \<Rightarrow> ledger_effect \<Rightarrow> unit trace_op" where
  "apply_ledger_effect graph change effect = (case effect_key change effect of
       None \<Rightarrow> if xx_delete effect \<or> xx_remove_thread effect then ret () else modify (headed_thread effect)
     | Some key \<Rightarrow>
         let k = key_thread key
         in if xx_delete effect \<or> xx_remove_thread effect then modify (drop_thread k)
           else seq (modify (headed_thread effect))
             (bind (gets (\<lambda>b. dget (xb_threads b) k)) (\<lambda>found.
              case found of None \<Rightarrow> ret ()
              | Some t \<Rightarrow>
                  let t' = effect_thread change effect t
                  in seq (modify (put_thread k t'))
                    (seq (check (if xx_validated effect = [] then None else graph))
                      (case xx_checkpoint effect of None \<Rightarrow> ret ()
                       | Some stored \<Rightarrow> modify (put_thread k (effect_checkpoints (xg_limits change) stored t')))))))"

definition new_generation :: "trace_host \<Rightarrow> py_str trace_op" where
  "new_generation h = bind (gets xb_generations) (\<lambda>n.
     seq (modify (\<lambda>b. b\<lparr>xb_generations := Suc n\<rparr>)) (ret (xh_generation h n)))"

text \<open>
  \<open>commit_ledger_change\<close>: one critical section. The generation identifier that a new thread
  would take is drawn at the start.
\<close>

definition commit_ledger_change :: "trace_host \<Rightarrow> trace_world \<Rightarrow> ledger_change \<Rightarrow> commit_result trace_op" where
  "commit_ledger_change h world change =
     bind (try_gets (state_for_change (xn_now world) change)) (\<lambda>state.
     bind (new_generation h) (\<lambda>generation.
     bind (lift (resolve_ledger_change h generation (xn_reduce world) change state)) (\<lambda>effect.
     seq (apply_ledger_effect (xn_apply world) change effect) (ret (xx_result effect)))))"

section \<open>Reading\<close>

definition load_ledger_state :: "time \<Rightarrow> py_str \<Rightarrow> py_str \<Rightarrow> py_str option \<Rightarrow> bool \<Rightarrow> ledger_state trace_op" where
  "load_ledger_state now namespace thread_id run_id include_active =
     gets (backend_state now namespace thread_id run_id None include_active)"

text \<open>The thread of an exact generation.\<close>

definition exact_thread :: "trace_key \<Rightarrow> trace_backend \<Rightarrow> trace_error + memory_thread" where
  "exact_thread key b = (case dget (xb_threads b) (key_thread key) of
       None \<Rightarrow> Inl (TraceThreadNotFound (xk_thread key))
     | Some t \<Rightarrow> if xt_key (xm_state t) \<noteq> key then Inl (TraceThreadNotFound (xk_thread key)) else Inr t)"

datatype page_direction = FORWARD | REVERSE

record page_request =
  xj_key :: trace_key
  xj_direction :: page_direction
  xj_limit :: int
  xj_after :: "int option"
  xj_as_of :: "int option"
  xj_before :: "int option"

record event_page =
  xa_key :: trace_key
  xa_tail :: int
  xa_events :: "memory_event list"
  xa_active :: "py_str list"
  xa_observed_at :: time
  xa_remaining :: "duration option"

text \<open>A slice between two positions that are not negative.\<close>

definition between :: "int \<Rightarrow> int \<Rightarrow> 'a list \<Rightarrow> 'a list" where
  "between start stop xs = drop (nat start) (take (nat stop) xs)"

text \<open>
  The records of a page. The store only asks with cursors that are not negative and with a
  positive limit, so no position is negative either.
\<close>

definition page_records :: "page_request \<Rightarrow> memory_thread \<Rightarrow> memory_event list" where
  "page_records request t =
     (let tail = xt_next (xm_state t) - 1
      in case xj_direction request of
        FORWARD \<Rightarrow>
          (let after = (case xj_after request of None \<Rightarrow> 0 | Some n \<Rightarrow> n);
               as_of = (case xj_as_of request of None \<Rightarrow> tail | Some n \<Rightarrow> n);
               start = min after tail
           in between start (min (min as_of tail) (start + xj_limit request)) (xm_events t))
      | REVERSE \<Rightarrow>
          (let before = (case xj_before request of None \<Rightarrow> tail + 1 | Some n \<Rightarrow> n)
           in if tail + 1 < before then []
             else rev (between (max 0 (before - 1 - xj_limit request)) (before - 1) (xm_events t))))"

definition least_remaining :: "time \<Rightarrow> memory_thread \<Rightarrow> duration option" where
  "least_remaining now t =
     (let leases = map (\<lambda>w. xw_lease w - now)
        (filter (\<lambda>w. xw_active w \<and> now < xw_lease w \<and> xw_lease w < datetime_max) (dvals (xm_writers t)))
      in if leases = [] then None else Some (Min (set leases)))"

definition read_event_page :: "time \<Rightarrow> page_request \<Rightarrow> event_page trace_op" where
  "read_event_page now request =
     bind (try_gets (exact_thread (xj_key request))) (\<lambda>t.
     ret \<lparr>xa_key = xj_key request, xa_tail = xt_next (xm_state t) - 1, xa_events = page_records request t,
       xa_active = sort (map xw_run (filter (\<lambda>w. xw_active w \<and> now < xw_lease w) (dvals (xm_writers t)))),
       xa_observed_at = now, xa_remaining = least_remaining now t\<rparr>)"

definition load_projection_checkpoint :: "trace_key \<Rightarrow> py_str \<Rightarrow> py_str option \<Rightarrow> int \<Rightarrow> stored_checkpoint option trace_op" where
  "load_projection_checkpoint key projection run_id as_of =
     bind (try_gets (exact_thread key)) (\<lambda>t.
     ret (find (\<lambda>item. xq_seq item \<le> as_of) (rev (scope_checkpoints projection run_id t))))"

section \<open>The checks of the store\<close>

text \<open>\<open>_validate_commit_result\<close>\<close>

definition validate_open_result :: "ledger_change \<Rightarrow> commit_result \<Rightarrow> bool" where
  "validate_open_result change result = (case (xg_identity change, xo_key result, xo_fence result) of
       (Some identity, Some key, Some fence) \<Rightarrow>
         xk_namespace key = xg_namespace change \<and> xk_thread key = id_thread identity \<and>
         xo_run result = Some (id_run identity) \<and> xo_token result = xg_token change \<and> 1 \<le> fence
     | _ \<Rightarrow> False)"

definition consecutive :: "int list \<Rightarrow> bool" where
  "consecutive xs = list_all (\<lambda>(left, right). right = left + 1) (zip xs (tl xs))"

definition validate_append_result :: "trace_host \<Rightarrow> ledger_change \<Rightarrow> commit_result \<Rightarrow> bool" where
  "validate_append_result h change result = (case xg_key change of None \<Rightarrow> False
     | Some key \<Rightarrow>
         map xe_id (xo_events result) =
           (if xg_proven change \<noteq> [] then map xe_id (xg_proven change) else map xd_id (xg_facts change)) \<and>
         length (xo_events result) = length (xg_facts change) \<and>
         list_all2 (\<lambda>event draft. make_event h (xd_id draft) (xe_seq event) (xk_generation key) (xd_fact draft) = Inr event)
           (xo_events result) (xg_facts change) \<and>
         consecutive (map xe_seq (xo_events result)))"

definition validate_commit_result :: "trace_host \<Rightarrow> ledger_change \<Rightarrow> commit_result \<Rightarrow> bool" where
  "validate_commit_result h change result =
     (if xg_kind change = OPEN_WRITER then validate_open_result change result
      else xo_key result = xg_key change \<and>
        (xg_kind change \<in> {APPEND_EVENTS, RENEW_WRITER, CLOSE_WRITER} \<longrightarrow> xo_run result = xg_run change) \<and>
        (xg_kind change = APPEND_EVENTS \<longrightarrow> validate_append_result h change result) \<and>
        (xg_kind change = SAVE_CHECKPOINT \<longrightarrow> xo_checkpoint result = xg_checkpoint change))"

text \<open>The ordering that \<open>_decode_event_page\<close> requires of a page, and the checks of \<open>_decode_event\<close> on each record.\<close>

definition valid_sequences :: "page_request \<Rightarrow> int \<Rightarrow> int list \<Rightarrow> bool" where
  "valid_sequences request tail sequences = (case xj_direction request of
       FORWARD \<Rightarrow>
         (let after = (case xj_after request of None \<Rightarrow> 0 | Some n \<Rightarrow> n);
              as_of = (case xj_as_of request of None \<Rightarrow> tail | Some n \<Rightarrow> n)
          in list_all (\<lambda>n. after < n \<and> n \<le> as_of \<and> n \<le> tail) sequences \<and> consecutive sequences \<and>
            (after < min as_of tail \<longrightarrow> sequences \<noteq> [] \<and> hd sequences = after + 1))
     | REVERSE \<Rightarrow>
         (let before = (case xj_before request of None \<Rightarrow> tail + 1 | Some n \<Rightarrow> n)
          in list_all (\<lambda>n. 1 \<le> n \<and> n < before \<and> n \<le> tail) sequences \<and> consecutive (rev sequences) \<and>
            (before \<le> tail + 1 \<and> 1 \<le> min (before - 1) tail \<longrightarrow>
               sequences \<noteq> [] \<and> hd sequences = min (before - 1) tail)))"

definition valid_record :: "trace_key \<Rightarrow> memory_event \<Rightarrow> bool" where
  "valid_record key r \<longleftrightarrow>
     (let cached = xr_event r
      in xe_id cached = xr_id r \<and> xe_seq cached = xr_seq r \<and> xe_generation cached = xk_generation key \<and>
        xe_bytes cached = xr_bytes r \<and> id_thread (xf_identity (xe_fact cached)) = xk_thread key \<and>
        id_namespace (xf_identity (xe_fact cached)) = xk_namespace key \<and>
        id_run (xf_identity (xe_fact cached)) = xr_run r \<and> xf_kind (xe_fact cached) = xr_kind r \<and>
        xf_occurred_at (xe_fact cached) = xr_occurred_at r)"

text \<open>\<open>codec.digest\<close> refuses the empty payload.\<close>

definition decode_record :: "trace_host \<Rightarrow> trace_key \<Rightarrow> memory_event \<Rightarrow> trace_error + trace_event" where
  "decode_record h key r =
     require (first_error [
       (if xr_payload r = [] then Some (TraceValueError ''payload must not be empty'') else None),
       protocol_error (xh_digest h (xr_payload r) \<noteq> xr_digest r) ''Trace event payload digest mismatch'',
       protocol_error (\<not> valid_record key r) ''In-memory Trace event evidence conflicts''])
     (Inr (xr_event r))"

fun decode_records :: "trace_host \<Rightarrow> trace_key \<Rightarrow> memory_event list \<Rightarrow> trace_error + trace_event list" where
  "decode_records h key [] = Inr []"
| "decode_records h key (r # rs) =
     attempt (decode_record h key r) (\<lambda>event. attempt (decode_records h key rs) (\<lambda>events. Inr (event # events)))"

definition decode_event_page :: "trace_host \<Rightarrow> page_request \<Rightarrow> event_page \<Rightarrow> trace_error + trace_event list" where
  "decode_event_page h request page =
     require (first_error [
       protocol_error (xa_key page \<noteq> xj_key request) ''Trace event page does not match the requested generation'',
       protocol_error (list_ex (\<lambda>run_id. run_id = [] \<or> run_id \<noteq> py_strip run_id) (xa_active page) \<or> \<not> distinct (xa_active page))
         ''Trace event page has invalid active Runs'',
       protocol_error (xj_limit request < int (length (xa_events page))) ''Trace event page exceeds its requested limit'',
       protocol_error (\<not> valid_sequences request (xa_tail page) (map xr_seq (xa_events page)))
         ''Trace event page violates requested ordering''])
     (decode_records h (xj_key request) (xa_events page))"

text \<open>\<open>DurableTraceStore.read_events\<close> over this backend.\<close>

definition read_events :: "trace_host \<Rightarrow> time \<Rightarrow> trace_key \<Rightarrow> int \<Rightarrow> int \<Rightarrow> int \<Rightarrow> trace_event list trace_op" where
  "read_events h now key after_seq as_of_seq limit =
     seq (check (if after_seq < 0 \<or> as_of_seq < 0 \<or> limit < 1
       then Some (TraceValueError ''event cursor values must be non-negative and bounded'') else None))
     (let request = \<lparr>xj_key = key, xj_direction = FORWARD, xj_limit = limit, xj_after = Some after_seq,
        xj_as_of = Some as_of_seq, xj_before = None\<rparr>
      in bind (read_event_page now request) (\<lambda>page. lift (decode_event_page h request page)))"

end
