(* ===== verification/Trc_Inv.thy ===== *)
theory Trc_Inv
  imports Trc_Memory
begin

text \<open>
  The invariant of the in-memory trace backend: gapless logs with exact sizes, one writer per
  run with an exact reserve, and capacity limits that count what is still reserved. Beside it,
  what no change takes back: a log only grows, and a run that committed something only goes on.
\<close>

section \<open>Sums over the threads of a namespace\<close>

definition namespace_sum :: "(memory_thread \<Rightarrow> int) \<Rightarrow> py_str \<Rightarrow> trace_backend \<Rightarrow> int" where
  "namespace_sum f namespace b = sum_list (map f (namespace_threads namespace b))"

definition thread_weight :: "memory_thread \<Rightarrow> int" where
  "thread_weight t = xt_bytes (xm_state t) + active_reserve xw_bytes t"

lemma namespace_sum_rows:
  "namespace_sum f namespace b = sum_list (map (\<lambda>((n, _), t). if n = namespace then f t else 0) (xb_threads b))"
proof -
  have "sum_list (map f (map snd (filter (\<lambda>((n, _), _). n = namespace) d))) =
      sum_list (map (\<lambda>((n, _), t). if n = namespace then f t else 0) d)" for d :: "(py_str \<times> py_str, memory_thread) dict"
    by (induction d) auto
  then show ?thesis by (simp add: namespace_sum_def namespace_threads_def)
qed

lemma row_sum_dset:
  "wf_dict d \<Longrightarrow> sum_list (map (\<lambda>(k, v). f k v) (dset k v d)) =
     sum_list (map (\<lambda>(k, v). f k v) d) + f k v - (case dget d k of None \<Rightarrow> 0 | Some w \<Rightarrow> (f k w :: int))"
  by (induction d) (auto simp: wf_dict_def split: option.splits)

lemma row_sum_ddel:
  "wf_dict d \<Longrightarrow> sum_list (map (\<lambda>(k, v). f k v) (ddel k d)) =
     sum_list (map (\<lambda>(k, v). f k v) d) - (case dget d k of None \<Rightarrow> 0 | Some w \<Rightarrow> (f k w :: int))"
proof (induction d)
  case (Cons p d)
  then show ?case
    by (cases p) (auto simp: wf_dict_def map_of_eq_None_iff [symmetric] split: option.splits)
qed simp

lemma case_key: "(\<lambda>((n, _), t). if n = namespace then f t else 0) = (\<lambda>(k, v). if fst k = namespace then f v else (0::int))"
  by (auto simp: fun_eq_iff)

lemma namespace_sum_put:
  assumes "wf_dict (xb_threads b)"
  shows "namespace_sum f namespace (put_thread k t b) = namespace_sum f namespace b +
     (if fst k = namespace then f t - (case dget (xb_threads b) k of None \<Rightarrow> 0 | Some u \<Rightarrow> f u) else 0)"
  using row_sum_dset [OF assms, of "\<lambda>k v. if fst k = namespace then f v else 0" k t]
  by (auto simp: namespace_sum_rows put_thread_def case_key split: option.splits)

lemma namespace_sum_drop:
  assumes "wf_dict (xb_threads b)"
  shows "namespace_sum f namespace (drop_thread k b) = namespace_sum f namespace b -
     (if fst k = namespace then (case dget (xb_threads b) k of None \<Rightarrow> 0 | Some u \<Rightarrow> f u) else 0)"
  using row_sum_ddel [OF assms, of "\<lambda>k v. if fst k = namespace then f v else 0" k]
  by (auto simp: namespace_sum_rows drop_thread_def case_key split: option.splits)

lemma state_sums:
  "xs_bytes (backend_state now n tid r c a b) + xs_reserved (backend_state now n tid r c a b) = namespace_sum thread_weight n b"
  "xs_threads (backend_state now n tid r c a b) = namespace_sum (\<lambda>_. 1) n b"
proof -
  have "sum_list (map (\<lambda>t. xt_bytes (xm_state t)) ts) + sum_list (map (active_reserve xw_bytes) ts) = sum_list (map thread_weight ts)" for ts
    by (induction ts) (simp_all add: thread_weight_def)
  then show "xs_bytes (backend_state now n tid r c a b) + xs_reserved (backend_state now n tid r c a b) = namespace_sum thread_weight n b"
    by (simp add: backend_state_def Let_def namespace_sum_def)
  show "xs_threads (backend_state now n tid r c a b) = namespace_sum (\<lambda>_. 1) n b"
    by (simp add: backend_state_def Let_def namespace_sum_def sum_list_triv)
qed

section \<open>The invariant\<close>

definition writer_ok :: "trace_limits \<Rightarrow> ledger_writer \<Rightarrow> bool" where
  "writer_ok l w \<longleftrightarrow> 1 \<le> xw_fence w \<and> 0 \<le> xw_committed w \<and> 0 \<le> xw_events w \<and> 0 \<le> xw_bytes w \<and>
     (xw_closed w \<longrightarrow> xw_terminal w) \<and> (xw_terminal w \<or> \<not> xw_active w \<longrightarrow> 0 < xw_committed w) \<and>
     (if xw_active w \<and> \<not> xw_closed w then
        (if xw_terminal w then 1 \<le> xw_events w \<and> xl_event_bytes l \<le> xw_bytes w
         else xw_events w = xl_reserve_events l \<and> xw_bytes w = xl_reserve_bytes l)
      else xw_events w = 0 \<and> xw_bytes w = 0)"

definition record_sound :: "trace_host \<Rightarrow> trace_limits \<Rightarrow> trace_key \<Rightarrow> nat \<Rightarrow> memory_event \<Rightarrow> bool" where
  "record_sound h l key i r \<longleftrightarrow> xr_seq r = int i + 1 \<and> valid_record key r \<and> xr_payload r \<noteq> [] \<and>
     xr_digest r = xh_digest h (xr_payload r) \<and> 0 \<le> xr_bytes r \<and> xr_bytes r \<le> xl_event_bytes l"

definition run_events :: "py_str \<Rightarrow> memory_thread \<Rightarrow> int" where
  "run_events run_id t = int (length (filter (\<lambda>r. xr_run r = run_id) (xm_events t)))"

definition trace_log_ok :: "trace_host \<Rightarrow> trace_limits \<Rightarrow> memory_thread \<Rightarrow> bool" where
  "trace_log_ok h l t \<longleftrightarrow> xt_next (xm_state t) = int (length (xm_events t)) + 1 \<and>
     xt_bytes (xm_state t) = sum_list (map xr_bytes (xm_events t)) \<and>
     (\<forall>i < length (xm_events t). record_sound h l (xt_key (xm_state t)) i (xm_events t ! i))"

definition writers_ok :: "trace_limits \<Rightarrow> memory_thread \<Rightarrow> bool" where
  "writers_ok l t \<longleftrightarrow> wf_dict (xm_writers t) \<and>
     (\<forall>run_id w. dget (xm_writers t) run_id = Some w \<longrightarrow> xw_run w = run_id \<and> canonical_identifier 1024 run_id \<and>
        writer_ok l w \<and> xw_committed w = run_events run_id t) \<and>
     (\<forall>r \<in> set (xm_events t). dget (xm_writers t) (xr_run r) \<noteq> None)"

definition capacity_ok :: "trace_limits \<Rightarrow> memory_thread \<Rightarrow> bool" where
  "capacity_ok l t \<longleftrightarrow> xt_next (xm_state t) - 1 + active_reserve xw_events t \<le> xl_thread_events l \<and>
     thread_weight t \<le> xl_thread_bytes l"

definition checkpoints_ok :: "trace_limits \<Rightarrow> memory_thread \<Rightarrow> bool" where
  "checkpoints_ok l t \<longleftrightarrow> (\<forall>scope items. dget (xm_checkpoints t) scope = Some items \<longrightarrow>
     sorted_wrt (<) (map xq_seq items) \<and> int (length items) \<le> xl_checkpoints l \<and>
     (\<forall>c \<in> set items. xq_seq c < xt_next (xm_state t)))"

definition thread_ok :: "trace_host \<Rightarrow> trace_limits \<Rightarrow> py_str \<times> py_str \<Rightarrow> memory_thread \<Rightarrow> bool" where
  "thread_ok h l k t \<longleftrightarrow> key_thread (xt_key (xm_state t)) = k \<and> trace_log_ok h l t \<and> writers_ok l t \<and> capacity_ok l t \<and> checkpoints_ok l t"

definition generated :: "trace_host \<Rightarrow> trace_backend \<Rightarrow> py_str \<Rightarrow> bool" where
  "generated h b g \<longleftrightarrow> (\<exists>n < xb_generations b. g = xh_generation h n)"

text \<open>Identifiers are never drawn twice, and no JSON text is empty.\<close>

definition trace_host_ok :: "trace_host \<Rightarrow> bool" where
  "trace_host_ok h \<longleftrightarrow> inj (xh_generation h) \<and> (\<forall>event. 1 \<le> xh_json_size h event)"

definition trace_inv :: "trace_host \<Rightarrow> trace_limits \<Rightarrow> trace_backend \<Rightarrow> bool" where
  "trace_inv h l b \<longleftrightarrow> consistent_limits l \<and> trace_host_ok h \<and> wf_dict (xb_threads b) \<and>
     (\<forall>k t. dget (xb_threads b) k = Some t \<longrightarrow> thread_ok h l k t \<and> generated h b (xk_generation (xt_key (xm_state t)))) \<and>
     (\<forall>namespace. namespace_sum thread_weight namespace b \<le> xl_bytes l \<and> namespace_sum (\<lambda>_. 1) namespace b \<le> xl_threads l)"

lemma trace_inv_at:
  "trace_inv h l b \<Longrightarrow> dget (xb_threads b) k = Some t \<Longrightarrow> thread_ok h l k t"
  "trace_inv h l b \<Longrightarrow> namespace_sum thread_weight n b \<le> xl_bytes l"
  "trace_inv h l b \<Longrightarrow> namespace_sum (\<lambda>_. 1) n b \<le> xl_threads l"
  "trace_inv h l b \<Longrightarrow> dget (xb_threads b) k = Some t \<Longrightarrow> generated h b (xk_generation (xt_key (xm_state t)))"
  unfolding trace_inv_def by blast+

section \<open>What no change takes back\<close>

definition writer_later :: "ledger_writer \<Rightarrow> ledger_writer \<Rightarrow> bool" where
  "writer_later w w' \<longleftrightarrow> xw_committed w \<le> xw_committed w' \<and> xw_fence w \<le> xw_fence w' \<and> (xw_terminal w \<longrightarrow> xw_terminal w') \<and>
     (xw_closed w \<longrightarrow> xw_closed w') \<and> (\<not> xw_active w \<longrightarrow> \<not> xw_active w') \<and> (xw_fence w' = xw_fence w \<longrightarrow> xw_token w' = xw_token w)"

definition thread_later :: "memory_thread \<Rightarrow> memory_thread \<Rightarrow> bool" where
  "thread_later t t' \<longleftrightarrow> (\<exists>more. xm_events t' = xm_events t @ more) \<and>
     (\<forall>run_id w. dget (xm_writers t) run_id = Some w \<longrightarrow> 0 < xw_committed w \<longrightarrow>
        (\<exists>w'. dget (xm_writers t') run_id = Some w' \<and> writer_later w w'))"

definition trace_later :: "trace_host \<Rightarrow> trace_backend \<Rightarrow> trace_backend \<Rightarrow> bool" where
  "trace_later h b b' \<longleftrightarrow> xb_generations b \<le> xb_generations b' \<and>
     (\<forall>k t'. dget (xb_threads b') k = Some t' \<longrightarrow>
        (\<exists>t. dget (xb_threads b) k = Some t \<and> xt_key (xm_state t) = xt_key (xm_state t') \<and> thread_later t t') \<or>
        \<not> generated h b (xk_generation (xt_key (xm_state t'))))"

abbreviation trace_sound :: "trace_host \<Rightarrow> trace_limits \<Rightarrow> trace_backend \<Rightarrow> trace_backend \<Rightarrow> bool" where
  "trace_sound h l b b' \<equiv> trace_inv h l b' \<and> trace_later h b b'"

lemma writer_later_refl [simp]: "writer_later w w"
  by (simp add: writer_later_def)

lemma thread_later_refl [simp]: "thread_later t t"
  by (simp add: thread_later_def)

lemma trace_later_refl [simp]: "trace_later h b b"
  by (auto simp: trace_later_def)

lemma writer_later_trans: "writer_later u v \<Longrightarrow> writer_later v w \<Longrightarrow> writer_later u w"
  by (auto simp: writer_later_def)

lemma thread_later_trans:
  assumes "thread_later t u" and "thread_later u v"
  shows "thread_later t v"
proof -
  have "\<exists>w'. dget (xm_writers v) run_id = Some w' \<and> writer_later w w'"
    if w: "dget (xm_writers t) run_id = Some w" "0 < xw_committed w" for run_id w
  proof -
    obtain w1 where w1: "dget (xm_writers u) run_id = Some w1" "writer_later w w1"
      using assms(1) w unfolding thread_later_def by blast
    then have "0 < xw_committed w1" using w(2) by (simp add: writer_later_def)
    then obtain w2 where "dget (xm_writers v) run_id = Some w2" "writer_later w1 w2"
      using assms(2) w1(1) unfolding thread_later_def by blast
    then show ?thesis using writer_later_trans [OF w1(2)] by blast
  qed
  then show ?thesis using assms unfolding thread_later_def by (metis append.assoc)
qed

lemma generated_mono: "xb_generations b \<le> xb_generations b' \<Longrightarrow> generated h b g \<Longrightarrow> generated h b' g"
  unfolding generated_def using order_less_le_trans by blast

lemma trace_later_trans:
  assumes "trace_later h a b" and "trace_later h b c"
  shows "trace_later h a c"
  unfolding trace_later_def
proof (intro conjI allI impI)
  show "xb_generations a \<le> xb_generations c" using assms by (simp add: trace_later_def)
  fix k v assume v: "dget (xb_threads c) k = Some v"
  have mono: "generated h a g \<Longrightarrow> generated h b g" for g
    using assms(1) generated_mono [of a b h g] by (simp add: trace_later_def)
  from v assms(2) consider (kept) u where "dget (xb_threads b) k = Some u" "xt_key (xm_state u) = xt_key (xm_state v)" "thread_later u v"
    | (fresh) "\<not> generated h b (xk_generation (xt_key (xm_state v)))"
    unfolding trace_later_def by blast
  then show "(\<exists>t. dget (xb_threads a) k = Some t \<and> xt_key (xm_state t) = xt_key (xm_state v) \<and> thread_later t v) \<or>
      \<not> generated h a (xk_generation (xt_key (xm_state v)))"
  proof cases
    case kept
    then consider t where "dget (xb_threads a) k = Some t" "xt_key (xm_state t) = xt_key (xm_state u)" "thread_later t u"
      | "\<not> generated h a (xk_generation (xt_key (xm_state u)))"
      using assms(1) unfolding trace_later_def by blast
    then show ?thesis using kept thread_later_trans by cases auto
  next
    case fresh
    then show ?thesis using mono by blast
  qed
qed

section \<open>Replacing and dropping a thread\<close>

lemma threads_put [simp]:
  "dget (xb_threads (put_thread k t b)) k' = (if k' = k then Some t else dget (xb_threads b) k')"
  "dget (xb_threads (drop_thread k b)) k' = (if k' = k then None else dget (xb_threads b) k')"
  "xb_generations (put_thread k t b) = xb_generations b" "xb_generations (drop_thread k b) = xb_generations b"
  "wf_dict (xb_threads b) \<Longrightarrow> wf_dict (xb_threads (put_thread k t b))"
  "wf_dict (xb_threads b) \<Longrightarrow> wf_dict (xb_threads (drop_thread k b))"
  by (simp_all add: put_thread_def drop_thread_def)

lemma put_put [simp]: "put_thread k t (put_thread k u b) = put_thread k t b"
  by (simp add: put_thread_def dset_dset)

lemma generated_put [simp]: "generated h (put_thread k t b) = generated h b" "generated h (drop_thread k b) = generated h b"
  by (simp_all add: generated_def fun_eq_iff)

abbreviation drawn :: "trace_backend \<Rightarrow> trace_backend" where
  "drawn b \<equiv> b\<lparr>xb_generations := Suc (xb_generations b)\<rparr>"

lemma drawn_sums [simp]: "namespace_sum f n (drawn b) = namespace_sum f n b"
  by (simp add: namespace_sum_def namespace_threads_def)

lemma drawn_sound: "trace_inv h l b \<Longrightarrow> trace_sound h l b (drawn b)"
  using generated_mono [of b "drawn b" h] by (auto simp: trace_inv_def trace_later_def)

lemma fresh_generated:
  assumes "trace_inv h l b"
  shows "\<not> generated h b (xh_generation h (xb_generations b))" "generated h (drawn b) (xh_generation h (xb_generations b))"
  using assms by (auto simp: trace_inv_def trace_host_ok_def generated_def dest: injD)

text \<open>A thread is replaced by one of the same generation that weighs no more than its namespace can bear.\<close>

lemma put_thread_sound:
  assumes inv: "trace_inv h l b" and t: "dget (xb_threads b) k = Some t"
    and t': "thread_ok h l k t'" "xt_key (xm_state t') = xt_key (xm_state t)" "thread_later t t'"
    and weight: "namespace_sum thread_weight (fst k) b - thread_weight t + thread_weight t' \<le> xl_bytes l"
  shows "trace_sound h l b (put_thread k t' b)"
proof
  have wf: "wf_dict (xb_threads b)" using inv by (simp add: trace_inv_def)
  show "trace_inv h l (put_thread k t' b)"
    using inv t t'(1,2) weight by (auto simp: trace_inv_def namespace_sum_put [OF wf])
  show "trace_later h b (put_thread k t' b)"
    using t t'(2,3) by (auto simp: trace_later_def)
qed

lemma drop_thread_sound:
  assumes inv: "trace_inv h l b" and light: "\<And>t. dget (xb_threads b) k = Some t \<Longrightarrow> 0 \<le> thread_weight t"
  shows "trace_sound h l b (drop_thread k b)"
proof
  have wf: "wf_dict (xb_threads b)" using inv by (simp add: trace_inv_def)
  have less: "namespace_sum f n (drop_thread k b) \<le> namespace_sum f n b"
    if "\<And>t. dget (xb_threads b) k = Some t \<Longrightarrow> 0 \<le> f t" for f n
    using that by (simp add: namespace_sum_drop [OF wf] split: option.split)
  have "namespace_sum thread_weight n (drop_thread k b) \<le> xl_bytes l" "namespace_sum (\<lambda>_. 1) n (drop_thread k b) \<le> xl_threads l" for n
    using less [of thread_weight n] less [of "\<lambda>_. 1" n] light inv order_trans unfolding trace_inv_def by (blast, simp, blast)
  then show "trace_inv h l (drop_thread k b)" using inv by (auto simp: trace_inv_def)
  show "trace_later h b (drop_thread k b)" by (auto simp: trace_later_def)
qed

end
