(* ===== verification/Trc_Steps.thy ===== *)
theory Trc_Steps
  imports Trc_Inv
begin

text \<open>Every commit of the in-memory trace backend keeps its invariant and takes nothing back.\<close>

lemma error_None [simp]: "protocol_error bad message = None \<longleftrightarrow> \<not> bad" "quota_error exceeded resource = None \<longleftrightarrow> \<not> exceeded"
  by (simp_all add: protocol_error_def quota_error_def)

section \<open>Events\<close>

lemma decimal_digits_pos: "1 \<le> decimal_digits n"
proof (induction n rule: decimal_digits.induct)
  case (1 n)
  then show ?case by (subst decimal_digits.simps) (auto intro: order_trans)
qed

lemma size_attempts_Inr: "size_attempts k body n = Inr m \<Longrightarrow> m = body + decimal_digits m"
  by (induction k arbitrary: n) (auto simp: Let_def split: if_splits)

lemma make_event_Inr:
  "make_event h event_id s g f = Inr e \<Longrightarrow> xe_id e = event_id \<and> xe_seq e = s \<and> xe_generation e = g \<and> xe_fact e = f \<and>
     (trace_host_ok h \<longrightarrow> 0 \<le> xe_bytes e)"
proof -
  assume e: "make_event h event_id s g f = Inr e"
  let ?event = "\<lparr>xe_id = event_id, xe_seq = s, xe_generation = g, xe_fact = f, xe_bytes = 1\<rparr>"
  from e obtain n where n: "size_attempts 4 (xh_json_size h ?event - 1) 1 = Inr n" "e = ?event\<lparr>xe_bytes := n\<rparr>"
    by (auto simp: make_event_def Let_def attempt_Inr simp del: size_attempts.simps)
  have "0 \<le> n" if "trace_host_ok h"
  proof -
    have "1 \<le> xh_json_size h ?event" using that by (simp add: trace_host_ok_def)
    then show ?thesis using size_attempts_Inr [OF n(1)] decimal_digits_pos [of n] by linarith
  qed
  then show ?thesis using n(2) by simp
qed

lemma number_facts_Inr:
  "number_facts h l key run_id n drafts = Inr events \<Longrightarrow>
     list_all2 (\<lambda>event draft. xe_id event = xd_id draft \<and> xe_generation event = xk_generation key \<and> xe_fact event = xd_fact draft \<and>
         id_namespace (xf_identity (xd_fact draft)) = xk_namespace key \<and> id_thread (xf_identity (xd_fact draft)) = xk_thread key \<and>
         id_run (xf_identity (xd_fact draft)) = run_id \<and> xe_bytes event \<le> xl_event_bytes l \<and> (trace_host_ok h \<longrightarrow> 0 \<le> xe_bytes event) \<and>
         make_event h (xd_id draft) (xe_seq event) (xk_generation key) (xd_fact draft) = Inr event) events drafts \<and>
     (\<forall>i < length events. xe_seq (events ! i) = n + int i)"
proof (induction drafts arbitrary: n events)
  case (Cons draft drafts)
  let ?rest = "number_facts h l key run_id (n + 1) drafts"
  from Cons.prems obtain event rest where e: "make_event h (xd_id draft) n (xk_generation key) (xd_fact draft) = Inr event"
    "?rest = Inr rest" "events = event # rest" "xe_bytes event \<le> xl_event_bytes l"
    "id_namespace (xf_identity (xd_fact draft)) = xk_namespace key" "id_thread (xf_identity (xd_fact draft)) = xk_thread key"
    "id_run (xf_identity (xd_fact draft)) = run_id"
    by (auto simp: Let_def attempt_Inr require_Inr protocol_error_def quota_error_def split: if_splits)
  have "xe_seq ((event # rest) ! i) = n + int i" if "i < length (event # rest)" for i
    using that Cons.IH [OF e(2)] make_event_Inr [OF e(1)] by (cases i) auto
  then show ?case
    using Cons.IH [OF e(2)] make_event_Inr [OF e(1)] e by simp
qed simp

section \<open>Writers and reserves\<close>

definition reserve_of :: "(ledger_writer \<Rightarrow> int) \<Rightarrow> ledger_writer \<Rightarrow> int" where
  "reserve_of f w = (if xw_active w then f w else 0)"

lemma active_reserve_dset:
  "wf_dict (xm_writers t) \<Longrightarrow> active_reserve f (t\<lparr>xm_writers := dset r w (xm_writers t)\<rparr>) =
     active_reserve f t + reserve_of f w - (case dget (xm_writers t) r of None \<Rightarrow> 0 | Some v \<Rightarrow> reserve_of f v)"
  by (simp add: active_reserve_def dsum_dset reserve_of_def split: option.split)

lemma active_reserve_ddel:
  "wf_dict (xm_writers t) \<Longrightarrow> active_reserve f (t\<lparr>xm_writers := ddel r (xm_writers t)\<rparr>) =
     active_reserve f t - (case dget (xm_writers t) r of None \<Rightarrow> 0 | Some v \<Rightarrow> reserve_of f v)"
  by (simp add: active_reserve_def dsum_ddel reserve_of_def split: option.split)

lemma reserve_cong [simp]: "active_reserve f (t\<lparr>xm_state := s\<rparr>) = active_reserve f t"
    "active_reserve f (t\<lparr>xm_events := e\<rparr>) = active_reserve f t" "active_reserve f (t\<lparr>xm_checkpoints := c\<rparr>) = active_reserve f t"
  by (simp_all add: active_reserve_def)

lemma thread_cong [simp]: "trace_log_ok h l (t\<lparr>xm_writers := ws\<rparr>) = trace_log_ok h l t" "checkpoints_ok l (t\<lparr>xm_writers := ws\<rparr>) = checkpoints_ok l t"
  by (simp_all add: trace_log_ok_def checkpoints_ok_def)

lemma active_reserve_nonneg: "writers_ok l t \<Longrightarrow> 0 \<le> active_reserve xw_bytes t"
proof -
  assume ok: "writers_ok l t"
  have "0 \<le> (if xw_active w then xw_bytes w else 0)" if "w \<in> set (dvals (xm_writers t))" for w
  proof -
    have wf: "wf_dict (xm_writers t)" using ok by (simp add: writers_ok_def)
    obtain r where "dget (xm_writers t) r = Some w" using in_dvals_iff [OF wf] \<open>w \<in> set (dvals (xm_writers t))\<close> by blast
    then have "writer_ok l w" using ok by (simp add: writers_ok_def)
    then show ?thesis by (simp add: writer_ok_def)
  qed
  then show ?thesis unfolding active_reserve_def by (rule dsum_nonneg)
qed

lemma thread_weight_nonneg: "thread_ok h l k t \<Longrightarrow> 0 \<le> thread_weight t"
proof -
  assume ok: "thread_ok h l k t"
  then have "0 \<le> sum_list (map xr_bytes (xm_events t))"
    by (intro sum_list_nonneg) (auto simp: thread_ok_def trace_log_ok_def record_sound_def in_set_conv_nth)
  then show ?thesis using ok active_reserve_nonneg [of l t] by (simp add: thread_ok_def trace_log_ok_def thread_weight_def)
qed

lemma writers_ok_put:
  "writers_ok l t \<Longrightarrow> writer_ok l w \<Longrightarrow> canonical_identifier 1024 (xw_run w) \<Longrightarrow> xw_committed w = run_events (xw_run w) t \<Longrightarrow>
     writers_ok l (t\<lparr>xm_writers := dset (xw_run w) w (xm_writers t)\<rparr>)"
  by (auto simp: writers_ok_def run_events_def)

text \<open>A writer is replaced by one that holds no more and takes nothing back.\<close>

lemma writer_changed:
  assumes ok: "thread_ok h l k t" and w: "dget (xm_writers t) r = Some w"
    and w': "xw_run w' = r" "xw_committed w' = xw_committed w" "writer_ok l w'" "writer_later w w'"
    and less: "reserve_of xw_events w' \<le> reserve_of xw_events w" "reserve_of xw_bytes w' \<le> reserve_of xw_bytes w"
  defines "t' \<equiv> t\<lparr>xm_writers := dset r w' (xm_writers t)\<rparr>"
  shows "thread_ok h l k t'" "xt_key (xm_state t') = xt_key (xm_state t)" "thread_later t t'" "thread_weight t' \<le> thread_weight t"
proof -
  have wf: "wf_dict (xm_writers t)" and ws: "writers_ok l t" using ok by (simp_all add: thread_ok_def writers_ok_def)
  have reserve: "active_reserve xw_events t' \<le> active_reserve xw_events t" "active_reserve xw_bytes t' \<le> active_reserve xw_bytes t"
    using less w by (simp_all add: t'_def active_reserve_dset [OF wf])
  show weight: "thread_weight t' \<le> thread_weight t" using reserve(2) by (simp add: thread_weight_def t'_def)
  have "writers_ok l t'"
  proof -
    have "canonical_identifier 1024 r" "xw_committed w = run_events r t" using ws w by (simp_all add: writers_ok_def)
    then show ?thesis using writers_ok_put [OF ws w'(3)] w'(1,2) by (simp add: t'_def)
  qed
  moreover have "capacity_ok l t'" using ok reserve(1) weight by (auto simp: thread_ok_def capacity_ok_def t'_def)
  ultimately show "thread_ok h l k t'" using ok by (simp add: thread_ok_def t'_def)
  show "xt_key (xm_state t') = xt_key (xm_state t)" by (simp add: t'_def)
  show "thread_later t t'" using w'(1,4) w by (auto simp: thread_later_def t'_def)
qed

lemma writer_removed:
  assumes ok: "thread_ok h l k t" and w: "dget (xm_writers t) r = Some w" "xw_committed w = 0"
  defines "t' \<equiv> t\<lparr>xm_writers := ddel r (xm_writers t)\<rparr>"
  shows "thread_ok h l k t'" "xt_key (xm_state t') = xt_key (xm_state t)" "thread_later t t'" "thread_weight t' \<le> thread_weight t"
proof -
  have wf: "wf_dict (xm_writers t)" and wok: "writer_ok l w" using ok w(1) by (auto simp: thread_ok_def writers_ok_def)
  have reserve: "active_reserve xw_events t' \<le> active_reserve xw_events t" "active_reserve xw_bytes t' \<le> active_reserve xw_bytes t"
    using wok w(1) by (simp_all add: t'_def active_reserve_ddel [OF wf] reserve_of_def writer_ok_def)
  show weight: "thread_weight t' \<le> thread_weight t" using reserve(2) by (simp add: thread_weight_def t'_def)
  have "xw_committed w = run_events r t" using ok w(1) by (simp add: thread_ok_def writers_ok_def)
  then have "\<forall>e \<in> set (xm_events t). xr_run e \<noteq> r" using w(2) by (simp add: run_events_def filter_empty_conv)
  then have "writers_ok l t'" using ok by (auto simp: thread_ok_def writers_ok_def run_events_def t'_def)
  moreover have "capacity_ok l t'" using ok reserve(1) weight by (auto simp: thread_ok_def capacity_ok_def t'_def)
  ultimately show "thread_ok h l k t'" using ok by (simp add: thread_ok_def t'_def)
  show "xt_key (xm_state t') = xt_key (xm_state t)" by (simp add: t'_def)
  show "thread_later t t'" using w by (auto simp: thread_later_def t'_def)
qed

text \<open>A writer is added under the quotas that the reducer tests.\<close>

lemma no_run_events: "writers_ok l t \<Longrightarrow> dget (xm_writers t) r = None \<Longrightarrow> run_events r t = 0"
  by (auto simp: writers_ok_def run_events_def filter_empty_conv)

lemma writer_added:
  assumes ok: "thread_ok h l k t" and r: "dget (xm_writers t) r = None"
    and w: "writer_ok l w" "xw_run w = r" "canonical_identifier 1024 r" "xw_committed w = 0"
    and quota: "xt_next (xm_state t) - 1 + active_reserve xw_events t + reserve_of xw_events w \<le> xl_thread_events l"
      "thread_weight t + reserve_of xw_bytes w \<le> xl_thread_bytes l"
  defines "t' \<equiv> t\<lparr>xm_writers := dset r w (xm_writers t)\<rparr>"
  shows "thread_ok h l k t'" "xt_key (xm_state t') = xt_key (xm_state t)" "thread_later t t'"
    "thread_weight t' = thread_weight t + reserve_of xw_bytes w"
proof -
  have ws: "writers_ok l t" and wf: "wf_dict (xm_writers t)" using ok by (simp_all add: thread_ok_def writers_ok_def)
  show weight: "thread_weight t' = thread_weight t + reserve_of xw_bytes w"
    using r by (simp add: thread_weight_def t'_def active_reserve_dset [OF wf])
  have "writers_ok l t'" using writers_ok_put [OF ws w(1)] w(2-4) no_run_events [OF ws r] by (simp add: t'_def)
  moreover have "capacity_ok l t'"
    using quota weight r by (simp add: capacity_ok_def t'_def active_reserve_dset [OF wf])
  ultimately show "thread_ok h l k t'" using ok by (simp add: thread_ok_def t'_def)
  show "xt_key (xm_state t') = xt_key (xm_state t)" by (simp add: t'_def)
  show "thread_later t t'" using r by (auto simp: thread_later_def t'_def)
qed

text \<open>A thread is created.\<close>

lemma put_new_sound:
  assumes inv: "trace_inv h l b" and k: "dget (xb_threads b) k = None"
    and t: "thread_ok h l k t" "xk_generation (xt_key (xm_state t)) = xh_generation h (xb_generations b)"
    and room: "namespace_sum thread_weight (fst k) b + thread_weight t \<le> xl_bytes l" "namespace_sum (\<lambda>_. 1) (fst k) b < xl_threads l"
  shows "trace_sound h l b (put_thread k t (drawn b))"
proof
  have wf: "wf_dict (xb_threads (drawn b))" using inv by (simp add: trace_inv_def)
  note fresh = fresh_generated [OF inv]
  have other: "thread_ok h l k' u \<and> generated h (drawn b) (xk_generation (xt_key (xm_state u)))"
    if "dget (xb_threads b) k' = Some u" for k' u
    using trace_inv_at(1,4) [OF inv that] generated_mono [of b "drawn b" h] by simp
  show "trace_inv h l (put_thread k t (drawn b))"
    using inv other fresh(2) t room k unfolding trace_inv_def
    by (auto simp: namespace_sum_put [OF wf])
  show "trace_later h b (put_thread k t (drawn b))"
    using fresh(1) t(2) by (auto simp: trace_later_def)
qed

section \<open>Applying an effect\<close>

text \<open>An effect on a thread that exists, when its head belongs to it.\<close>

definition changed_thread :: "ledger_change \<Rightarrow> ledger_effect \<Rightarrow> memory_thread \<Rightarrow> memory_thread" where
  "changed_thread change effect t =
     effect_thread change effect (case xx_thread effect of None \<Rightarrow> t | Some head \<Rightarrow> t\<lparr>xm_state := head\<rparr>)"

lemma apply_existing:
  assumes "effect_key change effect = Some key" and "\<not> xx_delete effect" "\<not> xx_remove_thread effect"
    and "dget (xb_threads b) (key_thread key) = Some t"
    and "\<And>head. xx_thread effect = Some head \<Longrightarrow> key_thread (xt_key head) = key_thread key"
    and "\<And>e. xx_validated effect \<noteq> [] \<Longrightarrow> graph = Some e \<Longrightarrow> E e (put_thread (key_thread key) (changed_thread change effect t) b)"
    and "(xx_validated effect \<noteq> [] \<longrightarrow> graph = None) \<Longrightarrow> xx_checkpoint effect = None \<Longrightarrow>
      Q () (put_thread (key_thread key) (changed_thread change effect t) b)"
    and "\<And>c. xx_checkpoint effect = Some c \<Longrightarrow>
      Q () (put_thread (key_thread key) (effect_checkpoints (xg_limits change) c (changed_thread change effect t)) b)"
  shows "run_with (apply_ledger_effect graph change effect) Q E b"
proof -
  let ?k = "key_thread key"
  obtain u where head: "dget (xb_threads (headed_thread effect b)) ?k = Some u"
    "\<And>v. put_thread ?k v (headed_thread effect b) = put_thread ?k v b" "changed_thread change effect t = effect_thread change effect u"
    using assms(4,5) that by (cases "xx_thread effect") (auto simp: headed_thread_def changed_thread_def Let_def)
  show ?thesis
    using assms(1-3,6-8) head by (auto simp: apply_ledger_effect_def wp Let_def split: option.split)
qed

lemma commit_wp:
  "run_with (commit_ledger_change h world change) Q E b =
    (case state_for_change (xn_now world) change b of Inl e \<Rightarrow> E e b
     | Inr state \<Rightarrow> (case resolve_ledger_change h (xh_generation h (xb_generations b)) (xn_reduce world) change state of
         Inl e \<Rightarrow> E e (drawn b)
       | Inr effect \<Rightarrow> run_with (apply_ledger_effect (xn_apply world) change effect) (\<lambda>_. Q (xx_result effect)) E (drawn b)))"
  by (simp add: commit_ledger_change_def new_generation_def wp split: sum.split)

lemma backend_state_drawn [simp]: "backend_state now n t r c a (drawn b) = backend_state now n t r c a b"
  by (simp add: backend_state_def namespace_threads_def)

text \<open>The state that a change meets, of the thread it names.\<close>

lemma state_thread:
  assumes "xs_thread (backend_state now n tid r c a b) = Some head"
  obtains t where "dget (xb_threads b) (n, tid) = Some t" "xm_state t = head"
  using assms by (auto simp: backend_state_def Let_def)

lemma state_target:
  assumes "xs_target (backend_state now n tid r c a b) = Some w"
  obtains t run_id where "r = Some run_id" "dget (xb_threads b) (n, tid) = Some t" "dget (xm_writers t) run_id = Some w"
  using assms by (auto simp: backend_state_def Let_def split: option.splits)

lemma state_at:
  assumes "dget (xb_threads b) (n, tid) = Some t"
  shows "xs_thread (backend_state now n tid r c a b) = Some (xm_state t)"
    "xs_target (backend_state now n tid r c a b) = (case r of None \<Rightarrow> None | Some run_id \<Rightarrow> dget (xm_writers t) run_id)"
    "xs_writers (backend_state now n tid r c a b) = int (length (xm_writers t))"
    "xs_thread_events (backend_state now n tid r c a b) = active_reserve xw_events t"
    "xs_thread_bytes (backend_state now n tid r c a b) = active_reserve xw_bytes t"
    "xs_checkpoint (backend_state now n tid r c a b) = latest_checkpoint c t"
    "xs_observed_at (backend_state now n tid r c a b) = now"
  using assms by (auto simp: backend_state_def Let_def split: option.split)

lemma state_none:
  assumes "dget (xb_threads b) (n, tid) = None"
  shows "xs_thread (backend_state now n tid r c a b) = None" "xs_target (backend_state now n tid r c a b) = None"
    "xs_thread_events (backend_state now n tid r c a b) = 0" "xs_thread_bytes (backend_state now n tid r c a b) = 0"
  using assms by (auto simp: backend_state_def Let_def split: option.split)

text \<open>Replacing a thread by one that weighs no more.\<close>

lemma put_lighter_sound:
  assumes "trace_inv h l b" and "dget (xb_threads b) k = Some t"
    and "thread_ok h l k t'" "xt_key (xm_state t') = xt_key (xm_state t)" "thread_later t t'" "thread_weight t' \<le> thread_weight t"
  shows "trace_sound h l b (put_thread k t' b)"
  by (rule put_thread_sound [OF assms(1-5)]) (use assms(6) trace_inv_at(2) [OF assms(1), of "fst k"] in linarith)

end
