(* ===== verification/Trc_Commit.thy ===== *)
theory Trc_Commit
  imports Trc_Steps
begin

text \<open>
  Each kind of change, from the state it is resolved against to the effect it has, and the step
  relation of the backend.
\<close>

text \<open>What the store guarantees of a change: facts come with the digest of their payload.\<close>

definition prepared_change :: "trace_host \<Rightarrow> ledger_change \<Rightarrow> bool" where
  "prepared_change h change \<longleftrightarrow>
     (\<forall>d \<in> set (xg_facts change). xd_payload d \<noteq> [] \<and> xd_digest d = xh_digest h (xd_payload d)) \<and>
     (\<forall>i. xg_identity change = Some i \<longrightarrow> canonical_identity i)"

definition applied :: "trace_host \<Rightarrow> trace_limits \<Rightarrow> trace_backend \<Rightarrow> trace_error option \<Rightarrow> ledger_change \<Rightarrow> ledger_effect \<Rightarrow> bool" where
  "applied h l b graph change effect \<longleftrightarrow>
     run_with (apply_ledger_effect graph change effect) (\<lambda>_. trace_sound h l b) (\<lambda>_. trace_sound h l b) (drawn b)"

lemma put_drawn_sound:
  assumes "trace_inv h l b" and "dget (xb_threads b) k = Some t"
    and "thread_ok h l k t'" "xt_key (xm_state t') = xt_key (xm_state t)" "thread_later t t'"
    and "namespace_sum thread_weight (fst k) b - thread_weight t + thread_weight t' \<le> xl_bytes l"
  shows "trace_sound h l b (put_thread k t' (drawn b))"
proof -
  have one: "trace_sound h l b (drawn b)" by (rule drawn_sound [OF assms(1)])
  have "trace_sound h l (drawn b) (put_thread k t' (drawn b))"
    by (rule put_thread_sound [OF conjunct1 [OF one]]) (use assms in simp_all)
  then show ?thesis using one trace_later_trans by blast
qed

lemma put_lighter_drawn:
  assumes "trace_inv h l b" and "dget (xb_threads b) k = Some t"
    and "thread_ok h l k t'" "xt_key (xm_state t') = xt_key (xm_state t)" "thread_later t t'" "thread_weight t' \<le> thread_weight t"
  shows "trace_sound h l b (put_thread k t' (drawn b))"
  by (rule put_drawn_sound [OF assms(1-5)]) (use assms(6) trace_inv_at(2) [OF assms(1), of "fst k"] in linarith)

lemma drop_drawn_sound:
  assumes "trace_inv h l b"
  shows "trace_sound h l b (drop_thread k (drawn b))"
proof -
  have one: "trace_sound h l b (drawn b)" by (rule drawn_sound [OF assms])
  have "trace_sound h l (drawn b) (drop_thread k (drawn b))"
    by (rule drop_thread_sound [OF conjunct1 [OF one]])
      (use trace_inv_at(1) [OF conjunct1 [OF one]] thread_weight_nonneg in blast)
  then show ?thesis using one trace_later_trans by blast
qed

section \<open>Effects that only touch a writer\<close>

lemma effect_key_result [simp]: "xo_key (xx_result effect) = Some key \<Longrightarrow> effect_key change effect = Some key"
  by (simp add: effect_key_def)

lemma apply_nothing:
  assumes inv: "trace_inv h l b" and "xo_key result \<noteq> None"
  shows "applied h l b graph change (plain_effect result)"
proof -
  obtain key where key: "xo_key result = Some key" using assms(2) by auto
  show ?thesis
  proof (cases "dget (xb_threads b) (key_thread key)")
    case None
    then show ?thesis
      using drawn_sound [OF inv] key
      by (simp add: applied_def apply_ledger_effect_def plain_effect_def effect_key_def headed_thread_def wp Let_def)
  next
    case (Some t)
    have "changed_thread change (plain_effect result) t = t"
      by (simp add: changed_thread_def effect_thread_def effect_writers_def plain_effect_def)
    moreover have "trace_sound h l b (put_thread (key_thread key) t (drawn b))"
      by (rule put_lighter_drawn [OF inv Some]) (use trace_inv_at(1) [OF inv Some] in simp_all)
    ultimately show ?thesis
      unfolding applied_def by (intro apply_existing [where key = key and t = t])
        (use key Some in \<open>simp_all add: plain_effect_def effect_key_def\<close>)
  qed
qed

text \<open>One writer of an existing thread is replaced, or removed.\<close>

lemma apply_writer:
  assumes inv: "trace_inv h l b" and t: "dget (xb_threads b) (key_thread key) = Some t" and key: "xo_key result = Some key"
    and w: "dget (xm_writers t) r = Some w" "xw_run w' = r" "xw_committed w' = xw_committed w" "writer_ok l w'" "writer_later w w'"
      "reserve_of xw_events w' \<le> reserve_of xw_events w" "reserve_of xw_bytes w' \<le> reserve_of xw_bytes w"
  shows "applied h l b graph change ((plain_effect result)\<lparr>xx_writer := Some w', xx_reserved_delta := delta\<rparr>)"
proof -
  let ?effect = "(plain_effect result)\<lparr>xx_writer := Some w', xx_reserved_delta := delta\<rparr>"
  have changed: "changed_thread change ?effect t = t\<lparr>xm_writers := dset r w' (xm_writers t)\<rparr>"
    using w(2) by (simp add: changed_thread_def effect_thread_def effect_writers_def plain_effect_def)
  have "trace_sound h l b (put_thread (key_thread key) (t\<lparr>xm_writers := dset r w' (xm_writers t)\<rparr>) (drawn b))"
    by (rule put_lighter_drawn [OF inv t]) (rule writer_changed [OF trace_inv_at(1) [OF inv t] w])+
  then show ?thesis
    unfolding applied_def by (intro apply_existing [where key = key and t = t])
      (use key t changed in \<open>simp_all add: plain_effect_def effect_key_def\<close>)
qed

lemma apply_renewed:
  assumes "trace_inv h l b" and "dget (xb_threads b) (key_thread key) = Some t" and "xo_key result = Some key"
    and "dget (xm_writers t) r = Some w" "xw_run w' = r" "xw_committed w' = xw_committed w" "writer_ok l w'" "writer_later w w'"
      "reserve_of xw_events w' \<le> reserve_of xw_events w" "reserve_of xw_bytes w' \<le> reserve_of xw_bytes w"
  shows "applied h l b graph change ((plain_effect result)\<lparr>xx_writer := Some w'\<rparr>)"
  using apply_writer [OF assms, of graph change 0] by (simp add: plain_effect_def)

lemma writer_at:
  assumes "trace_inv h l b" and "dget (xb_threads b) k = Some t" and "dget (xm_writers t) r = Some w"
  shows "writer_ok l w" "xw_run w = r" "canonical_identifier 1024 r" "xw_committed w = run_events r t"
  using trace_inv_at(1) [OF assms(1,2)] assms(3) by (simp_all add: thread_ok_def writers_ok_def)

lemma key_at:
  "trace_inv h l b \<Longrightarrow> dget (xb_threads b) k = Some t \<Longrightarrow> key_thread (xt_key (xm_state t)) = k"
  using trace_inv_at(1) by (simp add: thread_ok_def)

text \<open>A lease alone does not count.\<close>

lemma leased [simp]: "writer_ok l (w\<lparr>xw_lease := x\<rparr>) = writer_ok l w" "writer_later w (w\<lparr>xw_lease := x\<rparr>)"
    "reserve_of xw_events (w\<lparr>xw_lease := x\<rparr>) = reserve_of xw_events w" "reserve_of xw_bytes (w\<lparr>xw_lease := x\<rparr>) = reserve_of xw_bytes w"
  by (simp_all add: writer_ok_def writer_later_def reserve_of_def)

lemma same_active: "xw_active w \<Longrightarrow> w\<lparr>xw_lease := x, xw_active := True\<rparr> = w\<lparr>xw_lease := x\<rparr>"
  by simp

section \<open>Each kind of change\<close>

lemma owned_writer_Inr:
  assumes "owned_writer change (backend_state now n tid r c a b) unexpired = Inr (head, w)"
  obtains key t run_id where "xg_key change = Some key" "xg_run change = Some run_id" "dget (xb_threads b) (n, tid) = Some t"
    "head = xm_state t" "xt_key (xm_state t) = key" "r \<noteq> None" "dget (xm_writers t) (the r) = Some w" "xw_run w = run_id" "xw_active w"
    "xg_token change = Some (xw_token w)" "xg_fence change = Some (xw_fence w)"
proof -
  let ?state = "backend_state now n tid r c a b"
  from assms obtain key run_id where *: "xg_key change = Some key" "xg_run change = Some run_id"
    "xs_thread ?state = Some head" "xt_key head = key" "xs_target ?state = Some w" "xw_run w = run_id" "xw_active w"
    "xg_token change = Some (xw_token w)" "xg_fence change = Some (xw_fence w)"
    by (auto simp: owned_writer_def require_exact_thread_def attempt_Inr split: option.splits if_splits)
  obtain t where t: "dget (xb_threads b) (n, tid) = Some t" "xm_state t = head" using state_thread [OF *(3)] .
  obtain run_id' where "r = Some run_id'" "dget (xm_writers t) run_id' = Some w"
    using state_target [OF *(5)] t(1) by auto
  then show thesis using that [OF *(1,2) t(1)] * t(2) by auto
qed

lemma renew_applied:
  assumes inv: "trace_inv h l b"
    and eff: "resolve_renew_writer change (backend_state now n tid r c a b) = Inr effect"
  shows "applied h l b graph change effect"
proof -
  let ?state = "backend_state now n tid r c a b"
  from eff obtain head w where own: "owned_writer change ?state (xg_enforce change \<and> \<not> xg_proven_renewal change) = Inr (head, w)"
    and e: "effect = (plain_effect ((plain_result RENEW_WRITER)\<lparr>xo_key := Some (xt_key head), xo_run := Some (xw_run w)\<rparr>))
         \<lparr>xx_writer := Some (w\<lparr>xw_lease := writer_lease_expiration change ?state\<rparr>)\<rparr>"
    by (auto simp: resolve_renew_writer_def attempt_Inr split: prod.splits)
  from own obtain t where t: "dget (xb_threads b) (n, tid) = Some t" "head = xm_state t" "dget (xm_writers t) (the r) = Some w"
    by (rule owned_writer_Inr) blast
  show ?thesis
    unfolding e by (rule apply_renewed [OF inv _ _ t(3), where key = "xt_key head"])
      (use t key_at [OF inv t(1)] writer_at [OF inv t(1,3)] in simp_all)
qed

lemma reopen_applied:
  assumes inv: "trace_inv h l b" and t: "dget (xb_threads b) k = Some t" "dget (xm_writers t) (id_run i) = Some w"
    and eff: "reopen_writer change state i token (xt_key (xm_state t)) w = Inr effect"
  shows "applied h l b graph change effect"
proof -
  note wok = writer_at [OF inv t]
  from eff consider (same) "xw_active w" "effect = (plain_effect (open_result (xt_key (xm_state t)) i token (xw_fence w)))
          \<lparr>xx_writer := Some (w\<lparr>xw_lease := writer_lease_expiration change state, xw_active := True\<rparr>)\<rparr>"
    | (takeover) "xw_active w" "effect = (plain_effect (open_result (xt_key (xm_state t)) i token (xw_fence w + 1)))
          \<lparr>xx_writer := Some (w\<lparr>xw_token := token, xw_fence := xw_fence w + 1,
             xw_lease := writer_lease_expiration change state, xw_active := True\<rparr>)\<rparr>"
    by (auto simp: reopen_writer_def split: if_splits)
  then show ?thesis
  proof cases
    case same
    show ?thesis
      unfolding same(2) same_active [OF same(1)]
      by (rule apply_renewed [OF inv _ _ t(2), where key = "xt_key (xm_state t)"])
        (use t key_at [OF inv t(1)] wok in \<open>simp_all add: open_result_def\<close>)
  next
    case takeover
    let ?w = "w\<lparr>xw_token := token, xw_fence := xw_fence w + 1, xw_lease := writer_lease_expiration change state, xw_active := True\<rparr>"
    have "writer_ok l ?w" "writer_later w ?w" "reserve_of xw_events ?w = reserve_of xw_events w" "reserve_of xw_bytes ?w = reserve_of xw_bytes w"
      using wok(1) takeover(1) by (simp_all add: writer_ok_def writer_later_def reserve_of_def)
    then show ?thesis
      unfolding takeover(2)
      by (intro apply_renewed [OF inv _ _ t(2), where key = "xt_key (xm_state t)"])
        (use t key_at [OF inv t(1)] wok in \<open>simp_all add: open_result_def\<close>)
  qed
qed

lemma new_writer_ok:
  assumes "consistent_limits (xg_limits change)"
  shows "writer_ok (xg_limits change) (new_writer change state r token)" "xw_run (new_writer change state r token) = r"
    "xw_committed (new_writer change state r token) = 0"
    "reserve_of xw_events (new_writer change state r token) = xl_reserve_events (xg_limits change)"
    "reserve_of xw_bytes (new_writer change state r token) = xl_reserve_bytes (xg_limits change)"
  using assms by (simp_all add: new_writer_def writer_ok_def reserve_of_def consistent_limits_def)

lemma open_quota_None:
  "open_quota change state thread = None \<longleftrightarrow>
     xt_next thread - 1 + xs_thread_events state + xl_reserve_events (xg_limits change) \<le> xl_thread_events (xg_limits change) \<and>
     xt_bytes thread + xs_thread_bytes state + xl_reserve_bytes (xg_limits change) \<le> xl_thread_bytes (xg_limits change) \<and>
     xs_bytes state + xs_reserved state + xl_reserve_bytes (xg_limits change) \<le> xl_bytes (xg_limits change)"
  by (auto simp: open_quota_def quota_error_def Let_def)

lemma new_thread_ok:
  assumes "consistent_limits l"
  shows "thread_ok h l (n, tid) (new_memory_thread \<lparr>xt_key = \<lparr>xk_namespace = n, xk_thread = tid, xk_generation = g\<rparr>, xt_next = 1, xt_bytes = 0\<rparr>)"
  using assms
  by (simp add: thread_ok_def new_memory_thread_def key_thread_def trace_log_ok_def writers_ok_def capacity_ok_def checkpoints_ok_def
      active_reserve_def thread_weight_def consistent_limits_def)

lemma open_applied:
  assumes inv: "trace_inv h (xg_limits change) b" and i: "xg_identity change = Some i" "canonical_identity i"
    and eff: "resolve_open_writer (xh_generation h (xb_generations b)) change
        (backend_state now (xg_namespace change) (id_thread i) (Some (id_run i)) c a b) = Inr effect"
  shows "applied h (xg_limits change) b graph change effect"
proof -
  let ?l = "xg_limits change" and ?n = "xg_namespace change" and ?g = "xh_generation h (xb_generations b)"
  let ?k = "(?n, id_thread i)" and ?state = "backend_state now (xg_namespace change) (id_thread i) (Some (id_run i)) c a b"
  let ?w = "new_writer change ?state (id_run i)"
  have lim: "consistent_limits ?l" using inv by (simp add: trace_inv_def)
  note new = new_writer_ok [OF lim, of ?state "id_run i"]
  have canon: "canonical_identifier 1024 (id_run i)" using i(2) by (simp add: canonical_identity_def)
  note sums = state_sums [of now ?n "id_thread i" "Some (id_run i)" c a b]
  from eff i obtain token where token: "xg_token change = Some token"
    by (auto simp: resolve_open_writer_def split: option.splits)
  show ?thesis
  proof (cases "dget (xb_threads b) ?k")
    case (Some t)
    note at = state_at [OF Some, of now "Some (id_run i)" c a]
    have key: "key_thread (xt_key (xm_state t)) = ?k" by (rule key_at [OF inv Some])
    show ?thesis
    proof (cases "dget (xm_writers t) (id_run i)")
      case w: (Some w)
      have "reopen_writer change ?state i token (xt_key (xm_state t)) w = Inr effect"
        using eff i(1) token at(1,2) w by (simp add: resolve_open_writer_def opened_thread_def attempt_Inr require_Inr)
      then show ?thesis by (rule reopen_applied [OF inv Some w])
    next
      case None
      let ?e = "(plain_effect (open_result (xt_key (xm_state t)) i token 1))
          \<lparr>xx_writer := Some (?w token), xx_reserved_delta := xl_reserve_bytes ?l\<rparr>"
      have e: "effect = ?e" and quota: "open_quota change ?state (xm_state t) = None"
        using eff i(1) token at(1,2) None
        by (auto simp: resolve_open_writer_def opened_thread_def attempt_Inr require_Inr plain_effect_def)
      let ?t' = "t\<lparr>xm_writers := dset (id_run i) (?w token) (xm_writers t)\<rparr>"
      note q = quota [unfolded open_quota_None at(4,5) sums(1)]
      have room: "xt_next (xm_state t) - 1 + active_reserve xw_events t + reserve_of xw_events (?w token) \<le> xl_thread_events ?l"
        "thread_weight t + reserve_of xw_bytes (?w token) \<le> xl_thread_bytes ?l"
        using q new(4,5) [of token] by (simp_all add: thread_weight_def)
      note added = writer_added [OF trace_inv_at(1) [OF inv Some] None new(1) new(2) canon new(3) room]
      have "trace_sound h ?l b (put_thread ?k ?t' (drawn b))"
        by (rule put_drawn_sound [OF inv Some added(1-3)]) (use q added(4) new(5) [of token] in simp)
      moreover have "changed_thread change ?e t = ?t'"
        using new(2) by (simp add: changed_thread_def effect_thread_def effect_writers_def plain_effect_def)
      ultimately show ?thesis
        unfolding applied_def e by (intro apply_existing [where key = "xt_key (xm_state t)" and t = t])
          (use Some key in \<open>simp_all add: plain_effect_def effect_key_def open_result_def\<close>)
    qed
  next
    case None
    note none = state_none [OF None, of now "Some (id_run i)" c a]
    let ?key = "\<lparr>xk_namespace = ?n, xk_thread = id_thread i, xk_generation = ?g\<rparr>"
    let ?head = "\<lparr>xt_key = ?key, xt_next = 1, xt_bytes = 0\<rparr>"
    let ?e = "(plain_effect (open_result ?key i token 1))\<lparr>xx_thread := Some ?head, xx_writer := Some (?w token),
        xx_thread_delta := 1, xx_reserved_delta := xl_reserve_bytes ?l\<rparr>"
    have e: "effect = ?e" and quota: "open_quota change ?state ?head = None" and count: "xs_threads ?state < xl_threads ?l"
      using eff i(1) token none(1,2)
      by (auto simp: resolve_open_writer_def opened_thread_def attempt_Inr require_Inr quota_error_def plain_effect_def split: if_splits)
    note q = quota [unfolded open_quota_None none(3,4) sums(1)]
    let ?t = "new_memory_thread ?head"
    let ?t' = "?t\<lparr>xm_writers := dset (id_run i) (?w token) (xm_writers ?t)\<rparr>"
    have zero: "xm_writers ?t = []" "active_reserve f ?t = 0" "thread_weight ?t = 0" "xm_state ?t = ?head" for f
      by (simp_all add: new_memory_thread_def active_reserve_def thread_weight_def)
    have room: "xt_next (xm_state ?t) - 1 + active_reserve xw_events ?t + reserve_of xw_events (?w token) \<le> xl_thread_events ?l"
      "thread_weight ?t + reserve_of xw_bytes (?w token) \<le> xl_thread_bytes ?l"
      unfolding zero using q new(4,5) [of token] by simp_all
    have ok: "thread_ok h ?l ?k ?t" by (rule new_thread_ok [OF lim])
    have free: "dget (xm_writers ?t) (id_run i) = None" unfolding zero by simp
    note added = writer_added [OF ok free new(1) new(2) canon new(3) room]
    have "trace_sound h ?l b (put_thread ?k ?t' (drawn b))"
    proof (rule put_new_sound [OF inv None added(1)])
      show "xk_generation (xt_key (xm_state ?t')) = ?g" by (simp add: new_memory_thread_def)
      show "namespace_sum thread_weight (fst ?k) b + thread_weight ?t' \<le> xl_bytes ?l"
        unfolding added(4) unfolding zero(3) using q new(5) [of token] by simp
      show "namespace_sum (\<lambda>_. 1) (fst ?k) b < xl_threads ?l" using count sums(2) by simp
    qed
    then show ?thesis
      unfolding applied_def e apply_ledger_effect_def
      using new(2) None by (simp add: effect_key_def open_result_def plain_effect_def headed_thread_def key_thread_def wp Let_def
          effect_thread_def effect_writers_def)
  qed
qed

text \<open>A batch is appended to the log and charged to its writer.\<close>

lemma ending_phases:
  "\<forall>d \<in> set ds. ends_run (xd_fact d) \<Longrightarrow>
     length (concat (map (\<lambda>d. option_list (xf_phase (xd_fact d))) ds)) = length ds \<and>
     set (concat (map (\<lambda>d. option_list (xf_phase (xd_fact d))) ds)) \<subseteq> {PH_TERMINAL, PH_CLOSED}"
  by (induction ds) (auto simp: ends_run_def option_list_def)

lemma single_phase:
  "ps \<noteq> [] \<Longrightarrow> set ps \<subseteq> {PH_TERMINAL, PH_CLOSED} \<Longrightarrow> PH_CLOSED \<notin> set ps \<Longrightarrow> count_list ps PH_TERMINAL \<le> 1 \<Longrightarrow>
     PH_TERMINAL \<in> set ps \<and> length ps = 1"
  by (cases ps; cases "tl ps") auto

lemma end_flags_ok:
  assumes flags: "end_flags change w = Inr (terminal, closed)" and batch: "batch_error change = None" "xg_facts change \<noteq> []"
  shows "closed \<and> xg_mandatory change \<longrightarrow> terminal" "xw_terminal w \<longrightarrow> terminal" "\<not> xw_closed w"
    "xg_mandatory change \<Longrightarrow> terminal \<and> (\<not> closed \<longrightarrow> \<not> xw_terminal w \<and> length (xg_facts change) = 1)"
    "\<not> xg_mandatory change \<Longrightarrow> \<not> terminal \<and> \<not> closed \<and> \<not> xw_terminal w"
proof -
  define ps where "ps = concat (map (\<lambda>d. option_list (xf_phase (xd_fact d))) (xg_facts change))"
  have m: "count_list ps PH_TERMINAL \<le> 1 \<and> \<not> (xw_terminal w \<and> PH_TERMINAL \<in> set ps) \<and> \<not> xw_closed w \<and>
      closed = (PH_CLOSED \<in> set ps) \<and> (closed \<longrightarrow> xw_terminal w \<or> PH_TERMINAL \<in> set ps) \<and>
      terminal = (xw_terminal w \<or> PH_TERMINAL \<in> set ps)" if "xg_mandatory change"
    using flags that unfolding end_flags_def Let_def ps_def [symmetric] if_P [OF that] require_Inr
    by (simp add: not_less) blast
  have p: "\<not> xw_terminal w \<and> \<not> xw_closed w \<and> terminal = xw_terminal w \<and> closed = xw_closed w" if "\<not> xg_mandatory change"
    using flags that by (auto simp: end_flags_def require_Inr protocol_error_def split: if_splits)
  show "closed \<and> xg_mandatory change \<longrightarrow> terminal" "xw_terminal w \<longrightarrow> terminal" "\<not> xw_closed w" using m p by blast+
  show "\<not> xg_mandatory change \<Longrightarrow> \<not> terminal \<and> \<not> closed \<and> \<not> xw_terminal w" using p by blast
  assume mandatory: "xg_mandatory change"
  have "\<forall>d \<in> set (xg_facts change). ends_run (xd_fact d)"
    using batch(1) mandatory by (auto simp: batch_error_def protocol_error_def Let_def list_all_iff split: if_splits)
  note ends = ending_phases [OF this, folded ps_def]
  have "ps \<noteq> []" using ends batch(2) by auto
  then have "PH_TERMINAL \<in> set ps \<and> length ps = 1" if "\<not> closed"
    by (rule single_phase) (use ends m [OF mandatory] that in simp_all)
  then show "terminal \<and> (\<not> closed \<longrightarrow> \<not> xw_terminal w \<and> length (xg_facts change) = 1)"
    using m [OF mandatory] ends by auto
qed

lemma record_fields [simp]:
  "xr_id (memory_stored_event e d) = xe_id e" "xr_seq (memory_stored_event e d) = xe_seq e"
  "xr_run (memory_stored_event e d) = id_run (xf_identity (xe_fact e))" "xr_kind (memory_stored_event e d) = xf_kind (xe_fact e)"
  "xr_occurred_at (memory_stored_event e d) = xf_occurred_at (xe_fact e)" "xr_payload (memory_stored_event e d) = xd_payload d"
  "xr_digest (memory_stored_event e d) = xd_digest d" "xr_bytes (memory_stored_event e d) = xe_bytes e" "xr_event (memory_stored_event e d) = e"
  by (simp_all add: memory_stored_event_def stored_of_def stored_event.defs memory_event.defs)

text \<open>The records of a batch extend the log without a gap.\<close>

lemma log_appended:
  assumes log: "trace_log_ok h l t" and host: "trace_host_ok h"
    and numbered: "number_facts h l (xt_key (xm_state t)) r (xt_next (xm_state t)) drafts = Inr events"
    and prepared: "\<forall>d \<in> set drafts. xd_payload d \<noteq> [] \<and> xd_digest d = xh_digest h (xd_payload d)"
  defines "added \<equiv> map2 memory_stored_event events drafts"
  shows "length added = length events" "length events = length drafts" "map xr_run added = replicate (length events) r"
    "sum_list (map xr_bytes added) = added_bytes events"
    "trace_log_ok h l (t\<lparr>xm_state := (xm_state t)\<lparr>xt_next := xt_next (xm_state t) + int (length events),
       xt_bytes := xt_bytes (xm_state t) + added_bytes events\<rparr>, xm_events := xm_events t @ added\<rparr>)"
proof -
  let ?key = "xt_key (xm_state t)"
  note n = number_facts_Inr [OF numbered]
  show len: "length events = length drafts" using n list_all2_lengthD by blast
  then show len': "length added = length events" by (simp add: added_def)
  have nth: "added ! i = memory_stored_event (events ! i) (drafts ! i)" if "i < length events" for i
    using that len by (simp add: added_def)
  have at: "xe_id (events ! i) = xd_id (drafts ! i)" "xe_generation (events ! i) = xk_generation ?key" "xe_fact (events ! i) = xd_fact (drafts ! i)"
    "id_namespace (xf_identity (xe_fact (events ! i))) = xk_namespace ?key" "id_thread (xf_identity (xe_fact (events ! i))) = xk_thread ?key"
    "id_run (xf_identity (xe_fact (events ! i))) = r" "xe_bytes (events ! i) \<le> xl_event_bytes l" "0 \<le> xe_bytes (events ! i)"
    "xe_seq (events ! i) = xt_next (xm_state t) + int i" "xd_payload (drafts ! i) \<noteq> []" "xd_digest (drafts ! i) = xh_digest h (xd_payload (drafts ! i))"
    if "i < length events" for i
    using n that host prepared len by (simp_all add: list_all2_conv_all_nth)
  show "map xr_run added = replicate (length events) r"
    by (rule nth_equalityI) (use len' nth at(6) in simp_all)
  have "map xr_bytes added = map xe_bytes events" by (rule nth_equalityI) (use len' nth in simp_all)
  then show bytes: "sum_list (map xr_bytes added) = added_bytes events" by (simp add: added_bytes_def)
  have new: "record_sound h l ?key (length (xm_events t) + i) (added ! i)" if "i < length events" for i
    using at [OF that] nth [OF that] log by (simp add: record_sound_def valid_record_def Let_def trace_log_ok_def)
  have "record_sound h l ?key i ((xm_events t @ added) ! i)" if "i < length (xm_events t) + length added" for i
  proof (cases "i < length (xm_events t)")
    case False
    then show ?thesis using new [of "i - length (xm_events t)"] that len' by (simp add: nth_append)
  qed (use log in \<open>simp add: trace_log_ok_def nth_append\<close>)
  then show "trace_log_ok h l (t\<lparr>xm_state := (xm_state t)\<lparr>xt_next := xt_next (xm_state t) + int (length events),
       xt_bytes := xt_bytes (xm_state t) + added_bytes events\<rparr>, xm_events := xm_events t @ added\<rparr>)"
    using log bytes len' by (simp add: trace_log_ok_def)
qed

text \<open>What the charge leaves of the writer, and of what it reserves.\<close>

lemma charged_ok:
  fixes change :: ledger_change and state :: ledger_state
  assumes lim: "consistent_limits (xg_limits change)" and w: "writer_ok (xg_limits change) w" "xw_active w"
    and flags: "end_flags change w = Inr (terminal, closed)" "batch_error change = None" "xg_facts change \<noteq> []"
    and events: "length events = length (xg_facts change)" "\<forall>e \<in> set events. xe_bytes e \<le> xl_event_bytes (xg_limits change)"
    and reserve: "xg_mandatory change \<Longrightarrow> int (length events) \<le> xw_events w \<and> added_bytes events \<le> xw_bytes w"
  defines "w' \<equiv> charged_writer change state w terminal closed events"
  shows "writer_ok (xg_limits change) w'" "writer_later w w'"
    "\<not> xg_mandatory change \<Longrightarrow> reserve_of xw_events w' = reserve_of xw_events w \<and> reserve_of xw_bytes w' = reserve_of xw_bytes w"
    "xg_mandatory change \<Longrightarrow> reserve_of xw_events w' + int (length events) \<le> reserve_of xw_events w \<and>
       reserve_of xw_bytes w' + added_bytes events \<le> reserve_of xw_bytes w"
proof -
  let ?l = "xg_limits change"
  note f = end_flags_ok [OF flags]
  have some: "0 < int (length events)" using events(1) flags(3) by simp
  have pos: "0 < xw_committed w + int (length events)" using some w(1) by (simp only: writer_ok_def) linarith
  have one: "length events = 1 \<and> added_bytes events \<le> xl_event_bytes ?l" if "xg_mandatory change" "\<not> closed"
    using f(4) that events by (cases events) (auto simp: added_bytes_def)
  have room: "2 \<le> xl_reserve_events ?l" "2 * xl_event_bytes ?l \<le> xl_reserve_bytes ?l"
  proof -
    show two: "2 \<le> xl_reserve_events ?l" using lim by (simp add: consistent_limits_def)
    have "0 \<le> xl_event_bytes ?l" "xl_reserve_events ?l * xl_event_bytes ?l \<le> xl_reserve_bytes ?l"
      using lim by (simp_all add: consistent_limits_def)
    then show "2 * xl_event_bytes ?l \<le> xl_reserve_bytes ?l" using mult_right_mono [OF two] order_trans by blast
  qed
  show "writer_later w w'" using f some w(2) by (auto simp: writer_later_def w'_def charged_writer_def)
  show "\<not> xg_mandatory change \<Longrightarrow> reserve_of xw_events w' = reserve_of xw_events w \<and> reserve_of xw_bytes w' = reserve_of xw_bytes w"
    using w(2) by (simp add: reserve_of_def w'_def charged_writer_def)
  show "xg_mandatory change \<Longrightarrow> reserve_of xw_events w' + int (length events) \<le> reserve_of xw_events w \<and>
       reserve_of xw_bytes w' + added_bytes events \<le> reserve_of xw_bytes w"
    using w(2) reserve by (simp add: reserve_of_def w'_def charged_writer_def)
  show "writer_ok ?l w'"
  proof (cases "xg_mandatory change")
    case True
    then show ?thesis
      using w f one [OF True] room reserve pos by (cases closed) (auto simp: writer_ok_def w'_def charged_writer_def)
  next
    case False
    then show ?thesis using w f pos by (auto simp: writer_ok_def w'_def charged_writer_def)
  qed
qed

lemma append_quota_None:
  assumes "append_quota change state thread w events = None"
  shows "xg_mandatory change \<Longrightarrow> int (length events) \<le> xw_events w \<and> added_bytes events \<le> xw_bytes w"
    "\<not> xg_mandatory change \<Longrightarrow>
      xt_next thread - 1 + int (length events) + xs_thread_events state \<le> xl_thread_events (xg_limits change) \<and>
      xt_bytes thread + added_bytes events + xs_thread_bytes state \<le> xl_thread_bytes (xg_limits change) \<and>
      xs_bytes state + added_bytes events + xs_reserved state \<le> xl_bytes (xg_limits change)"
  using assms by (auto simp: append_quota_def Let_def)

lemma batch_appended:
  assumes ok: "thread_ok h l k t" and host: "trace_host_ok h" and lim: "consistent_limits l" "xg_limits change = l"
    and w: "dget (xm_writers t) r = Some w" "xw_active w"
    and numbered: "number_facts h l (xt_key (xm_state t)) r (xt_next (xm_state t)) (xg_facts change) = Inr events"
    and prepared: "\<forall>d \<in> set (xg_facts change). xd_payload d \<noteq> [] \<and> xd_digest d = xh_digest h (xd_payload d)"
    and flags: "end_flags change w = Inr (terminal, closed)" "batch_error change = None" "xg_facts change \<noteq> []"
    and quota: "append_quota change state (xm_state t) w events = None"
    and state: "xs_thread_events state = active_reserve xw_events t" "xs_thread_bytes state = active_reserve xw_bytes t"
  defines "t' \<equiv> t\<lparr>xm_state := (xm_state t)\<lparr>xt_next := xt_next (xm_state t) + int (length events),
       xt_bytes := xt_bytes (xm_state t) + added_bytes events\<rparr>,
     xm_writers := dset r (charged_writer change state w terminal closed events) (xm_writers t),
     xm_events := xm_events t @ map2 memory_stored_event events (xg_facts change)\<rparr>"
  shows "thread_ok h l k t'" "xt_key (xm_state t') = xt_key (xm_state t)" "thread_later t t'"
    "xg_mandatory change \<Longrightarrow> thread_weight t' \<le> thread_weight t"
    "\<not> xg_mandatory change \<Longrightarrow> thread_weight t' = thread_weight t + added_bytes events"
proof -
  let ?w' = "charged_writer change state w terminal closed events" and ?more = "map2 memory_stored_event events (xg_facts change)"
  let ?t1 = "t\<lparr>xm_state := (xm_state t)\<lparr>xt_next := xt_next (xm_state t) + int (length events),
       xt_bytes := xt_bytes (xm_state t) + added_bytes events\<rparr>, xm_events := xm_events t @ ?more\<rparr>"
  have t1: "t' = ?t1\<lparr>xm_writers := dset r ?w' (xm_writers ?t1)\<rparr>" by (simp add: t'_def)
  have ws: "writers_ok l t" and wf: "wf_dict (xm_writers t)" and log: "trace_log_ok h l t" and cap: "capacity_ok l t"
    and checkpoints: "checkpoints_ok l t" and key: "key_thread (xt_key (xm_state t)) = k"
    using ok by (simp_all add: thread_ok_def writers_ok_def)
  have wok: "writer_ok l w" "xw_run w = r" "canonical_identifier 1024 r" "xw_committed w = run_events r t"
    using ws w(1) by (simp_all add: writers_ok_def)
  note log' = log_appended [OF log host numbered prepared]
  note q = append_quota_None [OF quota, unfolded state]
  have sizes: "\<forall>e \<in> set events. xe_bytes e \<le> xl_event_bytes l"
    using number_facts_Inr [OF numbered] by (auto simp: list_all2_conv_all_nth in_set_conv_nth)
  have c1: "writer_ok l ?w'" "writer_later w ?w'"
    using charged_ok(1,2) [of change w terminal closed events state] lim wok(1) w(2) flags log'(2) sizes q(1) by simp_all
  have plain: "\<not> xg_mandatory change \<Longrightarrow> reserve_of xw_events ?w' = reserve_of xw_events w \<and> reserve_of xw_bytes ?w' = reserve_of xw_bytes w"
    by (rule charged_ok(3)) (use lim wok(1) w(2) flags log'(2) sizes q(1) in simp_all)
  have mandatory: "xg_mandatory change \<Longrightarrow> reserve_of xw_events ?w' + int (length events) \<le> reserve_of xw_events w \<and>
       reserve_of xw_bytes ?w' + added_bytes events \<le> reserve_of xw_bytes w"
    by (rule charged_ok(4)) (use lim wok(1) w(2) flags log'(2) sizes q(1) in simp_all)
  have reserve: "active_reserve f t' = active_reserve f t + reserve_of f ?w' - reserve_of f w" for f
    using active_reserve_dset [of ?t1 f r ?w'] wf w(1) unfolding t1 by simp
  have weight: "thread_weight t' = thread_weight t + added_bytes events + reserve_of xw_bytes ?w' - reserve_of xw_bytes w"
    using reserve [of xw_bytes] by (simp add: thread_weight_def t'_def)
  show "xg_mandatory change \<Longrightarrow> thread_weight t' \<le> thread_weight t" using weight mandatory by linarith
  show "\<not> xg_mandatory change \<Longrightarrow> thread_weight t' = thread_weight t + added_bytes events" using weight plain by simp
  have "capacity_ok l t'"
  proof (cases "xg_mandatory change")
    case True
    then show ?thesis using mandatory cap weight reserve [of xw_events] by (simp add: capacity_ok_def t'_def)
  next
    case False
    then show ?thesis using plain q(2) lim(2) weight reserve [of xw_events] by (simp add: capacity_ok_def t'_def thread_weight_def)
  qed
  moreover have "trace_log_ok h l t'" using log'(5) unfolding t1 by simp
  moreover have "checkpoints_ok l t'" using checkpoints by (fastforce simp: checkpoints_ok_def t'_def)
  moreover have "writers_ok l t'"
  proof -
    have runs: "run_events x t' = run_events x t + (if x = r then int (length events) else 0)" for x
    proof -
      have "filter (\<lambda>e. xr_run e = x) es = (if x = r then es else [])" if "map xr_run es = replicate m r" for es :: "memory_event list" and m
        using that by (induction es arbitrary: m) (auto simp: Cons_replicate_eq)
      from this [OF log'(3)] show ?thesis by (simp add: run_events_def t'_def log'(2))
    qed
    have names: "set (map xr_run ?more) \<subseteq> {r}" unfolding log'(3) by auto
    have mine: "xw_run ?w' = r" "xw_committed ?w' = run_events r t + int (length events)" using wok by (simp_all add: charged_writer_def)
    have old: "xw_run v = x \<and> canonical_identifier 1024 x \<and> writer_ok l v \<and> xw_committed v = run_events x t"
      if "dget (xm_writers t) x = Some v" for x v using ws that by (simp add: writers_ok_def)
    show ?thesis
      unfolding writers_ok_def
    proof (intro conjI allI impI ballI)
      show "wf_dict (xm_writers t')" using wf by (simp add: t'_def)
      fix x v assume "dget (xm_writers t') x = Some v"
      then have "x = r \<and> v = ?w' \<or> x \<noteq> r \<and> dget (xm_writers t) x = Some v" by (auto simp: t'_def split: if_splits)
      then show "xw_run v = x" "canonical_identifier 1024 x" "writer_ok l v" "xw_committed v = run_events x t'"
        using old [of x v] mine wok(3) c1(1) by (auto simp: runs)
    next
      fix e assume "e \<in> set (xm_events t')"
      moreover have "xm_events t' = xm_events t @ ?more" by (simp add: t'_def)
      ultimately have "e \<in> set (xm_events t) \<or> e \<in> set ?more" by simp
      then have "e \<in> set (xm_events t) \<or> xr_run e \<in> set (map xr_run ?more)" unfolding set_map by blast
      then show "dget (xm_writers t') (xr_run e) \<noteq> None" using ws names by (auto simp: writers_ok_def t'_def)
    qed
  qed
  ultimately show "thread_ok h l k t'" using key by (simp add: thread_ok_def t'_def)
  show "xt_key (xm_state t') = xt_key (xm_state t)" by (simp add: t'_def)
  show "thread_later t t'" using w(1) c1(2) by (auto simp: thread_later_def t'_def)
qed

lemma append_applied:
  assumes inv: "trace_inv h (xg_limits change) b" and prepared: "prepared_change h change"
    and eff: "resolve_append_events h reduce change (backend_state now (xg_namespace change) tid r c a b) = Inr effect"
  shows "applied h (xg_limits change) b graph change effect"
proof (cases "xg_proven change = []")
  case False
  let ?state = "backend_state now (xg_namespace change) tid r c a b"
  let ?result = "\<lambda>head. (plain_result APPEND_EVENTS)\<lparr>xo_key := Some (xt_key head), xo_run := xg_run change, xo_events := xg_proven change\<rparr>"
  from eff False obtain key head where e: "require_exact_thread key ?state = Inr head"
    "effect = (plain_effect (?result head))\<lparr>xx_writer := (case xs_target ?state of None \<Rightarrow> None
       | Some w \<Rightarrow> if xw_active w \<and> Some (xw_token w) = xg_token change \<and> Some (xw_fence w) = xg_fence change
           then Some (w\<lparr>xw_lease := writer_lease_expiration change ?state, xw_active := True\<rparr>) else None)\<rparr>"
    by (auto simp: resolve_append_events_def resolve_proven_append_def attempt_Inr split: option.splits)
  from e(1) have "xs_thread ?state = Some head" by (auto simp: require_exact_thread_def split: option.splits if_splits)
  then obtain t where t: "dget (xb_threads b) (xg_namespace change, tid) = Some t" "xm_state t = head" by (rule state_thread)
  note key = key_at [OF inv t(1)]
  show ?thesis
  proof (cases "\<exists>w. xs_target ?state = Some w \<and> xw_active w \<and> Some (xw_token w) = xg_token change \<and> Some (xw_fence w) = xg_fence change")
    case True
    then obtain w where w: "xs_target ?state = Some w" "xw_active w" "Some (xw_token w) = xg_token change" "Some (xw_fence w) = xg_fence change"
      by blast
    from state_target [OF w(1)] t(1) obtain run_id where run: "dget (xm_writers t) run_id = Some w" by auto
    have "effect = (plain_effect (?result head))\<lparr>xx_writer := Some (w\<lparr>xw_lease := writer_lease_expiration change ?state\<rparr>)\<rparr>"
      using e(2) w by simp
    then show ?thesis
      using apply_renewed [OF inv _ _ run, of "xt_key head"] t key writer_at [OF inv t(1) run] by simp
  next
    case False
    then have "effect = plain_effect (?result head)" unfolding e(2) by (auto simp: plain_effect_def split: option.splits)
    then show ?thesis using apply_nothing [OF inv] by simp
  qed
next
  case True
  let ?l = "xg_limits change" and ?state = "backend_state now (xg_namespace change) tid r c a b"
  from eff True obtain head w terminal closed events where e: "xg_facts change \<noteq> []"
    "owned_writer change ?state (xg_enforce change) = Inr (head, w)" "batch_error change = None" "end_flags change w = Inr (terminal, closed)"
    "number_facts h ?l (xt_key head) (xw_run w) (xt_next head) (xg_facts change) = Inr events"
    "append_quota change ?state head w events = None"
    "effect = append_effect change head w (charged_writer change ?state w terminal closed events) events"
    by (auto simp: resolve_append_events_def attempt_Inr require_Inr split: if_splits prod.splits)
  from e(2) obtain t run_id where t: "dget (xb_threads b) (xg_namespace change, tid) = Some t" "head = xm_state t"
    "dget (xm_writers t) run_id = Some w" "xw_active w"
    by (rule owned_writer_Inr) blast
  let ?k = "(xg_namespace change, tid)"
  note key = key_at [OF inv t(1)]
  have run: "xw_run w = run_id" using writer_at [OF inv t(1,3)] by blast
  have facts: "\<forall>d \<in> set (xg_facts change). xd_payload d \<noteq> [] \<and> xd_digest d = xh_digest h (xd_payload d)"
    using prepared by (simp add: prepared_change_def)
  have host: "trace_host_ok h" "consistent_limits ?l" using inv by (simp_all add: trace_inv_def)
  let ?t' = "t\<lparr>xm_state := (xm_state t)\<lparr>xt_next := xt_next (xm_state t) + int (length events),
       xt_bytes := xt_bytes (xm_state t) + added_bytes events\<rparr>,
     xm_writers := dset run_id (charged_writer change ?state w terminal closed events) (xm_writers t),
     xm_events := xm_events t @ map2 memory_stored_event events (xg_facts change)\<rparr>"
  note appended = batch_appended [OF trace_inv_at(1) [OF inv t(1)] host refl t(3,4) _ facts e(4,3,1), of events ?state,
      OF e(5) [unfolded t(2) run] e(6) [unfolded t(2)] state_at(4,5) [OF t(1)]]
  have "namespace_sum thread_weight (fst ?k) b - thread_weight t + thread_weight ?t' \<le> xl_bytes ?l"
  proof (cases "xg_mandatory change")
    case True
    then show ?thesis using appended(4) trace_inv_at(2) [OF inv, of "fst ?k"] by linarith
  next
    case False
    then show ?thesis
      using appended(5) append_quota_None(2) [OF e(6)] state_sums(1) [of now "xg_namespace change" tid r c a b] by simp
  qed
  then have sound: "trace_sound h ?l b (put_thread ?k ?t' (drawn b))"
    by (rule put_drawn_sound [OF inv t(1) appended(1-3)])
  have "changed_thread change effect t = ?t'"
    using run unfolding e(7) by (simp add: changed_thread_def effect_thread_def effect_writers_def append_effect_def plain_effect_def t(2) charged_writer_def)
  moreover have "key_thread (xt_key head') = key_thread (xt_key head)" if "xx_thread effect = Some head'" for head'
    using that by (auto simp: e(7) append_effect_def)
  moreover have "effect_key change effect = Some (xt_key head)" "\<not> xx_delete effect" "\<not> xx_remove_thread effect" "xx_checkpoint effect = None"
    by (simp_all add: e(7) append_effect_def plain_effect_def effect_key_def)
  ultimately show ?thesis
    unfolding applied_def by (intro apply_existing [where key = "xt_key head" and t = t]) (use t key sound in simp_all)
qed

lemma close_applied:
  assumes inv: "trace_inv h (xg_limits change) b"
    and eff: "resolve_close_writer change (backend_state now (xg_namespace change) tid r c a b) = Inr effect"
    and r: "r = xg_run change"
  shows "applied h (xg_limits change) b graph change effect"
proof -
  let ?state = "backend_state now (xg_namespace change) tid r c a b"
  from eff obtain key run_id where k: "xg_key change = Some key" "xg_run change = Some run_id"
    by (auto simp: resolve_close_writer_def split: option.splits)
  let ?result = "(plain_result CLOSE_WRITER)\<lparr>xo_key := Some key, xo_run := Some run_id\<rparr>"
  have result: "xo_key ?result \<noteq> None" by simp
  consider (nothing) "effect = plain_effect ?result"
    | (close) head w where "xs_thread ?state = Some head" "xs_target ?state = Some w" "xt_key head = key" "xw_active w"
      "effect = close_effect ?result run_id ?state head w"
    using eff k by (auto simp: resolve_close_writer_def Let_def split: option.splits if_splits)
  then show ?thesis
  proof cases
    case nothing
    then show ?thesis using apply_nothing [OF inv result] by simp
  next
    case close
    obtain t where t: "dget (xb_threads b) (xg_namespace change, tid) = Some t" "xm_state t = head" using state_thread [OF close(1)] .
    have w: "dget (xm_writers t) run_id = Some w" using state_target [OF close(2)] t(1) r k(2) by auto
    note wok = writer_at [OF inv t(1) w] and key = key_at [OF inv t(1)]
    show ?thesis
    proof (cases "xw_committed w = 0")
      case zero: True
      note removed = writer_removed [OF trace_inv_at(1) [OF inv t(1)] w zero]
      have sound: "trace_sound h (xg_limits change) b (put_thread (xg_namespace change, tid) (t\<lparr>xm_writers := ddel run_id (xm_writers t)\<rparr>) (drawn b))"
        by (rule put_lighter_drawn [OF inv t(1) removed])
      show ?thesis
      proof (cases "xx_remove_thread effect")
        case True
        then show ?thesis
          using drop_drawn_sound [OF inv]
          by (simp add: applied_def apply_ledger_effect_def close(5) close_effect_def zero plain_effect_def effect_key_def wp Let_def)
      next
        case False
        have "changed_thread change effect t = t\<lparr>xm_writers := ddel run_id (xm_writers t)\<rparr>"
          unfolding close(5) using zero by (simp add: changed_thread_def effect_thread_def effect_writers_def close_effect_def plain_effect_def Let_def)
        then show ?thesis
          unfolding applied_def by (intro apply_existing [where key = key and t = t])
            (use False t key sound close(3) zero in \<open>simp_all add: close(5) close_effect_def plain_effect_def effect_key_def Let_def\<close>)
      qed
    next
      case False
      let ?w = "w\<lparr>xw_active := False, xw_events := 0, xw_bytes := 0\<rparr>"
      have ok: "writer_ok (xg_limits change) ?w" "writer_later w ?w" "reserve_of xw_events ?w \<le> reserve_of xw_events w"
        "reserve_of xw_bytes ?w \<le> reserve_of xw_bytes w"
        using wok(1) False by (auto simp: writer_ok_def writer_later_def reserve_of_def)
      have e: "effect = (plain_effect ?result)\<lparr>xx_writer := Some ?w, xx_reserved_delta := - xw_bytes w\<rparr>"
        unfolding close(5) close_effect_def using False by simp
      show ?thesis
        unfolding e by (rule apply_writer [OF inv _ _ w _ _ ok, where key = key]) (use t key close(3) wok(2) in simp_all)
    qed
  qed
qed

end
