(* ===== verification/Trc_Runs.thy ===== *)
theory Trc_Runs
  imports Trc_Commit
begin

text \<open>
  Checkpoints and deletion, the step relation of the in-memory trace backend, and its whole
  runs: the invariant holds in every state that commits reach, and logs, runs and generations
  only go on.
\<close>

section \<open>Checkpoints\<close>

lemma keep_last_sublist: "set (keep_last m items) \<subseteq> set items" "1 \<le> m \<Longrightarrow> int (length (keep_last m items)) \<le> m"
    "sorted_wrt (<) (map xq_seq items) \<Longrightarrow> sorted_wrt (<) (map xq_seq (keep_last m items))"
proof -
  show "set (keep_last m items) \<subseteq> set items" unfolding keep_last_def by (rule set_drop_subset)
  show "1 \<le> m \<Longrightarrow> int (length (keep_last m items)) \<le> m" by (simp add: keep_last_def)
  show "sorted_wrt (<) (map xq_seq items) \<Longrightarrow> sorted_wrt (<) (map xq_seq (keep_last m items))"
    unfolding keep_last_def drop_map [symmetric] by (rule sorted_wrt_drop)
qed

lemma sorted_snoc:
  assumes "sorted_wrt (<) (map xq_seq items)" and "items \<noteq> [] \<Longrightarrow> xq_seq (last items) < xq_seq c"
  shows "sorted_wrt (<) (map xq_seq (items @ [c]))"
proof (cases items rule: rev_cases)
  case (snoc front l)
  then show ?thesis using assms by (auto simp: sorted_wrt_append)
qed simp

lemma checkpoint_saved:
  assumes ok: "thread_ok h l k t" and lim: "consistent_limits l"
    and new: "xq_seq c < xt_next (xm_state t)"
      "\<forall>current. latest_checkpoint (Some (xq_projection c, xq_run c)) t = Some current \<longrightarrow> xq_seq current < xq_seq c"
  defines "t' \<equiv> effect_checkpoints l c t"
  shows "thread_ok h l k t'" "xt_key (xm_state t') = xt_key (xm_state t)" "thread_later t t'" "thread_weight t' = thread_weight t"
proof -
  let ?items = "scope_checkpoints (xq_projection c) (xq_run c) t"
  have cp: "checkpoints_ok l t" using ok by (simp add: thread_ok_def)
  have items: "sorted_wrt (<) (map xq_seq ?items) \<and> (\<forall>i \<in> set ?items. xq_seq i < xt_next (xm_state t))"
    using cp by (auto simp: scope_checkpoints_def checkpoints_ok_def split: option.split)
  have "sorted_wrt (<) (map xq_seq (?items @ [c]))"
    by (rule sorted_snoc) (use items new(2) in \<open>auto simp: latest_checkpoint_def split: list.splits\<close>)
  then have kept: "sorted_wrt (<) (map xq_seq (keep_last (xl_checkpoints l) (?items @ [c])))"
    "int (length (keep_last (xl_checkpoints l) (?items @ [c]))) \<le> xl_checkpoints l"
    "\<forall>i \<in> set (keep_last (xl_checkpoints l) (?items @ [c])). xq_seq i < xt_next (xm_state t)"
    using keep_last_sublist [where m = "xl_checkpoints l" and items = "?items @ [c]"] lim items new(1) by (auto simp: consistent_limits_def)
  have "checkpoints_ok l t'"
    unfolding checkpoints_ok_def
  proof (intro allI impI)
    fix scope found assume "dget (xm_checkpoints t') scope = Some found"
    then have "found = keep_last (xl_checkpoints l) (?items @ [c]) \<or> dget (xm_checkpoints t) scope = Some found"
      by (auto simp: t'_def effect_checkpoints_def split: if_splits)
    then have "sorted_wrt (<) (map xq_seq found) \<and> int (length found) \<le> xl_checkpoints l \<and>
        (\<forall>c \<in> set found. xq_seq c < xt_next (xm_state t))"
      using kept cp unfolding checkpoints_ok_def by blast
    then show "sorted_wrt (<) (map xq_seq found) \<and> int (length found) \<le> xl_checkpoints l \<and>
        (\<forall>c \<in> set found. xq_seq c < xt_next (xm_state t'))"
      by (simp add: t'_def effect_checkpoints_def)
  qed
  moreover have "trace_log_ok h l t'" "writers_ok l t'" "capacity_ok l t'"
    using ok by (simp_all add: thread_ok_def trace_log_ok_def writers_ok_def capacity_ok_def t'_def effect_checkpoints_def
        run_events_def thread_weight_def active_reserve_def)
  ultimately show "thread_ok h l k t'" using ok by (simp add: thread_ok_def t'_def effect_checkpoints_def)
  show "xt_key (xm_state t') = xt_key (xm_state t)" "thread_weight t' = thread_weight t"
    by (simp_all add: t'_def effect_checkpoints_def thread_weight_def active_reserve_def)
  show "thread_later t t'" by (auto simp: thread_later_def t'_def effect_checkpoints_def)
qed

lemma save_applied:
  assumes inv: "trace_inv h (xg_limits change) b"
    and eff: "resolve_save_checkpoint change (backend_state now (xg_namespace change) tid r
        (map_option (\<lambda>c. (xp_projection c, xp_run c)) (xg_checkpoint change)) a b) = Inr effect"
  shows "applied h (xg_limits change) b graph change effect"
proof -
  let ?scope = "map_option (\<lambda>c. (xp_projection c, xp_run c)) (xg_checkpoint change)"
  let ?state = "backend_state now (xg_namespace change) tid r ?scope a b"
  from eff obtain c payload digest where c: "xg_checkpoint change = Some c" "xg_payload change = Some payload" "xg_digest change = Some digest"
    by (auto simp: resolve_save_checkpoint_def split: option.splits)
  let ?stored = "\<lparr>xq_key = xp_key c, xq_projection = xp_projection c, xq_run = xp_run c, xq_seq = xp_seq c, xq_state = payload, xq_digest = digest\<rparr>"
  from eff c obtain head where head: "xs_thread ?state = Some head" "xt_key head = xp_key c" "xp_seq c < xt_next head"
    and e: "effect = checkpoint_effect c None \<or>
      effect = checkpoint_effect c (Some ?stored) \<and> (\<forall>current. xs_checkpoint ?state = Some current \<longrightarrow> xq_seq current < xp_seq c)"
    by (auto simp: resolve_save_checkpoint_def require_exact_thread_def attempt_Inr require_Inr Let_def split: option.splits if_splits)
  obtain t where t: "dget (xb_threads b) (xg_namespace change, tid) = Some t" "xm_state t = head" using state_thread [OF head(1)] .
  note key = key_at [OF inv t(1)]
  from e show ?thesis
  proof
    assume "effect = checkpoint_effect c None"
    then have "effect = plain_effect ((plain_result SAVE_CHECKPOINT)\<lparr>xo_key := Some (xp_key c), xo_checkpoint := Some c\<rparr>)"
      by (simp add: checkpoint_effect_def plain_effect_def)
    then show ?thesis using apply_nothing [OF inv] by simp
  next
    assume e: "effect = checkpoint_effect c (Some ?stored) \<and> (\<forall>current. xs_checkpoint ?state = Some current \<longrightarrow> xq_seq current < xp_seq c)"
    have lim: "consistent_limits (xg_limits change)" using inv by (simp add: trace_inv_def)
    have later: "\<forall>current. latest_checkpoint (Some (xq_projection ?stored, xq_run ?stored)) t = Some current \<longrightarrow> xq_seq current < xq_seq ?stored"
      using e state_at(6) [OF t(1), of now r ?scope a] c(1) by simp
    have below: "xq_seq ?stored < xt_next (xm_state t)" using head(3) t(2) by simp
    note saved = checkpoint_saved [OF trace_inv_at(1) [OF inv t(1)] lim below later]
    have "trace_sound h (xg_limits change) b (put_thread (xg_namespace change, tid) (effect_checkpoints (xg_limits change) ?stored t) (drawn b))"
      by (rule put_lighter_drawn [OF inv t(1) saved(1-3)]) (rule eq_refl [OF saved(4)])
    moreover have "changed_thread change effect t = t"
      by (simp add: e checkpoint_effect_def changed_thread_def effect_thread_def effect_writers_def plain_effect_def)
    ultimately show ?thesis
      unfolding applied_def by (intro apply_existing [where key = "xp_key c" and t = t])
        (use t key head(2) in \<open>simp_all add: e checkpoint_effect_def plain_effect_def effect_key_def\<close>)
  qed
qed

lemma delete_applied:
  assumes inv: "trace_inv h l b" and eff: "resolve_delete_generation change state = Inr effect"
  shows "applied h l b graph change effect"
proof -
  from eff obtain key where "effect_key change effect = Some key" "xx_delete effect"
    by (auto simp: resolve_delete_generation_def attempt_Inr effect_key_def plain_effect_def split: option.splits if_splits)
  then show ?thesis
    using drop_drawn_sound [OF inv] by (simp add: applied_def apply_ledger_effect_def wp Let_def)
qed

section \<open>Commits\<close>

lemma commit_sound:
  assumes inv: "trace_inv h (xg_limits change) b" and prepared: "prepared_change h change"
  shows "run_with (commit_ledger_change h world change) (\<lambda>_. trace_sound h (xg_limits change) b)
    (\<lambda>_. trace_sound h (xg_limits change) b) b"
proof -
  have "applied h (xg_limits change) b (xn_apply world) change effect"
    if state: "state_for_change (xn_now world) change b = Inr state"
      and eff: "resolve_ledger_change h (xh_generation h (xb_generations b)) (xn_reduce world) change state = Inr effect" for state effect
  proof -
    let ?state = "\<lambda>tid r. backend_state (xn_now world) (xg_namespace change) tid r
        (map_option (\<lambda>c. (xp_projection c, xp_run c)) (xg_checkpoint change)) (xg_kind change = DELETE_GENERATION) b"
    obtain tid r where target: "change_target change = Inr (tid, r)" and s: "state = ?state tid r"
      using state by (auto simp: state_for_change_def attempt_Inr)
    have scope: "validate_change_scope change state = None" using eff by (simp add: resolve_ledger_change_def require_Inr)
    show ?thesis
    proof (cases "xg_kind change")
      case OPEN_WRITER
      then have resolved: "resolve_open_writer (xh_generation h (xb_generations b)) change state = Inr effect"
        using eff by (simp add: resolve_ledger_change_def require_Inr)
      then obtain i where i: "xg_identity change = Some i" by (auto simp: resolve_open_writer_def split: option.splits)
      then have "tid = id_thread i" "r = Some (id_run i)" "canonical_identity i"
        using target prepared by (auto simp: change_target_def prepared_change_def)
      then show ?thesis using open_applied [OF inv i] resolved s by simp
    next
      case APPEND_EVENTS
      then have "resolve_append_events h (xn_reduce world) change state = Inr effect"
        using eff by (simp add: resolve_ledger_change_def require_Inr)
      then show ?thesis unfolding s by (rule append_applied [OF inv prepared])
    next
      case RENEW_WRITER
      then have "resolve_renew_writer change state = Inr effect"
        using eff by (simp add: resolve_ledger_change_def require_Inr)
      then show ?thesis unfolding s by (rule renew_applied [OF inv])
    next
      case CLOSE_WRITER
      have resolved: "resolve_close_writer change state = Inr effect"
        using eff CLOSE_WRITER by (simp add: resolve_ledger_change_def require_Inr)
      show ?thesis
      proof (cases "xg_identity change")
        case None
        then have "r = xg_run change" using target by (auto simp: change_target_def split: option.splits)
        then show ?thesis using close_applied [OF inv] resolved s by simp
      next
        case (Some i)
        obtain run_id where run: "xg_run change = Some run_id"
          using resolved by (auto simp: resolve_close_writer_def split: option.splits)
        have "agree (named_runs change state)" using scope by (simp add: validate_change_scope_def Let_def protocol_error_def split: if_splits)
        then have "id_run i = run_id" using Some run by (simp add: named_runs_def option_list_def agree_def)
        then have "r = xg_run change" using target Some run by (simp add: change_target_def)
        then show ?thesis using close_applied [OF inv] resolved s by simp
      qed
    next
      case SAVE_CHECKPOINT
      then have "resolve_save_checkpoint change state = Inr effect"
        using eff by (simp add: resolve_ledger_change_def require_Inr)
      then show ?thesis unfolding s by (rule save_applied [OF inv])
    next
      case DELETE_GENERATION
      then have "resolve_delete_generation change state = Inr effect"
        using eff by (simp add: resolve_ledger_change_def require_Inr)
      then show ?thesis by (rule delete_applied [OF inv])
    qed
  qed
  then show ?thesis
    using inv drawn_sound [OF inv] by (auto simp: commit_wp applied_def split: sum.split)
qed

lemma commit_result_sound:
  assumes "trace_inv h l b" and "xg_limits change = l" and "prepared_change h change"
    and "commit_ledger_change h world change b = (out, b')"
  shows "trace_sound h l b b'"
  using commit_sound [of h change b world] assms by (cases out) (simp_all add: run_with_def)

text \<open>The store opens its backend empty and uses the same limits for every change.\<close>

definition trace_init :: "trace_host \<Rightarrow> trace_limits \<Rightarrow> trace_backend \<Rightarrow> bool" where
  "trace_init h l b \<longleftrightarrow> trace_host_ok h \<and> consistent_limits l \<and> b = new_trace_backend"

definition trace_step :: "trace_host \<Rightarrow> trace_limits \<Rightarrow> trace_backend \<Rightarrow> trace_backend \<Rightarrow> bool" where
  "trace_step h l b b' \<longleftrightarrow> (\<exists>world change. xg_limits change = l \<and> prepared_change h change \<and>
     snd (commit_ledger_change h world change b) = b')"

lemma trace_step_sound: "trace_inv h l b \<Longrightarrow> trace_step h l b b' \<Longrightarrow> trace_sound h l b b'"
  unfolding trace_step_def using commit_result_sound [of h l b] by (metis prod.collapse)

lemma trace_init_inv: "trace_init h l b \<Longrightarrow> trace_inv h l b"
  by (auto simp: trace_init_def trace_inv_def new_trace_backend_def namespace_sum_def namespace_threads_def consistent_limits_def)

interpretation traces: invariant_system "trace_init h l" "trace_step h l" "trace_inv h l" for h l
  by unfold_locales (use trace_init_inv trace_step_sound in blast)+

lemma trace_later_steps:
  assumes "(trace_step h l)\<^sup>*\<^sup>* b b'" and "trace_inv h l b"
  shows "trace_later h b b'"
  using assms(1)
proof (induction rule: rtranclp_induct)
  case (step c d)
  have "trace_inv h l c" by (rule traces.inv_steps [OF step(1) assms(2)])
  then show ?case using trace_step_sound step(2,3) trace_later_trans by blast
qed simp

end
