(* ===== verification/Trc_Props.thy ===== *)
theory Trc_Props
  imports Trc_Runs
begin

text \<open>What the trace ledger and its in-memory backend promise, each property followed by its witness.\<close>

section \<open>A sample run\<close>

definition trace_sample_host :: trace_host where
  "trace_sample_host = \<lparr>xh_json_size = (\<lambda>_. 200), xh_digest = (\<lambda>bytes. ''d''), xh_generation = (\<lambda>n. replicate n (CHR ''g''))\<rparr>"

definition sample_limits :: trace_limits where
  "sample_limits = \<lparr>xl_event_bytes = 1024, xl_thread_events = 16, xl_thread_bytes = 65536, xl_threads = 1, xl_bytes = 65536,
     xl_reserve_events = 2, xl_reserve_bytes = 2048, xl_checkpoints = 1\<rparr>"

definition trace_sample_identity :: run_identity where
  "trace_sample_identity = \<lparr>id_namespace = ''n'', id_thread = ''t'', id_run = ''r''\<rparr>"

definition trace_sample_key :: trace_key where
  "trace_sample_key = \<lparr>xk_namespace = ''n'', xk_thread = ''t'', xk_generation = []\<rparr>"

definition sample_fact :: "run_phase \<Rightarrow> trace_fact" where
  "sample_fact phase = \<lparr>xf_identity = trace_sample_identity, xf_kind = ''run'', xf_phase = Some phase, xf_graph_namespace = [],
     xf_parent_subagent = None, xf_occurred_at = 0, xf_content = []\<rparr>"

definition sample_draft :: "run_phase \<Rightarrow> stored_fact" where
  "sample_draft phase = \<lparr>xd_id = ''e'', xd_fact = sample_fact phase, xd_payload = ''p'', xd_digest = ''d''\<rparr>"

definition sample_event :: "run_phase \<Rightarrow> int \<Rightarrow> trace_event" where
  "sample_event phase n = \<lparr>xe_id = ''e'', xe_seq = n, xe_generation = [], xe_fact = sample_fact phase, xe_bytes = 202\<rparr>"

definition sample_change :: "change_kind \<Rightarrow> ledger_change" where
  "sample_change kind = \<lparr>xg_kind = kind, xg_namespace = ''n'', xg_limits = sample_limits, xg_lease = 10,
     xg_identity = (if kind = OPEN_WRITER then Some trace_sample_identity else None), xg_key = (if kind = OPEN_WRITER then None else Some trace_sample_key),
     xg_run = (if kind = OPEN_WRITER then None else Some ''r''), xg_token = Some ''w'', xg_fence = Some 1, xg_facts = [],
     xg_mandatory = False, xg_checkpoint = None, xg_payload = None, xg_digest = None, xg_expected = None, xg_proven = [],
     xg_proven_renewal = False, xg_enforce = True, xg_persist = True\<rparr>"

definition trace_append_change :: "run_phase \<Rightarrow> ledger_change" where
  "trace_append_change phase = (sample_change APPEND_EVENTS)\<lparr>xg_facts := [sample_draft phase],
     xg_mandatory := phase \<in> {PH_TERMINAL, PH_CLOSED}\<rparr>"

definition calm :: "time \<Rightarrow> trace_world" where
  "calm now = \<lparr>xn_now = now, xn_reduce = None, xn_apply = None\<rparr>"

text \<open>A run is opened, does something and ends.\<close>

abbreviation trc_after :: "ledger_change \<Rightarrow> trace_backend \<Rightarrow> trace_backend" where
  "trc_after change b \<equiv> snd (commit_ledger_change trace_sample_host (calm 0) change b)"

definition trc_opened :: trace_backend where
  "trc_opened = trc_after (sample_change OPEN_WRITER) new_trace_backend"

definition trc_started :: trace_backend where
  "trc_started = trc_after (trace_append_change PH_STARTED) trc_opened"

definition trc_ended :: trace_backend where
  "trc_ended = trc_after (trace_append_change PH_TERMINAL) trc_started"

definition trc_released :: trace_backend where
  "trc_released = trc_after (sample_change CLOSE_WRITER) trc_ended"

definition trc_deleted :: trace_backend where
  "trc_deleted = trc_after (sample_change DELETE_GENERATION) trc_released"

definition sample_record :: "run_phase \<Rightarrow> int \<Rightarrow> memory_event" where
  "sample_record phase n = memory_stored_event (sample_event phase n) (sample_draft phase)"

definition sample_writer :: ledger_writer where
  "sample_writer = \<lparr>xw_run = ''r'', xw_token = ''w'', xw_fence = 1, xw_lease = 10, xw_active = True, xw_terminal = False,
     xw_closed = False, xw_committed = 1, xw_events = 2, xw_bytes = 2048\<rparr>"

lemma sample_host_ok: "trace_host_ok trace_sample_host"
  by (simp add: trace_host_ok_def trace_sample_host_def inj_def)

lemma trc_init: "trace_init trace_sample_host sample_limits new_trace_backend"
  by (simp add: trace_init_def sample_host_ok consistent_limits_def sample_limits_def)

lemma trc_step:
  "xg_limits change = sample_limits \<Longrightarrow> prepared_change trace_sample_host change \<Longrightarrow>
     trace_step trace_sample_host sample_limits b (trc_after change b)"
  unfolding trace_step_def by blast

lemma sample_canonical: "canonical_identity trace_sample_identity"
  by code_simp

lemma sample_prepared: "prepared_change trace_sample_host (sample_change kind)" "prepared_change trace_sample_host (trace_append_change phase)"
  by (simp_all add: prepared_change_def trace_append_change_def sample_change_def sample_draft_def trace_sample_host_def sample_canonical)

lemma sample_limits_eq [simp]: "xg_limits (sample_change kind) = sample_limits" "xg_limits (trace_append_change phase) = sample_limits"
  by (simp_all add: trace_append_change_def sample_change_def)

lemma trc_steps:
  "(trace_step trace_sample_host sample_limits)\<^sup>*\<^sup>* new_trace_backend trc_opened"
  "(trace_step trace_sample_host sample_limits)\<^sup>*\<^sup>* new_trace_backend trc_started"
  "(trace_step trace_sample_host sample_limits)\<^sup>*\<^sup>* new_trace_backend trc_ended"
  "(trace_step trace_sample_host sample_limits)\<^sup>*\<^sup>* trc_ended trc_released"
  "(trace_step trace_sample_host sample_limits)\<^sup>*\<^sup>* trc_ended trc_deleted"
proof -
  note steps = trc_step [OF sample_limits_eq(1) sample_prepared(1)] trc_step [OF sample_limits_eq(2) sample_prepared(2)]
  show one: "(trace_step trace_sample_host sample_limits)\<^sup>*\<^sup>* new_trace_backend trc_opened"
    unfolding trc_opened_def by (rule r_into_rtranclp) (rule steps)
  then show two: "(trace_step trace_sample_host sample_limits)\<^sup>*\<^sup>* new_trace_backend trc_started"
    unfolding trc_started_def by (rule rtranclp.rtrancl_into_rtrancl) (rule steps)
  then show "(trace_step trace_sample_host sample_limits)\<^sup>*\<^sup>* new_trace_backend trc_ended"
    unfolding trc_ended_def by (rule rtranclp.rtrancl_into_rtrancl) (rule steps)
  show released: "(trace_step trace_sample_host sample_limits)\<^sup>*\<^sup>* trc_ended trc_released"
    unfolding trc_released_def by (rule r_into_rtranclp) (rule steps)
  then show "(trace_step trace_sample_host sample_limits)\<^sup>*\<^sup>* trc_ended trc_deleted"
    unfolding trc_deleted_def by (rule rtranclp.rtrancl_into_rtrancl) (rule steps)
qed

definition ended_writer :: ledger_writer where
  "ended_writer = sample_writer\<lparr>xw_terminal := True, xw_committed := 2, xw_events := 1, xw_bytes := 1846\<rparr>"

definition ended_thread :: memory_thread where
  "ended_thread = \<lparr>xm_state = \<lparr>xt_key = trace_sample_key, xt_next = 3, xt_bytes = 404\<rparr>, xm_writers = [(''r'', ended_writer)],
     xm_events = [sample_record PH_STARTED 1, sample_record PH_TERMINAL 2], xm_checkpoints = []\<rparr>"

lemma trc_ended_eq: "xb_threads trc_ended = [((''n'', ''t''), ended_thread)]"
  by code_simp

lemma trc_released_eq: "xb_threads trc_released =
    [((''n'', ''t''), ended_thread\<lparr>xm_writers := [(''r'', ended_writer\<lparr>xw_active := False, xw_events := 0, xw_bytes := 0\<rparr>)]\<rparr>)]"
  by code_simp

lemma trc_deleted_eq: "xb_threads trc_deleted = []"
  by code_simp

lemma trc_ended_at:
  "dget (xb_threads trc_ended) (key_thread trace_sample_key) = Some ended_thread" "xt_key (xm_state ended_thread) = trace_sample_key"
  "dget (xm_writers ended_thread) ''r'' = Some ended_writer" "xw_terminal ended_writer"
  by (simp_all add: trc_ended_eq key_thread_def trace_sample_key_def ended_thread_def ended_writer_def)

lemma trace_append_change_fields [simp]:
  "xg_kind (trace_append_change phase) = APPEND_EVENTS" "xg_proven (trace_append_change phase) = []" "xg_key (trace_append_change phase) = Some trace_sample_key"
  "xg_run (trace_append_change phase) = Some ''r''" "xg_token (trace_append_change phase) = Some ''w''" "xg_fence (trace_append_change phase) = Some 1"
  by (simp_all add: trace_append_change_def sample_change_def)

lemma trc_started_eq:
  "xb_threads trc_started = [((''n'', ''t''), \<lparr>xm_state = \<lparr>xt_key = trace_sample_key, xt_next = 2, xt_bytes = 202\<rparr>,
     xm_writers = [(''r'', sample_writer)], xm_events = [sample_record PH_STARTED 1], xm_checkpoints = []\<rparr>)]"
  by code_simp

section \<open>Capacity\<close>

lemma trace_reachable:
  assumes "trace_init h l b0" and "(trace_step h l)\<^sup>*\<^sup>* b0 b"
  shows "trace_inv h l b"
  by (rule traces.inv_steps [OF assms(2) trace_init_inv [OF assms(1)]])

text \<open>
  C36. The limits hold in every state that commits reach, counting what is still reserved for
  the ends of active runs: the events and bytes of a thread with its reserves, the bytes of a
  namespace with its reserves, and the number of its threads.
\<close>

theorem trace_capacity_respected:
  assumes "trace_init h l b0" and "(trace_step h l)\<^sup>*\<^sup>* b0 b"
  shows "sum_list (map (\<lambda>t. xt_bytes (xm_state t) + active_reserve xw_bytes t) (namespace_threads n b)) \<le> xl_bytes l \<and>
    int (length (namespace_threads n b)) \<le> xl_threads l \<and>
    (\<forall>k t. dget (xb_threads b) k = Some t \<longrightarrow>
       int (length (xm_events t)) + active_reserve xw_events t \<le> xl_thread_events l \<and>
       sum_list (map xr_bytes (xm_events t)) + active_reserve xw_bytes t \<le> xl_thread_bytes l)"
proof -
  note inv = trace_reachable [OF assms]
  have "int (length (xm_events t)) + active_reserve xw_events t \<le> xl_thread_events l \<and>
      sum_list (map xr_bytes (xm_events t)) + active_reserve xw_bytes t \<le> xl_thread_bytes l"
    if "dget (xb_threads b) k = Some t" for k t
    using trace_inv_at(1) [OF inv that] by (simp add: thread_ok_def trace_log_ok_def capacity_ok_def thread_weight_def)
  moreover have "thread_weight = (\<lambda>t. xt_bytes (xm_state t) + active_reserve xw_bytes t)"
    by (simp add: thread_weight_def fun_eq_iff)
  ultimately show ?thesis
    using trace_inv_at(2,3) [OF inv, of n] by (simp add: namespace_sum_def sum_list_triv)
qed

theorem trace_capacity_respected_witness:
  "length (namespace_threads ''n'' trc_started) = 1 \<and>
     sum_list (map (\<lambda>t. xt_bytes (xm_state t) + active_reserve xw_bytes t) (namespace_threads ''n'' trc_started)) \<le> 65536"
proof -
  have "length (namespace_threads ''n'' trc_started) = 1" by (simp add: namespace_threads_def trc_started_eq)
  then show ?thesis
    using conjunct1 [OF trace_capacity_respected [OF trc_init trc_steps(2), of "''n''"]] by (simp add: sample_limits_def)
qed

section \<open>The log\<close>

text \<open>
  C38. The log of a thread has no gap and no duplicate: its events are numbered from one, each
  belongs to the thread's generation and is no larger than the limit. The head of the thread and the
  writers of its runs count them exactly, and every event has a writer.
\<close>

theorem trace_log_gapless:
  assumes "trace_init h l b0" and "(trace_step h l)\<^sup>*\<^sup>* b0 b" and "dget (xb_threads b) k = Some t"
  shows "map xr_seq (xm_events t) = map int [1 ..< Suc (length (xm_events t))] \<and>
    xt_next (xm_state t) = int (length (xm_events t)) + 1 \<and> xt_bytes (xm_state t) = sum_list (map xr_bytes (xm_events t)) \<and>
    (\<forall>r \<in> set (xm_events t). xe_generation (xr_event r) = xk_generation (xt_key (xm_state t)) \<and>
      xr_bytes r \<le> xl_event_bytes l \<and> dget (xm_writers t) (xr_run r) \<noteq> None) \<and>
    (\<forall>run_id w. dget (xm_writers t) run_id = Some w \<longrightarrow>
      xw_committed w = int (length (filter (\<lambda>r. xr_run r = run_id) (xm_events t))))"
proof -
  have ok: "trace_log_ok h l t" "writers_ok l t"
    using trace_inv_at(1) [OF trace_reachable [OF assms(1,2)] assms(3)] by (simp_all add: thread_ok_def)
  have rec: "record_sound h l (xt_key (xm_state t)) i (xm_events t ! i)" if "i < length (xm_events t)" for i
    using ok(1) that by (simp add: trace_log_ok_def)
  have "map xr_seq (xm_events t) = map int [1 ..< Suc (length (xm_events t))]"
    by (rule nth_equalityI) (use rec in \<open>auto simp: record_sound_def simp del: upt_Suc\<close>)
  moreover have "\<forall>r \<in> set (xm_events t). xe_generation (xr_event r) = xk_generation (xt_key (xm_state t)) \<and>
      xr_bytes r \<le> xl_event_bytes l \<and> dget (xm_writers t) (xr_run r) \<noteq> None"
    using ok(2) rec by (auto simp: in_set_conv_nth record_sound_def valid_record_def writers_ok_def Let_def)
  ultimately show ?thesis
    using ok by (simp add: writers_ok_def run_events_def trace_log_ok_def)
qed

theorem trace_log_gapless_witness:
  "map xr_seq [sample_record PH_STARTED 1] = [1]"
  using conjunct1 [OF trace_log_gapless [OF trc_init trc_steps(2), of "(''n'', ''t'')"]] by (simp add: trc_started_eq)

section \<open>The size of an event\<close>

lemma decimal_digits_le: "1 \<le> k \<Longrightarrow> decimal_digits n \<le> int k \<longleftrightarrow> n < 10 ^ k"
proof (induction n arbitrary: k rule: decimal_digits.induct)
  case (1 n)
  have shift: "n div 10 < p \<longleftrightarrow> n < 10 * p" for p :: int by presburger
  show ?case
  proof (cases "n < 10")
    case True
    have "(10::int) ^ 1 \<le> 10 ^ k" by (rule power_increasing) (use 1 in auto)
    then show ?thesis using True 1(2) by (simp add: decimal_digits.simps [of n])
  next
    case False
    then have digits: "decimal_digits n = 1 + decimal_digits (n div 10)" by (simp add: decimal_digits.simps [of n])
    show ?thesis
    proof (cases "k = 1")
      case True
      then show ?thesis using False digits decimal_digits_pos [of "n div 10"] by simp
    next
      case k: False
      then obtain j where j: "k = Suc j" "1 \<le> j" using 1(2) by (cases k) auto
      have "decimal_digits n \<le> int k \<longleftrightarrow> n div 10 < 10 ^ j" using 1(1) [OF False j(2)] digits j(1) by simp
      also have "\<dots> \<longleftrightarrow> n < 10 ^ k" using shift [of "10 ^ j"] j(1) by simp
      finally show ?thesis .
    qed
  qed
qed

lemma decimal_digits_less: "1 \<le> k \<Longrightarrow> int k < decimal_digits n \<longleftrightarrow> 10 ^ k \<le> n"
  using decimal_digits_le [of k n] by linarith

lemma decimal_digits_mono: "m \<le> n \<Longrightarrow> decimal_digits m \<le> decimal_digits n"
proof -
  assume "m \<le> n"
  moreover have k: "1 \<le> nat (decimal_digits n)" "decimal_digits n = int (nat (decimal_digits n))"
    using decimal_digits_pos [of n] by simp_all
  ultimately have "m < 10 ^ nat (decimal_digits n)" using decimal_digits_le [OF k(1), of n] by simp
  then show ?thesis using decimal_digits_le [OF k(1), of m] k(2) by simp
qed

text \<open>Adding the length of the numeral to the number makes it longer by at most one digit.\<close>

lemma decimal_digits_step:
  assumes "0 \<le> body"
  defines "d \<equiv> decimal_digits (body + 1)"
  shows "decimal_digits (body + d + 1) \<le> d + 1"
proof -
  define k where "k = nat d"
  have k: "d = int k" "1 \<le> k" using decimal_digits_pos [of "body + 1"] by (simp_all add: k_def d_def)
  have "body + 1 < 10 ^ k" using decimal_digits_le [OF k(2), of "body + 1"] k(1) by (simp add: d_def)
  moreover have "int j < 10 ^ j" for j
  proof (induction j)
    case (Suc j)
    have "(1::int) \<le> 10 ^ j" by simp
    then show ?case using Suc unfolding power_Suc of_nat_Suc by linarith
  qed simp
  moreover have "(1::int) \<le> 10 ^ k" by simp
  ultimately have "body + d + 1 < 10 ^ Suc k" using k(1) unfolding power_Suc by (smt (verit))
  then show ?thesis using decimal_digits_le [of "Suc k" "body + d + 1"] k(1) by simp
qed

lemma size_attempts_converge:
  assumes "0 \<le> body"
  shows "\<exists>n. size_attempts 4 body 1 = Inr n"
proof -
  let ?d = "decimal_digits (body + 1)"
  have one: "decimal_digits 1 = 1" by (simp add: decimal_digits.simps)
  have "?d \<le> decimal_digits (body + ?d)" "decimal_digits (body + ?d) \<le> decimal_digits (body + ?d + 1)"
    by (rule decimal_digits_mono, use decimal_digits_pos [of "body + 1"] in simp)+
  then have "decimal_digits (body + ?d) = ?d \<or>
      decimal_digits (body + ?d) = ?d + 1 \<and> decimal_digits (body + (?d + 1)) = ?d + 1"
    using decimal_digits_step [OF assms] unfolding add.assoc by linarith
  then show ?thesis using one by (elim disjE conjE) (simp_all add: eval_nat_numeral Let_def)
qed

lemma size_attempts_least:
  "size_attempts k body n = Inr a \<Longrightarrow> n \<le> m \<Longrightarrow> m = body + decimal_digits m \<Longrightarrow> a \<le> m"
proof (induction k arbitrary: n)
  case (Suc k)
  have "body + decimal_digits n \<le> m" using decimal_digits_mono [OF Suc.prems(2)] Suc.prems(3) by linarith
  then show ?case using Suc by (auto simp: Let_def split: if_splits)
qed simp

text \<open>
  C40. Computing the size of an event always ends within the four attempts: the size that is
  stored in the event counts its own digits, and it is the least size that does.
\<close>

theorem event_size_converges:
  assumes "1 \<le> xh_json_size h \<lparr>xe_id = event_id, xe_seq = s, xe_generation = g, xe_fact = f, xe_bytes = 1\<rparr>"
  defines "body \<equiv> xh_json_size h \<lparr>xe_id = event_id, xe_seq = s, xe_generation = g, xe_fact = f, xe_bytes = 1\<rparr> - 1"
  shows "\<exists>event. make_event h event_id s g f = Inr event \<and> xe_bytes event = body + decimal_digits (xe_bytes event) \<and>
    (\<forall>m. m = body + decimal_digits m \<longrightarrow> xe_bytes event \<le> m)"
proof -
  have body: "0 \<le> body" using assms by simp
  then obtain n where n: "size_attempts 4 body 1 = Inr n" using size_attempts_converge by blast
  have "n \<le> m" if "m = body + decimal_digits m" for m
    by (rule size_attempts_least [OF n _ that]) (use that body decimal_digits_pos [of m] in linarith)
  then show ?thesis
    using n size_attempts_Inr [OF n] by (auto simp: make_event_def Let_def attempt_Inr body_def simp del: size_attempts.simps)
qed

theorem event_size_converges_witness:
  "\<exists>event. make_event trace_sample_host ''e'' 1 [] (sample_fact PH_STARTED) = Inr event \<and> xe_bytes event = 199 + decimal_digits (xe_bytes event)"
  using event_size_converges [of trace_sample_host "''e''" 1 "[]" "sample_fact PH_STARTED"] by (auto simp: trace_sample_host_def)

section \<open>Runs that ended\<close>

text \<open>What an accepted change says about the writer it was made by.\<close>

lemma accepted_effect:
  assumes "commit_ledger_change h world change b = (Inr result, b')"
  obtains tid r effect where "change_target change = Inr (tid, r)" "result = xx_result effect"
    "resolve_ledger_change h (xh_generation h (xb_generations b)) (xn_reduce world) change
    (backend_state (xn_now world) (xg_namespace change) tid r (map_option (\<lambda>c. (xp_projection c, xp_run c)) (xg_checkpoint change))
      (xg_kind change = DELETE_GENERATION) b) = Inr effect"
proof -
  have "run_with (commit_ledger_change h world change) (\<lambda>result _. \<exists>tid r effect.
      change_target change = Inr (tid, r) \<and> result = xx_result effect \<and> resolve_ledger_change h (xh_generation h (xb_generations b)) (xn_reduce world) change
        (backend_state (xn_now world) (xg_namespace change) tid r (map_option (\<lambda>c. (xp_projection c, xp_run c)) (xg_checkpoint change))
          (xg_kind change = DELETE_GENERATION) b) = Inr effect) (\<lambda>_ _. True) b"
    unfolding commit_wp by (auto simp: state_for_change_def attempt_Inr run_with_def split: sum.split prod.split)
  then show thesis using assms that by (auto simp: run_with_def)
qed

lemma accepted_writer:
  assumes inv: "trace_inv h l b" and run: "commit_ledger_change h world change b = (Inr result, b')"
    and kind: "xg_kind change = APPEND_EVENTS \<and> xg_proven change = [] \<or> xg_kind change = RENEW_WRITER"
  obtains key t w where "xg_key change = Some key" "dget (xb_threads b) (key_thread key) = Some t" "xt_key (xm_state t) = key"
    "dget (xm_writers t) (the (xg_run change)) = Some w" "xw_active w"
    "xg_token change = Some (xw_token w)" "xg_fence change = Some (xw_fence w)"
    "xg_kind change = APPEND_EVENTS \<Longrightarrow> batch_error change = None \<and> (\<exists>flags. end_flags change w = Inr flags)"
proof -
  from run obtain tid r effect where eff: "resolve_ledger_change h (xh_generation h (xb_generations b)) (xn_reduce world) change
    (backend_state (xn_now world) (xg_namespace change) tid r (map_option (\<lambda>c. (xp_projection c, xp_run c)) (xg_checkpoint change))
      (xg_kind change = DELETE_GENERATION) b) = Inr effect" (is "resolve_ledger_change h _ _ change ?state = _")
    by (rule accepted_effect)
  from eff kind obtain unexpired head w where own: "owned_writer change ?state unexpired = Inr (head, w)"
    and ends: "xg_kind change = APPEND_EVENTS \<Longrightarrow> batch_error change = None \<and> (\<exists>flags. end_flags change w = Inr flags)"
    by (auto simp: resolve_ledger_change_def resolve_append_events_def resolve_renew_writer_def require_Inr attempt_Inr
        split: if_splits prod.splits)
  from own obtain key t run_id where o: "xg_key change = Some key" "xg_run change = Some run_id"
    "dget (xb_threads b) (xg_namespace change, tid) = Some t" "xt_key (xm_state t) = key" "r \<noteq> None"
    "dget (xm_writers t) (the r) = Some w" "xw_run w = run_id" "xw_active w"
    "xg_token change = Some (xw_token w)" "xg_fence change = Some (xw_fence w)"
    by (rule owned_writer_Inr) blast
  have "key_thread key = (xg_namespace change, tid)" using key_at [OF inv o(3)] o(4) by simp
  moreover have "the r = run_id" using writer_at(2) [OF inv o(3,6)] o(7) by simp
  ultimately show thesis using that [of key t w] o ends by simp
qed

text \<open>A writer that committed something is still there, and only went on, wherever its generation exists.\<close>

lemma writer_kept:
  assumes inv: "trace_inv h l b" and steps: "(trace_step h l)\<^sup>*\<^sup>* b b'"
    and t: "dget (xb_threads b) (key_thread key) = Some t" "xt_key (xm_state t) = key"
    and w: "dget (xm_writers t) r = Some w" "0 < xw_committed w"
    and t': "dget (xb_threads b') (key_thread key) = Some t'" "xt_key (xm_state t') = key"
  shows "\<exists>w'. dget (xm_writers t') r = Some w' \<and> writer_later w w'"
proof -
  have "generated h b (xk_generation (xt_key (xm_state t')))" using trace_inv_at(4) [OF inv t(1)] t(2) t'(2) by simp
  then have "thread_later t t'"
    using trace_later_steps [OF steps inv] t(1) t'(1) unfolding trace_later_def by fastforce
  then show ?thesis using w unfolding thread_later_def by blast
qed

text \<open>
  C34. A run that ended stays ended: once the terminal fact of a run is committed, every
  batch that is accepted for it later, by whatever writer, only closes it, and when it
  is closed none is accepted.
\<close>

theorem ended_run_stays_ended:
  assumes "trace_init h l b0" and "(trace_step h l)\<^sup>*\<^sup>* b0 b"
    and "dget (xb_threads b) (key_thread key) = Some t" and "xt_key (xm_state t) = key"
    and "dget (xm_writers t) r = Some w" and "xw_terminal w"
    and "(trace_step h l)\<^sup>*\<^sup>* b b1" and "xg_kind change = APPEND_EVENTS" and "xg_proven change = []"
    and "xg_key change = Some key" and "xg_run change = Some r"
    and "commit_ledger_change h world change b1 = (Inr result, b2)"
  shows "\<not> xw_closed w \<and> xg_mandatory change \<and> map (\<lambda>d. xf_phase (xd_fact d)) (xg_facts change) = [Some PH_CLOSED]"
proof -
  note inv = trace_reachable [OF assms(1,2)]
  have inv1: "trace_inv h l b1" by (rule traces.inv_steps [OF assms(7) inv])
  obtain t1 w1 where t1: "dget (xb_threads b1) (key_thread key) = Some t1" "xt_key (xm_state t1) = key"
    and w1: "dget (xm_writers t1) r = Some w1" and batch: "batch_error change = None" "\<exists>flags. end_flags change w1 = Inr flags"
    by (rule accepted_writer [OF inv1 assms(12)]) (use assms(8-11) in auto)
  have "0 < xw_committed w" using writer_at(1) [OF inv assms(3,5)] assms(6) by (simp add: writer_ok_def)
  then have "writer_later w w1"
    using writer_kept [OF inv assms(7,3,4,5) _ t1] w1 by auto
  then have ended: "xw_terminal w1" "xw_closed w \<longrightarrow> xw_closed w1" using assms(6) by (simp_all add: writer_later_def)
  obtain terminal closed where flags: "end_flags change w1 = Inr (terminal, closed)" using batch(2) by auto
  have facts: "xg_facts change \<noteq> []"
  proof -
    from assms(12) obtain tid q effect where "resolve_ledger_change h (xh_generation h (xb_generations b1)) (xn_reduce world) change
      (backend_state (xn_now world) (xg_namespace change) tid q (map_option (\<lambda>c. (xp_projection c, xp_run c)) (xg_checkpoint change))
        (xg_kind change = DELETE_GENERATION) b1) = Inr effect" by (rule accepted_effect)
    then show ?thesis
      using assms(8,9) by (auto simp: resolve_ledger_change_def resolve_append_events_def require_Inr)
  qed
  have mandatory: "xg_mandatory change" using end_flags_ok(5) [OF flags batch(1) facts] ended(1) by blast
  let ?ps = "concat (map (\<lambda>d. option_list (xf_phase (xd_fact d))) (xg_facts change))"
  have ends: "\<forall>d \<in> set (xg_facts change). ends_run (xd_fact d)"
    using batch(1) mandatory by (auto simp: batch_error_def Let_def list_all_iff)
  have "PH_TERMINAL \<notin> set ?ps" "count_list ?ps PH_CLOSED \<le> 1" "\<not> xw_closed w1"
    using flags mandatory ended(1) unfolding end_flags_def by (auto simp: Let_def require_Inr)
  moreover have "set ?ps \<subseteq> {PH_TERMINAL, PH_CLOSED}" using ending_phases [OF ends] by blast
  ultimately have phases: "\<forall>p \<in> set ?ps. p = PH_CLOSED" "count_list ?ps PH_CLOSED \<le> 1" "\<not> xw_closed w1" by auto
  have "map (\<lambda>d. xf_phase (xd_fact d)) ds = [Some PH_CLOSED]"
    if "ds \<noteq> []" "\<forall>d \<in> set ds. ends_run (xd_fact d)"
      "\<forall>p \<in> set (concat (map (\<lambda>d. option_list (xf_phase (xd_fact d))) ds)). p = PH_CLOSED"
      "count_list (concat (map (\<lambda>d. option_list (xf_phase (xd_fact d))) ds)) PH_CLOSED \<le> 1" for ds :: "stored_fact list"
    using that by (cases ds; cases "tl ds") (auto simp: ends_run_def option_list_def)
  from this [OF facts ends phases(1,2)] show ?thesis using mandatory phases(3) ended(2) by blast
qed

theorem ended_run_stays_ended_witness: "\<exists>result. fst (commit_ledger_change trace_sample_host (calm 0) (trace_append_change PH_CLOSED) trc_ended) = Inr result \<and>
    map (\<lambda>d. xf_phase (xd_fact d)) (xg_facts (trace_append_change PH_CLOSED)) = [Some PH_CLOSED]"
proof -
  have "case fst (commit_ledger_change trace_sample_host (calm 0) (trace_append_change PH_CLOSED) trc_ended) of Inr _ \<Rightarrow> True | Inl _ \<Rightarrow> False"
    by code_simp
  then obtain result where result: "fst (commit_ledger_change trace_sample_host (calm 0) (trace_append_change PH_CLOSED) trc_ended) = Inr result"
    by (cases "fst (commit_ledger_change trace_sample_host (calm 0) (trace_append_change PH_CLOSED) trc_ended)") simp_all
  then have run: "commit_ledger_change trace_sample_host (calm 0) (trace_append_change PH_CLOSED) trc_ended = (Inr result, trc_after (trace_append_change PH_CLOSED) trc_ended)"
    by (subst prod.collapse [symmetric]) (simp only:)
  note closed = ended_run_stays_ended [OF trc_init trc_steps(3) trc_ended_at rtranclp.rtrancl_refl trace_append_change_fields(1-4) run]
  show ?thesis
    by (intro exI [of _ result] conjI result) (rule conjunct2 [OF conjunct2 [OF closed]])
qed

section \<open>Claims that were lost\<close>

text \<open>A writer does not answer to a claim: it was released, or it belongs to another.\<close>

definition claim_lost :: "py_str \<Rightarrow> int \<Rightarrow> ledger_writer \<Rightarrow> bool" where
  "claim_lost token fence w \<longleftrightarrow> fence < xw_fence w \<or> fence = xw_fence w \<and> (xw_token w \<noteq> token \<or> \<not> xw_active w)"

lemma claim_lost_later: "claim_lost token fence w \<Longrightarrow> writer_later w w' \<Longrightarrow> claim_lost token fence w'"
  by (auto simp: claim_lost_def writer_later_def)

text \<open>
  C35. A claim on a run that is lost stays lost: when a run that committed something was
  released by its writer or taken over under a higher fence, no later append or renewal with the old
  token and fence is accepted, whatever happened in between, and neither is one after the thread was
  deleted and its name used again.
\<close>

theorem lost_writers_stay_lost:
  assumes "trace_init h l b0" and "(trace_step h l)\<^sup>*\<^sup>* b0 b"
    and "dget (xb_threads b) (key_thread key) = Some t" and "xt_key (xm_state t) = key"
    and "dget (xm_writers t) r = Some w" and "0 < xw_committed w" and "claim_lost token fence w"
    and "(trace_step h l)\<^sup>*\<^sup>* b b1"
    and "xg_kind change = APPEND_EVENTS \<and> xg_proven change = [] \<or> xg_kind change = RENEW_WRITER"
    and "xg_key change = Some key" and "xg_run change = Some r"
    and "xg_token change = Some token" and "xg_fence change = Some fence"
  shows "\<exists>e. fst (commit_ledger_change h world change b1) = Inl e"
proof (cases "fst (commit_ledger_change h world change b1)")
  case (Inr result)
  then have run: "commit_ledger_change h world change b1 = (Inr result, snd (commit_ledger_change h world change b1))"
    by (simp add: prod_eq_iff)
  note inv = trace_reachable [OF assms(1,2)]
  have inv1: "trace_inv h l b1" by (rule traces.inv_steps [OF assms(8) inv])
  obtain t1 w1 where t1: "dget (xb_threads b1) (key_thread key) = Some t1" "xt_key (xm_state t1) = key"
    and w1: "dget (xm_writers t1) r = Some w1" "xw_active w1" "xw_token w1 = token" "xw_fence w1 = fence"
    by (rule accepted_writer [OF inv1 run assms(9)]) (use assms(10-13) in auto)
  have "writer_later w w1" using writer_kept [OF inv assms(8,3-6) t1] w1(1) by auto
  then have "claim_lost token fence w1" using assms(7) claim_lost_later by blast
  then show ?thesis using w1 by (simp add: claim_lost_def)
qed simp

theorem lost_writers_stay_lost_witness:
  "\<exists>e. fst (commit_ledger_change trace_sample_host (calm 0) (trace_append_change PH_CLOSED) trc_released) = Inl e"
proof -
  let ?w = "ended_writer\<lparr>xw_active := False, xw_events := 0, xw_bytes := 0\<rparr>"
  let ?t = "ended_thread\<lparr>xm_writers := [(''r'', ?w)]\<rparr>"
  have t: "dget (xb_threads trc_released) (key_thread trace_sample_key) = Some ?t" "xt_key (xm_state ?t) = trace_sample_key"
    "dget (xm_writers ?t) ''r'' = Some ?w" "0 < xw_committed ?w" "claim_lost ''w'' 1 ?w"
    using trc_ended_at(2) by (simp_all add: trc_released_eq key_thread_def trace_sample_key_def ended_writer_def sample_writer_def claim_lost_def)
  show ?thesis
    by (rule lost_writers_stay_lost [OF trc_init rtranclp_trans [OF trc_steps(3,4)] t rtranclp.rtrancl_refl]) simp_all
qed

text \<open>
  A generation that is gone stays gone: once a generation of a thread that existed is not
  found, because it was deleted or emptied, no change brings it back, and every read of it raises
  \<open>TraceThreadNotFound\<close>, whether or not the name of the thread is in use again.
\<close>

theorem deleted_generation_stays_gone:
  assumes "trace_init h l b0" and "(trace_step h l)\<^sup>*\<^sup>* b0 b"
    and "exact_thread key b = Inr t" and "(trace_step h l)\<^sup>*\<^sup>* b b1"
    and "exact_thread key b1 = Inl e" and "(trace_step h l)\<^sup>*\<^sup>* b1 b2" and "xj_key request = key"
  shows "read_event_page now request b2 = (Inl (TraceThreadNotFound (xk_thread key)), b2) \<and>
    load_projection_checkpoint key projection run_id as_of b2 = (Inl (TraceThreadNotFound (xk_thread key)), b2)"
proof -
  note inv = trace_reachable [OF assms(1,2)]
  have inv1: "trace_inv h l b1" by (rule traces.inv_steps [OF assms(4) inv])
  have "dget (xb_threads b) (key_thread key) = Some t" "xt_key (xm_state t) = key"
    using assms(3) by (auto simp: exact_thread_def split: option.splits if_splits)
  then have "generated h b (xk_generation key)" using trace_inv_at(4) [OF inv] by blast
  then have issued: "generated h b1 (xk_generation key)"
    using trace_later_steps [OF assms(4) inv] generated_mono unfolding trace_later_def by blast
  have gone: "xt_key (xm_state u) \<noteq> key" if "dget (xb_threads b1) (key_thread key) = Some u" for u
    using assms(5) that by (auto simp: exact_thread_def)
  have later: "(\<exists>u. dget (xb_threads b1) k = Some u \<and> xt_key (xm_state u) = xt_key (xm_state v)) \<or>
      \<not> generated h b1 (xk_generation (xt_key (xm_state v)))" if "dget (xb_threads b2) k = Some v" for k v
    using trace_later_steps [OF assms(6) inv1] that unfolding trace_later_def by blast
  have "xt_key (xm_state v) \<noteq> key" if v: "dget (xb_threads b2) (key_thread key) = Some v" for v
    using later [OF v] gone issued by auto
  then have "exact_thread key b2 = Inl (TraceThreadNotFound (xk_thread key))"
    by (auto simp: exact_thread_def split: option.split)
  then show ?thesis
    using assms(7) by (simp add: read_event_page_def load_projection_checkpoint_def bind_def try_gets_def lift_def)
qed

definition sample_page :: page_request where
  "sample_page = \<lparr>xj_key = trace_sample_key, xj_direction = FORWARD, xj_limit = 10, xj_after = None, xj_as_of = None, xj_before = None\<rparr>"

theorem deleted_generation_stays_gone_witness:
  "read_event_page 0 sample_page trc_deleted = (Inl (TraceThreadNotFound ''t''), trc_deleted)"
proof -
  have "exact_thread trace_sample_key trc_ended = Inr ended_thread" using trc_ended_at(1,2) by (simp add: exact_thread_def)
  moreover have "exact_thread trace_sample_key trc_deleted = Inl (TraceThreadNotFound ''t'')"
    by (simp add: exact_thread_def trc_deleted_eq trace_sample_key_def)
  moreover have "xj_key sample_page = trace_sample_key" by (simp add: sample_page_def)
  ultimately have "read_event_page 0 sample_page trc_deleted = (Inl (TraceThreadNotFound (xk_thread trace_sample_key)), trc_deleted)"
    by (rule conjunct1 [OF deleted_generation_stays_gone [OF trc_init trc_steps(3) _ trc_steps(5) _ rtranclp.rtrancl_refl]])
  then show ?thesis by (simp add: trace_sample_key_def)
qed

section \<open>The end of a run always fits\<close>

lemma ending_quota:
  assumes "consistent_limits (xg_limits change)" and "writer_ok (xg_limits change) w" and "xw_active w" and "\<not> xw_closed w"
    and "xg_mandatory change" and "xe_bytes e \<le> xl_event_bytes (xg_limits change)"
  shows "append_quota change state thread w [e] = None"
proof -
  have "2 * xl_event_bytes (xg_limits change) \<le> xl_reserve_events (xg_limits change) * xl_event_bytes (xg_limits change)"
    by (rule mult_right_mono) (use assms(1) in \<open>simp_all add: consistent_limits_def\<close>)
  moreover have "xl_reserve_events (xg_limits change) * xl_event_bytes (xg_limits change) \<le> xl_reserve_bytes (xg_limits change)"
    "1024 \<le> xl_event_bytes (xg_limits change)" using assms(1) by (simp_all add: consistent_limits_def)
  ultimately have "xl_event_bytes (xg_limits change) \<le> xl_reserve_bytes (xg_limits change)" by linarith
  then have "1 \<le> xw_events w" "xl_event_bytes (xg_limits change) \<le> xw_bytes w"
    using assms(1-4) by (auto simp: consistent_limits_def writer_ok_def split: if_splits)
  then show ?thesis using assms(5,6) by (simp add: append_quota_def added_bytes_def Let_def)
qed

text \<open>
  C33. However full a thread, its namespace and the store are, the owner of a run can record its end:
  the terminal fact of a run that has none, and the closing fact after it, are
  accepted whenever the event itself is not too large. The event is appended to the log and the
  writer is marked.
\<close>

theorem owner_can_end_run:
  assumes "trace_init h (xg_limits change) b0" and "(trace_step h (xg_limits change))\<^sup>*\<^sup>* b0 b"
    and "dget (xb_threads b) (key_thread key) = Some t" and "xt_key (xm_state t) = key"
    and "dget (xm_writers t) r = Some w" and "xw_active w" and "xg_enforce change \<longrightarrow> now < xw_lease w"
    and "change = \<lparr>xg_kind = APPEND_EVENTS, xg_namespace = xk_namespace key, xg_limits = limits, xg_lease = lease,
      xg_identity = None, xg_key = Some key, xg_run = Some r, xg_token = Some (xw_token w), xg_fence = Some (xw_fence w),
      xg_facts = [d], xg_mandatory = True, xg_checkpoint = None, xg_payload = None, xg_digest = None, xg_expected = None,
      xg_proven = [], xg_proven_renewal = False, xg_enforce = enforce, xg_persist = persist\<rparr>"
    and "xf_identity (xd_fact d) = \<lparr>id_namespace = xk_namespace key, id_thread = xk_thread key, id_run = r\<rparr>"
    and "xf_graph_namespace (xd_fact d) = []" and "xf_parent_subagent (xd_fact d) = None"
    and "xf_phase (xd_fact d) = Some PH_TERMINAL \<and> \<not> xw_terminal w \<or> xf_phase (xd_fact d) = Some PH_CLOSED \<and> xw_terminal w \<and> \<not> xw_closed w"
    and "make_event h (xd_id d) (xt_next (xm_state t)) (xk_generation key) (xd_fact d) = Inr e"
    and "xe_bytes e \<le> xl_event_bytes (xg_limits change)"
    and "commit_ledger_change h (calm now) change b = (out, b')"
  shows "\<exists>result t' w'. out = Inr result \<and> xo_events result = [e] \<and>
    dget (xb_threads b') (key_thread key) = Some t' \<and> xm_events t' = xm_events t @ [memory_stored_event e d] \<and>
    dget (xm_writers t') r = Some w' \<and> xw_terminal w' \<and> (xw_closed w' \<longleftrightarrow> xf_phase (xd_fact d) = Some PH_CLOSED)"
proof -
  note inv = trace_reachable [OF assms(1,2)]
  have lim: "consistent_limits (xg_limits change)" using inv by (simp add: trace_inv_def)
  note w = writer_at [OF inv assms(3,5)]
  have open_run: "\<not> xw_closed w" using w(1) assms(12) by (auto simp: writer_ok_def)
  let ?state = "backend_state now (xk_namespace key) (xk_thread key) (Some r) None False b"
  have at: "dget (xb_threads b) (xk_namespace key, xk_thread key) = Some t" using assms(3) by (simp add: key_thread_def)
  note state = state_at [OF at, of now "Some r" None False]
  have target: "state_for_change now change b = Inr ?state"
    by (simp add: state_for_change_def change_target_def assms(8))
  have scope: "validate_change_scope change ?state = None"
    using state(1,2) assms(4,5,9) w(2)
    by (simp add: validate_change_scope_def named_threads_def named_runs_def option_list_def agree_def key_thread_def Let_def assms(8) protocol_error_def)
  have owned: "owned_writer change ?state (xg_enforce change) = Inr (xm_state t, w)"
    using state(1,2,7) assms(4-7) w(2) by (simp add: owned_writer_def require_exact_thread_def assms(8) not_le)
  have batch: "batch_error change = None"
    using assms(10-12) by (auto simp: batch_error_def Let_def ends_run_def assms(8))
  let ?closed = "xf_phase (xd_fact d) = Some PH_CLOSED"
  have flags: "end_flags change w = Inr (True, ?closed)"
    using assms(12) open_run by (auto simp: end_flags_def option_list_def Let_def require_Inr assms(8))
  have numbered: "number_facts h (xg_limits change) (xt_key (xm_state t)) (xw_run w) (xt_next (xm_state t)) (xg_facts change) = Inr [e]"
    using assms(4,9,13,14) w(2) by (simp add: attempt_def require_def protocol_error_def quota_error_def assms(8))
  have quota: "append_quota change ?state (xm_state t) w [e] = None"
    by (rule ending_quota [OF lim w(1) assms(6) open_run _ assms(14)]) (simp add: assms(8))
  let ?effect = "append_effect change (xm_state t) w (charged_writer change ?state w True ?closed [e]) [e]"
  have "resolve_append_events h None change ?state = Inr ?effect"
    using owned batch flags numbered quota by (simp add: resolve_append_events_def attempt_def require_def assms(8))
  then have effect: "resolve_ledger_change h (xh_generation h (xb_generations b)) None change ?state = Inr ?effect"
    using scope by (simp add: resolve_ledger_change_def require_def assms(8))
  have "run_with (apply_ledger_effect None change ?effect)
      (\<lambda>_ b'. \<exists>t'. dget (xb_threads b') (key_thread key) = Some t' \<and> xm_events t' = xm_events t @ [memory_stored_event e d] \<and>
        dget (xm_writers t') r = Some (charged_writer change ?state w True ?closed [e])) (\<lambda>_ _. False) (drawn b)"
    by (rule apply_existing [where key = key and t = t])
      (use assms(3,4) w(2) in \<open>auto simp: append_effect_def plain_effect_def effect_key_def changed_thread_def effect_thread_def
        effect_writers_def charged_writer_def assms(8)\<close>)
  then have "run_with (commit_ledger_change h (calm now) change) (\<lambda>result b'. xo_events result = [e] \<and>
      (\<exists>t'. dget (xb_threads b') (key_thread key) = Some t' \<and> xm_events t' = xm_events t @ [memory_stored_event e d] \<and>
        dget (xm_writers t') r = Some (charged_writer change ?state w True ?closed [e]))) (\<lambda>_ _. False) b"
    unfolding commit_wp by (simp add: calm_def target effect append_effect_def plain_effect_def run_with_def split: prod.splits sum.splits)
  then show ?thesis
    using assms(15) by (cases out) (auto simp: run_with_def charged_writer_def)
qed

definition started_thread :: memory_thread where
  "started_thread = \<lparr>xm_state = \<lparr>xt_key = trace_sample_key, xt_next = 2, xt_bytes = 202\<rparr>,
     xm_writers = [(''r'', sample_writer)], xm_events = [sample_record PH_STARTED 1], xm_checkpoints = []\<rparr>"

theorem owner_can_end_run_witness:
  "\<exists>result. fst (commit_ledger_change trace_sample_host (calm 0) (trace_append_change PH_TERMINAL) trc_started) = Inr result \<and>
     xo_events result = [sample_event PH_TERMINAL 2]"
proof -
  let ?change = "trace_append_change PH_TERMINAL"
  have size: "make_event trace_sample_host ''e'' 2 [] (sample_fact PH_TERMINAL) = Inr (sample_event PH_TERMINAL 2)" by code_simp
  have t: "dget (xb_threads trc_started) (key_thread trace_sample_key) = Some started_thread" "xt_key (xm_state started_thread) = trace_sample_key"
    "dget (xm_writers started_thread) ''r'' = Some sample_writer" "xw_active sample_writer"
    by (simp_all add: trc_started_eq key_thread_def trace_sample_key_def started_thread_def sample_writer_def)
  have change: "?change = \<lparr>xg_kind = APPEND_EVENTS, xg_namespace = xk_namespace trace_sample_key, xg_limits = sample_limits, xg_lease = 10,
      xg_identity = None, xg_key = Some trace_sample_key, xg_run = Some ''r'', xg_token = Some (xw_token sample_writer),
      xg_fence = Some (xw_fence sample_writer), xg_facts = [sample_draft PH_TERMINAL], xg_mandatory = True, xg_checkpoint = None,
      xg_payload = None, xg_digest = None, xg_expected = None, xg_proven = [], xg_proven_renewal = False, xg_enforce = True, xg_persist = True\<rparr>"
    by (simp add: trace_append_change_def sample_change_def trace_sample_key_def sample_writer_def)
  have start: "trace_init trace_sample_host (xg_limits ?change) new_trace_backend"
    "(trace_step trace_sample_host (xg_limits ?change))\<^sup>*\<^sup>* new_trace_backend trc_started"
    using trc_init trc_steps(2) by simp_all
  have "\<exists>result t' w'. fst (commit_ledger_change trace_sample_host (calm 0) ?change trc_started) = Inr result \<and>
      xo_events result = [sample_event PH_TERMINAL 2] \<and>
      dget (xb_threads (snd (commit_ledger_change trace_sample_host (calm 0) ?change trc_started))) (key_thread trace_sample_key) = Some t' \<and>
      xm_events t' = xm_events started_thread @ [memory_stored_event (sample_event PH_TERMINAL 2) (sample_draft PH_TERMINAL)] \<and>
      dget (xm_writers t') ''r'' = Some w' \<and> xw_terminal w' \<and> (xw_closed w' \<longleftrightarrow> xf_phase (xd_fact (sample_draft PH_TERMINAL)) = Some PH_CLOSED)"
    by (rule owner_can_end_run [OF start t _ change _ _ _ _ _ _ prod.collapse [symmetric]])
      (use size in \<open>simp_all add: sample_draft_def sample_fact_def trace_sample_identity_def trace_sample_key_def sample_writer_def sample_event_def
        sample_limits_def started_thread_def\<close>)
  then show ?thesis by blast
qed

section \<open>Reading the log\<close>

lemma log_numbers: "trace_log_ok h l t \<Longrightarrow> map xr_seq (xm_events t) = map int [1 ..< Suc (length (xm_events t))]"
  by (rule nth_equalityI) (auto simp: trace_log_ok_def record_sound_def simp del: upt_Suc)

lemma decode_records_sound:
  "(\<And>r. r \<in> set rs \<Longrightarrow> valid_record key r \<and> xr_payload r \<noteq> [] \<and> xr_digest r = xh_digest h (xr_payload r)) \<Longrightarrow>
     decode_records h key rs = Inr (map xr_event rs)"
  by (induction rs) (simp_all add: decode_record_def require_def protocol_error_def attempt_def)

text \<open>The numbers between two positions of a gapless log, and the records that have them.\<close>

lemma between_numbers:
  assumes "map f xs = map int [1 ..< Suc (length xs)]" and "0 \<le> start" "stop \<le> int (length xs)"
  shows "map f (between start stop xs) = map int [Suc (nat start) ..< Suc (nat stop)]"
proof -
  have "map f (between start stop xs) = between start stop (map int [1 ..< Suc (length xs)])"
    by (simp only: between_def drop_map [symmetric] take_map [symmetric] assms(1))
  also have "\<dots> = map int (drop (nat start) (take (nat stop) [1 ..< Suc (length xs)]))"
    by (simp add: between_def take_map drop_map del: upt_Suc)
  also have "\<dots> = map int [Suc (nat start) ..< Suc (nat stop)]"
    using assms(3) by (simp del: upt_Suc)
  finally show ?thesis .
qed

lemma between_filter:
  assumes "map f xs = map int [1 ..< Suc (length xs)]" and "0 \<le> start"
  shows "between start stop xs = filter (\<lambda>x. start < f x \<and> f x \<le> stop) xs"
  using assms(1)
proof (induction xs rule: rev_induct)
  case (snoc x xs)
  then have x: "f x = int (length xs) + 1" "map f xs = map int [1 ..< Suc (length xs)]" by simp_all
  have step: "between start stop (xs @ [x]) = between start stop xs @ (if start < f x \<and> f x \<le> stop then [x] else [])"
    using x(1) assms(2) by (auto simp: between_def take_Cons' drop_Cons')
  show ?case unfolding step snoc.IH [OF x(2)] by simp
qed (simp add: between_def)

lemma consecutive_simps [simp]:
  "consecutive []" "consecutive [x]" "consecutive (x # y # zs) \<longleftrightarrow> y = x + 1 \<and> consecutive (y # zs)"
  by (simp_all add: consecutive_def)

lemma consecutive_upt: "consecutive (map int [i ..< i + d])"
proof (induction d arbitrary: i)
  case (Suc d)
  have "[i ..< i + Suc d] = i # [Suc i ..< Suc i + d]" by (simp add: upt_conv_Cons del: upt_Suc)
  then show ?case using Suc [of "Suc i"] by (cases d) (simp_all add: upt_conv_Cons del: upt_Suc)
qed simp

text \<open>The cursors of a page, as positions of the log.\<close>

lemma page_positions:
  fixes after as_of limit :: int and n :: nat
  assumes "0 \<le> after" and "1 \<le> limit"
  shows "after < int n \<Longrightarrow> nat (min (min as_of (int n)) (min after (int n) + limit)) = min (min (nat as_of) n) (nat limit + nat after)"
    and "int n \<le> after \<Longrightarrow> nat (min (min as_of (int n)) (min after (int n) + limit)) \<le> n"
    and "after < int n \<Longrightarrow> nat (min after (int n)) = nat after" and "int n \<le> after \<Longrightarrow> nat (min after (int n)) = n"
proof -
  have cap: "nat (min x y) = min (nat x) (nat y)" for x y :: int by (cases "x \<le> y") (simp_all add: min_def)
  show "nat (min (min as_of (int n)) (min after (int n) + limit)) = min (min (nat as_of) n) (nat limit + nat after)" if "after < int n"
  proof -
    have "min after (int n) + limit = after + limit" using that by simp
    moreover have "nat (after + limit) = nat limit + nat after" using assms by (simp add: nat_add_distrib)
    ultimately show ?thesis by (simp only: cap nat_int)
  qed
  show "nat (min (min as_of (int n)) (min after (int n) + limit)) \<le> n" if "int n \<le> after"
    by (simp only: cap nat_int)
  show "after < int n \<Longrightarrow> nat (min after (int n)) = nat after" "int n \<le> after \<Longrightarrow> nat (min after (int n)) = n"
    by simp_all
qed

lemma between_page:
  assumes "0 \<le> after" and "1 \<le> limit"
  shows "between (min after (int (length xs))) (min (min as_of (int (length xs))) (min after (int (length xs)) + limit)) xs =
    drop (nat after) (take (nat limit + nat after) (take (nat as_of) xs))"
proof (cases "after < int (length xs)")
  case True
  have cut: "take (min (min a (length xs)) k) xs = take k (take a xs)" for a k
    by (auto simp: min_def)
  show ?thesis
    unfolding between_def page_positions(1,3) [OF assms True] cut ..
next
  case False
  then have out: "int (length xs) \<le> after" by simp
  then show ?thesis
    unfolding between_def page_positions(4) [OF assms out] by simp
qed

text \<open>The numbers on a page.\<close>

definition page_numbers :: "nat \<Rightarrow> nat \<Rightarrow> int list" where
  "page_numbers p q = map int [Suc p ..< Suc q]"

lemma page_numbers_consecutive: "consecutive (page_numbers p q)"
proof (cases "p \<le> q")
  case True
  then show ?thesis using consecutive_upt [of "Suc p" "q - p"] by (simp add: page_numbers_def)
next
  case False
  then show ?thesis by (simp add: page_numbers_def)
qed

lemma page_numbers_in: "i \<in> set (page_numbers p q) \<longleftrightarrow> int p < i \<and> i \<le> int q"
proof
  assume "int p < i \<and> i \<le> int q"
  then show "i \<in> set (page_numbers p q)" by (auto simp: page_numbers_def intro!: image_eqI [of _ _ "nat i"])
qed (auto simp: page_numbers_def)

lemma page_numbers_first: "p < q \<Longrightarrow> page_numbers p q \<noteq> [] \<and> hd (page_numbers p q) = int p + 1"
  by (simp add: page_numbers_def upt_conv_Cons del: upt_Suc)

lemma valid_forward:
  "xj_direction request = FORWARD \<Longrightarrow> xj_after request = Some after \<Longrightarrow> xj_as_of request = Some as_of \<Longrightarrow>
     \<forall>i \<in> set xs. after < i \<and> i \<le> as_of \<and> i \<le> tail \<Longrightarrow> consecutive xs \<Longrightarrow>
     (after < min as_of tail \<Longrightarrow> xs \<noteq> [] \<and> hd xs = after + 1) \<Longrightarrow> valid_sequences request tail xs"
  by (auto simp: valid_sequences_def list_all_iff)

lemma page_forward:
  assumes log: "trace_log_ok h l t" and bounds: "0 \<le> after" "1 \<le> limit"
    and request: "request = \<lparr>xj_key = key, xj_direction = FORWARD, xj_limit = limit, xj_after = Some after, xj_as_of = Some as_of, xj_before = None\<rparr>"
  shows "page_records request t = take (nat limit) (filter (\<lambda>r. after < xr_seq r \<and> xr_seq r \<le> as_of) (xm_events t))"
    and "valid_sequences request (xt_next (xm_state t) - 1) (map xr_seq (page_records request t))"
proof -
  let ?xs = "xm_events t" and ?n = "length (xm_events t)"
  let ?start = "min after (int ?n)" and ?stop = "min (min as_of (int ?n)) (min after (int ?n) + limit)"
  have tail: "xt_next (xm_state t) - 1 = int ?n" using log by (simp add: trace_log_ok_def)
  have page: "page_records request t = between ?start ?stop ?xs"
    unfolding page_records_def Let_def tail by (simp add: request)
  note numbers = log_numbers [OF log]
  have "filter (\<lambda>r. after < xr_seq r \<and> xr_seq r \<le> as_of) ?xs = between after as_of ?xs"
    by (rule between_filter [OF numbers bounds(1), symmetric])
  then show "page_records request t = take (nat limit) (filter (\<lambda>r. after < xr_seq r \<and> xr_seq r \<le> as_of) ?xs)"
    unfolding page between_page [OF bounds] by (simp only: between_def take_drop)
  have seqs: "map xr_seq (page_records request t) = page_numbers (nat ?start) (nat ?stop)"
    unfolding page page_numbers_def by (rule between_numbers [OF numbers]) (use bounds in simp_all)
  have inside: "\<forall>i \<in> set (page_numbers (nat ?start) (nat ?stop)). after < i \<and> i \<le> as_of \<and> i \<le> int ?n"
  proof (cases "after < int ?n")
    case True
    show ?thesis unfolding page_positions(1,3) [OF bounds True] using bounds by (auto simp: page_numbers_in)
  next
    case False
    then have out: "int ?n \<le> after" by simp
    show ?thesis using page_positions(2) [OF bounds out, of as_of] unfolding page_positions(4) [OF bounds out] by (auto simp: page_numbers_in)
  qed
  have first: "page_numbers (nat ?start) (nat ?stop) \<noteq> [] \<and> hd (page_numbers (nat ?start) (nat ?stop)) = after + 1"
    if "after < min as_of (int ?n)"
  proof -
    have below: "after < int ?n" "nat after < nat as_of" using that bounds by simp_all
    then have "nat after < ?n" using bounds by (simp add: nat_less_iff)
    then have "nat after < min (min (nat as_of) ?n) (nat limit + nat after)" using below(2) bounds by simp
    then show ?thesis using page_numbers_first bounds unfolding page_positions(1,3) [OF bounds below(1)] by fastforce
  qed
  show "valid_sequences request (xt_next (xm_state t) - 1) (map xr_seq (page_records request t))"
    unfolding tail seqs by (rule valid_forward [OF _ _ _ inside page_numbers_consecutive first]) (simp_all add: request)
qed

lemma writer_runs:
  assumes "writers_ok l t"
  shows "map xw_run (dvals (xm_writers t)) = map fst (xm_writers t)"
proof -
  have "xw_run w = r" if "(r, w) \<in> set (xm_writers t)" for r w
    using assms that dget_iff [of "xm_writers t" r w] by (simp add: writers_ok_def)
  then show ?thesis by auto
qed

text \<open>
  C37. What is committed is read back: a read of an existing generation returns the validated
  events with numbers above the cursor, up to the requested prefix, from the lowest one on and at most
  as many as asked for. The backend's page passes every check of the store, so the read never
  raises.
\<close>

theorem committed_events_are_read:
  assumes "trace_init h l b0" and "(trace_step h l)\<^sup>*\<^sup>* b0 b" and "exact_thread key b = Inr t"
    and "0 \<le> after" and "0 \<le> as_of" and "1 \<le> limit"
  shows "read_events h now key after as_of limit b =
    (Inr (map xr_event (take (nat limit) (filter (\<lambda>r. after < xr_seq r \<and> xr_seq r \<le> as_of) (xm_events t)))), b)"
proof -
  note inv = trace_reachable [OF assms(1,2)]
  have t: "dget (xb_threads b) (key_thread key) = Some t" "xt_key (xm_state t) = key"
    using assms(3) by (auto simp: exact_thread_def split: option.splits if_splits)
  have log: "trace_log_ok h l t" and ws: "writers_ok l t"
    using trace_inv_at(1) [OF inv t(1)] by (simp_all add: thread_ok_def)
  let ?request = "\<lparr>xj_key = key, xj_direction = FORWARD, xj_limit = limit, xj_after = Some after, xj_as_of = Some as_of, xj_before = None\<rparr>"
  let ?rs = "take (nat limit) (filter (\<lambda>r. after < xr_seq r \<and> xr_seq r \<le> as_of) (xm_events t))"
  note page = page_forward [OF log assms(4,6) refl, of key as_of]
  have rec: "valid_record key r \<and> xr_payload r \<noteq> [] \<and> xr_digest r = xh_digest h (xr_payload r)" if "r \<in> set ?rs" for r
  proof -
    have "r \<in> set (xm_events t)" using that by (meson filter_is_subset in_set_takeD subsetD)
    then show ?thesis using log t(2) by (auto simp: trace_log_ok_def record_sound_def in_set_conv_nth)
  qed
  let ?active = "sort (map xw_run (filter (\<lambda>w. xw_active w \<and> now < xw_lease w) (dvals (xm_writers t))))"
  have "distinct (map xw_run (dvals (xm_writers t)))" unfolding writer_runs [OF ws] using ws by (simp add: writers_ok_def wf_dict_def)
  then have active: "distinct ?active" by (simp add: distinct_map_filter)
  have names: "r \<noteq> [] \<and> r = py_strip r" if "r \<in> set ?active" for r
  proof -
    from that have "r \<in> set (map xw_run (dvals (xm_writers t)))" by auto
    then have "r \<in> set (map fst (xm_writers t))" by (simp only: writer_runs [OF ws])
    then obtain w where "dget (xm_writers t) r = Some w" by (metis map_of_eq_None_iff not_None_eq set_map)
    then have "canonical_identifier 1024 r" using ws by (simp add: writers_ok_def)
    then show ?thesis by (simp add: canonical_identifier_def)
  qed
  have "\<not> list_ex (\<lambda>run_id. run_id = [] \<or> run_id \<noteq> py_strip run_id) ?active"
    using names unfolding list_ex_iff by blast
  moreover have "int (length ?rs) \<le> limit" using assms(6) by simp
  ultimately have "decode_event_page h ?request \<lparr>xa_key = key, xa_tail = xt_next (xm_state t) - 1, xa_events = ?rs, xa_active = ?active,
      xa_observed_at = now, xa_remaining = least_remaining now t\<rparr> = Inr (map xr_event ?rs)"
    using decode_records_sound [of ?rs key h] rec active page
    by (simp add: decode_event_page_def protocol_error_def require_def)
  then show ?thesis
    using assms(3-6) page(1)
    by (simp add: read_events_def read_event_page_def Let_def seq_def bind_def check_def try_gets_def lift_def ret_def)
qed

theorem committed_events_are_read_witness:
  "read_events trace_sample_host 0 trace_sample_key 1 9 5 trc_ended = (Inr [sample_event PH_TERMINAL 2], trc_ended)"
proof -
  have "exact_thread trace_sample_key trc_ended = Inr ended_thread" using trc_ended_at(1,2) by (simp add: exact_thread_def)
  moreover have "take 5 (filter (\<lambda>r. 1 < xr_seq r \<and> xr_seq r \<le> 9) (xm_events ended_thread)) = [sample_record PH_TERMINAL 2]"
    by (simp add: ended_thread_def sample_record_def sample_event_def)
  ultimately show ?thesis
    using committed_events_are_read [OF trc_init trc_steps(3), of trace_sample_key ended_thread 1 9 5 0] by (simp add: sample_record_def)
qed

section \<open>Results and failures\<close>

lemma open_result_valid:
  assumes inv: "trace_inv h (xg_limits change) b" and i: "xg_identity change = Some i" and target: "tid = id_thread i" "r = Some (id_run i)"
    and eff: "resolve_open_writer generation change (backend_state now (xg_namespace change) tid r c a b) = Inr effect"
  shows "validate_open_result change (xx_result effect)"
proof -
  let ?state = "backend_state now (xg_namespace change) tid r c a b"
  from eff i obtain token head created where e: "xg_token change = Some token" "opened_thread generation change ?state i = Inr (head, created)"
    "xs_target ?state = None \<longrightarrow> xx_result effect = open_result (xt_key head) i token 1"
    "\<forall>w. xs_target ?state = Some w \<longrightarrow> reopen_writer change ?state i token (xt_key head) w = Inr effect"
    by (cases "xs_target ?state"; cases "xg_token change") (auto simp: resolve_open_writer_def attempt_Inr require_Inr plain_effect_def)
  have "key_thread (xt_key head) = (xg_namespace change, id_thread i)"
  proof (cases "xs_thread ?state")
    case None
    then show ?thesis using e(2) by (auto simp: opened_thread_def require_Inr key_thread_def)
  next
    case (Some u)
    then obtain t where "dget (xb_threads b) (xg_namespace change, tid) = Some t" "xm_state t = u" by (rule state_thread)
    then have "key_thread (xt_key u) = (xg_namespace change, tid)" using key_at [OF inv] by blast
    then show ?thesis using e(2) Some target(1) by (simp add: opened_thread_def require_Inr)
  qed
  moreover have "\<exists>fence \<ge> 1. xx_result effect = open_result (xt_key head) i token fence"
  proof (cases "xs_target ?state")
    case None
    then show ?thesis using e(3) by auto
  next
    case (Some w)
    then obtain t run_id where "dget (xb_threads b) (xg_namespace change, tid) = Some t" "dget (xm_writers t) run_id = Some w"
      by (rule state_target)
    then have "1 \<le> xw_fence w" using writer_at(1) [OF inv] by (simp add: writer_ok_def)
    moreover have "xx_result effect = open_result (xt_key head) i token (xw_fence w) \<or>
        xx_result effect = open_result (xt_key head) i token (xw_fence w + 1)"
      using e(4) Some by (auto simp: reopen_writer_def plain_effect_def split: if_splits)
    moreover have "1 \<le> xw_fence w + 1" using calculation(1) by simp
    ultimately show ?thesis by blast
  qed
  ultimately show ?thesis
    using i e(1) by (auto simp: validate_open_result_def open_result_def plain_result_def key_thread_def)
qed

lemma owned_named:
  "owned_writer change state unexpired = Inr (head, w) \<Longrightarrow> xg_key change = Some (xt_key head) \<and> xg_run change = Some (xw_run w)"
  by (auto simp: owned_writer_def require_exact_thread_def attempt_Inr split: option.splits if_splits)

lemma renew_result_named:
  assumes "resolve_renew_writer change state = Inr effect"
  shows "xo_key (xx_result effect) = xg_key change \<and> xo_run (xx_result effect) = xg_run change"
proof -
  from assms obtain head w unexpired where "owned_writer change state unexpired = Inr (head, w)"
    "xx_result effect = (plain_result RENEW_WRITER)\<lparr>xo_key := Some (xt_key head), xo_run := Some (xw_run w)\<rparr>"
    by (auto simp: resolve_renew_writer_def attempt_Inr plain_effect_def)
  then show ?thesis using owned_named by fastforce
qed

lemma close_result_named:
  assumes "resolve_close_writer change state = Inr effect"
  shows "xo_key (xx_result effect) = xg_key change \<and> xo_run (xx_result effect) = xg_run change"
proof -
  obtain key run_id where k: "xg_key change = Some key" "xg_run change = Some run_id"
    using assms by (auto simp: resolve_close_writer_def split: option.splits)
  let ?result = "(plain_result CLOSE_WRITER)\<lparr>xo_key := Some key, xo_run := Some run_id\<rparr>"
  have "xx_result (close_effect ?result run_id state head w) = ?result" for head w
    by (simp add: close_effect_def plain_effect_def Let_def)
  then have "xx_result effect = ?result"
    using assms k by (auto simp: resolve_close_writer_def plain_effect_def Let_def split: option.splits if_splits)
  then show ?thesis using k by simp
qed

lemma delete_result_named:
  "resolve_delete_generation change state = Inr effect \<Longrightarrow> xo_key (xx_result effect) = xg_key change"
  by (auto simp: resolve_delete_generation_def attempt_Inr plain_effect_def split: option.splits if_splits)

lemma append_result_valid:
  assumes inv: "trace_inv h (xg_limits change) b" and plain: "xg_proven change = []"
    and eff: "resolve_append_events h reduce change (backend_state now (xg_namespace change) tid r c a b) = Inr effect"
  shows "xo_key (xx_result effect) = xg_key change" "xo_run (xx_result effect) = xg_run change"
    "validate_append_result h change (xx_result effect)"
proof -
  let ?state = "backend_state now (xg_namespace change) tid r c a b"
  from eff plain obtain head w w' events where e: "owned_writer change ?state (xg_enforce change) = Inr (head, w)"
    "number_facts h (xg_limits change) (xt_key head) (xw_run w) (xt_next head) (xg_facts change) = Inr events"
    "effect = append_effect change head w w' events"
    by (auto simp: resolve_append_events_def attempt_Inr require_Inr split: if_splits prod.splits)
  from e(1) have key: "xg_key change = Some (xt_key head)" "xg_run change = Some (xw_run w)"
    by (simp_all add: owned_named)
  have result: "xx_result effect = (plain_result APPEND_EVENTS)\<lparr>xo_key := Some (xt_key head), xo_run := Some (xw_run w), xo_events := events\<rparr>"
    by (simp add: e(3) append_effect_def plain_effect_def)
  show "xo_key (xx_result effect) = xg_key change" "xo_run (xx_result effect) = xg_run change"
    using key by (simp_all add: result)
  note numbered = number_facts_Inr [OF e(2)]
  have "list_all2 (\<lambda>event draft. make_event h (xd_id draft) (xe_seq event) (xk_generation (xt_key head)) (xd_fact draft) = Inr event)
      events (xg_facts change)"
    using conjunct1 [OF numbered] by (rule list_all2_mono) simp
  moreover have "map xe_id events = map xd_id (xg_facts change)"
    using conjunct1 [OF numbered] by (auto simp: list_all2_conv_all_nth intro: nth_equalityI)
  moreover have "length events = length (xg_facts change)" using conjunct1 [OF numbered] by (rule list_all2_lengthD)
  moreover have "consecutive (map xe_seq events)"
    using conjunct2 [OF numbered] by (auto simp: consecutive_def list_all_length nth_tl)
  ultimately show "validate_append_result h change (xx_result effect)"
    using key plain by (simp add: validate_append_result_def result)
qed

text \<open>
  C39. The store accepts every result of its backend: whatever change is committed in a
  reachable state, the result names the thread, run, writer, events and checkpoint that the store
  expects, so the checks of \<open>_validate_commit_result\<close> never fail.
\<close>

theorem commit_results_accepted:
  assumes "trace_init h (xg_limits change) b0" and "(trace_step h (xg_limits change))\<^sup>*\<^sup>* b0 b"
    and "xg_proven change = []" and "xg_kind change = OPEN_WRITER \<longleftrightarrow> xg_identity change \<noteq> None"
    and "commit_ledger_change h world change b = (Inr result, b')"
  shows "validate_commit_result h change result"
proof -
  note inv = trace_reachable [OF assms(1,2)]
  obtain tid r effect where target: "change_target change = Inr (tid, r)" and result: "result = xx_result effect"
    and eff: "resolve_ledger_change h (xh_generation h (xb_generations b)) (xn_reduce world) change
      (backend_state (xn_now world) (xg_namespace change) tid r (map_option (\<lambda>c. (xp_projection c, xp_run c)) (xg_checkpoint change))
        (xg_kind change = DELETE_GENERATION) b) = Inr effect" (is "resolve_ledger_change _ _ _ _ ?state = _")
    using accepted_effect [OF assms(5)] by blast
  have scope: "validate_change_scope change ?state = None" using eff by (simp add: resolve_ledger_change_def require_Inr)
  show ?thesis
  proof (cases "xg_kind change")
    case OPEN_WRITER
    then obtain i where i: "xg_identity change = Some i" using assms(4) by auto
    have named: "tid = id_thread i" "r = Some (id_run i)" using target i by (simp_all add: change_target_def)
    have "resolve_open_writer (xh_generation h (xb_generations b)) change ?state = Inr effect"
      using eff OPEN_WRITER by (simp add: resolve_ledger_change_def require_Inr)
    then have "validate_open_result change (xx_result effect)" by (rule open_result_valid [OF inv i named])
    then show ?thesis using OPEN_WRITER result by (simp add: validate_commit_result_def)
  next
    case APPEND_EVENTS
    then have "resolve_append_events h (xn_reduce world) change ?state = Inr effect"
      using eff by (simp add: resolve_ledger_change_def require_Inr)
    from append_result_valid [OF inv assms(3) this] show ?thesis
      using APPEND_EVENTS result by (simp add: validate_commit_result_def)
  next
    case RENEW_WRITER
    then have "resolve_renew_writer change ?state = Inr effect" using eff by (simp add: resolve_ledger_change_def require_Inr)
    from renew_result_named [OF this] show ?thesis using RENEW_WRITER result by (simp add: validate_commit_result_def)
  next
    case CLOSE_WRITER
    then have "resolve_close_writer change ?state = Inr effect" using eff by (simp add: resolve_ledger_change_def require_Inr)
    from close_result_named [OF this] show ?thesis using CLOSE_WRITER result by (simp add: validate_commit_result_def)
  next
    case SAVE_CHECKPOINT
    then have none: "xg_identity change = None" using assms(4) by auto
    then obtain key where key: "xg_key change = Some key" using target by (auto simp: change_target_def split: option.splits)
    have "resolve_save_checkpoint change ?state = Inr effect" using eff SAVE_CHECKPOINT by (simp add: resolve_ledger_change_def require_Inr)
    then obtain c stored where c: "xg_checkpoint change = Some c" "effect = checkpoint_effect c stored"
      by (auto simp: resolve_save_checkpoint_def attempt_Inr require_Inr Let_def split: option.splits if_splits)
    then have "xp_key c = key" using scope key by (simp add: validate_change_scope_def Let_def protocol_error_def split: if_splits)
    then show ?thesis
      using SAVE_CHECKPOINT result c key by (simp add: validate_commit_result_def checkpoint_effect_def plain_effect_def plain_result_def)
  next
    case DELETE_GENERATION
    then have "resolve_delete_generation change ?state = Inr effect" using eff by (simp add: resolve_ledger_change_def require_Inr)
    from delete_result_named [OF this] show ?thesis using DELETE_GENERATION result by (simp add: validate_commit_result_def)
  qed
qed

theorem commit_results_accepted_witness:
  "\<exists>result. fst (commit_ledger_change trace_sample_host (calm 0) (trace_append_change PH_TERMINAL) trc_started) = Inr result \<and>
     validate_commit_result trace_sample_host (trace_append_change PH_TERMINAL) result"
proof -
  let ?run = "commit_ledger_change trace_sample_host (calm 0) (trace_append_change PH_TERMINAL) trc_started"
  have "case fst ?run of Inr _ \<Rightarrow> True | Inl _ \<Rightarrow> False" by code_simp
  then obtain result where result: "fst ?run = Inr result" by (cases "fst ?run") simp_all
  then have run: "?run = (Inr result, snd ?run)" by (subst prod.collapse [symmetric]) (simp only:)
  have identity: "xg_kind (trace_append_change PH_TERMINAL) = OPEN_WRITER \<longleftrightarrow> xg_identity (trace_append_change PH_TERMINAL) \<noteq> None"
    by (simp add: trace_append_change_def sample_change_def)
  have "validate_commit_result trace_sample_host (trace_append_change PH_TERMINAL) result"
    by (rule commit_results_accepted [OF _ _ trace_append_change_fields(2) identity run, of new_trace_backend])
      (simp_all only: sample_limits_eq trc_init trc_steps(2))
  then show ?thesis using result by blast
qed

text \<open>
  A commit is not atomic when the graph index refuses the batch: the exception is raised after the
  events, the head and the writer were stored, so the caller sees a failure and a retry finds the
  events committed.
\<close>

lemma failed_index_keeps_batch:
  "case commit_ledger_change trace_sample_host \<lparr>xn_now = 0, xn_reduce = None, xn_apply = Some e\<rparr> (trace_append_change PH_STARTED) trc_opened of
     (out, b) \<Rightarrow> out = Inl e \<and> xb_threads b = xb_threads trc_started"
proof -
  have "xn_apply \<lparr>xn_now = 0, xn_reduce = None, xn_apply = Some e\<rparr> = Some e" by simp
  then show ?thesis by code_simp
qed

end
