(* ===== verification/Spec2Isabelle.thy ===== *)
theory Spec2Isabelle
  imports Aut_Schedules_Props Aut_Memory_Props Msg_Signature Msg_Expiry_Props Msg_Read_Props Msg_Append_Props Sbx_Drain_Props Trc_Props
begin

text \<open>
  A verification library for the Python packages of the tinkerfin harness.

  The program. Hosts schedule tasks that run an agent, the runs publish messages to their
  threads, and clients read those messages. The automation package decides when a task is due,
  stores tasks and executions, and hands work to workers under fenced claims. The messaging
  package keeps the ordered message log of each thread, decides which producer may write to it,
  and retires logs that were deleted or expired. The sandbox package decides which owner holds
  which remote sandbox, keeps a pool of warm ones, and drains a sandbox before it is paused. The tracing package keeps,
  for each thread, the log of what its runs did, within limits that leave every run room to
  record its end.

  The library. \<open>Prelude\<close> holds dictionaries with insertion order, strings and the locales of
  systems with an invariant and of fenced resources; \<open>State_Error\<close> the operations that change
  a state and may raise, with their weakest preconditions; \<open>Py_Strings\<close>, \<open>Py_Bytes\<close> and \<open>Py_Time\<close> what
  the code uses of Python's strings, bytes and calendar; \<open>Contracts\<close> the run
  identities of \<open>tinkerfin_contracts\<close> that the packages share.

  Automation (\<open>tinkerfin_automation\<close>). \<open>Aut_Schedules\<close> and \<open>Aut_Policies\<close> model
  \<open>schedules.py\<close> and \<open>policies.py\<close>; \<open>Aut_Models\<close> the value objects of \<open>models.py\<close>,
  \<open>queries.py\<close>, \<open>_json.py\<close> and \<open>store.py\<close>; \<open>Aut_Rules\<close> the transitions of
  \<open>_rules.py\<close>; \<open>Aut_Memory\<close> the store of \<open>memory.py\<close> with its notifications and cursors.
  \<open>Aut_Memory_Inv\<close>, \<open>Aut_Memory_Sound\<close>, \<open>Aut_Memory_Work\<close> and \<open>Aut_Memory_Steps\<close>
  prove the store's invariant over every operation; \<open>Aut_Schedules_Props\<close> and
  \<open>Aut_Memory_Props\<close> state what schedules and whole runs of the store promise. The steps of the
  store are \<open>mem_call\<close>, one constructor per operation; two of them assume what callers construct
  and the store does not check: an enqueued execution has not started, and the executions of a
  materialized batch are queued with distinct identifiers that are not yet in use, as the
  service derives them. A sum of an instant and a duration raises \<open>OverflowError\<close> outside the
  range of \<open>datetime\<close> in claiming, renewing and authorizing (\<open>plus_time\<close>); the calendar searches of
  schedules, and the leases of trace writers, which are computed before anything is stored, use
  unbounded instants.

  Messaging (\<open>tinkerfin_messaging\<close>). \<open>Msg_Models\<close> models errors, identifiers, limits,
  envelopes and the records of the backend contract; \<open>Msg_Transition\<close> every function of
  \<open>_messaging_transition.py\<close>, from a snapshot to an effect or an exception, and
  \<open>Msg_Transition_Cases\<close> what each can return; \<open>Msg_Expiry\<close> the deadline index of
  \<open>_capacity.py\<close>; \<open>Msg_Memory\<close> the \<open>MemoryBackend\<close> of \<open>memory.py\<close>: its state as
  records, snapshots, effects, reading, purging, expiry, and the five operations.
  \<open>Msg_Memory_Inv\<close> defines the backend's invariant (exact counters, gapless logs, one live run,
  tombstones of every earlier generation), \<open>Msg_Memory_Sound\<close> its consequences,
  \<open>Msg_Memory_Fits\<close> which effects a backend accepts, \<open>Msg_Memory_Commit\<close> that every
  resolved transition is one of them, \<open>Msg_Memory_Steps\<close> the step relation and its invariant,
  \<open>Msg_Memory_Outcome\<close> what each commit leaves. \<open>Msg_Signature\<close>, \<open>Msg_Expiry_Props\<close>,
  \<open>Msg_Read_Props\<close>, \<open>Msg_Memory_Props\<close> and \<open>Msg_Append_Props\<close> state the properties; \<open>Msg_Memory_Sample\<close> is
  the concrete run that their witnesses use.

  Sandboxes (\<open>tinkerfin_sandbox/lifecycle\<close>). \<open>Sbx_State\<close> models \<open>InMemoryOpenSandboxState\<close> of
  \<open>state.py\<close> with \<open>availability.py\<close> and \<open>_purpose.py\<close>; \<open>Sbx_Boundary\<close> the calls of the state
  protocol and the boundary that forwards them; \<open>Sbx_Inv\<close> its invariant and the fence of
  claims, \<open>Sbx_Steps\<close> that every call keeps them, \<open>Sbx_Props\<close> and \<open>Sbx_Drain_Props\<close> the
  properties: exclusive claims, no forgotten sandbox, the hand-over of warm sandboxes, the
  refinement of an abstract machine per owner and the drain before a pause. The machine
  (\<open>owner_spec\<close>) makes steps labelled with a call and its outcome; every run of the state is, under
  the same labels, a run of the machine of each owner. That a pause waits for the acknowledgements
  of its own drain needs that no claim moves an owner between two sandboxes (\<open>steady_step\<close>);
  \<open>stale_acknowledgement_counts\<close> shows what happens otherwise. Acquiring an owner and reading its
  binding wait for the owner's lock; a call that has to wait replies \<open>Waiting\<close>, and going on is
  a call of its own, possible at any later time, so the order in which waiting callers get
  the lock is left open.

  Tracing (\<open>tinkerfin_tracing\<close>). \<open>Trc_Ledger\<close> models \<open>_ledger.py\<close>, the reducer of every
  ledger change, with the values of \<open>backend.py\<close>, \<open>store.py\<close>, \<open>limits.py\<close> and the parts of
  \<open>facts.py\<close> it looks at; \<open>Trc_Memory\<close> the in-memory backend of \<open>durable_store.py\<close> and the
  checks that the durable store makes of its replies. \<open>Trc_Inv\<close> defines the backend's
  invariant (gapless logs, exact sizes and counts, reserves within the limits) and what no change
  takes back, \<open>Trc_Steps\<close>, \<open>Trc_Commit\<close> and \<open>Trc_Runs\<close> prove both for every change, and
  \<open>Trc_Props\<close> states the properties. Facts are opaque but for the fields the ledger looks at.
  Two derived computations are verdicts of the environment: whether the changes of the graph index
  can be computed for a batch, and whether the index accepts them; the second is asked after the
  batch is stored, as in the code. \<open>trace_host\<close> has the length of an event as JSON, at least one, the
  payload digest and the values of \<open>uuid4\<close>, pairwise different. A size is
  searched in four attempts, as in the code, which is proved to be enough.

  Conventions. Instants and durations are whole microseconds, strings are lists of code
  points 0 to 255, an exception is a value of \<open>aut_error\<close>, \<open>msg_error\<close>, \<open>sandbox_error\<close> or \<open>trace_error\<close>. Type tests of
  the source hold by typing. An operation that holds its lock or has no \<open>await\<close> is one atomic
  step. Deadlines that the messaging backend computes with floating-point seconds are computed
  exactly. The tracing backend draws the identifier a new thread would take at the start of every
  commit; one that is not taken is skipped. Clocks, identifier sources and digests are parameters: \<open>sandbox_host\<close> has SHA-256 and the
  values of \<open>uuid4\<close>, which \<open>sandbox_init\<close> takes to be pairwise different; \<open>msg_host\<close> has the successive
  readings of the monotonic and the UTC clock, SHA-256 and the key of a thread, and
  \<open>msg_host_ok\<close> states that thread keys of different threads differ.

  Termination. All recursions are structural or have a measure. \<open>reclaim_loop\<close> makes at
  most 64 rounds because the source does. Cron searches have a calendar bound that is proved
  to suffice; \<open>read_all\<close> and \<open>purge_rounds\<close> are clients that repeat a call, and the number of
  calls that is enough is part of their properties.

  Not modelled. The SQL and Redis stores, HTTP adapters, the agent runtime, the sandbox manager,
  native sandbox backends, gateways and the capture of traces are I/O over services and
  frameworks that are not part of the repository; the graph index, the projections and the
  views of traces are derived from the log and not modelled.
  \<open>wait_for_messaging_change\<close> is its expiry step and its
  decision to wait; the suspension on the condition variable changes no state.
\<close>

end
